(* ===== verification/Prelude.thy ===== *)
theory Prelude
  imports Main "HOL-Library.Word"
begin

text \<open>
  Shared vocabulary of the development.

  Byte strings (\<open>std::string\<close>, \<open>StringView\<close>, \<open>sds\<close> contents, wire data) are HOL strings:
  a \<open>char\<close> of HOL is one of 256 values, exactly a byte.  C integers are mathematical integers
  with the wrap-around written out (\<open>int32\<close>, \<open>size_t_of\<close>), or words where bits are used.
  A computation that can throw, abort or fault is a value of the sum type: \<open>Inl\<close> the error,
  \<open>Inr\<close> the result; \<open>rbind\<close> sequences two of them.

  The collections: \<open>wire_simps\<close> evaluates the request builders of the redis client,
  \<open>reply_simps\<close> the reply parsers, \<open>co_defs\<close> the operations of the coroutine pool.
\<close>

named_theorems wire_simps \<open>equations that evaluate request builders\<close>
named_theorems reply_simps \<open>equations that evaluate reply parsers\<close>
named_theorems co_defs \<open>definitions of the coroutine layer\<close>

type_synonym bytes = string
type_synonym u32 = "32 word"
type_synonym u64 = "64 word"

abbreviation nul :: char where "nul \<equiv> CHR 0x00"
abbreviation cr :: char where "cr \<equiv> CHR 0x0D"
abbreviation lf :: char where "lf \<equiv> CHR 0x0A"
abbreviation crlf :: bytes where "crlf \<equiv> [cr, lf]"

subsection \<open>Computations that may fail\<close>

fun rbind :: "'e + 'a \<Rightarrow> ('a \<Rightarrow> 'e + 'b) \<Rightarrow> 'e + 'b" where
  "rbind (Inl e) f = Inl e"
| "rbind (Inr x) f = f x"

lemma rbind_Inr_iff: "rbind m f = Inr y \<longleftrightarrow> (\<exists>x. m = Inr x \<and> f x = Inr y)"
  by (cases m) auto

lemma rbind_pairE:
  assumes "rbind m (\<lambda>(x, y). f x y) = Inr r"
  obtains x y where "m = Inr (x, y)" "f x y = Inr r"
  using assms by (cases m) auto

lemma rbind_Inl_iff: "rbind m f = Inl e \<longleftrightarrow> m = Inl e \<or> (\<exists>x. m = Inr x \<and> f x = Inl e)"
  by (cases m) auto

lemma rbind_assoc: "rbind (rbind m f) g = rbind m (\<lambda>x. rbind (f x) g)"
  by (cases m) auto

lemma rbind_Inr_right [simp]: "rbind m Inr = m"
  by (cases m) auto

subsection \<open>Lists\<close>

lemma nth_update: "xs[i := x] ! j = (if i = j \<and> j < length xs then x else xs ! j)"
  by (cases "i < length xs") (auto simp: nth_list_update list_update_beyond)

subsection \<open>Machine integers\<close>

definition int32 :: "int \<Rightarrow> int" where
  "int32 x = (x + 2 ^ 31) mod 2 ^ 32 - 2 ^ 31"

definition int64 :: "int \<Rightarrow> int" where
  "int64 x = (x + 2 ^ 63) mod 2 ^ 64 - 2 ^ 63"

definition size_t_of :: "nat \<Rightarrow> nat" where
  "size_t_of n = n mod 2 ^ 64"

lemma int32_id: "- (2 ^ 31) \<le> x \<Longrightarrow> x < 2 ^ 31 \<Longrightarrow> int32 x = x"
  by (simp add: int32_def)

lemma int64_id: "- (2 ^ 63) \<le> x \<Longrightarrow> x < 2 ^ 63 \<Longrightarrow> int64 x = x"
  by (simp add: int64_def)

lemma int32_range: "- (2 ^ 31) \<le> int32 x \<and> int32 x < 2 ^ 31"
  by (simp add: int32_def)

lemma size_t_of_id [simp]: "n < 2 ^ 64 \<Longrightarrow> size_t_of n = n"
  by (simp add: size_t_of_def)

subsection \<open>Decimal numerals\<close>

definition digit_char :: "nat \<Rightarrow> char" where
  "digit_char d = char_of (48 + d)"

definition digit_val :: "char \<Rightarrow> nat" where
  "digit_val c = of_char c - 48"

definition is_digit :: "char \<Rightarrow> bool" where
  "is_digit c \<longleftrightarrow> 48 \<le> (of_char c :: nat) \<and> (of_char c :: nat) \<le> 57"

fun dec_nat :: "nat \<Rightarrow> bytes" where
  "dec_nat n = (if n < 10 then [digit_char n] else dec_nat (n div 10) @ [digit_char (n mod 10)])"

declare dec_nat.simps [simp del]

definition dec_int :: "int \<Rightarrow> bytes" where
  "dec_int i = (if i < 0 then CHR ''-'' # dec_nat (nat (- i)) else dec_nat (nat i))"

definition undec :: "bytes \<Rightarrow> nat" where
  "undec ds = foldl (\<lambda>n c. 10 * n + digit_val c) 0 ds"

lemma digit_val_char [simp]: "d < 10 \<Longrightarrow> digit_val (digit_char d) = d"
  by (simp add: digit_val_def digit_char_def)

lemma is_digit_char [simp]: "d < 10 \<Longrightarrow> is_digit (digit_char d)"
  by (simp add: is_digit_def digit_char_def)

lemma dec_nat_small: "n < 10 \<Longrightarrow> dec_nat n = [digit_char n]"
  by (simp add: dec_nat.simps)

lemma dec_nat_step: "10 \<le> n \<Longrightarrow> dec_nat n = dec_nat (n div 10) @ [digit_char (n mod 10)]"
  by (subst dec_nat.simps) simp

lemma dec_nat_not_Nil [simp]: "dec_nat n \<noteq> []"
  by (subst dec_nat.simps) simp

lemma dec_nat_digits: "c \<in> set (dec_nat n) \<Longrightarrow> is_digit c"
proof (induction n rule: dec_nat.induct)
  case (1 n)
  then show ?case
    by (cases "n < 10") (auto simp: dec_nat_small dec_nat_step)
qed

lemma undec_append: "undec (ds @ [c]) = 10 * undec ds + digit_val c"
  by (simp add: undec_def)

lemma undec_dec_nat [simp]: "undec (dec_nat n) = n"
proof (induction n rule: dec_nat.induct)
  case (1 n)
  show ?case
  proof (cases "n < 10")
    case True
    then show ?thesis by (simp add: dec_nat_small undec_def)
  next
    case False
    with 1 show ?thesis by (simp add: dec_nat_step undec_append)
  qed
qed

lemma dec_nat_inj: "dec_nat m = dec_nat n \<Longrightarrow> m = n"
  by (metis undec_dec_nat)

lemma length_dec_nat_pos: "0 < length (dec_nat n)"
  by simp

lemma length_dec_nat_step: "10 \<le> n \<Longrightarrow> length (dec_nat n) = Suc (length (dec_nat (n div 10)))"
  by (simp add: dec_nat_step)

lemma is_digit_not_special: "is_digit c \<Longrightarrow> c \<noteq> nul \<and> c \<noteq> cr \<and> c \<noteq> lf \<and> c \<noteq> CHR ''-''"
  by (auto simp: is_digit_def)

lemma dec_nat_no_cr: "cr \<notin> set (dec_nat n)"
  using dec_nat_digits is_digit_not_special by blast

lemma dec_nat_no_nul: "nul \<notin> set (dec_nat n)"
  using dec_nat_digits is_digit_not_special by blast

lemma dec_int_no_nul: "nul \<notin> set (dec_int i)"
  using dec_nat_no_nul by (auto simp: dec_int_def)

lemma dec_int_not_Nil [simp]: "dec_int i \<noteq> []"
  by (simp add: dec_int_def)

lemma dec_int_inj: "dec_int i = dec_int j \<Longrightarrow> i = j"
proof -
  assume eq: "dec_int i = dec_int j"
  have hd: "hd (dec_nat n) \<noteq> CHR ''-''" for n
    using dec_nat_digits [of "hd (dec_nat n)" n] is_digit_not_special by (metis dec_nat_not_Nil list.set_sel(1))
  show "i = j"
  proof (cases "i < 0"; cases "j < 0")
    assume "i < 0" "j < 0"
    with eq have "nat (- i) = nat (- j)" by (simp add: dec_int_def dec_nat_inj)
    with \<open>i < 0\<close> \<open>j < 0\<close> show ?thesis by simp
  next
    assume "\<not> i < 0" "\<not> j < 0"
    with eq have "nat i = nat j" by (simp add: dec_int_def dec_nat_inj)
    with \<open>\<not> i < 0\<close> \<open>\<not> j < 0\<close> show ?thesis by simp
  next
    assume "i < 0" "\<not> j < 0"
    with eq hd [of "nat j"] show ?thesis by (auto simp: dec_int_def simp flip: eq dest: arg_cong [of _ _ hd])
  next
    assume "\<not> i < 0" "j < 0"
    with eq hd [of "nat i"] show ?thesis by (auto simp: dec_int_def dest: arg_cong [of _ _ hd])
  qed
qed

subsection \<open>IEEE doubles and their \<open>%f\<close> text\<close>

text \<open>
  A double is a sign with a value \<open>m * 2 ^ e\<close>, an infinity or a NaN.  \<open>fmt_f\<close> is the text
  \<open>printf("%f")\<close> and \<open>std::to_string(double)\<close> produce: the exact value rounded to six decimals,
  ties to even, as glibc rounds in the default mode.
\<close>

datatype cdouble = DFin bool nat int | DInf bool | DNaN bool

definition round_half_even :: "nat \<Rightarrow> nat \<Rightarrow> nat" where
  "round_half_even num den =
     (let q = num div den; r = num mod den
      in if 2 * r < den then q else if den < 2 * r then q + 1 else if even q then q else q + 1)"

definition pad6 :: "nat \<Rightarrow> bytes" where
  "pad6 n = replicate (6 - length (dec_nat n)) CHR ''0'' @ dec_nat n"

definition sign_text :: "bool \<Rightarrow> bytes" where
  "sign_text neg = (if neg then ''-'' else '''')"

fun fmt_f :: "cdouble \<Rightarrow> bytes" where
  "fmt_f (DFin neg m e) =
     (let n = (if 0 \<le> e then m * 2 ^ nat e * 1000000
               else round_half_even (m * 1000000) (2 ^ nat (- e)))
      in sign_text neg @ dec_nat (n div 1000000) @ ''.'' @ pad6 (n mod 1000000))"
| "fmt_f (DInf neg) = sign_text neg @ ''inf''"
| "fmt_f (DNaN neg) = sign_text neg @ ''nan''"

lemma round_half_even_error:
  assumes "0 < den"
  shows "2 * (round_half_even num den * den) \<le> 2 * num + den \<and> 2 * num \<le> 2 * (round_half_even num den * den) + den"
proof -
  let ?q = "num div den" and ?r = "num mod den"
  have num: "num = ?q * den + ?r" by simp
  have r: "?r < den" using assms by simp
  have "round_half_even num den = ?q \<and> 2 * ?r \<le> den \<or> round_half_even num den = ?q + 1 \<and> den \<le> 2 * ?r"
    by (auto simp: round_half_even_def Let_def)
  then consider "round_half_even num den = ?q" "2 * ?r \<le> den" | "round_half_even num den = ?q + 1" "den \<le> 2 * ?r"
    by blast
  then show ?thesis
  proof cases
    case 1
    then have "2 * num = 2 * (round_half_even num den * den) + 2 * ?r" using num by (metis distrib_left)
    with 1 show ?thesis by linarith
  next
    case 2
    have "round_half_even num den * den = ?q * den + den" using 2 by simp
    with num r 2 show ?thesis by linarith
  qed
qed

lemma fmt_f_not_Nil [simp]: "fmt_f d \<noteq> []"
  by (cases d) (simp_all add: Let_def)

lemma pad6_no_nul: "nul \<notin> set (pad6 n)"
  using dec_nat_no_nul by (auto simp: pad6_def)

lemma fmt_f_no_nul: "nul \<notin> set (fmt_f d)"
  using dec_nat_no_nul pad6_no_nul by (cases d) (auto simp: Let_def sign_text_def)

end
