(* ===== verification/Errors.thy ===== *)
theory Errors
  imports Prelude
begin

text \<open>
  The exceptions of the redis client (\<open>errors.h\<close>) and the ways a call can fail.

  \<open>exn\<close> has one constructor per exception class of \<open>errors.h\<close>, carrying the message \<open>what()\<close>
  returns, and \<open>StdException\<close> for the \<open>std::exception\<close>s the code throws itself
  (\<open>std::runtime_error\<close>, \<open>std::logic_error\<close>) or that the conversions of the standard library
  throw.  \<open>exn_class\<close> and \<open>is_a\<close> are the class hierarchy, which decides what a handler catches.

  A \<open>fault\<close> is a failed call: an exception, a failed \<open>assert\<close>, or undefined behaviour (a read
  outside an object, a write outside an allocation, a null dereference).
\<close>

datatype exn =
    Error bytes
  | IoError bytes
  | TimeoutError bytes
  | ClosedError bytes
  | ProtoError bytes
  | OomError bytes
  | ReplyError bytes
  | WatchError
  | StdException bytes

datatype exn_class =
    StdC | ErrorC | IoErrorC | TimeoutErrorC | ClosedErrorC | ProtoErrorC | OomErrorC
  | ReplyErrorC | WatchErrorC

fun what :: "exn \<Rightarrow> bytes" where
  "what (Error m) = m"
| "what (IoError m) = m"
| "what (TimeoutError m) = m"
| "what (ClosedError m) = m"
| "what (ProtoError m) = m"
| "what (OomError m) = m"
| "what (ReplyError m) = m"
| "what WatchError = ''Watched key has been modified''"
| "what (StdException m) = m"

fun exn_class_of :: "exn \<Rightarrow> exn_class" where
  "exn_class_of (Error m) = ErrorC"
| "exn_class_of (IoError m) = IoErrorC"
| "exn_class_of (TimeoutError m) = TimeoutErrorC"
| "exn_class_of (ClosedError m) = ClosedErrorC"
| "exn_class_of (ProtoError m) = ProtoErrorC"
| "exn_class_of (OomError m) = OomErrorC"
| "exn_class_of (ReplyError m) = ReplyErrorC"
| "exn_class_of WatchError = WatchErrorC"
| "exn_class_of (StdException m) = StdC"

fun parent_class :: "exn_class \<Rightarrow> exn_class option" where
  "parent_class StdC = None"
| "parent_class ErrorC = Some StdC"
| "parent_class TimeoutErrorC = Some IoErrorC"
| "parent_class _ = Some ErrorC"

fun is_a_fuel :: "nat \<Rightarrow> exn_class \<Rightarrow> exn_class \<Rightarrow> bool" where
  "is_a_fuel 0 c d = (c = d)"
| "is_a_fuel (Suc n) c d =
     (c = d \<or> (case parent_class c of None \<Rightarrow> False | Some p \<Rightarrow> is_a_fuel n p d))"

text \<open>The hierarchy is three deep, so three steps reach its root.\<close>

definition is_a :: "exn \<Rightarrow> exn_class \<Rightarrow> bool" where
  "is_a e d = is_a_fuel 3 (exn_class_of e) d"

datatype fault = Throw exn | AssertFail | Undef

lemma is_a_std: "is_a e StdC"
  by (cases e) (simp_all add: is_a_def numeral_3_eq_3)

lemma is_a_Error_iff: "is_a e ErrorC \<longleftrightarrow> (\<forall>m. e \<noteq> StdException m)"
  by (cases e) (simp_all add: is_a_def numeral_3_eq_3)

end
