(* ===== verification/Connection.thy ===== *)
theory Connection
  imports Errors
begin

text \<open>
  \<open>Connection\<close> (\<open>commlib/redis/connection.h\<close>, \<open>connection.cpp\<close>): a command is either an argument
  vector or a printf-like format that \<open>redisvFormatCommand\<close> turns into a redis protocol message.

  The format walk is \<open>fmt_loop\<close>, over the characters from \<open>c\<close> to the terminating NUL, which is the end
  of the list: \<open>redisvFormatCommand\<close> cuts the format there, so the test for \<open>'\0'\<close> of the code is the test
  for the empty list.  It takes the variadic arguments not yet consumed and the local variables in \<open>fmt_st\<close>.
  Allocation is an oracle: \<open>ok k\<close> says whether the \<open>k\<close>-th allocating call of the run succeeds.
  \<open>libc\<close> stands for \<open>vsnprintf\<close> on the conversions that the code never asks for; the two it does
  ask for, \<open>%lld\<close> and \<open>%f\<close>, are defined.
\<close>

subsection \<open>Lengths\<close>

function countDigits_from :: "nat \<Rightarrow> nat \<Rightarrow> nat" where
  "countDigits_from result v =
     (if v < 10 then result
      else if v < 100 then result + 1
      else if v < 1000 then result + 2
      else if v < 10000 then result + 3
      else countDigits_from (result + 4) (v div 10000))"
  by pat_completeness auto
termination
  by (relation "measure snd") auto

declare countDigits_from.simps [simp del]

definition countDigits :: "nat \<Rightarrow> nat" where
  "countDigits v = countDigits_from 1 v"

definition bulklen :: "nat \<Rightarrow> nat" where
  "bulklen len = size_t_of (1 + countDigits len + 2 + len + 2)"

subsection \<open>Variadic arguments and one printf conversion\<close>

text \<open>\<open>APtr m\<close> is a \<open>char *\<close> at which the bytes \<open>m\<close> can be read.\<close>

datatype varg = APtr bytes | ASize nat | AInt int | ALong int | ALLong int | ADbl cdouble

definition c_strlen :: "bytes \<Rightarrow> nat option" where
  "c_strlen m = (if nul \<in> set m then Some (length (takeWhile (\<lambda>x. x \<noteq> nul) m)) else None)"

datatype conv_kind = KInt | KDbl | KLong | KLongLong

datatype conv = CValid conv_kind bytes | CEnd | CInvalid

definition intfmts :: bytes where "intfmts = ''diouxX''"

definition after_size :: "conv_kind \<Rightarrow> bytes \<Rightarrow> conv" where
  "after_size k p =
     (case p of [] \<Rightarrow> CInvalid
      | z # zs \<Rightarrow> if z \<in> set intfmts then CValid k zs else CInvalid)"

fun scan_conv :: "bytes \<Rightarrow> conv" where
  "scan_conv [] = CEnd"
| "scan_conv (x # xs) =
     (if x \<in> set intfmts then CValid KInt xs
      else if x \<in> set ''eEfFgGaA'' then CValid KDbl xs
      else if x = CHR ''h'' then
        (case xs of y # ys \<Rightarrow> if y = CHR ''h'' then after_size KInt ys else after_size KInt xs
         | [] \<Rightarrow> CInvalid)
      else if x = CHR ''l'' then
        (case xs of y # ys \<Rightarrow> if y = CHR ''l'' then after_size KLongLong ys else after_size KLong xs
         | [] \<Rightarrow> CInvalid)
      else CInvalid)"

definition skip_spec :: "bytes \<Rightarrow> bytes" where
  "skip_spec p0 =
     (let p1 = dropWhile (\<lambda>x. x \<in> set ''#0-+ '') p0;
          p2 = dropWhile is_digit p1
      in case p2 of y # ys \<Rightarrow> if y = CHR ''.'' then dropWhile is_digit ys else p2 | [] \<Rightarrow> p2)"

fun va_arg :: "conv_kind \<Rightarrow> varg list \<Rightarrow> (varg \<times> varg list) option" where
  "va_arg KInt (AInt i # ap) = Some (AInt i, ap)"
| "va_arg KDbl (ADbl d # ap) = Some (ADbl d, ap)"
| "va_arg KLong (ALong i # ap) = Some (ALong i, ap)"
| "va_arg KLongLong (ALLong i # ap) = Some (ALLong i, ap)"
| "va_arg _ _ = None"

definition c_vsnprintf :: "(bytes \<Rightarrow> varg \<Rightarrow> bytes) \<Rightarrow> bytes \<Rightarrow> varg \<Rightarrow> bytes" where
  "c_vsnprintf libc fmt a =
     (case a of
        ALLong i \<Rightarrow> if fmt = ''%lld'' then dec_int i else libc fmt a
      | ADbl d \<Rightarrow> if fmt = ''%f'' then fmt_f d else libc fmt a
      | _ \<Rightarrow> libc fmt a)"

subsection \<open>The walk over the format\<close>

record fmt_st =
  curarg :: bytes
  touched :: bool
  curargv :: "bytes list"
  totlen :: int
  allocs :: nat

datatype fmt_stop = MemoryErr | FormatErr | FmtFault fault

text \<open>Appending to the current argument: one call that may allocate.\<close>

definition cat_arg :: "(nat \<Rightarrow> bool) \<Rightarrow> bytes \<Rightarrow> fmt_st \<Rightarrow> fmt_stop + fmt_st" where
  "cat_arg ok t st =
     (if ok (allocs st)
      then Inr (st\<lparr>curarg := curarg st @ t, touched := True, allocs := Suc (allocs st)\<rparr>)
      else Inl MemoryErr)"

text \<open>Moving the current argument to the argument vector; \<open>again\<close>: a fresh one is begun.\<close>

definition end_arg :: "(nat \<Rightarrow> bool) \<Rightarrow> bool \<Rightarrow> fmt_st \<Rightarrow> fmt_stop + fmt_st" where
  "end_arg ok again st =
     (if \<not> touched st then Inr st
      else if \<not> ok (allocs st) then Inl MemoryErr
      else if again \<and> \<not> ok (Suc (allocs st)) then Inl MemoryErr
      else Inr (st\<lparr>curargv := curargv st @ [curarg st],
                   totlen := int32 (totlen st + int (bulklen (length (curarg st)))),
                   curarg := [], touched := False,
                   allocs := allocs st + (if again then 2 else 1)\<rparr>))"

lemma length_after_size: "after_size k p = CValid k' r \<Longrightarrow> length r < length p"
  by (auto simp: after_size_def split: list.splits if_splits)

lemma length_scan_conv: "scan_conv p = CValid k r \<Longrightarrow> length r < length p"
proof (cases p)
  case (Cons x xs)
  then show "scan_conv p = CValid k r \<Longrightarrow> length r < length p"
    by (auto split: if_splits list.splits dest!: length_after_size)
qed simp

lemma length_skip_spec: "length (skip_spec p) \<le> length p"
proof -
  let ?p2 = "dropWhile is_digit (dropWhile (\<lambda>x. x \<in> set ''#0-+ '') p)"
  have "length ?p2 \<le> length p"
    by (meson length_dropWhile_le le_trans)
  moreover have "length (skip_spec p) \<le> length ?p2"
    by (auto simp: skip_spec_def Let_def split: list.splits intro: le_SucI length_dropWhile_le)
  ultimately show ?thesis by simp
qed

lemma length_conv_rest: "scan_conv (skip_spec p) = CValid k r \<Longrightarrow> length r < length p"
  using length_scan_conv length_skip_spec by (metis order.strict_trans2)

function fmt_loop ::
  "(bytes \<Rightarrow> varg \<Rightarrow> bytes) \<Rightarrow> (nat \<Rightarrow> bool) \<Rightarrow> bytes \<Rightarrow> varg list \<Rightarrow> fmt_st \<Rightarrow> fmt_stop + fmt_st" where
  "fmt_loop libc ok [] ap st = Inr st"
| "fmt_loop libc ok [x] ap st =
     (if x = CHR '' '' then rbind (end_arg ok True st) (fmt_loop libc ok [] ap)
      else rbind (cat_arg ok [x] st) (fmt_loop libc ok [] ap))"
| "fmt_loop libc ok (x # d # cs) ap st =
     (if x \<noteq> CHR ''%'' then
        (if x = CHR '' '' then rbind (end_arg ok True st) (fmt_loop libc ok (d # cs) ap)
         else rbind (cat_arg ok [x] st) (fmt_loop libc ok (d # cs) ap))
      else if d = CHR ''s'' then
        (case ap of APtr m # ap' \<Rightarrow>
           (case c_strlen m of
              None \<Rightarrow> Inl (FmtFault Undef)
            | Some sz \<Rightarrow>
                if 0 < sz then rbind (cat_arg ok (take sz m) st) (fmt_loop libc ok cs ap')
                else fmt_loop libc ok cs ap' (st\<lparr>touched := True\<rparr>))
         | _ \<Rightarrow> Inl (FmtFault Undef))
      else if d = CHR ''b'' then
        (case ap of APtr m # ASize sz # ap' \<Rightarrow>
           (if length m < sz then Inl (FmtFault Undef)
            else if 0 < sz then rbind (cat_arg ok (take sz m) st) (fmt_loop libc ok cs ap')
            else fmt_loop libc ok cs ap' (st\<lparr>touched := True\<rparr>))
         | _ \<Rightarrow> Inl (FmtFault Undef))
      else if d = CHR ''%'' then rbind (cat_arg ok [CHR ''%''] st) (fmt_loop libc ok cs ap)
      else
        (case scan_conv (skip_spec (d # cs)) of
           CInvalid \<Rightarrow> Inl FormatErr
         | CEnd \<Rightarrow>
             (case va_arg KInt ap of
                None \<Rightarrow> Inl (FmtFault Undef)
              | Some (a, ap') \<Rightarrow>
                  if length (x # d # cs) + 1 < 14 then Inl (FmtFault Undef)
                  else fmt_loop libc ok cs ap' (st\<lparr>touched := True\<rparr>))
         | CValid k rest \<Rightarrow>
             (case va_arg k ap of
                None \<Rightarrow> Inl (FmtFault Undef)
              | Some (a, ap') \<Rightarrow>
                  let l = length (x # d # cs) - length rest;
                      piece = take l (x # d # cs)
                  in if l < 14
                     then rbind (cat_arg ok (takeWhile (\<lambda>y. y \<noteq> nul) (c_vsnprintf libc piece a)) st)
                            (fmt_loop libc ok rest ap')
                     else fmt_loop libc ok cs ap' (st\<lparr>touched := True\<rparr>))))"
  by pat_completeness auto
termination
  by (relation "measure (\<lambda>(libc, ok, cs, ap, st). length cs)") (auto dest: length_conv_rest)

declare fmt_loop.simps [simp del]

subsection \<open>Building the message\<close>

definition bulk :: "bytes \<Rightarrow> bytes" where
  "bulk a = ''$'' @ dec_nat (length a) @ crlf @ a @ crlf"

definition resp_encode :: "bytes list \<Rightarrow> bytes" where
  "resp_encode argv = ''*'' @ dec_nat (length argv) @ crlf @ concat (map bulk argv)"

definition fmt_init :: fmt_st where
  "fmt_init = \<lparr>curarg = [], touched = False, curargv = [], totlen = 0, allocs = 1\<rparr>"

text \<open>
  \<open>totlen + 1\<close>, the size that is allocated, must not overflow the \<open>int\<close>; a buffer that is shorter than what is
  written is undefined behaviour.
\<close>

definition fmt_finish :: "(nat \<Rightarrow> bool) \<Rightarrow> fmt_st \<Rightarrow> fmt_stop + (int \<times> bytes)" where
  "fmt_finish ok st =
     rbind (end_arg ok False st) (\<lambda>st1.
       let tot = int32 (totlen st1 + int (1 + countDigits (length (curargv st1)) + 2));
           cmd = resp_encode (curargv st1)
       in if tot = 2 ^ 31 - 1 then Inl (FmtFault Undef)
          else if \<not> ok (allocs st1) then Inl MemoryErr
          else if tot < int (length cmd) then Inl (FmtFault Undef)
          else if int (length cmd) \<noteq> tot then Inl (FmtFault AssertFail)
          else Inr (tot, cmd))"

definition c_format :: "bytes \<Rightarrow> bytes" where
  "c_format format = takeWhile (\<lambda>x. x \<noteq> nul) format"

definition redisvFormatCommand ::
  "(bytes \<Rightarrow> varg \<Rightarrow> bytes) \<Rightarrow> (nat \<Rightarrow> bool) \<Rightarrow> bytes \<Rightarrow> varg list \<Rightarrow> fault + (int \<times> bytes)" where
  "redisvFormatCommand libc ok format ap =
     (if \<not> ok 0 then Inr (-1, [])
      else case rbind (fmt_loop libc ok (c_format format) ap fmt_init) (fmt_finish ok) of
        Inr (n, cmd) \<Rightarrow> Inr (n, cmd)
      | Inl MemoryErr \<Rightarrow> Inr (-1, [])
      | Inl FormatErr \<Rightarrow> Inr (-2, [])
      | Inl (FmtFault f) \<Rightarrow> Inl f)"

definition redisAppendCommand ::
  "(bytes \<Rightarrow> varg \<Rightarrow> bytes) \<Rightarrow> (nat \<Rightarrow> bool) \<Rightarrow> bytes \<Rightarrow> varg list \<Rightarrow> fault + bytes" where
  "redisAppendCommand libc ok format ap =
     rbind (redisvFormatCommand libc ok format ap)
       (\<lambda>(len, cmd). if len < 0 then Inr [] else Inr cmd)"

subsection \<open>Sending\<close>

text \<open>
  What a command hands to \<open>Connection::send\<close>, and the virtual call it ends in:
  \<open>redisCommandFormatted\<close> or \<open>redisCommandArgv\<close>; \<open>None\<close> when nothing is sent.
\<close>

datatype csend = SendFmt bytes "varg list" | SendArgs "bytes list"

datatype request = ReqFormatted bytes | ReqArgv "bytes list"

fun conn_send ::
  "(bytes \<Rightarrow> varg \<Rightarrow> bytes) \<Rightarrow> (nat \<Rightarrow> bool) \<Rightarrow> csend \<Rightarrow> fault + request option" where
  "conn_send libc ok (SendFmt format ap) =
     rbind (redisAppendCommand libc ok format ap)
       (\<lambda>cmd. if cmd = [] then Inr None else Inr (Some (ReqFormatted cmd)))"
| "conn_send libc ok (SendArgs argv) = Inr (Some (ReqArgv argv))"

subsection \<open>Lengths are the lengths of the text\<close>

lemma countDigits_from_eq: "countDigits_from r v + 1 = r + length (dec_nat v)"
proof (induction r v rule: countDigits_from.induct)
  case (1 r v)
  show ?case
  proof (cases "v < 10000")
    case True
    then show ?thesis
      by (auto simp: countDigits_from.simps [of r v] dec_nat_step dec_nat_small not_less)
  next
    case False
    have "length (dec_nat v) = length (dec_nat (v div 10000)) + 4"
      using False by (simp add: length_dec_nat_step div_mult2_eq [symmetric])
    with False 1 show ?thesis
      by (simp add: countDigits_from.simps [of r v])
  qed
qed

lemma countDigits_eq: "countDigits v = length (dec_nat v)"
  using countDigits_from_eq [of 1 v] by (simp add: countDigits_def)

lemma length_bulk: "length (bulk a) = 1 + length (dec_nat (length a)) + 2 + length a + 2"
  by (simp add: bulk_def)

lemma bulklen_eq: "bulklen (length a) = size_t_of (length (bulk a))"
  by (simp add: bulklen_def length_bulk countDigits_eq)

lemma int32_cong: "x mod 2 ^ 32 = y mod 2 ^ 32 \<Longrightarrow> int32 x = int32 y"
  unfolding int32_def by (metis mod_add_left_eq)

lemma int32_mod: "int32 x mod 2 ^ 32 = x mod 2 ^ 32"
  unfolding int32_def by (metis add_diff_cancel_right' mod_diff_left_eq)

lemma int32_add_left: "int32 (int32 x + y) = int32 (x + y)"
  by (rule int32_cong) (metis int32_mod mod_add_left_eq)

lemma int32_add_size_t: "int32 (x + int (size_t_of n)) = int32 (x + int n)"
proof (rule int32_cong)
  have "int (size_t_of n) mod 2 ^ 32 = int n mod 2 ^ 32"
    by (simp add: size_t_of_def zmod_int mod_mod_cancel)
  then show "(x + int (size_t_of n)) mod 2 ^ 32 = (x + int n) mod 2 ^ 32"
    by (metis mod_add_right_eq)
qed

text \<open>
  One turn of the walk: it stops with an error, or it changes the state by one of three steps and
  goes on with a shorter format.
\<close>

definition arg_step :: "(nat \<Rightarrow> bool) \<Rightarrow> fmt_st \<Rightarrow> fmt_st \<Rightarrow> bool" where
  "arg_step ok st st1 \<longleftrightarrow>
     end_arg ok True st = Inr st1 \<or> (\<exists>t. cat_arg ok t st = Inr st1) \<or> st1 = st\<lparr>touched := True\<rparr>"

lemma cat_arg_Inl: "cat_arg ok t st = Inl e \<Longrightarrow> e = MemoryErr \<and> (\<exists>k. \<not> ok k)"
  by (auto simp: cat_arg_def split: if_splits)

lemma end_arg_Inl: "end_arg ok again st = Inl e \<Longrightarrow> e = MemoryErr \<and> (\<exists>k. \<not> ok k)"
  by (auto simp: end_arg_def split: if_splits)

definition stops_or_steps ::
  "(bytes \<Rightarrow> varg \<Rightarrow> bytes) \<Rightarrow> (nat \<Rightarrow> bool) \<Rightarrow> bytes \<Rightarrow> fmt_st \<Rightarrow> fmt_stop + fmt_st \<Rightarrow> bool" where
  "stops_or_steps libc ok cs st r \<longleftrightarrow>
     r = Inl MemoryErr \<and> (\<exists>k. \<not> ok k) \<or> r \<in> {Inl FormatErr, Inl (FmtFault Undef)} \<or>
     (\<exists>cs' ap' st1. length cs' < length cs \<and> arg_step ok st st1 \<and> r = fmt_loop libc ok cs' ap' st1)"

lemma stops_or_steps_stop:
  "stops_or_steps libc ok cs st (Inl (FmtFault Undef))" "stops_or_steps libc ok cs st (Inl FormatErr)"
  by (simp_all add: stops_or_steps_def)

lemma stops_or_steps_cat:
  "length cs' < length cs \<Longrightarrow>
   stops_or_steps libc ok cs st (rbind (cat_arg ok t st) (fmt_loop libc ok cs' ap'))"
proof (cases "cat_arg ok t st")
  case (Inl e)
  with cat_arg_Inl [OF Inl] show ?thesis by (auto simp: stops_or_steps_def)
next
  case (Inr b)
  then have "arg_step ok st b" by (auto simp: arg_step_def)
  moreover assume "length cs' < length cs"
  ultimately show ?thesis using Inr unfolding stops_or_steps_def by auto
qed

lemma stops_or_steps_end:
  "length cs' < length cs \<Longrightarrow>
   stops_or_steps libc ok cs st (rbind (end_arg ok True st) (fmt_loop libc ok cs' ap'))"
proof (cases "end_arg ok True st")
  case (Inl e)
  with end_arg_Inl [OF Inl] show ?thesis by (auto simp: stops_or_steps_def)
next
  case (Inr b)
  then have "arg_step ok st b" by (auto simp: arg_step_def)
  moreover assume "length cs' < length cs"
  ultimately show ?thesis using Inr unfolding stops_or_steps_def by auto
qed

lemma stops_or_steps_touch:
  "length cs' < length cs \<Longrightarrow>
   stops_or_steps libc ok cs st (fmt_loop libc ok cs' ap' (st\<lparr>touched := True\<rparr>))"
  unfolding stops_or_steps_def arg_step_def by blast

lemmas stops_or_steps_intros =
  stops_or_steps_stop stops_or_steps_cat stops_or_steps_end stops_or_steps_touch

lemma fmt_loop_step:
  assumes "cs \<noteq> []"
  shows "stops_or_steps libc ok cs st (fmt_loop libc ok cs ap st)"
proof -
  from assms consider x where "cs = [x]" | x d r where "cs = x # d # r"
    by (metis neq_Nil_conv)
  then show ?thesis
  proof cases
    case 1
    then show ?thesis
      by (auto simp: fmt_loop.simps(2) intro: stops_or_steps_intros)
  next
    case (2 x d r)
    have rest: "length rest < length (x # d # r)" if "scan_conv (skip_spec (d # r)) = CValid k rest" for k rest
      using length_conv_rest [OF that] by simp
    note sc = fmt_loop.simps(3) Let_def stops_or_steps_intros
    consider "x \<noteq> CHR ''%''" "x = CHR '' ''" | "x \<noteq> CHR ''%''" "x \<noteq> CHR '' ''"
      | "x = CHR ''%''" "d = CHR ''s''" | "x = CHR ''%''" "d = CHR ''b''" | "x = CHR ''%''" "d = CHR ''%''"
      | "x = CHR ''%''" "d \<notin> {CHR ''s'', CHR ''b'', CHR ''%''}"
      by blast
    then show ?thesis
    proof cases
      case 6
      show ?thesis
      proof (cases "scan_conv (skip_spec (d # r))")
        case (CValid k p)
        from rest [OF CValid] have "length p < Suc (Suc (length r))" by simp
        with CValid 6 show ?thesis by (simp add: 2 sc split: option.split)
      qed (use 6 in \<open>simp_all add: 2 sc split: option.split\<close>)
    qed (simp_all add: 2 sc split: list.split varg.split option.split)
  qed
qed

text \<open>The invariant of the walk: \<open>totlen\<close> counts the bytes of the arguments, modulo \<open>2 ^ 32\<close>.\<close>

definition totlen_ok :: "fmt_st \<Rightarrow> bool" where
  "totlen_ok st \<longleftrightarrow> totlen st = int32 (int (length (concat (map bulk (curargv st)))))"

lemma totlen_ok_init: "totlen_ok fmt_init"
  by (simp add: totlen_ok_def fmt_init_def int32_def)

lemma totlen_ok_cat: "cat_arg ok t st = Inr st' \<Longrightarrow> totlen_ok st \<Longrightarrow> totlen_ok st'"
  by (auto simp: cat_arg_def totlen_ok_def split: if_splits)

lemma totlen_ok_end: "end_arg ok again st = Inr st' \<Longrightarrow> totlen_ok st \<Longrightarrow> totlen_ok st'"
  by (auto simp: end_arg_def totlen_ok_def bulklen_eq int32_add_left int32_add_size_t
      split: if_splits)

lemma totlen_ok_touched: "totlen_ok (st\<lparr>touched := b\<rparr>) = totlen_ok st"
  by (simp add: totlen_ok_def)

lemma totlen_ok_step: "arg_step ok st st1 \<Longrightarrow> totlen_ok st \<Longrightarrow> totlen_ok st1"
  by (auto simp: arg_step_def totlen_ok_touched dest: totlen_ok_end totlen_ok_cat)

lemma totlen_ok_loop: "fmt_loop libc ok cs ap st = Inr st' \<Longrightarrow> totlen_ok st \<Longrightarrow> totlen_ok st'"
proof (induction "length cs" arbitrary: cs ap st rule: less_induct)
  case less
  from fmt_loop_step [of cs libc ok st ap] less.prems consider
      "cs = []" "st' = st"
    | cs' ap' st1 where "length cs' < length cs" "arg_step ok st st1"
        "fmt_loop libc ok cs' ap' st1 = Inr st'"
    by (cases "cs = []") (auto simp: fmt_loop.simps(1) stops_or_steps_def)
  then show ?case
    by cases (use less totlen_ok_step in blast)+
qed

lemma length_resp_encode:
  "length (resp_encode argv) = 1 + countDigits (length argv) + 2 + length (concat (map bulk argv))"
  by (simp add: resp_encode_def countDigits_eq)

lemma fmt_finish_cases:
  assumes "totlen_ok st" "end_arg ok False st = Inr st1"
  shows "fmt_finish ok st =
    (let cmd = resp_encode (curargv st1) in
     if int32 (int (length cmd)) = 2 ^ 31 - 1 then Inl (FmtFault Undef)
     else if \<not> ok (allocs st1) then Inl MemoryErr
     else if int (length cmd) < 2 ^ 31 then Inr (int (length cmd), cmd)
     else Inl (FmtFault Undef))"
proof -
  let ?cmd = "resp_encode (curargv st1)"
  have tl: "int32 (totlen st1 + k) = int32 (int (length (concat (map bulk (curargv st1)))) + k)" for k
    using totlen_ok_end [OF assms(2,1)] by (simp add: totlen_ok_def int32_add_left)
  have tot: "int32 (totlen st1 + int (1 + countDigits (length (curargv st1)) + 2)) = int32 (int (length ?cmd))"
    by (simp only: tl length_resp_encode) (simp add: add_ac)
  have "int32 (int (length ?cmd)) = int (length ?cmd)" if "int (length ?cmd) < 2 ^ 31"
    using that by (intro int32_id) auto
  moreover have "int32 (int (length ?cmd)) < int (length ?cmd)" if "\<not> int (length ?cmd) < 2 ^ 31"
    using that int32_range [of "int (length ?cmd)"] by linarith
  ultimately show ?thesis
    using tot assms(2) by (auto simp: fmt_finish_def Let_def)
qed

end
