(* ===== verification/Resp.thy ===== *)
theory Resp
  imports Connection
begin

text \<open>
  The protocol the formatted commands are written in, as its reader sees it: a request is
  \<open>*n CRLF\<close> and \<open>n\<close> bulk strings \<open>$len CRLF bytes CRLF\<close>.  \<open>resp_decode\<close> reads one request from the
  front of a stream.  The locale \<open>prefix_codec\<close> is the contract between a writer and its reader; it
  is interpreted on the length lines, the bulk strings and the whole requests that
  \<open>redisvFormatCommand\<close> writes.
\<close>

locale prefix_codec =
  fixes enc :: "'a \<Rightarrow> bytes"
    and dec :: "bytes \<Rightarrow> ('a \<times> bytes) option"
  assumes dec_enc: "dec (enc x @ r) = Some (x, r)"
begin

lemma dec_enc_all: "dec (enc x) = Some (x, [])"
  using dec_enc [of x "[]"] by simp

lemma enc_inj: "enc x = enc y \<Longrightarrow> x = y"
  by (metis dec_enc_all option.inject prod.inject)

lemma enc_unique: "enc x @ r = enc y @ s \<Longrightarrow> x = y \<and> r = s"
  by (metis dec_enc option.inject prod.inject)

fun dec_many :: "nat \<Rightarrow> bytes \<Rightarrow> ('a list \<times> bytes) option" where
  "dec_many 0 s = Some ([], s)"
| "dec_many (Suc n) s =
     (case dec s of None \<Rightarrow> None
      | Some (x, s') \<Rightarrow> (case dec_many n s' of None \<Rightarrow> None | Some (xs, r) \<Rightarrow> Some (x # xs, r)))"

lemma dec_many_enc: "dec_many (length xs) (concat (map enc xs) @ r) = Some (xs, r)"
  by (induction xs) (simp_all add: dec_enc)

end

subsection \<open>The reader\<close>

definition num_line :: "nat \<Rightarrow> bytes" where
  "num_line n = dec_nat n @ crlf"

definition read_num :: "bytes \<Rightarrow> (nat \<times> bytes) option" where
  "read_num s =
     (let ds = takeWhile is_digit s
      in if ds = [] then None
         else case dropWhile is_digit s of
           a # b # r \<Rightarrow> if a = cr \<and> b = lf then Some (undec ds, r) else None
         | _ \<Rightarrow> None)"

definition read_bulk :: "bytes \<Rightarrow> (bytes \<times> bytes) option" where
  "read_bulk s =
     (case s of
        c # s1 \<Rightarrow>
          (if c \<noteq> CHR ''$'' then None
           else case read_num s1 of
             None \<Rightarrow> None
           | Some (n, r) \<Rightarrow>
               if n + 2 \<le> length r \<and> take 2 (drop n r) = crlf
               then Some (take n r, drop (n + 2) r) else None)
      | [] \<Rightarrow> None)"

fun read_bulks :: "nat \<Rightarrow> bytes \<Rightarrow> (bytes list \<times> bytes) option" where
  "read_bulks 0 s = Some ([], s)"
| "read_bulks (Suc n) s =
     (case read_bulk s of None \<Rightarrow> None
      | Some (x, s') \<Rightarrow> (case read_bulks n s' of None \<Rightarrow> None | Some (xs, r) \<Rightarrow> Some (x # xs, r)))"

definition resp_decode :: "bytes \<Rightarrow> (bytes list \<times> bytes) option" where
  "resp_decode s =
     (case s of
        c # s1 \<Rightarrow>
          (if c \<noteq> CHR ''*'' then None
           else case read_num s1 of None \<Rightarrow> None | Some (n, r) \<Rightarrow> read_bulks n r)
      | [] \<Rightarrow> None)"

lemma not_digit_cr: "\<not> is_digit cr"
  by (simp add: is_digit_def)

lemma takeWhile_digits: "takeWhile is_digit (dec_nat n @ cr # s) = dec_nat n"
  using dec_nat_digits by (subst takeWhile_append2) (auto simp: not_digit_cr)

lemma dropWhile_digits: "dropWhile is_digit (dec_nat n @ cr # s) = cr # s"
  using dec_nat_digits by (subst dropWhile_append2) (auto simp: not_digit_cr)

interpretation num_codec: prefix_codec num_line read_num
  by unfold_locales (simp add: num_line_def read_num_def takeWhile_digits dropWhile_digits)

lemma bulk_num_line: "bulk a = ''$'' @ num_line (length a) @ a @ crlf"
  by (simp add: bulk_def num_line_def)

interpretation bulk_codec: prefix_codec bulk read_bulk
  by unfold_locales (simp add: bulk_num_line read_bulk_def num_codec.dec_enc numeral_2_eq_2)

lemma read_bulks_many: "read_bulks n s = bulk_codec.dec_many n s"
  by (induction n arbitrary: s) (auto split: option.split)

interpretation resp_codec: prefix_codec resp_encode resp_decode
proof unfold_locales
  fix xs r
  have "resp_encode xs @ r = CHR ''*'' # num_line (length xs) @ (concat (map bulk xs) @ r)"
    by (simp add: resp_encode_def num_line_def)
  then show "resp_decode (resp_encode xs @ r) = Some (xs, r)"
    by (simp add: resp_decode_def num_codec.dec_enc read_bulks_many bulk_codec.dec_many_enc)
qed

subsection \<open>Formats made of words\<close>

text \<open>
  The formats of \<open>command.h\<close> are words separated by one space, each a sequence of literal
  characters and of the conversions \<open>%b\<close>, \<open>%s\<close>, \<open>%lld\<close>, \<open>%f\<close>, \<open>%%\<close>.  An item knows its format, its
  variadic arguments and the text it contributes.
\<close>

datatype fitem = FLit char | FB bytes | FS bytes | FLL int | FD cdouble | FPct

fun item_fmt :: "fitem \<Rightarrow> bytes" where
  "item_fmt (FLit c) = [c]"
| "item_fmt (FB s) = ''%b''"
| "item_fmt (FS s) = ''%s''"
| "item_fmt (FLL i) = ''%lld''"
| "item_fmt (FD d) = ''%f''"
| "item_fmt FPct = ''%%''"

fun item_args :: "fitem \<Rightarrow> varg list" where
  "item_args (FLit c) = []"
| "item_args (FB s) = [APtr s, ASize (length s)]"
| "item_args (FS s) = [APtr (s @ [nul])]"
| "item_args (FLL i) = [ALLong i]"
| "item_args (FD d) = [ADbl d]"
| "item_args FPct = []"

fun item_text :: "fitem \<Rightarrow> bytes" where
  "item_text (FLit c) = [c]"
| "item_text (FB s) = s"
| "item_text (FS s) = s"
| "item_text (FLL i) = dec_int i"
| "item_text (FD d) = fmt_f d"
| "item_text FPct = ''%''"

fun item_ok :: "fitem \<Rightarrow> bool" where
  "item_ok (FLit c) = (c \<noteq> CHR '' '' \<and> c \<noteq> CHR ''%'' \<and> c \<noteq> nul)"
| "item_ok (FS s) = (nul \<notin> set s)"
| "item_ok _ = True"

definition word_fmt :: "fitem list \<Rightarrow> bytes" where "word_fmt w = concat (map item_fmt w)"
definition word_args :: "fitem list \<Rightarrow> varg list" where "word_args w = concat (map item_args w)"
definition word_text :: "fitem list \<Rightarrow> bytes" where "word_text w = concat (map item_text w)"

definition word_ok :: "fitem list \<Rightarrow> bool" where
  "word_ok w \<longleftrightarrow> w \<noteq> [] \<and> (\<forall>x\<in>set w. item_ok x)"

fun words_fmt :: "fitem list list \<Rightarrow> bytes" where
  "words_fmt [] = []"
| "words_fmt [w] = word_fmt w"
| "words_fmt (w # ws) = word_fmt w @ '' '' @ words_fmt ws"

definition words_args :: "fitem list list \<Rightarrow> varg list" where
  "words_args ws = concat (map word_args ws)"

text \<open>The walk does one item, one word, all words.\<close>

lemma takeWhile_no_nul: "nul \<notin> set s \<Longrightarrow> takeWhile (\<lambda>y. y \<noteq> nul) s = s"
  by (auto intro: takeWhile_eq_all_conv [THEN iffD2])

lemma c_strlen_cstr: "nul \<notin> set s \<Longrightarrow> c_strlen (s @ [nul]) = Some (length s)"
proof -
  assume n: "nul \<notin> set s"
  have "takeWhile (\<lambda>x. x \<noteq> nul) (s @ [nul]) = s"
    using n by (subst takeWhile_append2) auto
  then show ?thesis by (simp add: c_strlen_def)
qed

lemma skip_spec_lld: "skip_spec (CHR ''l'' # s) = CHR ''l'' # s"
  by (simp add: skip_spec_def is_digit_def)

lemma skip_spec_f: "skip_spec (CHR ''f'' # s) = CHR ''f'' # s"
  by (simp add: skip_spec_def is_digit_def)

lemma fmt_loop_space:
  assumes "touched st"
  shows "\<exists>n. fmt_loop libc (\<lambda>_. True) (CHR '' '' # cs) ap st =
    fmt_loop libc (\<lambda>_. True) cs ap (st\<lparr>curargv := curargv st @ [curarg st],
      totlen := int32 (totlen st + int (bulklen (length (curarg st)))),
      curarg := [], touched := False, allocs := n\<rparr>)"
  using assms by (cases cs) (auto simp: fmt_loop.simps end_arg_def)

lemma fmt_loop_cat:
  "\<exists>n. rbind (cat_arg (\<lambda>_. True) t st) (fmt_loop libc (\<lambda>_. True) cs ap) =
    fmt_loop libc (\<lambda>_. True) cs ap (st\<lparr>curarg := curarg st @ t, touched := True, allocs := n\<rparr>)"
  by (auto simp: cat_arg_def)

lemma touched_as_cat: "st\<lparr>touched := True\<rparr> = st\<lparr>curarg := curarg st @ [], touched := True, allocs := allocs st\<rparr>"
  by simp

lemma fmt_loop_item:
  assumes "item_ok x"
  shows "\<exists>n. fmt_loop libc (\<lambda>_. True) (item_fmt x @ cs) (item_args x @ ap) st =
    fmt_loop libc (\<lambda>_. True) cs ap (st\<lparr>curarg := curarg st @ item_text x, touched := True, allocs := n\<rparr>)"
proof (cases x)
  case (FLit c)
  with assms fmt_loop_cat [where t = "[c]" and st = st and libc = libc and cs = cs and ap = ap]
  show ?thesis by (cases cs) (auto simp: fmt_loop.simps(2,3))
next
  case (FB s)
  with assms fmt_loop_cat [where t = s and st = st and libc = libc and cs = cs and ap = ap]
  show ?thesis by (cases "s = []") (auto simp: fmt_loop.simps(3) intro: exI [of _ "allocs st"])
next
  case (FS s)
  with assms fmt_loop_cat [where t = s and st = st and libc = libc and cs = cs and ap = ap]
  show ?thesis
    by (cases "s = []")
      (auto simp: fmt_loop.simps(3) c_strlen_cstr c_strlen_cstr [of "[]", simplified] intro: exI [of _ "allocs st"])
next
  case (FLL i)
  with assms fmt_loop_cat [where t = "dec_int i" and st = st and libc = libc and cs = cs and ap = ap]
  show ?thesis
    by (auto simp: fmt_loop.simps(3) skip_spec_lld intfmts_def after_size_def c_vsnprintf_def
        takeWhile_no_nul dec_int_no_nul)
next
  case (FD d)
  with assms fmt_loop_cat [where t = "fmt_f d" and st = st and libc = libc and cs = cs and ap = ap]
  show ?thesis
    by (auto simp: fmt_loop.simps(3) skip_spec_f intfmts_def c_vsnprintf_def takeWhile_no_nul fmt_f_no_nul)
next
  case FPct
  with assms fmt_loop_cat [where t = "''%''" and st = st and libc = libc and cs = cs and ap = ap]
  show ?thesis by (auto simp: fmt_loop.simps(3))
qed

lemma fmt_loop_word:
  assumes "\<forall>x\<in>set w. item_ok x"
  shows "\<exists>n. fmt_loop libc (\<lambda>_. True) (word_fmt w @ cs) (word_args w @ ap) st =
    fmt_loop libc (\<lambda>_. True) cs ap
      (st\<lparr>curarg := curarg st @ word_text w, touched := (w \<noteq> [] \<or> touched st), allocs := n\<rparr>)"
  using assms(1)
proof (induction w arbitrary: st)
  case Nil
  then show ?case
    by (auto simp: word_fmt_def word_args_def word_text_def intro: exI [of _ "allocs st"])
next
  case (Cons x w)
  from fmt_loop_item [of x libc "word_fmt w @ cs" "word_args w @ ap" st] Cons.prems obtain n where
    "fmt_loop libc (\<lambda>_. True) (word_fmt (x # w) @ cs) (word_args (x # w) @ ap) st =
     fmt_loop libc (\<lambda>_. True) (word_fmt w @ cs) (word_args w @ ap)
       (st\<lparr>curarg := curarg st @ item_text x, touched := True, allocs := n\<rparr>)"
    by (auto simp: word_fmt_def word_args_def)
  with Cons.IH [of "st\<lparr>curarg := curarg st @ item_text x, touched := True, allocs := n\<rparr>"] Cons.prems
  show ?case by (auto simp: word_text_def)
qed

lemma fmt_loop_words:
  assumes "\<forall>w\<in>set ws. word_ok w" "curarg st = []" "\<not> touched st"
  shows "\<exists>st1 st2. fmt_loop libc (\<lambda>_. True) (words_fmt ws) (words_args ws) st = Inr st1 \<and>
    end_arg (\<lambda>_. True) False st1 = Inr st2 \<and> curargv st2 = curargv st @ map word_text ws"
  using assms
proof (induction ws arbitrary: st rule: words_fmt.induct)
  case 1
  then show ?case by (simp add: words_args_def fmt_loop.simps(1) end_arg_def)
next
  case (2 w)
  from fmt_loop_word [of w libc "[]" "[]" st] 2 show ?case
    by (auto simp: words_args_def fmt_loop.simps(1) end_arg_def word_ok_def)
next
  case (3 w v vs)
  let ?ws = "v # vs"
  from fmt_loop_word [of w libc "'' '' @ words_fmt ?ws" "words_args ?ws" st] "3.prems" obtain n where
    w: "fmt_loop libc (\<lambda>_. True) (words_fmt (w # ?ws)) (words_args (w # ?ws)) st =
      fmt_loop libc (\<lambda>_. True) (CHR '' '' # words_fmt ?ws) (words_args ?ws)
        (st\<lparr>curarg := word_text w, touched := True, allocs := n\<rparr>)"
    by (auto simp: words_args_def word_ok_def)
  from fmt_loop_space [of "st\<lparr>curarg := word_text w, touched := True, allocs := n\<rparr>" libc
      "words_fmt ?ws" "words_args ?ws"] obtain m tl where
    "fmt_loop libc (\<lambda>_. True) (words_fmt (w # ?ws)) (words_args (w # ?ws)) st =
      fmt_loop libc (\<lambda>_. True) (words_fmt ?ws) (words_args ?ws)
        (st\<lparr>curargv := curargv st @ [word_text w], totlen := tl, curarg := [], touched := False, allocs := m\<rparr>)"
    unfolding w by auto
  with "3.IH" [of "st\<lparr>curargv := curargv st @ [word_text w], totlen := tl, curarg := [],
      touched := False, allocs := m\<rparr>"] "3.prems"
  show ?case by auto
qed

lemma item_fmt_no_nul: "item_ok x \<Longrightarrow> nul \<notin> set (item_fmt x)"
  by (cases x) auto

lemma words_fmt_no_nul: "\<forall>w\<in>set ws. word_ok w \<Longrightarrow> nul \<notin> set (words_fmt ws)"
  by (induction ws rule: words_fmt.induct) (auto simp: word_fmt_def word_ok_def dest: item_fmt_no_nul)

lemma format_words_lemma:
  assumes "\<forall>w\<in>set ws. word_ok w"
    and "length (resp_encode (map word_text ws)) < 2 ^ 31 - 1"
  shows "redisvFormatCommand libc (\<lambda>_. True) (words_fmt ws) (words_args ws) =
    Inr (int (length (resp_encode (map word_text ws))), resp_encode (map word_text ws))"
proof -
  from fmt_loop_words [OF assms(1), of fmt_init libc] obtain st1 st2 where
    st1: "fmt_loop libc (\<lambda>_. True) (words_fmt ws) (words_args ws) fmt_init = Inr st1"
    and st2: "end_arg (\<lambda>_. True) False st1 = Inr st2" and argv: "curargv st2 = map word_text ws"
    by (auto simp: fmt_init_def)
  have "totlen_ok st1" using totlen_ok_loop [OF st1 totlen_ok_init] .
  note fin = fmt_finish_cases [OF this st2]
  have "int32 (int (length (resp_encode (map word_text ws)))) = int (length (resp_encode (map word_text ws)))"
    using assms(2) by (intro int32_id) auto
  with fin assms(2) argv have "fmt_finish (\<lambda>_. True) st1 =
      Inr (int (length (resp_encode (map word_text ws))), resp_encode (map word_text ws))"
    by (simp add: Let_def)
  moreover have "c_format (words_fmt ws) = words_fmt ws"
    using words_fmt_no_nul [OF assms(1)] unfolding c_format_def by (rule takeWhile_no_nul)
  ultimately show ?thesis using st1 by (simp add: redisvFormatCommand_def)
qed

lemma resp_encode_not_Nil [simp]: "resp_encode argv \<noteq> []"
  by (simp add: resp_encode_def)

lemma conn_send_words:
  assumes "\<forall>w\<in>set ws. word_ok w"
    and "length (resp_encode (map word_text ws)) < 2 ^ 31 - 1"
  shows "conn_send libc (\<lambda>_. True) (SendFmt (words_fmt ws) (words_args ws)) =
    Inr (Some (ReqFormatted (resp_encode (map word_text ws))))"
  using format_words_lemma [OF assms, of libc] by (simp add: redisAppendCommand_def)

subsection \<open>Every result of the formatter\<close>

text \<open>
  What C asks of the caller: the arguments the format takes are there, of the types it takes them at, a
  \<open>%s\<close> is terminated, a \<open>%b\<close> is as long as it says, and a conversion does not break off at the end of the
  format (13 characters on, the code leaves such a conversion alone).
\<close>

function well_called :: "bytes \<Rightarrow> varg list \<Rightarrow> bool" where
  "well_called [] ap \<longleftrightarrow> True"
| "well_called [x] ap \<longleftrightarrow> True"
| "well_called (x # d # cs) ap \<longleftrightarrow>
     (if x \<noteq> CHR ''%'' then well_called (d # cs) ap
      else if d = CHR ''s'' then (case ap of APtr m # ap' \<Rightarrow> nul \<in> set m \<and> well_called cs ap' | _ \<Rightarrow> False)
      else if d = CHR ''b'' then (case ap of APtr m # ASize sz # ap' \<Rightarrow> sz \<le> length m \<and> well_called cs ap' | _ \<Rightarrow> False)
      else if d = CHR ''%'' then well_called cs ap
      else (case scan_conv (skip_spec (d # cs)) of
          CInvalid \<Rightarrow> True
        | CEnd \<Rightarrow> 13 \<le> length (x # d # cs) \<and> (case va_arg KInt ap of None \<Rightarrow> False | Some (a, ap') \<Rightarrow> well_called cs ap')
        | CValid k rest \<Rightarrow> (case va_arg k ap of None \<Rightarrow> False
            | Some (a, ap') \<Rightarrow> well_called (if length (x # d # cs) - length rest < 14 then rest else cs) ap')))"
  by pat_completeness auto
termination
  by (relation "measure (\<lambda>(cs, ap). length cs)") (auto dest: length_conv_rest)

declare well_called.simps [simp del]

lemma rbind_cat_fault:
  "rbind (cat_arg ok t st) f = Inl (FmtFault e) \<Longrightarrow> \<exists>st'. f st' = Inl (FmtFault e)"
  "rbind (end_arg ok True st) f = Inl (FmtFault e) \<Longrightarrow> \<exists>st'. f st' = Inl (FmtFault e)"
  by (auto simp: rbind_Inl_iff dest: cat_arg_Inl end_arg_Inl)

lemma well_called_no_fault: "well_called cs ap \<Longrightarrow> fmt_loop libc ok cs ap st \<noteq> Inl (FmtFault e)"
proof (induction "length cs" arbitrary: cs ap st rule: less_induct)
  case less
  have cat: "rbind (cat_arg ok t st) (fmt_loop libc ok cs' ap') \<noteq> Inl (FmtFault e)"
    and sp: "rbind (end_arg ok True st) (fmt_loop libc ok cs' ap') \<noteq> Inl (FmtFault e)"
    and tch: "fmt_loop libc ok cs' ap' (st\<lparr>touched := True\<rparr>) \<noteq> Inl (FmtFault e)"
    if "length cs' < length cs" "well_called cs' ap'" for t cs' ap'
    using less.hyps [OF that] by (blast dest: rbind_cat_fault)+
  consider (none) "cs = []" | (one) x where "cs = [x]" | (two) x d r where "cs = x # d # r" by (metis neq_Nil_conv)
  then show ?case
  proof cases
    case (two x d r)
    note wc = less.prems [unfolded two well_called.simps(3)]
    consider "x \<noteq> CHR ''%''" | "x = CHR ''%''" "d = CHR ''s''" | "x = CHR ''%''" "d = CHR ''b''" | "x = CHR ''%''" "d = CHR ''%''"
      | "x = CHR ''%''" "d \<notin> {CHR ''s'', CHR ''b'', CHR ''%''}" by blast
    then show ?thesis
    proof cases
      case 1
      with wc have "well_called (d # r) ap" by simp
      with 1 cat [of "d # r" ap] sp [of "d # r" ap] show ?thesis by (simp add: two fmt_loop.simps(3))
    next
      case 2
      with wc obtain m ap' where m: "ap = APtr m # ap'" "nul \<in> set m" "well_called r ap'"
        by (simp split: list.split_asm varg.split_asm)
      with 2 cat [of r ap'] tch [of r ap'] show ?thesis by (simp add: two fmt_loop.simps(3) c_strlen_def)
    next
      case 3
      from wc obtain m ap1 where m: "ap = APtr m # ap1" using 3 by (simp split: list.split_asm varg.split_asm)
      with wc 3 obtain sz ap' where sz: "ap1 = ASize sz # ap'" "sz \<le> length m" "well_called r ap'"
        by (simp split: list.split_asm varg.split_asm)
      with m 3 cat [of r ap'] tch [of r ap'] show ?thesis by (simp add: two fmt_loop.simps(3))
    next
      case 4
      with wc cat [of r ap] show ?thesis by (simp add: two fmt_loop.simps(3))
    next
      case 5
      show ?thesis
      proof (cases "scan_conv (skip_spec (d # r))")
        case (CValid k rest)
        with wc 5 obtain a ap' where a: "va_arg k ap = Some (a, ap')"
          "well_called (if length (x # d # r) - length rest < 14 then rest else r) ap'"
          by (auto split: option.splits)
        have "length rest < length cs" using length_conv_rest [OF CValid] two by simp
        with CValid 5 a cat [of rest ap'] tch [of r ap'] show ?thesis
          by (simp add: two fmt_loop.simps(3) Let_def split: if_splits)
      next
        case CEnd
        with wc 5 obtain a ap' where "va_arg KInt ap = Some (a, ap')" "well_called r ap'" "13 \<le> length (x # d # r)"
          by (auto split: option.splits)
        with CEnd 5 tch [of r ap'] show ?thesis by (simp add: two fmt_loop.simps(3))
      qed (use 5 in \<open>simp add: two fmt_loop.simps(3)\<close>)
    qed
  next
    case (one x)
    have "well_called [] ap" by (simp add: well_called.simps(1))
    with cat [of "[]" ap] sp [of "[]" ap] show ?thesis by (simp add: one fmt_loop.simps(2))
  qed (simp add: fmt_loop.simps(1))
qed

text \<open>The argument vector of a walk, and what the formatter makes of it.\<close>

definition args_of :: "fmt_st \<Rightarrow> bytes list" where
  "args_of st = curargv st @ (if touched st then [curarg st] else [])"

lemma end_arg_args: "end_arg ok False st = Inr st1 \<Longrightarrow> curargv st1 = args_of st"
  by (auto simp: end_arg_def args_of_def split: if_splits)

lemma fmt_loop_stops: "fmt_loop libc ok cs ap st = Inl e \<Longrightarrow> e = MemoryErr \<and> (\<exists>k. \<not> ok k) \<or> e = FormatErr \<or> e = FmtFault Undef"
proof (induction "length cs" arbitrary: cs ap st rule: less_induct)
  case less
  show ?case
  proof (cases "cs = []")
    case True
    with less.prems show ?thesis by (simp add: fmt_loop.simps(1))
  next
    case False
    from fmt_loop_step [OF this, of libc ok st ap] less show ?thesis
      unfolding stops_or_steps_def by auto
  qed
qed

lemma fmt_finish_result:
  assumes "totlen_ok st"
  shows "fmt_finish ok st = Inl MemoryErr \<and> (\<exists>k. \<not> ok k) \<or>
    fmt_finish ok st = Inl (FmtFault Undef) \<and> 2 ^ 31 - 1 \<le> length (resp_encode (args_of st)) \<or>
    fmt_finish ok st = Inr (int (length (resp_encode (args_of st))), resp_encode (args_of st)) \<and>
      length (resp_encode (args_of st)) < 2 ^ 31 - 1"
proof (cases "end_arg ok False st")
  case (Inl e)
  with end_arg_Inl [OF Inl] show ?thesis by (simp add: fmt_finish_def)
next
  case (Inr st1)
  let ?n = "length (resp_encode (args_of st))"
  have "int32 (int ?n) = int ?n" if "?n < 2 ^ 31" using that by (intro int32_id) auto
  with fmt_finish_cases [OF assms Inr] end_arg_args [OF Inr] show ?thesis
    by (cases "?n < 2 ^ 31 - 1"; cases "?n = 2 ^ 31 - 1") (auto simp: Let_def)
qed

lemma redisvFormatCommand_cases:
  "case redisvFormatCommand libc ok format ap of
     Inr (len, cmd) \<Rightarrow> (len, cmd) = (-1, []) \<and> (\<exists>k. \<not> ok k) \<or> (len, cmd) = (-2, []) \<or>
       (\<exists>st. fmt_loop libc ok (c_format format) ap fmt_init = Inr st \<and> cmd = resp_encode (args_of st) \<and>
          len = int (length cmd) \<and> length cmd < 2 ^ 31 - 1 \<and> resp_decode cmd = Some (args_of st, []))
   | Inl f \<Rightarrow> f = Undef \<and> (\<not> well_called (c_format format) ap \<or>
       (\<exists>st. fmt_loop libc ok (c_format format) ap fmt_init = Inr st \<and> 2 ^ 31 - 1 \<le> length (resp_encode (args_of st))))"
proof -
  have dec: "resp_decode (resp_encode argv) = Some (argv, [])" for argv
    using resp_codec.dec_enc [of argv "[]"] by simp
  show ?thesis
  proof (cases "fmt_loop libc ok (c_format format) ap fmt_init")
    case (Inl e)
    from fmt_loop_stops [OF Inl] Inl well_called_no_fault [of "c_format format" ap libc ok fmt_init Undef] show ?thesis
      by (auto simp: redisvFormatCommand_def)
  next
    case (Inr st)
    from fmt_finish_result [OF totlen_ok_loop [OF Inr totlen_ok_init], of ok] Inr dec show ?thesis
      by (auto simp: redisvFormatCommand_def)
  qed
qed

end
