(* ===== verification/Cmd_Args.thy ===== *)
theory Cmd_Args
  imports Connection
begin

text \<open>
  The argument builder \<open>CmdArgs\<close> of \<open>src/commlib/redis/command_args.h\<close>.

  A \<open>CmdArgs\<close> object keeps two parallel vectors \<open>_argv\<close>/\<open>_argv_len\<close> of pointers and lengths,
  and a list \<open>_args\<close> that owns the strings it had to make itself (numbers and strings passed by
  value).  A pointer is either into memory of the caller (a shallow copy, \<open>Shallow\<close>) or into the
  \<open>n\<close>-th node of \<open>_args\<close> (\<open>Owned n\<close>): nodes of a \<open>std::list\<close> do not move.  The values that can be
  appended are \<open>cval\<close>s, a range \<open>crange\<close> is a pair of iterators, whose element type decides by
  \<open>IsKvPair\<close> which \<open>_append\<close> runs.

  The contract of the builder is one list of byte strings: \<open>resolve\<close> reads it off an object, and
  every append is the append of the texts of the values (the \<open>arg_builder\<close> locale).
\<close>

subsection \<open>Values, ranges and the object\<close>

text \<open>
  \<open>VView\<close>: a \<open>StringView\<close> or \<open>const char *\<close> (not copied); \<open>VStr\<close>: a \<open>std::string\<close> given to
  \<open>append\<close> (copied into \<open>_args\<close>); \<open>VInt\<close>, \<open>VDbl\<close>: arithmetic types (\<open>std::to_string\<close>);
  \<open>VTup\<close>: a \<open>std::tuple\<close>.
\<close>

datatype cval = VView bytes | VStr bytes | VInt int | VDbl cdouble | VTup "cval list"

datatype crange = Vals "cval list" | Kvs "(cval \<times> cval) list"

datatype argref = Shallow bytes | Owned nat

record cmd_args =
  ca_argv :: "argref list"
  ca_argv_len :: "nat list"
  ca_owned :: "bytes list"

definition no_args :: cmd_args where
  "no_args = \<lparr>ca_argv = [], ca_argv_len = [], ca_owned = []\<rparr>"

fun is_kv_pair :: "crange \<Rightarrow> bool" where
  "is_kv_pair (Kvs _) = True"
| "is_kv_pair (Vals _) = False"

fun range_empty :: "crange \<Rightarrow> bool" where
  "range_empty (Vals xs) = (xs = [])"
| "range_empty (Kvs xs) = (xs = [])"

fun to_string :: "cval \<Rightarrow> bytes" where
  "to_string (VInt i) = dec_int i"
| "to_string (VDbl d) = fmt_f d"
| "to_string _ = []"

subsection \<open>The operations\<close>

definition put_view :: "bytes \<Rightarrow> cmd_args \<Rightarrow> cmd_args" where
  "put_view s a = a\<lparr>ca_argv := ca_argv a @ [Shallow s], ca_argv_len := ca_argv_len a @ [length s]\<rparr>"

definition append_str :: "bytes \<Rightarrow> cmd_args \<Rightarrow> cmd_args" where
  "append_str s a =
    (let a' = a\<lparr>ca_owned := ca_owned a @ [s]\<rparr> in
     a'\<lparr>ca_argv := ca_argv a' @ [Owned (length (ca_owned a') - 1)], ca_argv_len := ca_argv_len a' @ [length s]\<rparr>)"

fun put :: "cval \<Rightarrow> cmd_args \<Rightarrow> cmd_args"
  and put_tuple :: "cval list \<Rightarrow> cmd_args \<Rightarrow> cmd_args" where
  "put (VView s) a = put_view s a"
| "put (VStr s) a = append_str s a"
| "put (VInt i) a = append_str (to_string (VInt i)) a"
| "put (VDbl d) a = append_str (to_string (VDbl d)) a"
| "put (VTup vs) a = put_tuple vs a"
| "put_tuple [] a = a"
| "put_tuple (v # vs) a = put_tuple vs (put v a)"

fun puts :: "cval list \<Rightarrow> cmd_args \<Rightarrow> cmd_args" where
  "puts [] a = a"
| "puts (v # vs) a = puts vs (put v a)"

fun append_vals :: "cval list \<Rightarrow> cmd_args \<Rightarrow> cmd_args" where
  "append_vals [] a = a"
| "append_vals (x # xs) a = append_vals xs (put x a)"

fun append_kvs :: "(cval \<times> cval) list \<Rightarrow> cmd_args \<Rightarrow> cmd_args" where
  "append_kvs [] a = a"
| "append_kvs ((k, v) # xs) a = append_kvs xs (put v (put k a))"

fun put_range :: "crange \<Rightarrow> cmd_args \<Rightarrow> cmd_args" where
  "put_range (Vals xs) a = append_vals xs a"
| "put_range (Kvs xs) a = append_kvs xs a"

definition args_size :: "cmd_args \<Rightarrow> nat" where
  "args_size a = length (ca_argv a)"

text \<open>
  What a reader of \<open>argv()\<close>/\<open>argv_len()\<close> sees: argument \<open>i\<close> is the first \<open>argv_len[i]\<close> bytes
  behind the pointer \<open>argv[i]\<close>; a pointer or length that is out of range has no bytes behind it.
\<close>

fun deref :: "bytes list \<Rightarrow> argref \<Rightarrow> nat \<Rightarrow> bytes option" where
  "deref own (Shallow s) n = (if n \<le> length s then Some (take n s) else None)"
| "deref own (Owned k) n =
    (if k < length own \<and> n \<le> length (own ! k) then Some (take n (own ! k)) else None)"

definition resolve :: "cmd_args \<Rightarrow> bytes option list" where
  "resolve a = map2 (deref (ca_owned a)) (ca_argv a) (ca_argv_len a)"

definition sent_args :: "cmd_args \<Rightarrow> csend" where
  "sent_args a = SendArgs (map the (resolve a))"

subsection \<open>The text of a value\<close>

fun texts :: "cval \<Rightarrow> bytes list" where
  "texts (VView s) = [s]"
| "texts (VStr s) = [s]"
| "texts (VInt i) = [dec_int i]"
| "texts (VDbl d) = [fmt_f d]"
| "texts (VTup vs) = concat (map texts vs)"

fun range_texts :: "crange \<Rightarrow> bytes list" where
  "range_texts (Vals xs) = concat (map texts xs)"
| "range_texts (Kvs xs) = concat (map (\<lambda>(k, v). texts k @ texts v) xs)"

subsection \<open>The invariant and the contract\<close>

text \<open>Parallel vectors, and every owned pointer points at a string of that length.\<close>

fun ref_ok :: "bytes list \<Rightarrow> argref \<Rightarrow> nat \<Rightarrow> bool" where
  "ref_ok own (Shallow s) n = (n = length s)"
| "ref_ok own (Owned k) n = (k < length own \<and> n = length (own ! k))"

definition args_wf :: "cmd_args \<Rightarrow> bool" where
  "args_wf a \<longleftrightarrow> list_all2 (ref_ok (ca_owned a)) (ca_argv a) (ca_argv_len a)"

lemma args_wf_empty: "args_wf no_args"
  by (simp add: args_wf_def no_args_def)

lemma ref_ok_own: "ref_ok own r n \<Longrightarrow> ref_ok (own @ [s]) r n"
  by (cases r) (auto simp: nth_append)

lemma deref_own: "ref_ok own r n \<Longrightarrow> deref (own @ [s]) r n = deref own r n"
  by (cases r) (auto simp: nth_append)

lemma ref_ok_deref: "ref_ok own r n \<Longrightarrow> \<exists>s. deref own r n = Some s"
  by (cases r) auto

lemma args_wf_append_str: "args_wf a \<Longrightarrow> args_wf (append_str s a)"
  by (auto simp: args_wf_def append_str_def Let_def intro!: list_all2_appendI
      elim: list_all2_mono dest: ref_ok_own)

lemma args_wf_put_view: "args_wf a \<Longrightarrow> args_wf (put_view s a)"
  by (auto simp: args_wf_def put_view_def intro!: list_all2_appendI)

lemma resolve_put_view: "args_wf a \<Longrightarrow> resolve (put_view s a) = resolve a @ [Some s]"
  by (auto simp: args_wf_def resolve_def put_view_def dest: list_all2_lengthD)

lemma map2_deref_own:
  "list_all2 (ref_ok own) rs ns \<Longrightarrow> map2 (deref (own @ [s])) rs ns = map2 (deref own) rs ns"
  by (induction rule: list_all2_induct) (auto simp: deref_own)

lemma resolve_append_str: "args_wf a \<Longrightarrow> resolve (append_str s a) = resolve a @ [Some s]"
  by (frule list_all2_lengthD [OF args_wf_def [THEN iffD1]])
    (simp add: args_wf_def resolve_def append_str_def Let_def map2_deref_own)

subsection \<open>The interface of an argument builder\<close>

text \<open>
  What the command functions rely on: an object stands for a list of byte strings, a value that
  is appended adds its texts behind the ones that are there, and well-formedness is kept.  Sequences
  and ranges follow once for every builder.
\<close>

locale arg_builder =
  fixes emp :: "'a" and add :: "'v \<Rightarrow> 'a \<Rightarrow> 'a" and view :: "'a \<Rightarrow> bytes list"
    and inv :: "'a \<Rightarrow> bool" and val :: "'v \<Rightarrow> bytes list"
  assumes inv_emp: "inv emp" and inv_add: "inv a \<Longrightarrow> inv (add v a)"
    and view_emp: "view emp = []" and view_add: "inv a \<Longrightarrow> view (add v a) = view a @ val v"
begin

lemma inv_fold: "inv a \<Longrightarrow> inv (fold add vs a)"
  by (induction vs arbitrary: a) (auto intro: inv_add)

lemma view_fold: "inv a \<Longrightarrow> view (fold add vs a) = view a @ concat (map val vs)"
  by (induction vs arbitrary: a) (auto simp: view_add inv_add)

lemma view_built: "view (fold add vs emp) = concat (map val vs)"
  by (simp add: view_fold inv_emp view_emp)

end

lemma put_ok:
  "args_wf a \<Longrightarrow> args_wf (put v a) \<and> resolve (put v a) = resolve a @ map Some (texts v)"
  "args_wf a \<Longrightarrow> args_wf (put_tuple vs a) \<and>
     resolve (put_tuple vs a) = resolve a @ map Some (concat (map texts vs))"
  by (induction v a and vs a rule: put_put_tuple.induct)
    (auto simp: args_wf_put_view args_wf_append_str resolve_put_view resolve_append_str)

lemma resolve_empty: "resolve no_args = []"
  by (simp add: resolve_def no_args_def)

definition arg_view :: "cmd_args \<Rightarrow> bytes list" where
  "arg_view a = map the (resolve a)"

interpretation cmd_builder: arg_builder no_args put arg_view args_wf texts
  by unfold_locales
    (simp_all add: args_wf_empty put_ok arg_view_def resolve_empty comp_def)

lemma puts_fold: "puts vs a = fold put vs a"
  by (induction vs arbitrary: a) auto

lemma append_vals_fold: "append_vals vs a = fold put vs a"
  by (induction vs arbitrary: a) auto

lemma append_kvs_fold: "append_kvs xs a = fold put (concat (map (\<lambda>(k, v). [k, v]) xs)) a"
  by (induction xs a rule: append_kvs.induct) auto

lemma args_wf_puts: "args_wf a \<Longrightarrow> args_wf (puts vs a)"
  by (simp add: puts_fold cmd_builder.inv_fold)

lemma args_wf_put_range: "args_wf a \<Longrightarrow> args_wf (put_range r a)"
  by (cases r) (simp_all add: append_vals_fold append_kvs_fold cmd_builder.inv_fold)

lemma arg_view_puts: "args_wf a \<Longrightarrow> arg_view (puts vs a) = arg_view a @ concat (map texts vs)"
  by (simp add: puts_fold cmd_builder.view_fold)

lemma texts_kvs: "concat (map texts (concat (map (\<lambda>(k, v). [k, v]) xs))) =
    concat (map (\<lambda>(k, v). texts k @ texts v) xs)"
  by (induction xs) auto

lemma arg_view_put_range:
  "args_wf a \<Longrightarrow> arg_view (put_range r a) = arg_view a @ range_texts r"
  by (cases r) (simp_all add: append_vals_fold append_kvs_fold cmd_builder.view_fold texts_kvs)

lemma arg_view_empty: "arg_view no_args = []"
  by (rule cmd_builder.view_emp)

lemma sent_args_view: "sent_args a = SendArgs (arg_view a)"
  by (simp add: sent_args_def arg_view_def)

lemmas args_simps = args_wf_empty args_wf_puts args_wf_put_range arg_view_puts arg_view_put_range
  arg_view_empty sent_args_view

declare args_simps [wire_simps]
declare put.simps [simp del] put_tuple.simps [simp del] puts.simps [simp del]
declare append_vals.simps [simp del] append_kvs.simps [simp del] put_range.simps [simp del]

end
