(* ===== verification/Cmd_Options.thy ===== *)
theory Cmd_Options
  imports Errors
begin

text \<open>
  The option types of the commands: \<open>src/commlib/redis/command_options.h\<close> and
  \<open>command_options.cpp\<close>.

  An interval object is the pair of texts its \<open>min()\<close> and \<open>max()\<close> return.  The constructors for
  numeric intervals print their bounds with \<open>std::to_string\<close>, those for lexicographic intervals
  mark each bound as inclusive (\<open>[\<close>) or exclusive (\<open>(\<close>); the half-bounded constructors throw
  \<open>Error\<close> for the bound types that make no sense for them.

  \<open>in_lex\<close> states what the server takes a lexicographic interval to mean; the lemmas show that
  each constructor builds the interval its bound type names.
\<close>

datatype UpdateType = UpdExist | UpdNotExist | UpdAlways
datatype InsertPosition = InsBefore | InsAfter
datatype BoundType = Closed | Open | LeftOpen | RightOpen
datatype Aggregation = AggSum | AggMin | AggMax
datatype BitOp = BitAnd | BitOr | BitXor | BitNot
datatype GeoUnit = GeoM | GeoKm | GeoMi | GeoFt

record LimitOptions =
  limit_offset :: int
  limit_count :: int

definition default_limit :: LimitOptions where
  "default_limit = \<lparr>limit_offset = 0, limit_count = -1\<rparr>"

record interval =
  imin :: bytes
  imax :: bytes

definition NEGATIVE_INFINITY_NUMERIC :: bytes where "NEGATIVE_INFINITY_NUMERIC = ''-inf''"
definition POSITIVE_INFINITY_NUMERIC :: bytes where "POSITIVE_INFINITY_NUMERIC = ''+inf''"
definition NEGATIVE_INFINITY_STRING :: bytes where "NEGATIVE_INFINITY_STRING = ''-''"
definition POSITIVE_INFINITY_STRING :: bytes where "POSITIVE_INFINITY_STRING = ''+''"

lemmas infinity_defs = NEGATIVE_INFINITY_NUMERIC_def POSITIVE_INFINITY_NUMERIC_def
  NEGATIVE_INFINITY_STRING_def POSITIVE_INFINITY_STRING_def

definition unbound :: "bytes \<Rightarrow> bytes" where "unbound bnd = ''('' @ bnd"
definition bound :: "bytes \<Rightarrow> bytes" where "bound bnd = ''['' @ bnd"

subsection \<open>Numeric intervals\<close>

definition unbounded_num :: interval where
  "unbounded_num = \<lparr>imin = NEGATIVE_INFINITY_NUMERIC, imax = POSITIVE_INFINITY_NUMERIC\<rparr>"

fun bounded_num :: "cdouble \<Rightarrow> cdouble \<Rightarrow> BoundType \<Rightarrow> fault + interval" where
  "bounded_num mn mx Closed = Inr \<lparr>imin = fmt_f mn, imax = fmt_f mx\<rparr>"
| "bounded_num mn mx Open = Inr \<lparr>imin = unbound (fmt_f mn), imax = unbound (fmt_f mx)\<rparr>"
| "bounded_num mn mx LeftOpen = Inr \<lparr>imin = unbound (fmt_f mn), imax = fmt_f mx\<rparr>"
| "bounded_num mn mx RightOpen = Inr \<lparr>imin = fmt_f mn, imax = unbound (fmt_f mx)\<rparr>"

fun left_bounded_num :: "cdouble \<Rightarrow> BoundType \<Rightarrow> fault + interval" where
  "left_bounded_num mn Open = Inr \<lparr>imin = unbound (fmt_f mn), imax = POSITIVE_INFINITY_NUMERIC\<rparr>"
| "left_bounded_num mn RightOpen = Inr \<lparr>imin = fmt_f mn, imax = POSITIVE_INFINITY_NUMERIC\<rparr>"
| "left_bounded_num mn _ = Inl (Throw (Error ''Bound type can only be OPEN or RIGHT_OPEN''))"

fun right_bounded_num :: "cdouble \<Rightarrow> BoundType \<Rightarrow> fault + interval" where
  "right_bounded_num mx Open = Inr \<lparr>imin = NEGATIVE_INFINITY_NUMERIC, imax = unbound (fmt_f mx)\<rparr>"
| "right_bounded_num mx LeftOpen = Inr \<lparr>imin = NEGATIVE_INFINITY_NUMERIC, imax = fmt_f mx\<rparr>"
| "right_bounded_num mx _ = Inl (Throw (Error ''Bound type can only be OPEN or LEFT_OPEN''))"

subsection \<open>Lexicographic intervals\<close>

definition unbounded_lex :: interval where
  "unbounded_lex = \<lparr>imin = NEGATIVE_INFINITY_STRING, imax = POSITIVE_INFINITY_STRING\<rparr>"

fun bounded_lex :: "bytes \<Rightarrow> bytes \<Rightarrow> BoundType \<Rightarrow> fault + interval" where
  "bounded_lex mn mx Closed = Inr \<lparr>imin = bound mn, imax = bound mx\<rparr>"
| "bounded_lex mn mx Open = Inr \<lparr>imin = unbound mn, imax = unbound mx\<rparr>"
| "bounded_lex mn mx LeftOpen = Inr \<lparr>imin = unbound mn, imax = bound mx\<rparr>"
| "bounded_lex mn mx RightOpen = Inr \<lparr>imin = bound mn, imax = unbound mx\<rparr>"

fun left_bounded_lex :: "bytes \<Rightarrow> BoundType \<Rightarrow> fault + interval" where
  "left_bounded_lex mn Open = Inr \<lparr>imin = unbound mn, imax = POSITIVE_INFINITY_STRING\<rparr>"
| "left_bounded_lex mn RightOpen = Inr \<lparr>imin = bound mn, imax = POSITIVE_INFINITY_STRING\<rparr>"
| "left_bounded_lex mn _ = Inl (Throw (Error ''Bound type can only be OPEN or RIGHT_OPEN''))"

fun right_bounded_lex :: "bytes \<Rightarrow> BoundType \<Rightarrow> fault + interval" where
  "right_bounded_lex mx Open = Inr \<lparr>imin = NEGATIVE_INFINITY_STRING, imax = unbound mx\<rparr>"
| "right_bounded_lex mx LeftOpen = Inr \<lparr>imin = NEGATIVE_INFINITY_STRING, imax = bound mx\<rparr>"
| "right_bounded_lex mx _ = Inl (Throw (Error ''Bound type can only be OPEN or LEFT_OPEN''))"

subsection \<open>What the server takes the texts to mean\<close>

text \<open>
  A lexicographic bound is \<open>-\<close>, \<open>+\<close>, \<open>[text\<close> or \<open>(text\<close>; bytes compare as unsigned numbers.
\<close>

fun byte_le :: "bytes \<Rightarrow> bytes \<Rightarrow> bool" where
  "byte_le [] _ = True"
| "byte_le (_ # _) [] = False"
| "byte_le (x # xs) (y # ys) =
    (let a = (of_char x :: nat); b = of_char y in a < b \<or> a = b \<and> byte_le xs ys)"

fun lex_lower :: "bytes \<Rightarrow> bytes \<Rightarrow> bool option" where
  "lex_lower (CHR ''['' # t) x = Some (byte_le t x)"
| "lex_lower (CHR ''('' # t) x = Some (byte_le t x \<and> t \<noteq> x)"
| "lex_lower t x = (if t = ''-'' then Some True else if t = ''+'' then Some False else None)"

fun lex_upper :: "bytes \<Rightarrow> bytes \<Rightarrow> bool option" where
  "lex_upper (CHR ''['' # t) x = Some (byte_le x t)"
| "lex_upper (CHR ''('' # t) x = Some (byte_le x t \<and> t \<noteq> x)"
| "lex_upper t x = (if t = ''+'' then Some True else if t = ''-'' then Some False else None)"

definition in_lex :: "interval \<Rightarrow> bytes \<Rightarrow> bool option" where
  "in_lex r x = (case (lex_lower (imin r) x, lex_upper (imax r) x) of
     (Some a, Some b) \<Rightarrow> Some (a \<and> b) | _ \<Rightarrow> None)"

definition lex_closed_below :: "BoundType \<Rightarrow> bool" where
  "lex_closed_below b \<longleftrightarrow> b = Closed \<or> b = RightOpen"

definition lex_closed_above :: "BoundType \<Rightarrow> bool" where
  "lex_closed_above b \<longleftrightarrow> b = Closed \<or> b = LeftOpen"

lemma in_lex_bounded: "\<exists>r. bounded_lex mn mx b = Inr r \<and>
    in_lex r x = Some ((byte_le mn x \<and> (lex_closed_below b \<or> mn \<noteq> x)) \<and>
                       (byte_le x mx \<and> (lex_closed_above b \<or> mx \<noteq> x)))"
  by (cases b) (auto simp: in_lex_def bound_def unbound_def lex_closed_below_def lex_closed_above_def)

lemma in_lex_unbounded: "in_lex unbounded_lex x = Some True"
  by (simp add: in_lex_def unbounded_lex_def infinity_defs)

lemma in_lex_left_bounded: "left_bounded_lex mn b = Inr r \<Longrightarrow>
    in_lex r x = Some (byte_le mn x \<and> (lex_closed_below b \<or> mn \<noteq> x))"
  by (cases b) (auto simp: in_lex_def bound_def unbound_def lex_closed_below_def infinity_defs)

lemma in_lex_right_bounded: "right_bounded_lex mx b = Inr r \<Longrightarrow>
    in_lex r x = Some (byte_le x mx \<and> (lex_closed_above b \<or> mx \<noteq> x))"
  by (cases b) (auto simp: in_lex_def bound_def unbound_def lex_closed_above_def infinity_defs)

end
