(* ===== verification/Cmd_Wire.thy ===== *)
theory Cmd_Wire
  imports Resp Cmd_Args Cmd_Options
begin

text \<open>
  What the command functions of \<open>src/commlib/redis/command.h\<close> and \<open>command.cpp\<close> share: the helper
  functions of namespace \<open>cmd::detail\<close> that append options, and the judgement \<open>sends\<close>.

  \<open>sends libc m argv\<close> says that the command function ran to its call of \<open>Connection::send\<close>, that
  this call produced a request, and that the server reads exactly the argument vector \<open>argv\<close> out
  of it.  A request that was formatted here is read back with the wire decoder of \<open>Resp\<close>, one that
  is passed on as a vector is the vector.  \<open>fits\<close> is the bound under which the \<open>int\<close> length of a
  formatted request does not wrap.
\<close>

subsection \<open>Option words\<close>

fun set_bitop :: "BitOp \<Rightarrow> cmd_args \<Rightarrow> cmd_args" where
  "set_bitop BitAnd args = put (VView ''AND'') (put (VView ''BITOP'') args)"
| "set_bitop BitOr args = put (VView ''OR'') (put (VView ''BITOP'') args)"
| "set_bitop BitXor args = put (VView ''XOR'') (put (VView ''BITOP'') args)"
| "set_bitop BitNot args = put (VView ''NOT'') (put (VView ''BITOP'') args)"

fun set_update_type :: "UpdateType \<Rightarrow> cmd_args \<Rightarrow> cmd_args" where
  "set_update_type UpdExist args = put (VView ''XX'') args"
| "set_update_type UpdNotExist args = put (VView ''NX'') args"
| "set_update_type UpdAlways args = args"

fun set_aggregation_type :: "Aggregation \<Rightarrow> cmd_args \<Rightarrow> cmd_args" where
  "set_aggregation_type AggSum args = put (VView ''SUM'') (put (VView ''AGGREGATE'') args)"
| "set_aggregation_type AggMin args = put (VView ''MIN'') (put (VView ''AGGREGATE'') args)"
| "set_aggregation_type AggMax args = put (VView ''MAX'') (put (VView ''AGGREGATE'') args)"

fun set_geo_unit :: "GeoUnit \<Rightarrow> cmd_args \<Rightarrow> cmd_args" where
  "set_geo_unit GeoM args = put (VView ''m'') args"
| "set_geo_unit GeoKm args = put (VView ''km'') args"
| "set_geo_unit GeoMi args = put (VView ''mi'') args"
| "set_geo_unit GeoFt args = put (VView ''ft'') args"

definition set_georadius_store_parameters ::
  "cdouble \<Rightarrow> GeoUnit \<Rightarrow> bytes \<Rightarrow> bool \<Rightarrow> int \<Rightarrow> cmd_args \<Rightarrow> cmd_args" where
  "set_georadius_store_parameters radius gunit destination store_dist count args =
     (let args = put (VDbl radius) args in
      let args = set_geo_unit gunit args in
      let args = puts [VView ''COUNT'', VInt count] args in
      let args = (if store_dist then put (VView ''STOREDIST'') args else put (VView ''STORE'') args) in
      put (VView destination) args)"

definition set_georadius_parameters ::
  "cdouble \<Rightarrow> GeoUnit \<Rightarrow> int \<Rightarrow> bool \<Rightarrow> bool \<Rightarrow> bool \<Rightarrow> bool \<Rightarrow> cmd_args \<Rightarrow> cmd_args" where
  "set_georadius_parameters radius gunit count asc with_coord with_dist with_hash args =
     (let args = put (VDbl radius) args in
      let args = set_geo_unit gunit args in
      let args = (if with_coord then put (VView ''WITHCOORD'') args else args) in
      let args = (if with_dist then put (VView ''WITHDIST'') args else args) in
      let args = (if with_hash then put (VView ''WITHHASH'') args else args) in
      let args = puts [VView ''COUNT'', VInt count] args in
      (if asc then put (VView ''ASC'') args else put (VView ''DESC'') args))"

fun range_length :: "crange \<Rightarrow> nat" where
  "range_length (Vals xs) = length xs"
| "range_length (Kvs xs) = length xs"

text \<open>The words each option stands for in the protocol.\<close>

fun bitop_word :: "BitOp \<Rightarrow> bytes" where
  "bitop_word BitAnd = ''AND''" | "bitop_word BitOr = ''OR''"
| "bitop_word BitXor = ''XOR''" | "bitop_word BitNot = ''NOT''"

fun update_words :: "UpdateType \<Rightarrow> bytes list" where
  "update_words UpdExist = [''XX'']" | "update_words UpdNotExist = [''NX'']" | "update_words UpdAlways = []"

fun aggr_word :: "Aggregation \<Rightarrow> bytes" where
  "aggr_word AggSum = ''SUM''" | "aggr_word AggMin = ''MIN''" | "aggr_word AggMax = ''MAX''"

fun unit_word :: "GeoUnit \<Rightarrow> bytes" where
  "unit_word GeoM = ''m''" | "unit_word GeoKm = ''km''" | "unit_word GeoMi = ''mi''" | "unit_word GeoFt = ''ft''"

definition flag :: "bool \<Rightarrow> bytes \<Rightarrow> bytes list" where
  "flag b w = (if b then [w] else [])"

lemma put_as_puts: "put v a = puts [v] a"
  by (simp add: puts.simps)

lemma args_wf_put: "args_wf a \<Longrightarrow> args_wf (put v a)"
  by (rule cmd_builder.inv_add)

lemma arg_view_put: "args_wf a \<Longrightarrow> arg_view (put v a) = arg_view a @ texts v"
  by (rule cmd_builder.view_add)

lemma args_wf_append_kvs: "args_wf a \<Longrightarrow> args_wf (append_kvs xs a)"
  using args_wf_put_range [of a "Kvs xs"] by (simp add: put_range.simps)

lemma arg_view_append_kvs: "args_wf a \<Longrightarrow>
    arg_view (append_kvs xs a) = arg_view a @ concat (map (\<lambda>(k, v). texts k @ texts v) xs)"
  using arg_view_put_range [of a "Kvs xs"] by (simp add: put_range.simps)

lemma resolve_wf: "args_wf a \<Longrightarrow> resolve a = map Some (arg_view a)"
proof -
  assume wf: "args_wf a"
  have "\<forall>x\<in>set (resolve a). x \<noteq> None"
    using wf by (auto simp: args_wf_def resolve_def list_all2_iff set_zip ref_ok_deref)
  then show ?thesis
    by (auto simp: arg_view_def intro!: nth_equalityI dest: nth_mem)
qed

lemma puts_range_resolve:
  "args_wf (put_range r (puts vs no_args)) \<and>
   resolve (put_range r (puts vs no_args)) = map Some (concat (map texts vs) @ range_texts r)"
  using resolve_wf [of "put_range r (puts vs no_args)"] by (simp add: args_simps)

lemma args_wf_set_bitop: "args_wf a \<Longrightarrow> args_wf (set_bitop op1 a)"
  by (cases op1) (simp_all add: args_wf_put)

lemma arg_view_set_bitop: "args_wf a \<Longrightarrow>
    arg_view (set_bitop op1 a) = arg_view a @ [''BITOP'', bitop_word op1]"
  by (cases op1) (simp_all add: args_wf_put arg_view_put)

lemma args_wf_set_update_type: "args_wf a \<Longrightarrow> args_wf (set_update_type u a)"
  by (cases u) (simp_all add: args_wf_put)

lemma arg_view_set_update_type: "args_wf a \<Longrightarrow>
    arg_view (set_update_type u a) = arg_view a @ update_words u"
  by (cases u) (simp_all add: args_wf_put arg_view_put)

lemma args_wf_set_aggregation: "args_wf a \<Longrightarrow> args_wf (set_aggregation_type g a)"
  by (cases g) (simp_all add: args_wf_put)

lemma arg_view_set_aggregation: "args_wf a \<Longrightarrow>
    arg_view (set_aggregation_type g a) = arg_view a @ [''AGGREGATE'', aggr_word g]"
  by (cases g) (simp_all add: args_wf_put arg_view_put)

lemma args_wf_set_geo_unit: "args_wf a \<Longrightarrow> args_wf (set_geo_unit g a)"
  by (cases g) (simp_all add: args_wf_put)

lemma arg_view_set_geo_unit: "args_wf a \<Longrightarrow> arg_view (set_geo_unit g a) = arg_view a @ [unit_word g]"
  by (cases g) (simp_all add: args_wf_put arg_view_put)

lemma if_distribs: "arg_view (if b then x else y) = (if b then arg_view x else arg_view y)"
  "args_wf (if b then x else y) = (if b then args_wf x else args_wf y)"
  by simp_all

lemmas cmd_args_simps = args_wf_put arg_view_put args_wf_append_kvs arg_view_append_kvs
  args_wf_set_bitop arg_view_set_bitop args_wf_set_update_type arg_view_set_update_type
  args_wf_set_aggregation arg_view_set_aggregation args_wf_set_geo_unit arg_view_set_geo_unit
  if_distribs flag_def

declare cmd_args_simps [wire_simps]

lemma geo_store_params:
  assumes "args_wf a"
  shows "args_wf (set_georadius_store_parameters r g d sd c a)"
    "arg_view (set_georadius_store_parameters r g d sd c a) = arg_view a @
       [fmt_f r, unit_word g, ''COUNT'', dec_int c, if sd then ''STOREDIST'' else ''STORE'', d]"
  using assms unfolding set_georadius_store_parameters_def Let_def
  by (simp_all add: wire_simps)

lemma geo_params:
  assumes "args_wf a"
  shows "args_wf (set_georadius_parameters r g c asc wc wd wh a)"
    "arg_view (set_georadius_parameters r g c asc wc wd wh a) = arg_view a @
       [fmt_f r, unit_word g] @ flag wc ''WITHCOORD'' @ flag wd ''WITHDIST'' @ flag wh ''WITHHASH'' @
       [''COUNT'', dec_int c, if asc then ''ASC'' else ''DESC'']"
  using assms unfolding set_georadius_parameters_def Let_def
  by (simp_all add: wire_simps)

declare geo_store_params [wire_simps] geo_params [wire_simps]

subsection \<open>What the server reads\<close>

fun request_argv :: "request \<Rightarrow> bytes list option" where
  "request_argv (ReqFormatted cmd) =
     (case resp_decode cmd of Some (argv, []) \<Rightarrow> Some argv | _ \<Rightarrow> None)"
| "request_argv (ReqArgv argv) = Some argv"

definition fits :: "bytes list \<Rightarrow> bool" where
  "fits argv \<longleftrightarrow> length (resp_encode argv) < 2 ^ 31 - 1"

definition sends :: "(bytes \<Rightarrow> varg \<Rightarrow> bytes) \<Rightarrow> fault + csend \<Rightarrow> bytes list \<Rightarrow> bool" where
  "sends libc m argv \<longleftrightarrow>
     (case rbind m (conn_send libc (\<lambda>_. True)) of
        Inr (Some req) \<Rightarrow> request_argv req = Some argv
      | _ \<Rightarrow> False)"

lemma request_argv_formatted: "request_argv (ReqFormatted (resp_encode argv)) = Some argv"
  using resp_codec.dec_enc [of argv "[]"] by simp

lemma sends_words:
  assumes "format = words_fmt ws" "ap = words_args ws" "argv = map word_text ws"
    and "\<forall>w\<in>set ws. word_ok w" "fits argv"
  shows "sends libc (Inr (SendFmt format ap)) argv"
  using assms conn_send_words [of ws libc] request_argv_formatted [of argv]
  by (simp add: sends_def fits_def)

lemma sends_args [wire_simps]: "sends libc (Inr (SendArgs a)) argv \<longleftrightarrow> a = argv"
  by (simp add: sends_def)

lemma sends_unique: "sends libc m argv \<Longrightarrow> sends libc m argv' \<Longrightarrow> argv = argv'"
  by (auto simp: sends_def split: sum.splits option.splits)

lemma sends_inj: "sends libc m argv \<Longrightarrow> sends libc m' argv' \<Longrightarrow> argv \<noteq> argv' \<Longrightarrow> m \<noteq> m'"
  using sends_unique by blast

lemma concat_map_concat: "concat (map f (concat (map g xs))) = concat (map (\<lambda>x. concat (map f (g x))) xs)"
  by (induction xs) auto

lemma concat_map_views [wire_simps]: "concat (map (texts \<circ> VView) xs) = xs"
  by (induction xs) auto

text \<open>Literal words.\<close>

definition lit :: "bytes \<Rightarrow> fitem list" where "lit s = map FLit s"

definition plain :: "bytes \<Rightarrow> bool" where
  "plain s \<longleftrightarrow> s \<noteq> [] \<and> list_all (\<lambda>c. c \<noteq> CHR '' '' \<and> c \<noteq> CHR ''%'' \<and> c \<noteq> nul) s"

lemma word_lit: "word_fmt (lit s) = s" "word_args (lit s) = []" "word_text (lit s) = s"
  "word_ok (lit s) = plain s"
  by (induction s)
    (auto simp: lit_def word_fmt_def word_args_def word_text_def word_ok_def plain_def list_all_iff)

lemma word_item: "word_fmt [x] = item_fmt x" "word_args [x] = item_args x" "word_text [x] = item_text x"
  "word_ok [x] = item_ok x"
  by (simp_all add: word_fmt_def word_args_def word_text_def word_ok_def)

lemmas word_simps = word_lit word_item words_args_def plain_def

end
