(* ===== verification/Cmd_Key.thy ===== *)
theory Cmd_Key
  imports Cmd_Wire
begin

text \<open>
  The connection, server and key commands of \<open>src/commlib/redis/command.h\<close>
  (lines 36--271, and \<open>restore\<close> of \<open>command.cpp\<close>): one definition \<open>cmd_<name>\<close> per
  function, giving what it passes to \<open>Connection::send\<close> or how it fails before that.  A lemma
  \<open>sends_<name>\<close> says which argument vector the server reads.
\<close>

subsection \<open>The functions\<close>

definition cmd_auth :: "bytes \<Rightarrow> fault + csend" where
  "cmd_auth password =
    Inr (SendFmt ''AUTH %b''
      [APtr password, ASize (length password)])"

definition cmd_echo :: "bytes \<Rightarrow> fault + csend" where
  "cmd_echo msg =
    Inr (SendFmt ''ECHO %b''
      [APtr msg, ASize (length msg)])"

definition cmd_ping :: "fault + csend" where
  "cmd_ping =
    Inr (SendFmt ''PING''
      [])"

definition cmd_quit :: "fault + csend" where
  "cmd_quit =
    Inr (SendFmt ''QUIT''
      [])"

definition cmd_ping_msg :: "bytes \<Rightarrow> fault + csend" where
  "cmd_ping_msg msg =
    Inr (SendFmt ''PING %b''
      [APtr msg, ASize (length msg)])"

definition cmd_select :: "int \<Rightarrow> fault + csend" where
  "cmd_select idx =
    Inr (SendFmt ''SELECT %lld''
      [ALLong idx])"

definition cmd_swapdb :: "int \<Rightarrow> int \<Rightarrow> fault + csend" where
  "cmd_swapdb idx1 idx2 =
    Inr (SendFmt ''SWAPDB %lld %lld''
      [ALLong idx1, ALLong idx2])"

definition cmd_bgrewriteaof :: "fault + csend" where
  "cmd_bgrewriteaof =
    Inr (SendFmt ''BGREWRITEAOF''
      [])"

definition cmd_bgsave :: "fault + csend" where
  "cmd_bgsave =
    Inr (SendFmt ''BGSAVE''
      [])"

definition cmd_dbsize :: "fault + csend" where
  "cmd_dbsize =
    Inr (SendFmt ''DBSIZE''
      [])"

definition cmd_flushall :: "bool \<Rightarrow> fault + csend" where
  "cmd_flushall async =
    (if async then Inr (SendFmt ''FLUSHALL ASYNC''
      [])
    else Inr (SendFmt ''FLUSHALL''
      []))"

definition cmd_flushdb :: "bool \<Rightarrow> fault + csend" where
  "cmd_flushdb async =
    (if async then Inr (SendFmt ''FLUSHDB ASYNC''
      [])
    else Inr (SendFmt ''FLUSHDB''
      []))"

definition cmd_info :: "fault + csend" where
  "cmd_info =
    Inr (SendFmt ''INFO''
      [])"

definition cmd_info_section :: "bytes \<Rightarrow> fault + csend" where
  "cmd_info_section section1 =
    Inr (SendFmt ''INFO %b''
      [APtr section1, ASize (length section1)])"

definition cmd_lastsave :: "fault + csend" where
  "cmd_lastsave =
    Inr (SendFmt ''LASTSAVE''
      [])"

definition cmd_save :: "fault + csend" where
  "cmd_save =
    Inr (SendFmt ''SAVE''
      [])"

definition cmd_del :: "bytes \<Rightarrow> fault + csend" where
  "cmd_del key =
    Inr (SendFmt ''DEL %b''
      [APtr key, ASize (length key)])"

definition cmd_del_range :: "crange \<Rightarrow> fault + csend" where
  "cmd_del_range rng =
    (if range_empty rng then Inl AssertFail else
    let args = put_range rng (put (VView ''DEL'') no_args) in
    Inr (sent_args args))"

definition cmd_dump :: "bytes \<Rightarrow> fault + csend" where
  "cmd_dump key =
    Inr (SendFmt ''DUMP %b''
      [APtr key, ASize (length key)])"

definition cmd_exists :: "bytes \<Rightarrow> fault + csend" where
  "cmd_exists key =
    Inr (SendFmt ''EXISTS %b''
      [APtr key, ASize (length key)])"

definition cmd_exists_range :: "crange \<Rightarrow> fault + csend" where
  "cmd_exists_range rng =
    (if range_empty rng then Inl AssertFail else
    let args = put_range rng (put (VView ''EXISTS'') no_args) in
    Inr (sent_args args))"

definition cmd_expire :: "bytes \<Rightarrow> int \<Rightarrow> fault + csend" where
  "cmd_expire key timeout =
    Inr (SendFmt ''EXPIRE %b %lld''
      [APtr key, ASize (length key), ALLong timeout])"

definition cmd_expireat :: "bytes \<Rightarrow> int \<Rightarrow> fault + csend" where
  "cmd_expireat key timestamp =
    Inr (SendFmt ''EXPIREAT %b %lld''
      [APtr key, ASize (length key), ALLong timestamp])"

definition cmd_keys :: "bytes \<Rightarrow> fault + csend" where
  "cmd_keys pattern =
    Inr (SendFmt ''KEYS %b''
      [APtr pattern, ASize (length pattern)])"

definition cmd_move :: "bytes \<Rightarrow> int \<Rightarrow> fault + csend" where
  "cmd_move key db =
    Inr (SendFmt ''MOVE %b %lld''
      [APtr key, ASize (length key), ALLong db])"

definition cmd_persist :: "bytes \<Rightarrow> fault + csend" where
  "cmd_persist key =
    Inr (SendFmt ''PERSIST %b''
      [APtr key, ASize (length key)])"

definition cmd_pexpire :: "bytes \<Rightarrow> int \<Rightarrow> fault + csend" where
  "cmd_pexpire key timeout =
    Inr (SendFmt ''PEXPIRE %b %lld''
      [APtr key, ASize (length key), ALLong timeout])"

definition cmd_pexpireat :: "bytes \<Rightarrow> int \<Rightarrow> fault + csend" where
  "cmd_pexpireat key timestamp =
    Inr (SendFmt ''PEXPIREAT %b %lld''
      [APtr key, ASize (length key), ALLong timestamp])"

definition cmd_pttl :: "bytes \<Rightarrow> fault + csend" where
  "cmd_pttl key =
    Inr (SendFmt ''PTTL %b''
      [APtr key, ASize (length key)])"

definition cmd_randomkey :: "fault + csend" where
  "cmd_randomkey =
    Inr (SendFmt ''RANDOMKEY''
      [])"

definition cmd_rename :: "bytes \<Rightarrow> bytes \<Rightarrow> fault + csend" where
  "cmd_rename key newkey =
    Inr (SendFmt ''RENAME %b %b''
      [APtr key, ASize (length key), APtr newkey, ASize (length newkey)])"

definition cmd_renamenx :: "bytes \<Rightarrow> bytes \<Rightarrow> fault + csend" where
  "cmd_renamenx key newkey =
    Inr (SendFmt ''RENAMENX %b %b''
      [APtr key, ASize (length key), APtr newkey, ASize (length newkey)])"

definition cmd_scan :: "int \<Rightarrow> bytes \<Rightarrow> int \<Rightarrow> fault + csend" where
  "cmd_scan cursor pattern count =
    Inr (SendFmt ''SCAN %lld MATCH %b COUNT %lld''
      [ALLong cursor, APtr pattern, ASize (length pattern), ALLong count])"

definition cmd_touch :: "bytes \<Rightarrow> fault + csend" where
  "cmd_touch key =
    Inr (SendFmt ''TOUCH %b''
      [APtr key, ASize (length key)])"

definition cmd_touch_range :: "crange \<Rightarrow> fault + csend" where
  "cmd_touch_range rng =
    (if range_empty rng then Inl AssertFail else
    let args = put_range rng (put (VView ''TOUCH'') no_args) in
    Inr (sent_args args))"

definition cmd_ttl :: "bytes \<Rightarrow> fault + csend" where
  "cmd_ttl key =
    Inr (SendFmt ''TTL %b''
      [APtr key, ASize (length key)])"

definition cmd_type :: "bytes \<Rightarrow> fault + csend" where
  "cmd_type key =
    Inr (SendFmt ''TYPE %b''
      [APtr key, ASize (length key)])"

definition cmd_unlink :: "bytes \<Rightarrow> fault + csend" where
  "cmd_unlink key =
    Inr (SendFmt ''UNLINK %b''
      [APtr key, ASize (length key)])"

definition cmd_unlink_range :: "crange \<Rightarrow> fault + csend" where
  "cmd_unlink_range rng =
    (if range_empty rng then Inl AssertFail else
    let args = put_range rng (put (VView ''UNLINK'') no_args) in
    Inr (sent_args args))"

definition cmd_wait :: "int \<Rightarrow> int \<Rightarrow> fault + csend" where
  "cmd_wait numslave timeout =
    Inr (SendFmt ''WAIT %lld %lld''
      [ALLong numslave, ALLong timeout])"

definition cmd_restore :: "bytes \<Rightarrow> bytes \<Rightarrow> int \<Rightarrow> bool \<Rightarrow> fault + csend" where
  "cmd_restore key val ttl replace =
    (let args = puts [VView ''RESTORE'', VView key, VInt ttl, VView val] no_args in
    let args = (if replace then put (VView ''REPLACE'') args else args) in
    Inr (sent_args args))"

subsection \<open>What the server reads\<close>

lemma sends_auth: "fits [''AUTH'', password] \<Longrightarrow>
    sends libc (cmd_auth password) [''AUTH'', password]"
  unfolding cmd_auth_def
  by (rule sends_words [where ws = "[lit ''AUTH'', [FB password]]"]) (simp_all add: word_simps)

lemma sends_echo: "fits [''ECHO'', msg] \<Longrightarrow>
    sends libc (cmd_echo msg) [''ECHO'', msg]"
  unfolding cmd_echo_def
  by (rule sends_words [where ws = "[lit ''ECHO'', [FB msg]]"]) (simp_all add: word_simps)

lemma sends_ping: "fits [''PING''] \<Longrightarrow>
    sends libc cmd_ping [''PING'']"
  unfolding cmd_ping_def
  by (rule sends_words [where ws = "[lit ''PING'']"]) (simp_all add: word_simps)

lemma sends_quit: "fits [''QUIT''] \<Longrightarrow>
    sends libc cmd_quit [''QUIT'']"
  unfolding cmd_quit_def
  by (rule sends_words [where ws = "[lit ''QUIT'']"]) (simp_all add: word_simps)

lemma sends_ping_msg: "fits [''PING'', msg] \<Longrightarrow>
    sends libc (cmd_ping_msg msg) [''PING'', msg]"
  unfolding cmd_ping_msg_def
  by (rule sends_words [where ws = "[lit ''PING'', [FB msg]]"]) (simp_all add: word_simps)

lemma sends_select: "fits [''SELECT'', dec_int idx] \<Longrightarrow>
    sends libc (cmd_select idx) [''SELECT'', dec_int idx]"
  unfolding cmd_select_def
  by (rule sends_words [where ws = "[lit ''SELECT'', [FLL idx]]"]) (simp_all add: word_simps)

lemma sends_swapdb: "fits [''SWAPDB'', dec_int idx1, dec_int idx2] \<Longrightarrow>
    sends libc (cmd_swapdb idx1 idx2) [''SWAPDB'', dec_int idx1, dec_int idx2]"
  unfolding cmd_swapdb_def
  by (rule sends_words [where ws = "[lit ''SWAPDB'', [FLL idx1], [FLL idx2]]"]) (simp_all add: word_simps)

lemma sends_bgrewriteaof: "fits [''BGREWRITEAOF''] \<Longrightarrow>
    sends libc cmd_bgrewriteaof [''BGREWRITEAOF'']"
  unfolding cmd_bgrewriteaof_def
  by (rule sends_words [where ws = "[lit ''BGREWRITEAOF'']"]) (simp_all add: word_simps)

lemma sends_bgsave: "fits [''BGSAVE''] \<Longrightarrow>
    sends libc cmd_bgsave [''BGSAVE'']"
  unfolding cmd_bgsave_def
  by (rule sends_words [where ws = "[lit ''BGSAVE'']"]) (simp_all add: word_simps)

lemma sends_dbsize: "fits [''DBSIZE''] \<Longrightarrow>
    sends libc cmd_dbsize [''DBSIZE'']"
  unfolding cmd_dbsize_def
  by (rule sends_words [where ws = "[lit ''DBSIZE'']"]) (simp_all add: word_simps)

lemma sends_flushall_on: "fits [''FLUSHALL'', ''ASYNC''] \<Longrightarrow>
    sends libc (cmd_flushall True) [''FLUSHALL'', ''ASYNC'']"
  unfolding cmd_flushall_def if_True if_False
  by (rule sends_words [where ws = "[lit ''FLUSHALL'', lit ''ASYNC'']"]) (simp_all add: word_simps)

lemma sends_flushall_off: "fits [''FLUSHALL''] \<Longrightarrow>
    sends libc (cmd_flushall False) [''FLUSHALL'']"
  unfolding cmd_flushall_def if_True if_False
  by (rule sends_words [where ws = "[lit ''FLUSHALL'']"]) (simp_all add: word_simps)

lemma sends_flushdb_on: "fits [''FLUSHDB'', ''ASYNC''] \<Longrightarrow>
    sends libc (cmd_flushdb True) [''FLUSHDB'', ''ASYNC'']"
  unfolding cmd_flushdb_def if_True if_False
  by (rule sends_words [where ws = "[lit ''FLUSHDB'', lit ''ASYNC'']"]) (simp_all add: word_simps)

lemma sends_flushdb_off: "fits [''FLUSHDB''] \<Longrightarrow>
    sends libc (cmd_flushdb False) [''FLUSHDB'']"
  unfolding cmd_flushdb_def if_True if_False
  by (rule sends_words [where ws = "[lit ''FLUSHDB'']"]) (simp_all add: word_simps)

lemma sends_info: "fits [''INFO''] \<Longrightarrow>
    sends libc cmd_info [''INFO'']"
  unfolding cmd_info_def
  by (rule sends_words [where ws = "[lit ''INFO'']"]) (simp_all add: word_simps)

lemma sends_info_section: "fits [''INFO'', section1] \<Longrightarrow>
    sends libc (cmd_info_section section1) [''INFO'', section1]"
  unfolding cmd_info_section_def
  by (rule sends_words [where ws = "[lit ''INFO'', [FB section1]]"]) (simp_all add: word_simps)

lemma sends_lastsave: "fits [''LASTSAVE''] \<Longrightarrow>
    sends libc cmd_lastsave [''LASTSAVE'']"
  unfolding cmd_lastsave_def
  by (rule sends_words [where ws = "[lit ''LASTSAVE'']"]) (simp_all add: word_simps)

lemma sends_save: "fits [''SAVE''] \<Longrightarrow>
    sends libc cmd_save [''SAVE'']"
  unfolding cmd_save_def
  by (rule sends_words [where ws = "[lit ''SAVE'']"]) (simp_all add: word_simps)

lemma sends_del: "fits [''DEL'', key] \<Longrightarrow>
    sends libc (cmd_del key) [''DEL'', key]"
  unfolding cmd_del_def
  by (rule sends_words [where ws = "[lit ''DEL'', [FB key]]"]) (simp_all add: word_simps)

lemma sends_del_range: "\<not> range_empty rng \<Longrightarrow> sends libc (cmd_del_range rng)
    (''DEL'' # range_texts rng)"
  by (simp add: cmd_del_range_def Let_def wire_simps)

lemma sends_dump: "fits [''DUMP'', key] \<Longrightarrow>
    sends libc (cmd_dump key) [''DUMP'', key]"
  unfolding cmd_dump_def
  by (rule sends_words [where ws = "[lit ''DUMP'', [FB key]]"]) (simp_all add: word_simps)

lemma sends_exists: "fits [''EXISTS'', key] \<Longrightarrow>
    sends libc (cmd_exists key) [''EXISTS'', key]"
  unfolding cmd_exists_def
  by (rule sends_words [where ws = "[lit ''EXISTS'', [FB key]]"]) (simp_all add: word_simps)

lemma sends_exists_range: "\<not> range_empty rng \<Longrightarrow> sends libc (cmd_exists_range rng)
    (''EXISTS'' # range_texts rng)"
  by (simp add: cmd_exists_range_def Let_def wire_simps)

lemma sends_expire: "fits [''EXPIRE'', key, dec_int timeout] \<Longrightarrow>
    sends libc (cmd_expire key timeout) [''EXPIRE'', key, dec_int timeout]"
  unfolding cmd_expire_def
  by (rule sends_words [where ws = "[lit ''EXPIRE'', [FB key], [FLL timeout]]"]) (simp_all add: word_simps)

lemma sends_expireat: "fits [''EXPIREAT'', key, dec_int timestamp] \<Longrightarrow>
    sends libc (cmd_expireat key timestamp) [''EXPIREAT'', key, dec_int timestamp]"
  unfolding cmd_expireat_def
  by (rule sends_words [where ws = "[lit ''EXPIREAT'', [FB key], [FLL timestamp]]"]) (simp_all add: word_simps)

lemma sends_keys: "fits [''KEYS'', pattern] \<Longrightarrow>
    sends libc (cmd_keys pattern) [''KEYS'', pattern]"
  unfolding cmd_keys_def
  by (rule sends_words [where ws = "[lit ''KEYS'', [FB pattern]]"]) (simp_all add: word_simps)

lemma sends_move: "fits [''MOVE'', key, dec_int db] \<Longrightarrow>
    sends libc (cmd_move key db) [''MOVE'', key, dec_int db]"
  unfolding cmd_move_def
  by (rule sends_words [where ws = "[lit ''MOVE'', [FB key], [FLL db]]"]) (simp_all add: word_simps)

lemma sends_persist: "fits [''PERSIST'', key] \<Longrightarrow>
    sends libc (cmd_persist key) [''PERSIST'', key]"
  unfolding cmd_persist_def
  by (rule sends_words [where ws = "[lit ''PERSIST'', [FB key]]"]) (simp_all add: word_simps)

lemma sends_pexpire: "fits [''PEXPIRE'', key, dec_int timeout] \<Longrightarrow>
    sends libc (cmd_pexpire key timeout) [''PEXPIRE'', key, dec_int timeout]"
  unfolding cmd_pexpire_def
  by (rule sends_words [where ws = "[lit ''PEXPIRE'', [FB key], [FLL timeout]]"]) (simp_all add: word_simps)

lemma sends_pexpireat: "fits [''PEXPIREAT'', key, dec_int timestamp] \<Longrightarrow>
    sends libc (cmd_pexpireat key timestamp) [''PEXPIREAT'', key, dec_int timestamp]"
  unfolding cmd_pexpireat_def
  by (rule sends_words [where ws = "[lit ''PEXPIREAT'', [FB key], [FLL timestamp]]"]) (simp_all add: word_simps)

lemma sends_pttl: "fits [''PTTL'', key] \<Longrightarrow>
    sends libc (cmd_pttl key) [''PTTL'', key]"
  unfolding cmd_pttl_def
  by (rule sends_words [where ws = "[lit ''PTTL'', [FB key]]"]) (simp_all add: word_simps)

lemma sends_randomkey: "fits [''RANDOMKEY''] \<Longrightarrow>
    sends libc cmd_randomkey [''RANDOMKEY'']"
  unfolding cmd_randomkey_def
  by (rule sends_words [where ws = "[lit ''RANDOMKEY'']"]) (simp_all add: word_simps)

lemma sends_rename: "fits [''RENAME'', key, newkey] \<Longrightarrow>
    sends libc (cmd_rename key newkey) [''RENAME'', key, newkey]"
  unfolding cmd_rename_def
  by (rule sends_words [where ws = "[lit ''RENAME'', [FB key], [FB newkey]]"]) (simp_all add: word_simps)

lemma sends_renamenx: "fits [''RENAMENX'', key, newkey] \<Longrightarrow>
    sends libc (cmd_renamenx key newkey) [''RENAMENX'', key, newkey]"
  unfolding cmd_renamenx_def
  by (rule sends_words [where ws = "[lit ''RENAMENX'', [FB key], [FB newkey]]"]) (simp_all add: word_simps)

lemma sends_scan: "fits [''SCAN'', dec_int cursor, ''MATCH'', pattern, ''COUNT'', dec_int count] \<Longrightarrow>
    sends libc (cmd_scan cursor pattern count) [''SCAN'', dec_int cursor, ''MATCH'', pattern, ''COUNT'', dec_int count]"
  unfolding cmd_scan_def
  by (rule sends_words [where ws = "[lit ''SCAN'', [FLL cursor], lit ''MATCH'', [FB pattern], lit ''COUNT'', [FLL count]]"]) (simp_all add: word_simps)

lemma sends_touch: "fits [''TOUCH'', key] \<Longrightarrow>
    sends libc (cmd_touch key) [''TOUCH'', key]"
  unfolding cmd_touch_def
  by (rule sends_words [where ws = "[lit ''TOUCH'', [FB key]]"]) (simp_all add: word_simps)

lemma sends_touch_range: "\<not> range_empty rng \<Longrightarrow> sends libc (cmd_touch_range rng)
    (''TOUCH'' # range_texts rng)"
  by (simp add: cmd_touch_range_def Let_def wire_simps)

lemma sends_ttl: "fits [''TTL'', key] \<Longrightarrow>
    sends libc (cmd_ttl key) [''TTL'', key]"
  unfolding cmd_ttl_def
  by (rule sends_words [where ws = "[lit ''TTL'', [FB key]]"]) (simp_all add: word_simps)

lemma sends_type: "fits [''TYPE'', key] \<Longrightarrow>
    sends libc (cmd_type key) [''TYPE'', key]"
  unfolding cmd_type_def
  by (rule sends_words [where ws = "[lit ''TYPE'', [FB key]]"]) (simp_all add: word_simps)

lemma sends_unlink: "fits [''UNLINK'', key] \<Longrightarrow>
    sends libc (cmd_unlink key) [''UNLINK'', key]"
  unfolding cmd_unlink_def
  by (rule sends_words [where ws = "[lit ''UNLINK'', [FB key]]"]) (simp_all add: word_simps)

lemma sends_unlink_range: "\<not> range_empty rng \<Longrightarrow> sends libc (cmd_unlink_range rng)
    (''UNLINK'' # range_texts rng)"
  by (simp add: cmd_unlink_range_def Let_def wire_simps)

lemma sends_wait: "fits [''WAIT'', dec_int numslave, dec_int timeout] \<Longrightarrow>
    sends libc (cmd_wait numslave timeout) [''WAIT'', dec_int numslave, dec_int timeout]"
  unfolding cmd_wait_def
  by (rule sends_words [where ws = "[lit ''WAIT'', [FLL numslave], [FLL timeout]]"]) (simp_all add: word_simps)

lemma sends_restore: "sends libc (cmd_restore key val ttl replace)
    (''RESTORE'' # key # dec_int ttl # val # flag replace ''REPLACE'')"
  by (simp add: cmd_restore_def Let_def wire_simps)

end
