(* ===== verification/Cmd_String.thy ===== *)
theory Cmd_String
  imports Cmd_Wire
begin

text \<open>
  The string commands of \<open>src/commlib/redis/command.h\<close>
  (lines 273--445 and \<open>bitop_range\<close>, and \<open>bitop\<close>, \<open>set\<close> of \<open>command.cpp\<close>): one definition \<open>cmd_<name>\<close> per
  function, giving what it passes to \<open>Connection::send\<close> or how it fails before that.  A lemma
  \<open>sends_<name>\<close> says which argument vector the server reads.
\<close>

subsection \<open>The functions\<close>

definition cmd_append :: "bytes \<Rightarrow> bytes \<Rightarrow> fault + csend" where
  "cmd_append key str1 =
    Inr (SendFmt ''APPEND %b %b''
      [APtr key, ASize (length key), APtr str1, ASize (length str1)])"

definition cmd_bitcount :: "bytes \<Rightarrow> int \<Rightarrow> int \<Rightarrow> fault + csend" where
  "cmd_bitcount key start stop1 =
    Inr (SendFmt ''BITCOUNT %b %lld %lld''
      [APtr key, ASize (length key), ALLong start, ALLong stop1])"

definition cmd_bitpos :: "bytes \<Rightarrow> int \<Rightarrow> int \<Rightarrow> int \<Rightarrow> fault + csend" where
  "cmd_bitpos key bit1 start stop1 =
    Inr (SendFmt ''BITPOS %b %lld %lld %lld''
      [APtr key, ASize (length key), ALLong bit1, ALLong start, ALLong stop1])"

definition cmd_decr :: "bytes \<Rightarrow> fault + csend" where
  "cmd_decr key =
    Inr (SendFmt ''DECR %b''
      [APtr key, ASize (length key)])"

definition cmd_decrby :: "bytes \<Rightarrow> int \<Rightarrow> fault + csend" where
  "cmd_decrby key decrement =
    Inr (SendFmt ''DECRBY %b %lld''
      [APtr key, ASize (length key), ALLong decrement])"

definition cmd_get :: "bytes \<Rightarrow> fault + csend" where
  "cmd_get key =
    Inr (SendFmt ''GET %b''
      [APtr key, ASize (length key)])"

definition cmd_getbit :: "bytes \<Rightarrow> int \<Rightarrow> fault + csend" where
  "cmd_getbit key offset =
    Inr (SendFmt ''GETBIT %b %lld''
      [APtr key, ASize (length key), ALLong offset])"

definition cmd_getrange :: "bytes \<Rightarrow> int \<Rightarrow> int \<Rightarrow> fault + csend" where
  "cmd_getrange key start stop1 =
    Inr (SendFmt ''GETRANGE %b %lld %lld''
      [APtr key, ASize (length key), ALLong start, ALLong stop1])"

definition cmd_getset :: "bytes \<Rightarrow> bytes \<Rightarrow> fault + csend" where
  "cmd_getset key val =
    Inr (SendFmt ''GETSET %b %b''
      [APtr key, ASize (length key), APtr val, ASize (length val)])"

definition cmd_incr :: "bytes \<Rightarrow> fault + csend" where
  "cmd_incr key =
    Inr (SendFmt ''INCR %b''
      [APtr key, ASize (length key)])"

definition cmd_incrby :: "bytes \<Rightarrow> int \<Rightarrow> fault + csend" where
  "cmd_incrby key increment =
    Inr (SendFmt ''INCRBY %b %lld''
      [APtr key, ASize (length key), ALLong increment])"

definition cmd_incrbyfloat :: "bytes \<Rightarrow> cdouble \<Rightarrow> fault + csend" where
  "cmd_incrbyfloat key increment =
    Inr (SendFmt ''INCRBYFLOAT %b %f''
      [APtr key, ASize (length key), ADbl increment])"

definition cmd_mget :: "crange \<Rightarrow> fault + csend" where
  "cmd_mget rng =
    (if range_empty rng then Inl AssertFail else
    let args = put_range rng (put (VView ''MGET'') no_args) in
    Inr (sent_args args))"

definition cmd_mset :: "crange \<Rightarrow> fault + csend" where
  "cmd_mset rng =
    (if range_empty rng then Inl AssertFail else
    let args = put_range rng (put (VView ''MSET'') no_args) in
    Inr (sent_args args))"

definition cmd_msetnx :: "crange \<Rightarrow> fault + csend" where
  "cmd_msetnx rng =
    (if range_empty rng then Inl AssertFail else
    let args = put_range rng (put (VView ''MSETNX'') no_args) in
    Inr (sent_args args))"

definition cmd_psetex :: "bytes \<Rightarrow> int \<Rightarrow> bytes \<Rightarrow> fault + csend" where
  "cmd_psetex key ttl val =
    Inr (SendFmt ''PSETEX %b %lld %b''
      [APtr key, ASize (length key), ALLong ttl, APtr val, ASize (length val)])"

definition cmd_setex :: "bytes \<Rightarrow> int \<Rightarrow> bytes \<Rightarrow> fault + csend" where
  "cmd_setex key ttl val =
    Inr (SendFmt ''SETEX %b %lld %b''
      [APtr key, ASize (length key), ALLong ttl, APtr val, ASize (length val)])"

definition cmd_setnx :: "bytes \<Rightarrow> bytes \<Rightarrow> fault + csend" where
  "cmd_setnx key val =
    Inr (SendFmt ''SETNX %b %b''
      [APtr key, ASize (length key), APtr val, ASize (length val)])"

definition cmd_setrange :: "bytes \<Rightarrow> int \<Rightarrow> bytes \<Rightarrow> fault + csend" where
  "cmd_setrange key offset val =
    Inr (SendFmt ''SETRANGE %b %lld %b''
      [APtr key, ASize (length key), ALLong offset, APtr val, ASize (length val)])"

definition cmd_strlen :: "bytes \<Rightarrow> fault + csend" where
  "cmd_strlen key =
    Inr (SendFmt ''STRLEN %b''
      [APtr key, ASize (length key)])"

definition cmd_bitop_range :: "BitOp \<Rightarrow> bytes \<Rightarrow> crange \<Rightarrow> fault + csend" where
  "cmd_bitop_range op1 destination rng =
    (if range_empty rng then Inl AssertFail else
    let args = set_bitop op1 no_args in
    let args = put_range rng (put (VView destination) args) in
    Inr (sent_args args))"

definition cmd_bitop :: "BitOp \<Rightarrow> bytes \<Rightarrow> bytes \<Rightarrow> fault + csend" where
  "cmd_bitop op1 destination key =
    (let args = set_bitop op1 no_args in
    let args = puts [VView destination, VView key] args in
    Inr (sent_args args))"

definition cmd_set :: "bytes \<Rightarrow> bytes \<Rightarrow> int \<Rightarrow> UpdateType \<Rightarrow> fault + csend" where
  "cmd_set key val ttl utype =
    (let args = puts [VView ''SET'', VView key, VView val] no_args in
    let args = (if 0 < ttl then puts [VView ''PX'', VInt ttl] args else args) in
    let args = set_update_type utype args in
    Inr (sent_args args))"

subsection \<open>What the server reads\<close>

lemma sends_append: "fits [''APPEND'', key, str1] \<Longrightarrow>
    sends libc (cmd_append key str1) [''APPEND'', key, str1]"
  unfolding cmd_append_def
  by (rule sends_words [where ws = "[lit ''APPEND'', [FB key], [FB str1]]"]) (simp_all add: word_simps)

lemma sends_bitcount: "fits [''BITCOUNT'', key, dec_int start, dec_int stop1] \<Longrightarrow>
    sends libc (cmd_bitcount key start stop1) [''BITCOUNT'', key, dec_int start, dec_int stop1]"
  unfolding cmd_bitcount_def
  by (rule sends_words [where ws = "[lit ''BITCOUNT'', [FB key], [FLL start], [FLL stop1]]"]) (simp_all add: word_simps)

lemma sends_bitpos: "fits [''BITPOS'', key, dec_int bit1, dec_int start, dec_int stop1] \<Longrightarrow>
    sends libc (cmd_bitpos key bit1 start stop1) [''BITPOS'', key, dec_int bit1, dec_int start, dec_int stop1]"
  unfolding cmd_bitpos_def
  by (rule sends_words [where ws = "[lit ''BITPOS'', [FB key], [FLL bit1], [FLL start], [FLL stop1]]"]) (simp_all add: word_simps)

lemma sends_decr: "fits [''DECR'', key] \<Longrightarrow>
    sends libc (cmd_decr key) [''DECR'', key]"
  unfolding cmd_decr_def
  by (rule sends_words [where ws = "[lit ''DECR'', [FB key]]"]) (simp_all add: word_simps)

lemma sends_decrby: "fits [''DECRBY'', key, dec_int decrement] \<Longrightarrow>
    sends libc (cmd_decrby key decrement) [''DECRBY'', key, dec_int decrement]"
  unfolding cmd_decrby_def
  by (rule sends_words [where ws = "[lit ''DECRBY'', [FB key], [FLL decrement]]"]) (simp_all add: word_simps)

lemma sends_get: "fits [''GET'', key] \<Longrightarrow>
    sends libc (cmd_get key) [''GET'', key]"
  unfolding cmd_get_def
  by (rule sends_words [where ws = "[lit ''GET'', [FB key]]"]) (simp_all add: word_simps)

lemma sends_getbit: "fits [''GETBIT'', key, dec_int offset] \<Longrightarrow>
    sends libc (cmd_getbit key offset) [''GETBIT'', key, dec_int offset]"
  unfolding cmd_getbit_def
  by (rule sends_words [where ws = "[lit ''GETBIT'', [FB key], [FLL offset]]"]) (simp_all add: word_simps)

lemma sends_getrange: "fits [''GETRANGE'', key, dec_int start, dec_int stop1] \<Longrightarrow>
    sends libc (cmd_getrange key start stop1) [''GETRANGE'', key, dec_int start, dec_int stop1]"
  unfolding cmd_getrange_def
  by (rule sends_words [where ws = "[lit ''GETRANGE'', [FB key], [FLL start], [FLL stop1]]"]) (simp_all add: word_simps)

lemma sends_getset: "fits [''GETSET'', key, val] \<Longrightarrow>
    sends libc (cmd_getset key val) [''GETSET'', key, val]"
  unfolding cmd_getset_def
  by (rule sends_words [where ws = "[lit ''GETSET'', [FB key], [FB val]]"]) (simp_all add: word_simps)

lemma sends_incr: "fits [''INCR'', key] \<Longrightarrow>
    sends libc (cmd_incr key) [''INCR'', key]"
  unfolding cmd_incr_def
  by (rule sends_words [where ws = "[lit ''INCR'', [FB key]]"]) (simp_all add: word_simps)

lemma sends_incrby: "fits [''INCRBY'', key, dec_int increment] \<Longrightarrow>
    sends libc (cmd_incrby key increment) [''INCRBY'', key, dec_int increment]"
  unfolding cmd_incrby_def
  by (rule sends_words [where ws = "[lit ''INCRBY'', [FB key], [FLL increment]]"]) (simp_all add: word_simps)

lemma sends_incrbyfloat: "fits [''INCRBYFLOAT'', key, fmt_f increment] \<Longrightarrow>
    sends libc (cmd_incrbyfloat key increment) [''INCRBYFLOAT'', key, fmt_f increment]"
  unfolding cmd_incrbyfloat_def
  by (rule sends_words [where ws = "[lit ''INCRBYFLOAT'', [FB key], [FD increment]]"]) (simp_all add: word_simps)

lemma sends_mget: "\<not> range_empty rng \<Longrightarrow> sends libc (cmd_mget rng)
    (''MGET'' # range_texts rng)"
  by (simp add: cmd_mget_def Let_def wire_simps)

lemma sends_mset: "\<not> range_empty rng \<Longrightarrow> sends libc (cmd_mset rng)
    (''MSET'' # range_texts rng)"
  by (simp add: cmd_mset_def Let_def wire_simps)

lemma sends_msetnx: "\<not> range_empty rng \<Longrightarrow> sends libc (cmd_msetnx rng)
    (''MSETNX'' # range_texts rng)"
  by (simp add: cmd_msetnx_def Let_def wire_simps)

lemma sends_psetex: "fits [''PSETEX'', key, dec_int ttl, val] \<Longrightarrow>
    sends libc (cmd_psetex key ttl val) [''PSETEX'', key, dec_int ttl, val]"
  unfolding cmd_psetex_def
  by (rule sends_words [where ws = "[lit ''PSETEX'', [FB key], [FLL ttl], [FB val]]"]) (simp_all add: word_simps)

lemma sends_setex: "fits [''SETEX'', key, dec_int ttl, val] \<Longrightarrow>
    sends libc (cmd_setex key ttl val) [''SETEX'', key, dec_int ttl, val]"
  unfolding cmd_setex_def
  by (rule sends_words [where ws = "[lit ''SETEX'', [FB key], [FLL ttl], [FB val]]"]) (simp_all add: word_simps)

lemma sends_setnx: "fits [''SETNX'', key, val] \<Longrightarrow>
    sends libc (cmd_setnx key val) [''SETNX'', key, val]"
  unfolding cmd_setnx_def
  by (rule sends_words [where ws = "[lit ''SETNX'', [FB key], [FB val]]"]) (simp_all add: word_simps)

lemma sends_setrange: "fits [''SETRANGE'', key, dec_int offset, val] \<Longrightarrow>
    sends libc (cmd_setrange key offset val) [''SETRANGE'', key, dec_int offset, val]"
  unfolding cmd_setrange_def
  by (rule sends_words [where ws = "[lit ''SETRANGE'', [FB key], [FLL offset], [FB val]]"]) (simp_all add: word_simps)

lemma sends_strlen: "fits [''STRLEN'', key] \<Longrightarrow>
    sends libc (cmd_strlen key) [''STRLEN'', key]"
  unfolding cmd_strlen_def
  by (rule sends_words [where ws = "[lit ''STRLEN'', [FB key]]"]) (simp_all add: word_simps)

lemma sends_bitop_range: "\<not> range_empty rng \<Longrightarrow> sends libc (cmd_bitop_range op1 destination rng)
    (''BITOP'' # bitop_word op1 # destination # range_texts rng)"
  by (simp add: cmd_bitop_range_def Let_def wire_simps)

lemma sends_bitop: "sends libc (cmd_bitop op1 destination key)
    [''BITOP'', bitop_word op1, destination, key]"
  by (simp add: cmd_bitop_def Let_def wire_simps)

lemma sends_set: "sends libc (cmd_set key val ttl utype)
    (''SET'' # key # val # (if 0 < ttl then [''PX'', dec_int ttl] else []) @ update_words utype)"
  by (simp add: cmd_set_def Let_def wire_simps)

end
