(* ===== verification/Cmd_List.thy ===== *)
theory Cmd_List
  imports Cmd_Wire
begin

text \<open>
  The list commands of \<open>src/commlib/redis/command.h\<close>
  (lines 447--619, and \<open>linsert\<close> of \<open>command.cpp\<close>): one definition \<open>cmd_<name>\<close> per
  function, giving what it passes to \<open>Connection::send\<close> or how it fails before that.  A lemma
  \<open>sends_<name>\<close> says which argument vector the server reads.
\<close>

subsection \<open>The functions\<close>

definition cmd_blpop :: "bytes \<Rightarrow> int \<Rightarrow> fault + csend" where
  "cmd_blpop key timeout =
    Inr (SendFmt ''BLPOP %b %lld''
      [APtr key, ASize (length key), ALLong timeout])"

definition cmd_blpop_range :: "crange \<Rightarrow> int \<Rightarrow> fault + csend" where
  "cmd_blpop_range rng timeout =
    (if range_empty rng then Inl AssertFail else
    let args = put (VInt timeout) (put_range rng (put (VView ''BLPOP'') no_args)) in
    Inr (sent_args args))"

definition cmd_brpop :: "bytes \<Rightarrow> int \<Rightarrow> fault + csend" where
  "cmd_brpop key timeout =
    Inr (SendFmt ''BRPOP %b %lld''
      [APtr key, ASize (length key), ALLong timeout])"

definition cmd_brpop_range :: "crange \<Rightarrow> int \<Rightarrow> fault + csend" where
  "cmd_brpop_range rng timeout =
    (if range_empty rng then Inl AssertFail else
    let args = put (VInt timeout) (put_range rng (put (VView ''BRPOP'') no_args)) in
    Inr (sent_args args))"

definition cmd_brpoplpush :: "bytes \<Rightarrow> bytes \<Rightarrow> int \<Rightarrow> fault + csend" where
  "cmd_brpoplpush src1 destination timeout =
    Inr (SendFmt ''BRPOPLPUSH %b %b %lld''
      [APtr src1, ASize (length src1), APtr destination, ASize (length destination), ALLong timeout])"

definition cmd_lindex :: "bytes \<Rightarrow> int \<Rightarrow> fault + csend" where
  "cmd_lindex key index1 =
    Inr (SendFmt ''LINDEX %b %lld''
      [APtr key, ASize (length key), ALLong index1])"

definition cmd_llen :: "bytes \<Rightarrow> fault + csend" where
  "cmd_llen key =
    Inr (SendFmt ''LLEN %b''
      [APtr key, ASize (length key)])"

definition cmd_lpop :: "bytes \<Rightarrow> fault + csend" where
  "cmd_lpop key =
    Inr (SendFmt ''LPOP %b''
      [APtr key, ASize (length key)])"

definition cmd_lpush :: "bytes \<Rightarrow> bytes \<Rightarrow> fault + csend" where
  "cmd_lpush key val =
    Inr (SendFmt ''LPUSH %b %b''
      [APtr key, ASize (length key), APtr val, ASize (length val)])"

definition cmd_lpush_range :: "bytes \<Rightarrow> crange \<Rightarrow> fault + csend" where
  "cmd_lpush_range key rng =
    (if range_empty rng then Inl AssertFail else
    let args = put_range rng (puts [VView ''LPUSH'', VView key] no_args) in
    Inr (sent_args args))"

definition cmd_lpushx :: "bytes \<Rightarrow> bytes \<Rightarrow> fault + csend" where
  "cmd_lpushx key val =
    Inr (SendFmt ''LPUSHX %b %b''
      [APtr key, ASize (length key), APtr val, ASize (length val)])"

definition cmd_lrange :: "bytes \<Rightarrow> int \<Rightarrow> int \<Rightarrow> fault + csend" where
  "cmd_lrange key start stop =
    Inr (SendFmt ''LRANGE %b %lld %lld''
      [APtr key, ASize (length key), ALLong start, ALLong stop])"

definition cmd_lrem :: "bytes \<Rightarrow> int \<Rightarrow> bytes \<Rightarrow> fault + csend" where
  "cmd_lrem key count val =
    Inr (SendFmt ''LREM %b %lld %b''
      [APtr key, ASize (length key), ALLong count, APtr val, ASize (length val)])"

definition cmd_lset :: "bytes \<Rightarrow> int \<Rightarrow> bytes \<Rightarrow> fault + csend" where
  "cmd_lset key index1 val =
    Inr (SendFmt ''LSET %b %lld %b''
      [APtr key, ASize (length key), ALLong index1, APtr val, ASize (length val)])"

definition cmd_ltrim :: "bytes \<Rightarrow> int \<Rightarrow> int \<Rightarrow> fault + csend" where
  "cmd_ltrim key start stop =
    Inr (SendFmt ''LTRIM %b %lld %lld''
      [APtr key, ASize (length key), ALLong start, ALLong stop])"

definition cmd_rpop :: "bytes \<Rightarrow> fault + csend" where
  "cmd_rpop key =
    Inr (SendFmt ''RPOP %b''
      [APtr key, ASize (length key)])"

definition cmd_rpoplpush :: "bytes \<Rightarrow> bytes \<Rightarrow> fault + csend" where
  "cmd_rpoplpush src1 destination =
    Inr (SendFmt ''RPOPLPUSH %b %b''
      [APtr src1, ASize (length src1), APtr destination, ASize (length destination)])"

definition cmd_rpush :: "bytes \<Rightarrow> bytes \<Rightarrow> fault + csend" where
  "cmd_rpush key val =
    Inr (SendFmt ''RPUSH %b %b''
      [APtr key, ASize (length key), APtr val, ASize (length val)])"

definition cmd_rpush_range :: "bytes \<Rightarrow> crange \<Rightarrow> fault + csend" where
  "cmd_rpush_range key rng =
    (if range_empty rng then Inl AssertFail else
    let args = put_range rng (puts [VView ''RPUSH'', VView key] no_args) in
    Inr (sent_args args))"

definition cmd_rpushx :: "bytes \<Rightarrow> bytes \<Rightarrow> fault + csend" where
  "cmd_rpushx key val =
    Inr (SendFmt ''RPUSHX %b %b''
      [APtr key, ASize (length key), APtr val, ASize (length val)])"

definition cmd_linsert :: "bytes \<Rightarrow> InsertPosition \<Rightarrow> bytes \<Rightarrow> bytes \<Rightarrow> fault + csend" where
  "cmd_linsert key position pivot val =
    (let pos = (case position of InsBefore \<Rightarrow> ''BEFORE'' | InsAfter \<Rightarrow> ''AFTER'') in
     Inr (SendFmt ''LINSERT %b %s %b %b''
       [APtr key, ASize (length key), APtr (pos @ [nul]), APtr pivot, ASize (length pivot),
        APtr val, ASize (length val)]))"

subsection \<open>What the server reads\<close>

lemma sends_blpop: "fits [''BLPOP'', key, dec_int timeout] \<Longrightarrow>
    sends libc (cmd_blpop key timeout) [''BLPOP'', key, dec_int timeout]"
  unfolding cmd_blpop_def
  by (rule sends_words [where ws = "[lit ''BLPOP'', [FB key], [FLL timeout]]"]) (simp_all add: word_simps)

lemma sends_blpop_range: "\<not> range_empty rng \<Longrightarrow> sends libc (cmd_blpop_range rng timeout)
    (''BLPOP'' # range_texts rng @ [dec_int timeout])"
  by (simp add: cmd_blpop_range_def Let_def wire_simps)

lemma sends_brpop: "fits [''BRPOP'', key, dec_int timeout] \<Longrightarrow>
    sends libc (cmd_brpop key timeout) [''BRPOP'', key, dec_int timeout]"
  unfolding cmd_brpop_def
  by (rule sends_words [where ws = "[lit ''BRPOP'', [FB key], [FLL timeout]]"]) (simp_all add: word_simps)

lemma sends_brpop_range: "\<not> range_empty rng \<Longrightarrow> sends libc (cmd_brpop_range rng timeout)
    (''BRPOP'' # range_texts rng @ [dec_int timeout])"
  by (simp add: cmd_brpop_range_def Let_def wire_simps)

lemma sends_brpoplpush: "fits [''BRPOPLPUSH'', src1, destination, dec_int timeout] \<Longrightarrow>
    sends libc (cmd_brpoplpush src1 destination timeout) [''BRPOPLPUSH'', src1, destination, dec_int timeout]"
  unfolding cmd_brpoplpush_def
  by (rule sends_words [where ws = "[lit ''BRPOPLPUSH'', [FB src1], [FB destination], [FLL timeout]]"]) (simp_all add: word_simps)

lemma sends_lindex: "fits [''LINDEX'', key, dec_int index1] \<Longrightarrow>
    sends libc (cmd_lindex key index1) [''LINDEX'', key, dec_int index1]"
  unfolding cmd_lindex_def
  by (rule sends_words [where ws = "[lit ''LINDEX'', [FB key], [FLL index1]]"]) (simp_all add: word_simps)

lemma sends_llen: "fits [''LLEN'', key] \<Longrightarrow>
    sends libc (cmd_llen key) [''LLEN'', key]"
  unfolding cmd_llen_def
  by (rule sends_words [where ws = "[lit ''LLEN'', [FB key]]"]) (simp_all add: word_simps)

lemma sends_lpop: "fits [''LPOP'', key] \<Longrightarrow>
    sends libc (cmd_lpop key) [''LPOP'', key]"
  unfolding cmd_lpop_def
  by (rule sends_words [where ws = "[lit ''LPOP'', [FB key]]"]) (simp_all add: word_simps)

lemma sends_lpush: "fits [''LPUSH'', key, val] \<Longrightarrow>
    sends libc (cmd_lpush key val) [''LPUSH'', key, val]"
  unfolding cmd_lpush_def
  by (rule sends_words [where ws = "[lit ''LPUSH'', [FB key], [FB val]]"]) (simp_all add: word_simps)

lemma sends_lpush_range: "\<not> range_empty rng \<Longrightarrow> sends libc (cmd_lpush_range key rng)
    (''LPUSH'' # key # range_texts rng)"
  by (simp add: cmd_lpush_range_def Let_def wire_simps)

lemma sends_lpushx: "fits [''LPUSHX'', key, val] \<Longrightarrow>
    sends libc (cmd_lpushx key val) [''LPUSHX'', key, val]"
  unfolding cmd_lpushx_def
  by (rule sends_words [where ws = "[lit ''LPUSHX'', [FB key], [FB val]]"]) (simp_all add: word_simps)

lemma sends_lrange: "fits [''LRANGE'', key, dec_int start, dec_int stop] \<Longrightarrow>
    sends libc (cmd_lrange key start stop) [''LRANGE'', key, dec_int start, dec_int stop]"
  unfolding cmd_lrange_def
  by (rule sends_words [where ws = "[lit ''LRANGE'', [FB key], [FLL start], [FLL stop]]"]) (simp_all add: word_simps)

lemma sends_lrem: "fits [''LREM'', key, dec_int count, val] \<Longrightarrow>
    sends libc (cmd_lrem key count val) [''LREM'', key, dec_int count, val]"
  unfolding cmd_lrem_def
  by (rule sends_words [where ws = "[lit ''LREM'', [FB key], [FLL count], [FB val]]"]) (simp_all add: word_simps)

lemma sends_lset: "fits [''LSET'', key, dec_int index1, val] \<Longrightarrow>
    sends libc (cmd_lset key index1 val) [''LSET'', key, dec_int index1, val]"
  unfolding cmd_lset_def
  by (rule sends_words [where ws = "[lit ''LSET'', [FB key], [FLL index1], [FB val]]"]) (simp_all add: word_simps)

lemma sends_ltrim: "fits [''LTRIM'', key, dec_int start, dec_int stop] \<Longrightarrow>
    sends libc (cmd_ltrim key start stop) [''LTRIM'', key, dec_int start, dec_int stop]"
  unfolding cmd_ltrim_def
  by (rule sends_words [where ws = "[lit ''LTRIM'', [FB key], [FLL start], [FLL stop]]"]) (simp_all add: word_simps)

lemma sends_rpop: "fits [''RPOP'', key] \<Longrightarrow>
    sends libc (cmd_rpop key) [''RPOP'', key]"
  unfolding cmd_rpop_def
  by (rule sends_words [where ws = "[lit ''RPOP'', [FB key]]"]) (simp_all add: word_simps)

lemma sends_rpoplpush: "fits [''RPOPLPUSH'', src1, destination] \<Longrightarrow>
    sends libc (cmd_rpoplpush src1 destination) [''RPOPLPUSH'', src1, destination]"
  unfolding cmd_rpoplpush_def
  by (rule sends_words [where ws = "[lit ''RPOPLPUSH'', [FB src1], [FB destination]]"]) (simp_all add: word_simps)

lemma sends_rpush: "fits [''RPUSH'', key, val] \<Longrightarrow>
    sends libc (cmd_rpush key val) [''RPUSH'', key, val]"
  unfolding cmd_rpush_def
  by (rule sends_words [where ws = "[lit ''RPUSH'', [FB key], [FB val]]"]) (simp_all add: word_simps)

lemma sends_rpush_range: "\<not> range_empty rng \<Longrightarrow> sends libc (cmd_rpush_range key rng)
    (''RPUSH'' # key # range_texts rng)"
  by (simp add: cmd_rpush_range_def Let_def wire_simps)

lemma sends_rpushx: "fits [''RPUSHX'', key, val] \<Longrightarrow>
    sends libc (cmd_rpushx key val) [''RPUSHX'', key, val]"
  unfolding cmd_rpushx_def
  by (rule sends_words [where ws = "[lit ''RPUSHX'', [FB key], [FB val]]"]) (simp_all add: word_simps)

definition insert_word :: "InsertPosition \<Rightarrow> bytes" where
  "insert_word position = (case position of InsBefore \<Rightarrow> ''BEFORE'' | InsAfter \<Rightarrow> ''AFTER'')"

lemma sends_linsert: "fits [''LINSERT'', key, insert_word position, pivot, val] \<Longrightarrow>
    sends libc (cmd_linsert key position pivot val) [''LINSERT'', key, insert_word position, pivot, val]"
  unfolding cmd_linsert_def Let_def
  by (rule sends_words [where ws = "[lit ''LINSERT'', [FB key], [FS (insert_word position)], [FB pivot], [FB val]]"])
    (cases position; simp add: word_simps insert_word_def)+

end
