(* ===== verification/Cmd_Hash.thy ===== *)
theory Cmd_Hash
  imports Cmd_Wire
begin

text \<open>
  The hash commands of \<open>src/commlib/redis/command.h\<close>
  (lines 621--754): one definition \<open>cmd_<name>\<close> per
  function, giving what it passes to \<open>Connection::send\<close> or how it fails before that.  A lemma
  \<open>sends_<name>\<close> says which argument vector the server reads.
\<close>

subsection \<open>The functions\<close>

definition cmd_hdel :: "bytes \<Rightarrow> bytes \<Rightarrow> fault + csend" where
  "cmd_hdel key field =
    Inr (SendFmt ''HDEL %b %b''
      [APtr key, ASize (length key), APtr field, ASize (length field)])"

definition cmd_hdel_range :: "bytes \<Rightarrow> crange \<Rightarrow> fault + csend" where
  "cmd_hdel_range key rng =
    (if range_empty rng then Inl AssertFail else
    let args = put_range rng (puts [VView ''HDEL'', VView key] no_args) in
    Inr (sent_args args))"

definition cmd_hexists :: "bytes \<Rightarrow> bytes \<Rightarrow> fault + csend" where
  "cmd_hexists key field =
    Inr (SendFmt ''HEXISTS %b %b''
      [APtr key, ASize (length key), APtr field, ASize (length field)])"

definition cmd_hget :: "bytes \<Rightarrow> bytes \<Rightarrow> fault + csend" where
  "cmd_hget key field =
    Inr (SendFmt ''HGET %b %b''
      [APtr key, ASize (length key), APtr field, ASize (length field)])"

definition cmd_hgetall :: "bytes \<Rightarrow> fault + csend" where
  "cmd_hgetall key =
    Inr (SendFmt ''HGETALL %b''
      [APtr key, ASize (length key)])"

definition cmd_hincrby :: "bytes \<Rightarrow> bytes \<Rightarrow> int \<Rightarrow> fault + csend" where
  "cmd_hincrby key field increment =
    Inr (SendFmt ''HINCRBY %b %b %lld''
      [APtr key, ASize (length key), APtr field, ASize (length field), ALLong increment])"

definition cmd_hincrbyfloat :: "bytes \<Rightarrow> bytes \<Rightarrow> cdouble \<Rightarrow> fault + csend" where
  "cmd_hincrbyfloat key field increment =
    Inr (SendFmt ''HINCRBYFLOAT %b %b %f''
      [APtr key, ASize (length key), APtr field, ASize (length field), ADbl increment])"

definition cmd_hkeys :: "bytes \<Rightarrow> fault + csend" where
  "cmd_hkeys key =
    Inr (SendFmt ''HKEYS %b''
      [APtr key, ASize (length key)])"

definition cmd_hlen :: "bytes \<Rightarrow> fault + csend" where
  "cmd_hlen key =
    Inr (SendFmt ''HLEN %b''
      [APtr key, ASize (length key)])"

definition cmd_hmget :: "bytes \<Rightarrow> crange \<Rightarrow> fault + csend" where
  "cmd_hmget key rng =
    (if range_empty rng then Inl AssertFail else
    let args = put_range rng (puts [VView ''HMGET'', VView key] no_args) in
    Inr (sent_args args))"

definition cmd_hmset :: "bytes \<Rightarrow> crange \<Rightarrow> fault + csend" where
  "cmd_hmset key rng =
    (if range_empty rng then Inl AssertFail else
    let args = put_range rng (puts [VView ''HMSET'', VView key] no_args) in
    Inr (sent_args args))"

definition cmd_hscan :: "bytes \<Rightarrow> int \<Rightarrow> bytes \<Rightarrow> int \<Rightarrow> fault + csend" where
  "cmd_hscan key cursor pattern count =
    Inr (SendFmt ''HSCAN %b %lld MATCH %b COUNT %lld''
      [APtr key, ASize (length key), ALLong cursor, APtr pattern, ASize (length pattern), ALLong count])"

definition cmd_hset :: "bytes \<Rightarrow> bytes \<Rightarrow> bytes \<Rightarrow> fault + csend" where
  "cmd_hset key field val =
    Inr (SendFmt ''HSET %b %b %b''
      [APtr key, ASize (length key), APtr field, ASize (length field), APtr val, ASize (length val)])"

definition cmd_hsetnx :: "bytes \<Rightarrow> bytes \<Rightarrow> bytes \<Rightarrow> fault + csend" where
  "cmd_hsetnx key field val =
    Inr (SendFmt ''HSETNX %b %b %b''
      [APtr key, ASize (length key), APtr field, ASize (length field), APtr val, ASize (length val)])"

definition cmd_hstrlen :: "bytes \<Rightarrow> bytes \<Rightarrow> fault + csend" where
  "cmd_hstrlen key field =
    Inr (SendFmt ''HSTRLEN %b %b''
      [APtr key, ASize (length key), APtr field, ASize (length field)])"

definition cmd_hvals :: "bytes \<Rightarrow> fault + csend" where
  "cmd_hvals key =
    Inr (SendFmt ''HVALS %b''
      [APtr key, ASize (length key)])"

subsection \<open>What the server reads\<close>

lemma sends_hdel: "fits [''HDEL'', key, field] \<Longrightarrow>
    sends libc (cmd_hdel key field) [''HDEL'', key, field]"
  unfolding cmd_hdel_def
  by (rule sends_words [where ws = "[lit ''HDEL'', [FB key], [FB field]]"]) (simp_all add: word_simps)

lemma sends_hdel_range: "\<not> range_empty rng \<Longrightarrow> sends libc (cmd_hdel_range key rng)
    (''HDEL'' # key # range_texts rng)"
  by (simp add: cmd_hdel_range_def Let_def wire_simps)

lemma sends_hexists: "fits [''HEXISTS'', key, field] \<Longrightarrow>
    sends libc (cmd_hexists key field) [''HEXISTS'', key, field]"
  unfolding cmd_hexists_def
  by (rule sends_words [where ws = "[lit ''HEXISTS'', [FB key], [FB field]]"]) (simp_all add: word_simps)

lemma sends_hget: "fits [''HGET'', key, field] \<Longrightarrow>
    sends libc (cmd_hget key field) [''HGET'', key, field]"
  unfolding cmd_hget_def
  by (rule sends_words [where ws = "[lit ''HGET'', [FB key], [FB field]]"]) (simp_all add: word_simps)

lemma sends_hgetall: "fits [''HGETALL'', key] \<Longrightarrow>
    sends libc (cmd_hgetall key) [''HGETALL'', key]"
  unfolding cmd_hgetall_def
  by (rule sends_words [where ws = "[lit ''HGETALL'', [FB key]]"]) (simp_all add: word_simps)

lemma sends_hincrby: "fits [''HINCRBY'', key, field, dec_int increment] \<Longrightarrow>
    sends libc (cmd_hincrby key field increment) [''HINCRBY'', key, field, dec_int increment]"
  unfolding cmd_hincrby_def
  by (rule sends_words [where ws = "[lit ''HINCRBY'', [FB key], [FB field], [FLL increment]]"]) (simp_all add: word_simps)

lemma sends_hincrbyfloat: "fits [''HINCRBYFLOAT'', key, field, fmt_f increment] \<Longrightarrow>
    sends libc (cmd_hincrbyfloat key field increment) [''HINCRBYFLOAT'', key, field, fmt_f increment]"
  unfolding cmd_hincrbyfloat_def
  by (rule sends_words [where ws = "[lit ''HINCRBYFLOAT'', [FB key], [FB field], [FD increment]]"]) (simp_all add: word_simps)

lemma sends_hkeys: "fits [''HKEYS'', key] \<Longrightarrow>
    sends libc (cmd_hkeys key) [''HKEYS'', key]"
  unfolding cmd_hkeys_def
  by (rule sends_words [where ws = "[lit ''HKEYS'', [FB key]]"]) (simp_all add: word_simps)

lemma sends_hlen: "fits [''HLEN'', key] \<Longrightarrow>
    sends libc (cmd_hlen key) [''HLEN'', key]"
  unfolding cmd_hlen_def
  by (rule sends_words [where ws = "[lit ''HLEN'', [FB key]]"]) (simp_all add: word_simps)

lemma sends_hmget: "\<not> range_empty rng \<Longrightarrow> sends libc (cmd_hmget key rng)
    (''HMGET'' # key # range_texts rng)"
  by (simp add: cmd_hmget_def Let_def wire_simps)

lemma sends_hmset: "\<not> range_empty rng \<Longrightarrow> sends libc (cmd_hmset key rng)
    (''HMSET'' # key # range_texts rng)"
  by (simp add: cmd_hmset_def Let_def wire_simps)

lemma sends_hscan: "fits [''HSCAN'', key, dec_int cursor, ''MATCH'', pattern, ''COUNT'', dec_int count] \<Longrightarrow>
    sends libc (cmd_hscan key cursor pattern count) [''HSCAN'', key, dec_int cursor, ''MATCH'', pattern, ''COUNT'', dec_int count]"
  unfolding cmd_hscan_def
  by (rule sends_words [where ws = "[lit ''HSCAN'', [FB key], [FLL cursor], lit ''MATCH'', [FB pattern], lit ''COUNT'', [FLL count]]"]) (simp_all add: word_simps)

lemma sends_hset: "fits [''HSET'', key, field, val] \<Longrightarrow>
    sends libc (cmd_hset key field val) [''HSET'', key, field, val]"
  unfolding cmd_hset_def
  by (rule sends_words [where ws = "[lit ''HSET'', [FB key], [FB field], [FB val]]"]) (simp_all add: word_simps)

lemma sends_hsetnx: "fits [''HSETNX'', key, field, val] \<Longrightarrow>
    sends libc (cmd_hsetnx key field val) [''HSETNX'', key, field, val]"
  unfolding cmd_hsetnx_def
  by (rule sends_words [where ws = "[lit ''HSETNX'', [FB key], [FB field], [FB val]]"]) (simp_all add: word_simps)

lemma sends_hstrlen: "fits [''HSTRLEN'', key, field] \<Longrightarrow>
    sends libc (cmd_hstrlen key field) [''HSTRLEN'', key, field]"
  unfolding cmd_hstrlen_def
  by (rule sends_words [where ws = "[lit ''HSTRLEN'', [FB key], [FB field]]"]) (simp_all add: word_simps)

lemma sends_hvals: "fits [''HVALS'', key] \<Longrightarrow>
    sends libc (cmd_hvals key) [''HVALS'', key]"
  unfolding cmd_hvals_def
  by (rule sends_words [where ws = "[lit ''HVALS'', [FB key]]"]) (simp_all add: word_simps)

end
