(* ===== verification/Cmd_Set.thy ===== *)
theory Cmd_Set
  imports Cmd_Wire
begin

text \<open>
  The set commands of \<open>src/commlib/redis/command.h\<close>
  (lines 756--949): one definition \<open>cmd_<name>\<close> per
  function, giving what it passes to \<open>Connection::send\<close> or how it fails before that.  A lemma
  \<open>sends_<name>\<close> says which argument vector the server reads.
\<close>

subsection \<open>The functions\<close>

definition cmd_sadd :: "bytes \<Rightarrow> bytes \<Rightarrow> fault + csend" where
  "cmd_sadd key mem =
    Inr (SendFmt ''SADD %b %b''
      [APtr key, ASize (length key), APtr mem, ASize (length mem)])"

definition cmd_sadd_range :: "bytes \<Rightarrow> crange \<Rightarrow> fault + csend" where
  "cmd_sadd_range key rng =
    (if range_empty rng then Inl AssertFail else
    let args = put_range rng (puts [VView ''SADD'', VView key] no_args) in
    Inr (sent_args args))"

definition cmd_scard :: "bytes \<Rightarrow> fault + csend" where
  "cmd_scard key =
    Inr (SendFmt ''SCARD %b''
      [APtr key, ASize (length key)])"

definition cmd_sdiff :: "crange \<Rightarrow> fault + csend" where
  "cmd_sdiff rng =
    (if range_empty rng then Inl AssertFail else
    let args = put_range rng (put (VView ''SDIFF'') no_args) in
    Inr (sent_args args))"

definition cmd_sdiffstore :: "bytes \<Rightarrow> bytes \<Rightarrow> fault + csend" where
  "cmd_sdiffstore destination key =
    Inr (SendFmt ''SDIFFSTORE %b %b''
      [APtr destination, ASize (length destination), APtr key, ASize (length key)])"

definition cmd_sdiffstore_range :: "bytes \<Rightarrow> crange \<Rightarrow> fault + csend" where
  "cmd_sdiffstore_range destination rng =
    (if range_empty rng then Inl AssertFail else
    let args = put_range rng (puts [VView ''SDIFFSTORE'', VView destination] no_args) in
    Inr (sent_args args))"

definition cmd_sinter :: "crange \<Rightarrow> fault + csend" where
  "cmd_sinter rng =
    (if range_empty rng then Inl AssertFail else
    let args = put_range rng (put (VView ''SINTER'') no_args) in
    Inr (sent_args args))"

definition cmd_sinterstore :: "bytes \<Rightarrow> bytes \<Rightarrow> fault + csend" where
  "cmd_sinterstore destination key =
    Inr (SendFmt ''SINTERSTORE %b %b''
      [APtr destination, ASize (length destination), APtr key, ASize (length key)])"

definition cmd_sinterstore_range :: "bytes \<Rightarrow> crange \<Rightarrow> fault + csend" where
  "cmd_sinterstore_range destination rng =
    (if range_empty rng then Inl AssertFail else
    let args = put_range rng (puts [VView ''SINTERSTORE'', VView destination] no_args) in
    Inr (sent_args args))"

definition cmd_sismember :: "bytes \<Rightarrow> bytes \<Rightarrow> fault + csend" where
  "cmd_sismember key mem =
    Inr (SendFmt ''SISMEMBER %b %b''
      [APtr key, ASize (length key), APtr mem, ASize (length mem)])"

definition cmd_smembers :: "bytes \<Rightarrow> fault + csend" where
  "cmd_smembers key =
    Inr (SendFmt ''SMEMBERS %b''
      [APtr key, ASize (length key)])"

definition cmd_smove :: "bytes \<Rightarrow> bytes \<Rightarrow> bytes \<Rightarrow> fault + csend" where
  "cmd_smove src1 destination mem =
    Inr (SendFmt ''SMOVE %b %b %b''
      [APtr src1, ASize (length src1), APtr destination, ASize (length destination), APtr mem, ASize (length mem)])"

definition cmd_spop :: "bytes \<Rightarrow> fault + csend" where
  "cmd_spop key =
    Inr (SendFmt ''SPOP %b''
      [APtr key, ASize (length key)])"

definition cmd_spop_range :: "bytes \<Rightarrow> int \<Rightarrow> fault + csend" where
  "cmd_spop_range key count =
    Inr (SendFmt ''SPOP %b %lld''
      [APtr key, ASize (length key), ALLong count])"

definition cmd_srandmember :: "bytes \<Rightarrow> fault + csend" where
  "cmd_srandmember key =
    Inr (SendFmt ''SRANDMEMBER %b''
      [APtr key, ASize (length key)])"

definition cmd_srandmember_range :: "bytes \<Rightarrow> int \<Rightarrow> fault + csend" where
  "cmd_srandmember_range key count =
    Inr (SendFmt ''SRANDMEMBER %b %lld''
      [APtr key, ASize (length key), ALLong count])"

definition cmd_srem :: "bytes \<Rightarrow> bytes \<Rightarrow> fault + csend" where
  "cmd_srem key mem =
    Inr (SendFmt ''SREM %b %b''
      [APtr key, ASize (length key), APtr mem, ASize (length mem)])"

definition cmd_srem_range :: "bytes \<Rightarrow> crange \<Rightarrow> fault + csend" where
  "cmd_srem_range key rng =
    (if range_empty rng then Inl AssertFail else
    let args = put_range rng (puts [VView ''SREM'', VView key] no_args) in
    Inr (sent_args args))"

definition cmd_sscan :: "bytes \<Rightarrow> int \<Rightarrow> bytes \<Rightarrow> int \<Rightarrow> fault + csend" where
  "cmd_sscan key cursor pattern count =
    Inr (SendFmt ''SSCAN %b %lld MATCH %b COUNT %lld''
      [APtr key, ASize (length key), ALLong cursor, APtr pattern, ASize (length pattern), ALLong count])"

definition cmd_sunion :: "crange \<Rightarrow> fault + csend" where
  "cmd_sunion rng =
    (if range_empty rng then Inl AssertFail else
    let args = put_range rng (put (VView ''SUNION'') no_args) in
    Inr (sent_args args))"

definition cmd_sunionstore :: "bytes \<Rightarrow> bytes \<Rightarrow> fault + csend" where
  "cmd_sunionstore destination key =
    Inr (SendFmt ''SUNIONSTORE %b %b''
      [APtr destination, ASize (length destination), APtr key, ASize (length key)])"

definition cmd_sunionstore_range :: "bytes \<Rightarrow> crange \<Rightarrow> fault + csend" where
  "cmd_sunionstore_range destination rng =
    (if range_empty rng then Inl AssertFail else
    let args = put_range rng (puts [VView ''SUNIONSTORE'', VView destination] no_args) in
    Inr (sent_args args))"

subsection \<open>What the server reads\<close>

lemma sends_sadd: "fits [''SADD'', key, mem] \<Longrightarrow>
    sends libc (cmd_sadd key mem) [''SADD'', key, mem]"
  unfolding cmd_sadd_def
  by (rule sends_words [where ws = "[lit ''SADD'', [FB key], [FB mem]]"]) (simp_all add: word_simps)

lemma sends_sadd_range: "\<not> range_empty rng \<Longrightarrow> sends libc (cmd_sadd_range key rng)
    (''SADD'' # key # range_texts rng)"
  by (simp add: cmd_sadd_range_def Let_def wire_simps)

lemma sends_scard: "fits [''SCARD'', key] \<Longrightarrow>
    sends libc (cmd_scard key) [''SCARD'', key]"
  unfolding cmd_scard_def
  by (rule sends_words [where ws = "[lit ''SCARD'', [FB key]]"]) (simp_all add: word_simps)

lemma sends_sdiff: "\<not> range_empty rng \<Longrightarrow> sends libc (cmd_sdiff rng)
    (''SDIFF'' # range_texts rng)"
  by (simp add: cmd_sdiff_def Let_def wire_simps)

lemma sends_sdiffstore: "fits [''SDIFFSTORE'', destination, key] \<Longrightarrow>
    sends libc (cmd_sdiffstore destination key) [''SDIFFSTORE'', destination, key]"
  unfolding cmd_sdiffstore_def
  by (rule sends_words [where ws = "[lit ''SDIFFSTORE'', [FB destination], [FB key]]"]) (simp_all add: word_simps)

lemma sends_sdiffstore_range: "\<not> range_empty rng \<Longrightarrow> sends libc (cmd_sdiffstore_range destination rng)
    (''SDIFFSTORE'' # destination # range_texts rng)"
  by (simp add: cmd_sdiffstore_range_def Let_def wire_simps)

lemma sends_sinter: "\<not> range_empty rng \<Longrightarrow> sends libc (cmd_sinter rng)
    (''SINTER'' # range_texts rng)"
  by (simp add: cmd_sinter_def Let_def wire_simps)

lemma sends_sinterstore: "fits [''SINTERSTORE'', destination, key] \<Longrightarrow>
    sends libc (cmd_sinterstore destination key) [''SINTERSTORE'', destination, key]"
  unfolding cmd_sinterstore_def
  by (rule sends_words [where ws = "[lit ''SINTERSTORE'', [FB destination], [FB key]]"]) (simp_all add: word_simps)

lemma sends_sinterstore_range: "\<not> range_empty rng \<Longrightarrow> sends libc (cmd_sinterstore_range destination rng)
    (''SINTERSTORE'' # destination # range_texts rng)"
  by (simp add: cmd_sinterstore_range_def Let_def wire_simps)

lemma sends_sismember: "fits [''SISMEMBER'', key, mem] \<Longrightarrow>
    sends libc (cmd_sismember key mem) [''SISMEMBER'', key, mem]"
  unfolding cmd_sismember_def
  by (rule sends_words [where ws = "[lit ''SISMEMBER'', [FB key], [FB mem]]"]) (simp_all add: word_simps)

lemma sends_smembers: "fits [''SMEMBERS'', key] \<Longrightarrow>
    sends libc (cmd_smembers key) [''SMEMBERS'', key]"
  unfolding cmd_smembers_def
  by (rule sends_words [where ws = "[lit ''SMEMBERS'', [FB key]]"]) (simp_all add: word_simps)

lemma sends_smove: "fits [''SMOVE'', src1, destination, mem] \<Longrightarrow>
    sends libc (cmd_smove src1 destination mem) [''SMOVE'', src1, destination, mem]"
  unfolding cmd_smove_def
  by (rule sends_words [where ws = "[lit ''SMOVE'', [FB src1], [FB destination], [FB mem]]"]) (simp_all add: word_simps)

lemma sends_spop: "fits [''SPOP'', key] \<Longrightarrow>
    sends libc (cmd_spop key) [''SPOP'', key]"
  unfolding cmd_spop_def
  by (rule sends_words [where ws = "[lit ''SPOP'', [FB key]]"]) (simp_all add: word_simps)

lemma sends_spop_range: "fits [''SPOP'', key, dec_int count] \<Longrightarrow>
    sends libc (cmd_spop_range key count) [''SPOP'', key, dec_int count]"
  unfolding cmd_spop_range_def
  by (rule sends_words [where ws = "[lit ''SPOP'', [FB key], [FLL count]]"]) (simp_all add: word_simps)

lemma sends_srandmember: "fits [''SRANDMEMBER'', key] \<Longrightarrow>
    sends libc (cmd_srandmember key) [''SRANDMEMBER'', key]"
  unfolding cmd_srandmember_def
  by (rule sends_words [where ws = "[lit ''SRANDMEMBER'', [FB key]]"]) (simp_all add: word_simps)

lemma sends_srandmember_range: "fits [''SRANDMEMBER'', key, dec_int count] \<Longrightarrow>
    sends libc (cmd_srandmember_range key count) [''SRANDMEMBER'', key, dec_int count]"
  unfolding cmd_srandmember_range_def
  by (rule sends_words [where ws = "[lit ''SRANDMEMBER'', [FB key], [FLL count]]"]) (simp_all add: word_simps)

lemma sends_srem: "fits [''SREM'', key, mem] \<Longrightarrow>
    sends libc (cmd_srem key mem) [''SREM'', key, mem]"
  unfolding cmd_srem_def
  by (rule sends_words [where ws = "[lit ''SREM'', [FB key], [FB mem]]"]) (simp_all add: word_simps)

lemma sends_srem_range: "\<not> range_empty rng \<Longrightarrow> sends libc (cmd_srem_range key rng)
    (''SREM'' # key # range_texts rng)"
  by (simp add: cmd_srem_range_def Let_def wire_simps)

lemma sends_sscan: "fits [''SSCAN'', key, dec_int cursor, ''MATCH'', pattern, ''COUNT'', dec_int count] \<Longrightarrow>
    sends libc (cmd_sscan key cursor pattern count) [''SSCAN'', key, dec_int cursor, ''MATCH'', pattern, ''COUNT'', dec_int count]"
  unfolding cmd_sscan_def
  by (rule sends_words [where ws = "[lit ''SSCAN'', [FB key], [FLL cursor], lit ''MATCH'', [FB pattern], lit ''COUNT'', [FLL count]]"]) (simp_all add: word_simps)

lemma sends_sunion: "\<not> range_empty rng \<Longrightarrow> sends libc (cmd_sunion rng)
    (''SUNION'' # range_texts rng)"
  by (simp add: cmd_sunion_def Let_def wire_simps)

lemma sends_sunionstore: "fits [''SUNIONSTORE'', destination, key] \<Longrightarrow>
    sends libc (cmd_sunionstore destination key) [''SUNIONSTORE'', destination, key]"
  unfolding cmd_sunionstore_def
  by (rule sends_words [where ws = "[lit ''SUNIONSTORE'', [FB destination], [FB key]]"]) (simp_all add: word_simps)

lemma sends_sunionstore_range: "\<not> range_empty rng \<Longrightarrow> sends libc (cmd_sunionstore_range destination rng)
    (''SUNIONSTORE'' # destination # range_texts rng)"
  by (simp add: cmd_sunionstore_range_def Let_def wire_simps)

end
