(* ===== verification/Cmd_Zset.thy ===== *)
theory Cmd_Zset
  imports Cmd_Wire
begin

text \<open>
  The sorted-set commands of \<open>src/commlib/redis/command.h\<close>
  (lines 953--1299, and the range variants at the end of the file): one definition \<open>cmd_<name>\<close> per
  function, giving what it passes to \<open>Connection::send\<close> or how it fails before that.  A lemma
  \<open>sends_<name>\<close> says which argument vector the server reads.
\<close>

subsection \<open>The functions\<close>

definition cmd_bzpopmax :: "bytes \<Rightarrow> int \<Rightarrow> fault + csend" where
  "cmd_bzpopmax key timeout =
    Inr (SendFmt ''BZPOPMAX %b %lld''
      [APtr key, ASize (length key), ALLong timeout])"

definition cmd_bzpopmax_range :: "crange \<Rightarrow> int \<Rightarrow> fault + csend" where
  "cmd_bzpopmax_range rng timeout =
    (if range_empty rng then Inl AssertFail else
    let args = put (VInt timeout) (put_range rng (put (VView ''BZPOPMAX'') no_args)) in
    Inr (sent_args args))"

definition cmd_bzpopmin :: "bytes \<Rightarrow> int \<Rightarrow> fault + csend" where
  "cmd_bzpopmin key timeout =
    Inr (SendFmt ''BZPOPMIN %b %lld''
      [APtr key, ASize (length key), ALLong timeout])"

definition cmd_bzpopmin_range :: "crange \<Rightarrow> int \<Rightarrow> fault + csend" where
  "cmd_bzpopmin_range rng timeout =
    (if range_empty rng then Inl AssertFail else
    let args = put (VInt timeout) (put_range rng (put (VView ''BZPOPMIN'') no_args)) in
    Inr (sent_args args))"

definition cmd_zcard :: "bytes \<Rightarrow> fault + csend" where
  "cmd_zcard key =
    Inr (SendFmt ''ZCARD %b''
      [APtr key, ASize (length key)])"

definition cmd_zcount :: "bytes \<Rightarrow> interval \<Rightarrow> fault + csend" where
  "cmd_zcount key ivl =
    Inr (SendFmt ''ZCOUNT %b %s %s''
      [APtr key, ASize (length key), APtr ((imin ivl) @ [nul]), APtr ((imax ivl) @ [nul])])"

definition cmd_zincrby :: "bytes \<Rightarrow> cdouble \<Rightarrow> bytes \<Rightarrow> fault + csend" where
  "cmd_zincrby key increment mem =
    Inr (SendFmt ''ZINCRBY %b %f %b''
      [APtr key, ASize (length key), ADbl increment, APtr mem, ASize (length mem)])"

definition cmd_zinterstore :: "bytes \<Rightarrow> bytes \<Rightarrow> cdouble \<Rightarrow> fault + csend" where
  "cmd_zinterstore destination key weight =
    Inr (SendFmt ''ZINTERSTORE %b 1 %b WEIGHTS %f''
      [APtr destination, ASize (length destination), APtr key, ASize (length key), ADbl weight])"

definition cmd_zlexcount :: "bytes \<Rightarrow> interval \<Rightarrow> fault + csend" where
  "cmd_zlexcount key ivl =
    Inr (SendFmt ''ZLEXCOUNT %b %b %b''
      [APtr key, ASize (length key), APtr (imin ivl), ASize (length (imin ivl)), APtr (imax ivl), ASize (length (imax ivl))])"

definition cmd_zpopmax :: "bytes \<Rightarrow> int \<Rightarrow> fault + csend" where
  "cmd_zpopmax key count =
    Inr (SendFmt ''ZPOPMAX %b %lld''
      [APtr key, ASize (length key), ALLong count])"

definition cmd_zpopmin :: "bytes \<Rightarrow> int \<Rightarrow> fault + csend" where
  "cmd_zpopmin key count =
    Inr (SendFmt ''ZPOPMIN %b %lld''
      [APtr key, ASize (length key), ALLong count])"

definition cmd_zrange :: "bytes \<Rightarrow> int \<Rightarrow> int \<Rightarrow> bool \<Rightarrow> fault + csend" where
  "cmd_zrange key start stop with_scores =
    (if with_scores then Inr (SendFmt ''ZRANGE %b %lld %lld WITHSCORES''
      [APtr key, ASize (length key), ALLong start, ALLong stop])
    else Inr (SendFmt ''ZRANGE %b %lld %lld''
      [APtr key, ASize (length key), ALLong start, ALLong stop]))"

definition cmd_zrangebylex :: "bytes \<Rightarrow> interval \<Rightarrow> LimitOptions \<Rightarrow> fault + csend" where
  "cmd_zrangebylex key ivl opts =
    Inr (SendFmt ''ZRANGEBYLEX %b %b %b LIMIT %lld %lld''
      [APtr key, ASize (length key), APtr (imin ivl), ASize (length (imin ivl)), APtr (imax ivl), ASize (length (imax ivl)), ALLong (limit_offset opts), ALLong (limit_count opts)])"

definition cmd_zrangebyscore :: "bytes \<Rightarrow> interval \<Rightarrow> LimitOptions \<Rightarrow> bool \<Rightarrow> fault + csend" where
  "cmd_zrangebyscore key ivl opts with_scores =
    (if with_scores then Inr (SendFmt ''ZRANGEBYSCORE %b %b %b WITHSCORES LIMIT %lld %lld''
      [APtr key, ASize (length key), APtr (imin ivl), ASize (length (imin ivl)), APtr (imax ivl), ASize (length (imax ivl)), ALLong (limit_offset opts), ALLong (limit_count opts)])
    else Inr (SendFmt ''ZRANGEBYSCORE %b %b %b LIMIT %lld %lld''
      [APtr key, ASize (length key), APtr (imin ivl), ASize (length (imin ivl)), APtr (imax ivl), ASize (length (imax ivl)), ALLong (limit_offset opts), ALLong (limit_count opts)]))"

definition cmd_zrank :: "bytes \<Rightarrow> bytes \<Rightarrow> fault + csend" where
  "cmd_zrank key mem =
    Inr (SendFmt ''ZRANK %b %b''
      [APtr key, ASize (length key), APtr mem, ASize (length mem)])"

definition cmd_zrem :: "bytes \<Rightarrow> bytes \<Rightarrow> fault + csend" where
  "cmd_zrem key mem =
    Inr (SendFmt ''ZREM %b %b''
      [APtr key, ASize (length key), APtr mem, ASize (length mem)])"

definition cmd_zrem_range :: "bytes \<Rightarrow> crange \<Rightarrow> fault + csend" where
  "cmd_zrem_range key rng =
    (if range_empty rng then Inl AssertFail else
    let args = put_range rng (puts [VView ''ZREM'', VView key] no_args) in
    Inr (sent_args args))"

definition cmd_zremrangebylex :: "bytes \<Rightarrow> interval \<Rightarrow> fault + csend" where
  "cmd_zremrangebylex key ivl =
    Inr (SendFmt ''ZREMRANGEBYLEX %b %b %b''
      [APtr key, ASize (length key), APtr (imin ivl), ASize (length (imin ivl)), APtr (imax ivl), ASize (length (imax ivl))])"

definition cmd_zremrangebyrank :: "bytes \<Rightarrow> int \<Rightarrow> int \<Rightarrow> fault + csend" where
  "cmd_zremrangebyrank key start stop =
    Inr (SendFmt ''zremrangebyrank %b %lld %lld''
      [APtr key, ASize (length key), ALLong start, ALLong stop])"

definition cmd_zremrangebyscore :: "bytes \<Rightarrow> interval \<Rightarrow> fault + csend" where
  "cmd_zremrangebyscore key ivl =
    Inr (SendFmt ''ZREMRANGEBYSCORE %b %b %b''
      [APtr key, ASize (length key), APtr (imin ivl), ASize (length (imin ivl)), APtr (imax ivl), ASize (length (imax ivl))])"

definition cmd_zrevrange :: "bytes \<Rightarrow> int \<Rightarrow> int \<Rightarrow> bool \<Rightarrow> fault + csend" where
  "cmd_zrevrange key start stop with_scores =
    (if with_scores then Inr (SendFmt ''ZREVRANGE %b %lld %lld WITHSCORES''
      [APtr key, ASize (length key), ALLong start, ALLong stop])
    else Inr (SendFmt ''ZREVRANGE %b %lld %lld''
      [APtr key, ASize (length key), ALLong start, ALLong stop]))"

definition cmd_zrevrangebylex :: "bytes \<Rightarrow> interval \<Rightarrow> LimitOptions \<Rightarrow> fault + csend" where
  "cmd_zrevrangebylex key ivl opts =
    Inr (SendFmt ''ZREVRANGEBYLEX %b %b %b LIMIT %lld %lld''
      [APtr key, ASize (length key), APtr (imax ivl), ASize (length (imax ivl)), APtr (imin ivl), ASize (length (imin ivl)), ALLong (limit_offset opts), ALLong (limit_count opts)])"

definition cmd_zrevrangebyscore :: "bytes \<Rightarrow> interval \<Rightarrow> LimitOptions \<Rightarrow> bool \<Rightarrow> fault + csend" where
  "cmd_zrevrangebyscore key ivl opts with_scores =
    (if with_scores then Inr (SendFmt ''ZREVRANGEBYSCORE %b %b %b WITHSCORES LIMIT %lld %lld''
      [APtr key, ASize (length key), APtr (imax ivl), ASize (length (imax ivl)), APtr (imin ivl), ASize (length (imin ivl)), ALLong (limit_offset opts), ALLong (limit_count opts)])
    else Inr (SendFmt ''ZREVRANGEBYSCORE %b %b %b LIMIT %lld %lld''
      [APtr key, ASize (length key), APtr (imax ivl), ASize (length (imax ivl)), APtr (imin ivl), ASize (length (imin ivl)), ALLong (limit_offset opts), ALLong (limit_count opts)]))"

definition cmd_zrevrank :: "bytes \<Rightarrow> bytes \<Rightarrow> fault + csend" where
  "cmd_zrevrank key mem =
    Inr (SendFmt ''ZREVRANK %b %b''
      [APtr key, ASize (length key), APtr mem, ASize (length mem)])"

definition cmd_zscan :: "bytes \<Rightarrow> int \<Rightarrow> bytes \<Rightarrow> int \<Rightarrow> fault + csend" where
  "cmd_zscan key cursor pattern count =
    Inr (SendFmt ''ZSCAN %b %lld MATCH %b COUNT %lld''
      [APtr key, ASize (length key), ALLong cursor, APtr pattern, ASize (length pattern), ALLong count])"

definition cmd_zscore :: "bytes \<Rightarrow> bytes \<Rightarrow> fault + csend" where
  "cmd_zscore key mem =
    Inr (SendFmt ''ZSCORE %b %b''
      [APtr key, ASize (length key), APtr mem, ASize (length mem)])"

definition cmd_zunionstore :: "bytes \<Rightarrow> bytes \<Rightarrow> cdouble \<Rightarrow> fault + csend" where
  "cmd_zunionstore destination key weight =
    Inr (SendFmt ''ZUNIONSTORE %b 1 %b WEIGHTS %f''
      [APtr destination, ASize (length destination), APtr key, ASize (length key), ADbl weight])"

definition cmd_zinterstore_vals :: "bytes \<Rightarrow> crange \<Rightarrow> Aggregation \<Rightarrow> fault + csend" where
  "cmd_zinterstore_vals destination rng aggr =
    (let args = put_range rng (puts [VView ''ZINTERSTORE'', VView destination, VInt (int (range_length rng))] no_args) in
    let args = set_aggregation_type aggr args in
    Inr (sent_args args))"

definition cmd_zinterstore_kvs :: "bytes \<Rightarrow> (cval \<times> cval) list \<Rightarrow> Aggregation \<Rightarrow> fault + csend" where
  "cmd_zinterstore_kvs destination rng aggr =
    (let args = puts [VView ''ZINTERSTORE'', VView destination, VInt (int (length rng))] no_args in
    let args = puts (map fst rng) args in
    let args = put (VView ''WEIGHTS'') args in
    let args = puts (map snd rng) args in
    let args = set_aggregation_type aggr args in
    Inr (sent_args args))"

definition cmd_zunionstore_vals :: "bytes \<Rightarrow> crange \<Rightarrow> Aggregation \<Rightarrow> fault + csend" where
  "cmd_zunionstore_vals destination rng aggr =
    (let args = put_range rng (puts [VView ''ZUNIONSTORE'', VView destination, VInt (int (range_length rng))] no_args) in
    let args = set_aggregation_type aggr args in
    Inr (sent_args args))"

definition cmd_zunionstore_kvs :: "bytes \<Rightarrow> (cval \<times> cval) list \<Rightarrow> Aggregation \<Rightarrow> fault + csend" where
  "cmd_zunionstore_kvs destination rng aggr =
    (let args = puts [VView ''ZUNIONSTORE'', VView destination, VInt (int (length rng))] no_args in
    let args = puts (map fst rng) args in
    let args = put (VView ''WEIGHTS'') args in
    let args = puts (map snd rng) args in
    let args = set_aggregation_type aggr args in
    Inr (sent_args args))"

definition cmd_zadd_range :: "bytes \<Rightarrow> (cval \<times> cval) list \<Rightarrow> UpdateType \<Rightarrow> bool \<Rightarrow> fault + csend" where
  "cmd_zadd_range key rng utype changed =
    (if rng = [] then Inl AssertFail else
    let args = puts [VView ''ZADD'', VView key] no_args in
    let args = set_update_type utype args in
    let args = (if changed then put (VView ''CH'') args else args) in
    let args = append_kvs (map (\<lambda>(m, sc). (sc, m)) rng) args in
    Inr (sent_args args))"

definition cmd_zadd :: "bytes \<Rightarrow> bytes \<Rightarrow> cdouble \<Rightarrow> UpdateType \<Rightarrow> bool \<Rightarrow> fault + csend" where
  "cmd_zadd key mem score utype changed =
    cmd_zadd_range key [(VView mem, VDbl score)] utype changed"

fun cmd_zinterstore_range :: "bytes \<Rightarrow> crange \<Rightarrow> Aggregation \<Rightarrow> fault + csend" where
  "cmd_zinterstore_range destination (Vals xs) aggr =
    (if xs = [] then Inl AssertFail else cmd_zinterstore_vals destination (Vals xs) aggr)"
| "cmd_zinterstore_range destination (Kvs xs) aggr =
    (if xs = [] then Inl AssertFail else cmd_zinterstore_kvs destination xs aggr)"

fun cmd_zunionstore_range :: "bytes \<Rightarrow> crange \<Rightarrow> Aggregation \<Rightarrow> fault + csend" where
  "cmd_zunionstore_range destination (Vals xs) aggr =
    (if xs = [] then Inl AssertFail else cmd_zunionstore_vals destination (Vals xs) aggr)"
| "cmd_zunionstore_range destination (Kvs xs) aggr =
    (if xs = [] then Inl AssertFail else cmd_zunionstore_kvs destination xs aggr)"

subsection \<open>What the server reads\<close>

lemma sends_bzpopmax: "fits [''BZPOPMAX'', key, dec_int timeout] \<Longrightarrow>
    sends libc (cmd_bzpopmax key timeout) [''BZPOPMAX'', key, dec_int timeout]"
  unfolding cmd_bzpopmax_def
  by (rule sends_words [where ws = "[lit ''BZPOPMAX'', [FB key], [FLL timeout]]"]) (simp_all add: word_simps)

lemma sends_bzpopmax_range: "\<not> range_empty rng \<Longrightarrow> sends libc (cmd_bzpopmax_range rng timeout)
    (''BZPOPMAX'' # range_texts rng @ [dec_int timeout])"
  by (simp add: cmd_bzpopmax_range_def Let_def wire_simps)

lemma sends_bzpopmin: "fits [''BZPOPMIN'', key, dec_int timeout] \<Longrightarrow>
    sends libc (cmd_bzpopmin key timeout) [''BZPOPMIN'', key, dec_int timeout]"
  unfolding cmd_bzpopmin_def
  by (rule sends_words [where ws = "[lit ''BZPOPMIN'', [FB key], [FLL timeout]]"]) (simp_all add: word_simps)

lemma sends_bzpopmin_range: "\<not> range_empty rng \<Longrightarrow> sends libc (cmd_bzpopmin_range rng timeout)
    (''BZPOPMIN'' # range_texts rng @ [dec_int timeout])"
  by (simp add: cmd_bzpopmin_range_def Let_def wire_simps)

lemma sends_zcard: "fits [''ZCARD'', key] \<Longrightarrow>
    sends libc (cmd_zcard key) [''ZCARD'', key]"
  unfolding cmd_zcard_def
  by (rule sends_words [where ws = "[lit ''ZCARD'', [FB key]]"]) (simp_all add: word_simps)

lemma sends_zcount: "\<lbrakk>fits [''ZCOUNT'', key, (imin ivl), (imax ivl)]; nul \<notin> set (imin ivl); nul \<notin> set (imax ivl)\<rbrakk> \<Longrightarrow>
    sends libc (cmd_zcount key ivl) [''ZCOUNT'', key, (imin ivl), (imax ivl)]"
  unfolding cmd_zcount_def
  by (rule sends_words [where ws = "[lit ''ZCOUNT'', [FB key], [FS (imin ivl)], [FS (imax ivl)]]"]) (simp_all add: word_simps)

lemma sends_zincrby: "fits [''ZINCRBY'', key, fmt_f increment, mem] \<Longrightarrow>
    sends libc (cmd_zincrby key increment mem) [''ZINCRBY'', key, fmt_f increment, mem]"
  unfolding cmd_zincrby_def
  by (rule sends_words [where ws = "[lit ''ZINCRBY'', [FB key], [FD increment], [FB mem]]"]) (simp_all add: word_simps)

lemma sends_zinterstore: "fits [''ZINTERSTORE'', destination, ''1'', key, ''WEIGHTS'', fmt_f weight] \<Longrightarrow>
    sends libc (cmd_zinterstore destination key weight) [''ZINTERSTORE'', destination, ''1'', key, ''WEIGHTS'', fmt_f weight]"
  unfolding cmd_zinterstore_def
  by (rule sends_words [where ws = "[lit ''ZINTERSTORE'', [FB destination], lit ''1'', [FB key], lit ''WEIGHTS'', [FD weight]]"]) (simp_all add: word_simps)

lemma sends_zlexcount: "fits [''ZLEXCOUNT'', key, (imin ivl), (imax ivl)] \<Longrightarrow>
    sends libc (cmd_zlexcount key ivl) [''ZLEXCOUNT'', key, (imin ivl), (imax ivl)]"
  unfolding cmd_zlexcount_def
  by (rule sends_words [where ws = "[lit ''ZLEXCOUNT'', [FB key], [FB (imin ivl)], [FB (imax ivl)]]"]) (simp_all add: word_simps)

lemma sends_zpopmax: "fits [''ZPOPMAX'', key, dec_int count] \<Longrightarrow>
    sends libc (cmd_zpopmax key count) [''ZPOPMAX'', key, dec_int count]"
  unfolding cmd_zpopmax_def
  by (rule sends_words [where ws = "[lit ''ZPOPMAX'', [FB key], [FLL count]]"]) (simp_all add: word_simps)

lemma sends_zpopmin: "fits [''ZPOPMIN'', key, dec_int count] \<Longrightarrow>
    sends libc (cmd_zpopmin key count) [''ZPOPMIN'', key, dec_int count]"
  unfolding cmd_zpopmin_def
  by (rule sends_words [where ws = "[lit ''ZPOPMIN'', [FB key], [FLL count]]"]) (simp_all add: word_simps)

lemma sends_zrange_on: "fits [''ZRANGE'', key, dec_int start, dec_int stop, ''WITHSCORES''] \<Longrightarrow>
    sends libc (cmd_zrange key start stop True) [''ZRANGE'', key, dec_int start, dec_int stop, ''WITHSCORES'']"
  unfolding cmd_zrange_def if_True if_False
  by (rule sends_words [where ws = "[lit ''ZRANGE'', [FB key], [FLL start], [FLL stop], lit ''WITHSCORES'']"]) (simp_all add: word_simps)

lemma sends_zrange_off: "fits [''ZRANGE'', key, dec_int start, dec_int stop] \<Longrightarrow>
    sends libc (cmd_zrange key start stop False) [''ZRANGE'', key, dec_int start, dec_int stop]"
  unfolding cmd_zrange_def if_True if_False
  by (rule sends_words [where ws = "[lit ''ZRANGE'', [FB key], [FLL start], [FLL stop]]"]) (simp_all add: word_simps)

lemma sends_zrangebylex: "fits [''ZRANGEBYLEX'', key, (imin ivl), (imax ivl), ''LIMIT'', dec_int (limit_offset opts), dec_int (limit_count opts)] \<Longrightarrow>
    sends libc (cmd_zrangebylex key ivl opts) [''ZRANGEBYLEX'', key, (imin ivl), (imax ivl), ''LIMIT'', dec_int (limit_offset opts), dec_int (limit_count opts)]"
  unfolding cmd_zrangebylex_def
  by (rule sends_words [where ws = "[lit ''ZRANGEBYLEX'', [FB key], [FB (imin ivl)], [FB (imax ivl)], lit ''LIMIT'', [FLL (limit_offset opts)], [FLL (limit_count opts)]]"]) (simp_all add: word_simps)

lemma sends_zrangebyscore_on: "fits [''ZRANGEBYSCORE'', key, (imin ivl), (imax ivl), ''WITHSCORES'', ''LIMIT'', dec_int (limit_offset opts), dec_int (limit_count opts)] \<Longrightarrow>
    sends libc (cmd_zrangebyscore key ivl opts True) [''ZRANGEBYSCORE'', key, (imin ivl), (imax ivl), ''WITHSCORES'', ''LIMIT'', dec_int (limit_offset opts), dec_int (limit_count opts)]"
  unfolding cmd_zrangebyscore_def if_True if_False
  by (rule sends_words [where ws = "[lit ''ZRANGEBYSCORE'', [FB key], [FB (imin ivl)], [FB (imax ivl)], lit ''WITHSCORES'', lit ''LIMIT'', [FLL (limit_offset opts)], [FLL (limit_count opts)]]"]) (simp_all add: word_simps)

lemma sends_zrangebyscore_off: "fits [''ZRANGEBYSCORE'', key, (imin ivl), (imax ivl), ''LIMIT'', dec_int (limit_offset opts), dec_int (limit_count opts)] \<Longrightarrow>
    sends libc (cmd_zrangebyscore key ivl opts False) [''ZRANGEBYSCORE'', key, (imin ivl), (imax ivl), ''LIMIT'', dec_int (limit_offset opts), dec_int (limit_count opts)]"
  unfolding cmd_zrangebyscore_def if_True if_False
  by (rule sends_words [where ws = "[lit ''ZRANGEBYSCORE'', [FB key], [FB (imin ivl)], [FB (imax ivl)], lit ''LIMIT'', [FLL (limit_offset opts)], [FLL (limit_count opts)]]"]) (simp_all add: word_simps)

lemma sends_zrank: "fits [''ZRANK'', key, mem] \<Longrightarrow>
    sends libc (cmd_zrank key mem) [''ZRANK'', key, mem]"
  unfolding cmd_zrank_def
  by (rule sends_words [where ws = "[lit ''ZRANK'', [FB key], [FB mem]]"]) (simp_all add: word_simps)

lemma sends_zrem: "fits [''ZREM'', key, mem] \<Longrightarrow>
    sends libc (cmd_zrem key mem) [''ZREM'', key, mem]"
  unfolding cmd_zrem_def
  by (rule sends_words [where ws = "[lit ''ZREM'', [FB key], [FB mem]]"]) (simp_all add: word_simps)

lemma sends_zrem_range: "\<not> range_empty rng \<Longrightarrow> sends libc (cmd_zrem_range key rng)
    (''ZREM'' # key # range_texts rng)"
  by (simp add: cmd_zrem_range_def Let_def wire_simps)

lemma sends_zremrangebylex: "fits [''ZREMRANGEBYLEX'', key, (imin ivl), (imax ivl)] \<Longrightarrow>
    sends libc (cmd_zremrangebylex key ivl) [''ZREMRANGEBYLEX'', key, (imin ivl), (imax ivl)]"
  unfolding cmd_zremrangebylex_def
  by (rule sends_words [where ws = "[lit ''ZREMRANGEBYLEX'', [FB key], [FB (imin ivl)], [FB (imax ivl)]]"]) (simp_all add: word_simps)

lemma sends_zremrangebyrank: "fits [''zremrangebyrank'', key, dec_int start, dec_int stop] \<Longrightarrow>
    sends libc (cmd_zremrangebyrank key start stop) [''zremrangebyrank'', key, dec_int start, dec_int stop]"
  unfolding cmd_zremrangebyrank_def
  by (rule sends_words [where ws = "[lit ''zremrangebyrank'', [FB key], [FLL start], [FLL stop]]"]) (simp_all add: word_simps)

lemma sends_zremrangebyscore: "fits [''ZREMRANGEBYSCORE'', key, (imin ivl), (imax ivl)] \<Longrightarrow>
    sends libc (cmd_zremrangebyscore key ivl) [''ZREMRANGEBYSCORE'', key, (imin ivl), (imax ivl)]"
  unfolding cmd_zremrangebyscore_def
  by (rule sends_words [where ws = "[lit ''ZREMRANGEBYSCORE'', [FB key], [FB (imin ivl)], [FB (imax ivl)]]"]) (simp_all add: word_simps)

lemma sends_zrevrange_on: "fits [''ZREVRANGE'', key, dec_int start, dec_int stop, ''WITHSCORES''] \<Longrightarrow>
    sends libc (cmd_zrevrange key start stop True) [''ZREVRANGE'', key, dec_int start, dec_int stop, ''WITHSCORES'']"
  unfolding cmd_zrevrange_def if_True if_False
  by (rule sends_words [where ws = "[lit ''ZREVRANGE'', [FB key], [FLL start], [FLL stop], lit ''WITHSCORES'']"]) (simp_all add: word_simps)

lemma sends_zrevrange_off: "fits [''ZREVRANGE'', key, dec_int start, dec_int stop] \<Longrightarrow>
    sends libc (cmd_zrevrange key start stop False) [''ZREVRANGE'', key, dec_int start, dec_int stop]"
  unfolding cmd_zrevrange_def if_True if_False
  by (rule sends_words [where ws = "[lit ''ZREVRANGE'', [FB key], [FLL start], [FLL stop]]"]) (simp_all add: word_simps)

lemma sends_zrevrangebylex: "fits [''ZREVRANGEBYLEX'', key, (imax ivl), (imin ivl), ''LIMIT'', dec_int (limit_offset opts), dec_int (limit_count opts)] \<Longrightarrow>
    sends libc (cmd_zrevrangebylex key ivl opts) [''ZREVRANGEBYLEX'', key, (imax ivl), (imin ivl), ''LIMIT'', dec_int (limit_offset opts), dec_int (limit_count opts)]"
  unfolding cmd_zrevrangebylex_def
  by (rule sends_words [where ws = "[lit ''ZREVRANGEBYLEX'', [FB key], [FB (imax ivl)], [FB (imin ivl)], lit ''LIMIT'', [FLL (limit_offset opts)], [FLL (limit_count opts)]]"]) (simp_all add: word_simps)

lemma sends_zrevrangebyscore_on: "fits [''ZREVRANGEBYSCORE'', key, (imax ivl), (imin ivl), ''WITHSCORES'', ''LIMIT'', dec_int (limit_offset opts), dec_int (limit_count opts)] \<Longrightarrow>
    sends libc (cmd_zrevrangebyscore key ivl opts True) [''ZREVRANGEBYSCORE'', key, (imax ivl), (imin ivl), ''WITHSCORES'', ''LIMIT'', dec_int (limit_offset opts), dec_int (limit_count opts)]"
  unfolding cmd_zrevrangebyscore_def if_True if_False
  by (rule sends_words [where ws = "[lit ''ZREVRANGEBYSCORE'', [FB key], [FB (imax ivl)], [FB (imin ivl)], lit ''WITHSCORES'', lit ''LIMIT'', [FLL (limit_offset opts)], [FLL (limit_count opts)]]"]) (simp_all add: word_simps)

lemma sends_zrevrangebyscore_off: "fits [''ZREVRANGEBYSCORE'', key, (imax ivl), (imin ivl), ''LIMIT'', dec_int (limit_offset opts), dec_int (limit_count opts)] \<Longrightarrow>
    sends libc (cmd_zrevrangebyscore key ivl opts False) [''ZREVRANGEBYSCORE'', key, (imax ivl), (imin ivl), ''LIMIT'', dec_int (limit_offset opts), dec_int (limit_count opts)]"
  unfolding cmd_zrevrangebyscore_def if_True if_False
  by (rule sends_words [where ws = "[lit ''ZREVRANGEBYSCORE'', [FB key], [FB (imax ivl)], [FB (imin ivl)], lit ''LIMIT'', [FLL (limit_offset opts)], [FLL (limit_count opts)]]"]) (simp_all add: word_simps)

lemma sends_zrevrank: "fits [''ZREVRANK'', key, mem] \<Longrightarrow>
    sends libc (cmd_zrevrank key mem) [''ZREVRANK'', key, mem]"
  unfolding cmd_zrevrank_def
  by (rule sends_words [where ws = "[lit ''ZREVRANK'', [FB key], [FB mem]]"]) (simp_all add: word_simps)

lemma sends_zscan: "fits [''ZSCAN'', key, dec_int cursor, ''MATCH'', pattern, ''COUNT'', dec_int count] \<Longrightarrow>
    sends libc (cmd_zscan key cursor pattern count) [''ZSCAN'', key, dec_int cursor, ''MATCH'', pattern, ''COUNT'', dec_int count]"
  unfolding cmd_zscan_def
  by (rule sends_words [where ws = "[lit ''ZSCAN'', [FB key], [FLL cursor], lit ''MATCH'', [FB pattern], lit ''COUNT'', [FLL count]]"]) (simp_all add: word_simps)

lemma sends_zscore: "fits [''ZSCORE'', key, mem] \<Longrightarrow>
    sends libc (cmd_zscore key mem) [''ZSCORE'', key, mem]"
  unfolding cmd_zscore_def
  by (rule sends_words [where ws = "[lit ''ZSCORE'', [FB key], [FB mem]]"]) (simp_all add: word_simps)

lemma sends_zunionstore: "fits [''ZUNIONSTORE'', destination, ''1'', key, ''WEIGHTS'', fmt_f weight] \<Longrightarrow>
    sends libc (cmd_zunionstore destination key weight) [''ZUNIONSTORE'', destination, ''1'', key, ''WEIGHTS'', fmt_f weight]"
  unfolding cmd_zunionstore_def
  by (rule sends_words [where ws = "[lit ''ZUNIONSTORE'', [FB destination], lit ''1'', [FB key], lit ''WEIGHTS'', [FD weight]]"]) (simp_all add: word_simps)

lemma sends_zinterstore_vals: "sends libc (cmd_zinterstore_vals destination rng aggr)
    (''ZINTERSTORE'' # destination # dec_int (int (range_length rng)) # range_texts rng @ [''AGGREGATE'', aggr_word aggr])"
  by (simp add: cmd_zinterstore_vals_def Let_def wire_simps)

lemma sends_zinterstore_kvs: "sends libc (cmd_zinterstore_kvs destination rng aggr)
    (''ZINTERSTORE'' # destination # dec_int (int (length rng)) # concat (map (texts \<circ> fst) rng) @ ''WEIGHTS'' # concat (map (texts \<circ> snd) rng) @ [''AGGREGATE'', aggr_word aggr])"
  by (simp add: cmd_zinterstore_kvs_def Let_def wire_simps split_def comp_def concat_map_concat)

lemma sends_zunionstore_vals: "sends libc (cmd_zunionstore_vals destination rng aggr)
    (''ZUNIONSTORE'' # destination # dec_int (int (range_length rng)) # range_texts rng @ [''AGGREGATE'', aggr_word aggr])"
  by (simp add: cmd_zunionstore_vals_def Let_def wire_simps)

lemma sends_zunionstore_kvs: "sends libc (cmd_zunionstore_kvs destination rng aggr)
    (''ZUNIONSTORE'' # destination # dec_int (int (length rng)) # concat (map (texts \<circ> fst) rng) @ ''WEIGHTS'' # concat (map (texts \<circ> snd) rng) @ [''AGGREGATE'', aggr_word aggr])"
  by (simp add: cmd_zunionstore_kvs_def Let_def wire_simps split_def comp_def concat_map_concat)

lemma sends_zadd_range: "rng \<noteq> [] \<Longrightarrow> sends libc (cmd_zadd_range key rng utype changed)
    (''ZADD'' # key # update_words utype @ flag changed ''CH'' @ concat (map (\<lambda>(m, sc). texts sc @ texts m) rng))"
  by (simp add: cmd_zadd_range_def Let_def wire_simps split_def comp_def concat_map_concat)

lemma sends_zadd: "sends libc (cmd_zadd key mem score utype changed)
    (''ZADD'' # key # update_words utype @ flag changed ''CH'' @ [fmt_f score, mem])"
  using sends_zadd_range [of "[(VView mem, VDbl score)]" libc key utype changed]
  by (simp add: cmd_zadd_def)

text \<open>A range of pairs becomes the keys and then their weights, a range of keys only the keys.\<close>

fun weighted_args :: "crange \<Rightarrow> bytes list" where
  "weighted_args (Vals xs) = concat (map texts xs)"
| "weighted_args (Kvs xs) =
     concat (map (texts \<circ> fst) xs) @ [''WEIGHTS''] @ concat (map (texts \<circ> snd) xs)"

lemma sends_zinterstore_range: "\<not> range_empty rng \<Longrightarrow>
    sends libc (cmd_zinterstore_range destination rng aggr)
      (''ZINTERSTORE'' # destination # dec_int (int (range_length rng)) # weighted_args rng @
       [''AGGREGATE'', aggr_word aggr])"
  using sends_zinterstore_vals [of libc destination rng aggr]
    sends_zinterstore_kvs [of libc destination _ aggr] by (cases rng) auto

lemma sends_zunionstore_range: "\<not> range_empty rng \<Longrightarrow>
    sends libc (cmd_zunionstore_range destination rng aggr)
      (''ZUNIONSTORE'' # destination # dec_int (int (range_length rng)) # weighted_args rng @
       [''AGGREGATE'', aggr_word aggr])"
  using sends_zunionstore_vals [of libc destination rng aggr]
    sends_zunionstore_kvs [of libc destination _ aggr] by (cases rng) auto

end
