(* ===== verification/Cmd_Misc.thy ===== *)
theory Cmd_Misc
  imports Cmd_Wire
begin

text \<open>
  The HyperLogLog, geo, script, publish/subscribe and transaction commands of \<open>src/commlib/redis/command.h\<close>
  (lines 1304--1645, and the geo commands of \<open>command.cpp\<close>): one definition \<open>cmd_<name>\<close> per
  function, giving what it passes to \<open>Connection::send\<close> or how it fails before that.  A lemma
  \<open>sends_<name>\<close> says which argument vector the server reads.
\<close>

subsection \<open>The functions\<close>

definition cmd_pfadd :: "bytes \<Rightarrow> bytes \<Rightarrow> fault + csend" where
  "cmd_pfadd key element =
    Inr (SendFmt ''PFADD %b %b''
      [APtr key, ASize (length key), APtr element, ASize (length element)])"

definition cmd_pfadd_range :: "bytes \<Rightarrow> crange \<Rightarrow> fault + csend" where
  "cmd_pfadd_range key rng =
    (if range_empty rng then Inl AssertFail else
    let args = put_range rng (puts [VView ''PFADD'', VView key] no_args) in
    Inr (sent_args args))"

definition cmd_pfcount :: "bytes \<Rightarrow> fault + csend" where
  "cmd_pfcount key =
    Inr (SendFmt ''PFCOUNT %b''
      [APtr key, ASize (length key)])"

definition cmd_pfcount_range :: "crange \<Rightarrow> fault + csend" where
  "cmd_pfcount_range rng =
    (if range_empty rng then Inl AssertFail else
    let args = put_range rng (put (VView ''PFCOUNT'') no_args) in
    Inr (sent_args args))"

definition cmd_pfmerge :: "bytes \<Rightarrow> bytes \<Rightarrow> fault + csend" where
  "cmd_pfmerge destination key =
    Inr (SendFmt ''PFMERGE %b %b''
      [APtr destination, ASize (length destination), APtr key, ASize (length key)])"

definition cmd_pfmerge_range :: "bytes \<Rightarrow> crange \<Rightarrow> fault + csend" where
  "cmd_pfmerge_range destination rng =
    (if range_empty rng then Inl AssertFail else
    let args = put_range rng (puts [VView ''PFMERGE'', VView destination] no_args) in
    Inr (sent_args args))"

definition cmd_geoadd :: "bytes \<Rightarrow> (bytes \<times> cdouble \<times> cdouble) \<Rightarrow> fault + csend" where
  "cmd_geoadd key mem =
    Inr (SendFmt ''GEOADD %b %f %f %b''
      [APtr key, ASize (length key), ADbl (fst (snd mem)), ADbl (snd (snd mem)), APtr (fst mem), ASize (length (fst mem))])"

definition cmd_geoadd_range :: "bytes \<Rightarrow> (bytes \<times> cdouble \<times> cdouble) list \<Rightarrow> fault + csend" where
  "cmd_geoadd_range key rng =
    (if rng = [] then Inl AssertFail else
    let args = puts [VView ''GEOADD'', VView key] no_args in
    let args = puts (concat (map (\<lambda>(m, lo, la). [VDbl lo, VDbl la, VView m]) rng)) args in
    Inr (sent_args args))"

definition cmd_geohash_range :: "bytes \<Rightarrow> crange \<Rightarrow> fault + csend" where
  "cmd_geohash_range key rng =
    (if range_empty rng then Inl AssertFail else
    let args = put_range rng (puts [VView ''GEOHASH'', VView key] no_args) in
    Inr (sent_args args))"

definition cmd_geopos_range :: "bytes \<Rightarrow> crange \<Rightarrow> fault + csend" where
  "cmd_geopos_range key rng =
    (if range_empty rng then Inl AssertFail else
    let args = put_range rng (puts [VView ''GEOPOS'', VView key] no_args) in
    Inr (sent_args args))"

definition cmd_eval :: "bytes \<Rightarrow> bytes list \<Rightarrow> bytes list \<Rightarrow> fault + csend" where
  "cmd_eval script keys sargs =
    (let args = put_range (Vals (map VView sargs)) (put_range (Vals (map VView keys)) (puts [VView ''EVAL'', VView script, VInt (int (length keys))] no_args)) in
    Inr (sent_args args))"

definition cmd_evalsha :: "bytes \<Rightarrow> bytes list \<Rightarrow> bytes list \<Rightarrow> fault + csend" where
  "cmd_evalsha script keys sargs =
    (let args = put_range (Vals (map VView sargs)) (put_range (Vals (map VView keys)) (puts [VView ''EVALSHA'', VView script, VInt (int (length keys))] no_args)) in
    Inr (sent_args args))"

definition cmd_script_exists :: "bytes \<Rightarrow> fault + csend" where
  "cmd_script_exists sha =
    Inr (SendFmt ''SCRIPT EXISTS %b''
      [APtr sha, ASize (length sha)])"

definition cmd_script_exists_range :: "crange \<Rightarrow> fault + csend" where
  "cmd_script_exists_range rng =
    (if range_empty rng then Inl AssertFail else
    let args = put_range rng (puts [VView ''SCRIPT'', VView ''EXISTS''] no_args) in
    Inr (sent_args args))"

definition cmd_script_flush :: "fault + csend" where
  "cmd_script_flush =
    Inr (SendFmt ''SCRIPT FLUSH''
      [])"

definition cmd_script_kill :: "fault + csend" where
  "cmd_script_kill =
    Inr (SendFmt ''SCRIPT KILL''
      [])"

definition cmd_script_load :: "bytes \<Rightarrow> fault + csend" where
  "cmd_script_load script =
    Inr (SendFmt ''SCRIPT LOAD %b''
      [APtr script, ASize (length script)])"

definition cmd_psubscribe :: "bytes \<Rightarrow> fault + csend" where
  "cmd_psubscribe pattern =
    Inr (SendFmt ''PSUBSCRIBE %b''
      [APtr pattern, ASize (length pattern)])"

definition cmd_psubscribe_range :: "crange \<Rightarrow> fault + csend" where
  "cmd_psubscribe_range rng =
    (if range_empty rng then Inl (Throw (Error ''PSUBSCRIBE: no key specified'')) else
    let args = put_range rng (put (VView ''PSUBSCRIBE'') no_args) in
    Inr (sent_args args))"

definition cmd_publish :: "bytes \<Rightarrow> bytes \<Rightarrow> fault + csend" where
  "cmd_publish channel message =
    Inr (SendFmt ''PUBLISH %b %b''
      [APtr channel, ASize (length channel), APtr message, ASize (length message)])"

definition cmd_punsubscribe_all :: "fault + csend" where
  "cmd_punsubscribe_all =
    Inr (SendFmt ''PUNSUBSCRIBE''
      [])"

definition cmd_punsubscribe :: "bytes \<Rightarrow> fault + csend" where
  "cmd_punsubscribe pattern =
    Inr (SendFmt ''PUNSUBSCRIBE %b''
      [APtr pattern, ASize (length pattern)])"

definition cmd_punsubscribe_range :: "crange \<Rightarrow> fault + csend" where
  "cmd_punsubscribe_range rng =
    (if range_empty rng then Inl (Throw (Error ''PUNSUBSCRIBE: no key specified'')) else
    let args = put_range rng (put (VView ''PUNSUBSCRIBE'') no_args) in
    Inr (sent_args args))"

definition cmd_subscribe :: "bytes \<Rightarrow> fault + csend" where
  "cmd_subscribe channel =
    Inr (SendFmt ''SUBSCRIBE %b''
      [APtr channel, ASize (length channel)])"

definition cmd_subscribe_range :: "crange \<Rightarrow> fault + csend" where
  "cmd_subscribe_range rng =
    (if range_empty rng then Inl (Throw (Error ''SUBSCRIBE: no key specified'')) else
    let args = put_range rng (put (VView ''SUBSCRIBE'') no_args) in
    Inr (sent_args args))"

definition cmd_unsubscribe_all :: "fault + csend" where
  "cmd_unsubscribe_all =
    Inr (SendFmt ''UNSUBSCRIBE''
      [])"

definition cmd_unsubscribe :: "bytes \<Rightarrow> fault + csend" where
  "cmd_unsubscribe channel =
    Inr (SendFmt ''UNSUBSCRIBE %b''
      [APtr channel, ASize (length channel)])"

definition cmd_unsubscribe_range :: "crange \<Rightarrow> fault + csend" where
  "cmd_unsubscribe_range rng =
    (if range_empty rng then Inl (Throw (Error ''UNSUBSCRIBE: no key specified'')) else
    let args = put_range rng (put (VView ''UNSUBSCRIBE'') no_args) in
    Inr (sent_args args))"

definition cmd_discard :: "fault + csend" where
  "cmd_discard =
    Inr (SendFmt ''DISCARD''
      [])"

definition cmd_exec :: "fault + csend" where
  "cmd_exec =
    Inr (SendFmt ''EXEC''
      [])"

definition cmd_multi :: "fault + csend" where
  "cmd_multi =
    Inr (SendFmt ''MULTI''
      [])"

definition cmd_unwatch :: "bytes \<Rightarrow> fault + csend" where
  "cmd_unwatch key =
    Inr (SendFmt ''UNWATCH %b''
      [APtr key, ASize (length key)])"

definition cmd_unwatch_range :: "crange \<Rightarrow> fault + csend" where
  "cmd_unwatch_range rng =
    (if range_empty rng then Inl (Throw (Error ''UNWATCH: no key specified'')) else
    let args = put_range rng (put (VView ''UNWATCH'') no_args) in
    Inr (sent_args args))"

definition cmd_watch :: "bytes \<Rightarrow> fault + csend" where
  "cmd_watch key =
    Inr (SendFmt ''WATCH %b''
      [APtr key, ASize (length key)])"

definition cmd_watch_range :: "crange \<Rightarrow> fault + csend" where
  "cmd_watch_range rng =
    (if range_empty rng then Inl (Throw (Error ''WATCH: no key specified'')) else
    let args = put_range rng (put (VView ''WATCH'') no_args) in
    Inr (sent_args args))"

definition cmd_geodist :: "bytes \<Rightarrow> bytes \<Rightarrow> bytes \<Rightarrow> GeoUnit \<Rightarrow> fault + csend" where
  "cmd_geodist key member1 member2 gunit =
    (let args = puts [VView ''GEODIST'', VView key, VView member1, VView member2] no_args in
    let args = set_geo_unit gunit args in
    Inr (sent_args args))"

definition cmd_georadius_store :: "bytes \<Rightarrow> (cdouble \<times> cdouble) \<Rightarrow> cdouble \<Rightarrow> GeoUnit \<Rightarrow> bytes \<Rightarrow> bool \<Rightarrow> int \<Rightarrow> fault + csend" where
  "cmd_georadius_store key loc radius gunit destination store_dist count =
    (let args = puts [VView ''GEORADIUS'', VView key, VDbl (fst loc), VDbl (snd loc)] no_args in
    let args = set_georadius_store_parameters radius gunit destination store_dist count args in
    Inr (sent_args args))"

definition cmd_georadius :: "bytes \<Rightarrow> (cdouble \<times> cdouble) \<Rightarrow> cdouble \<Rightarrow> GeoUnit \<Rightarrow> int \<Rightarrow> bool \<Rightarrow> bool \<Rightarrow> bool \<Rightarrow> bool \<Rightarrow> fault + csend" where
  "cmd_georadius key loc radius gunit count asc with_coord with_dist with_hash =
    (let args = puts [VView ''GEORADIUS'', VView key, VDbl (fst loc), VDbl (snd loc)] no_args in
    let args = set_georadius_parameters radius gunit count asc with_coord with_dist with_hash args in
    Inr (sent_args args))"

definition cmd_georadiusbymember :: "bytes \<Rightarrow> bytes \<Rightarrow> cdouble \<Rightarrow> GeoUnit \<Rightarrow> int \<Rightarrow> bool \<Rightarrow> bool \<Rightarrow> bool \<Rightarrow> bool \<Rightarrow> fault + csend" where
  "cmd_georadiusbymember key mem radius gunit count asc with_coord with_dist with_hash =
    (let args = puts [VView ''GEORADIUSBYMEMBER'', VView key, VView mem] no_args in
    let args = set_georadius_parameters radius gunit count asc with_coord with_dist with_hash args in
    Inr (sent_args args))"

definition cmd_georadiusbymember_store :: "bytes \<Rightarrow> bytes \<Rightarrow> cdouble \<Rightarrow> GeoUnit \<Rightarrow> bytes \<Rightarrow> bool \<Rightarrow> int \<Rightarrow> fault + csend" where
  "cmd_georadiusbymember_store key mem radius gunit destination store_dist count =
    (let args = puts [VView ''GEORADIUSBYMEMBER'', VView key, VView mem] no_args in
    let args = set_georadius_store_parameters radius gunit destination store_dist count args in
    Inr (sent_args args))"

subsection \<open>What the server reads\<close>

lemma sends_pfadd: "fits [''PFADD'', key, element] \<Longrightarrow>
    sends libc (cmd_pfadd key element) [''PFADD'', key, element]"
  unfolding cmd_pfadd_def
  by (rule sends_words [where ws = "[lit ''PFADD'', [FB key], [FB element]]"]) (simp_all add: word_simps)

lemma sends_pfadd_range: "\<not> range_empty rng \<Longrightarrow> sends libc (cmd_pfadd_range key rng)
    (''PFADD'' # key # range_texts rng)"
  by (simp add: cmd_pfadd_range_def Let_def wire_simps)

lemma sends_pfcount: "fits [''PFCOUNT'', key] \<Longrightarrow>
    sends libc (cmd_pfcount key) [''PFCOUNT'', key]"
  unfolding cmd_pfcount_def
  by (rule sends_words [where ws = "[lit ''PFCOUNT'', [FB key]]"]) (simp_all add: word_simps)

lemma sends_pfcount_range: "\<not> range_empty rng \<Longrightarrow> sends libc (cmd_pfcount_range rng)
    (''PFCOUNT'' # range_texts rng)"
  by (simp add: cmd_pfcount_range_def Let_def wire_simps)

lemma sends_pfmerge: "fits [''PFMERGE'', destination, key] \<Longrightarrow>
    sends libc (cmd_pfmerge destination key) [''PFMERGE'', destination, key]"
  unfolding cmd_pfmerge_def
  by (rule sends_words [where ws = "[lit ''PFMERGE'', [FB destination], [FB key]]"]) (simp_all add: word_simps)

lemma sends_pfmerge_range: "\<not> range_empty rng \<Longrightarrow> sends libc (cmd_pfmerge_range destination rng)
    (''PFMERGE'' # destination # range_texts rng)"
  by (simp add: cmd_pfmerge_range_def Let_def wire_simps)

lemma sends_geoadd: "fits [''GEOADD'', key, fmt_f (fst (snd mem)), fmt_f (snd (snd mem)), (fst mem)] \<Longrightarrow>
    sends libc (cmd_geoadd key mem) [''GEOADD'', key, fmt_f (fst (snd mem)), fmt_f (snd (snd mem)), (fst mem)]"
  unfolding cmd_geoadd_def
  by (rule sends_words [where ws = "[lit ''GEOADD'', [FB key], [FD (fst (snd mem))], [FD (snd (snd mem))], [FB (fst mem)]]"]) (simp_all add: word_simps)

lemma sends_geoadd_range: "rng \<noteq> [] \<Longrightarrow> sends libc (cmd_geoadd_range key rng)
    (''GEOADD'' # key # concat (map (\<lambda>(m, lo, la). [fmt_f lo, fmt_f la, m]) rng))"
  by (simp add: cmd_geoadd_range_def Let_def wire_simps split_def comp_def concat_map_concat)

lemma sends_geohash_range: "\<not> range_empty rng \<Longrightarrow> sends libc (cmd_geohash_range key rng)
    (''GEOHASH'' # key # range_texts rng)"
  by (simp add: cmd_geohash_range_def Let_def wire_simps)

lemma sends_geopos_range: "\<not> range_empty rng \<Longrightarrow> sends libc (cmd_geopos_range key rng)
    (''GEOPOS'' # key # range_texts rng)"
  by (simp add: cmd_geopos_range_def Let_def wire_simps)

lemma sends_eval: "sends libc (cmd_eval script keys sargs)
    (''EVAL'' # script # dec_int (int (length keys)) # keys @ sargs)"
  by (simp add: cmd_eval_def Let_def wire_simps)

lemma sends_evalsha: "sends libc (cmd_evalsha script keys sargs)
    (''EVALSHA'' # script # dec_int (int (length keys)) # keys @ sargs)"
  by (simp add: cmd_evalsha_def Let_def wire_simps)

lemma sends_script_exists: "fits [''SCRIPT'', ''EXISTS'', sha] \<Longrightarrow>
    sends libc (cmd_script_exists sha) [''SCRIPT'', ''EXISTS'', sha]"
  unfolding cmd_script_exists_def
  by (rule sends_words [where ws = "[lit ''SCRIPT'', lit ''EXISTS'', [FB sha]]"]) (simp_all add: word_simps)

lemma sends_script_exists_range: "\<not> range_empty rng \<Longrightarrow> sends libc (cmd_script_exists_range rng)
    (''SCRIPT'' # ''EXISTS'' # range_texts rng)"
  by (simp add: cmd_script_exists_range_def Let_def wire_simps)

lemma sends_script_flush: "fits [''SCRIPT'', ''FLUSH''] \<Longrightarrow>
    sends libc cmd_script_flush [''SCRIPT'', ''FLUSH'']"
  unfolding cmd_script_flush_def
  by (rule sends_words [where ws = "[lit ''SCRIPT'', lit ''FLUSH'']"]) (simp_all add: word_simps)

lemma sends_script_kill: "fits [''SCRIPT'', ''KILL''] \<Longrightarrow>
    sends libc cmd_script_kill [''SCRIPT'', ''KILL'']"
  unfolding cmd_script_kill_def
  by (rule sends_words [where ws = "[lit ''SCRIPT'', lit ''KILL'']"]) (simp_all add: word_simps)

lemma sends_script_load: "fits [''SCRIPT'', ''LOAD'', script] \<Longrightarrow>
    sends libc (cmd_script_load script) [''SCRIPT'', ''LOAD'', script]"
  unfolding cmd_script_load_def
  by (rule sends_words [where ws = "[lit ''SCRIPT'', lit ''LOAD'', [FB script]]"]) (simp_all add: word_simps)

lemma sends_psubscribe: "fits [''PSUBSCRIBE'', pattern] \<Longrightarrow>
    sends libc (cmd_psubscribe pattern) [''PSUBSCRIBE'', pattern]"
  unfolding cmd_psubscribe_def
  by (rule sends_words [where ws = "[lit ''PSUBSCRIBE'', [FB pattern]]"]) (simp_all add: word_simps)

lemma sends_psubscribe_range: "\<not> range_empty rng \<Longrightarrow> sends libc (cmd_psubscribe_range rng)
    (''PSUBSCRIBE'' # range_texts rng)"
  by (simp add: cmd_psubscribe_range_def Let_def wire_simps)

lemma sends_publish: "fits [''PUBLISH'', channel, message] \<Longrightarrow>
    sends libc (cmd_publish channel message) [''PUBLISH'', channel, message]"
  unfolding cmd_publish_def
  by (rule sends_words [where ws = "[lit ''PUBLISH'', [FB channel], [FB message]]"]) (simp_all add: word_simps)

lemma sends_punsubscribe_all: "fits [''PUNSUBSCRIBE''] \<Longrightarrow>
    sends libc cmd_punsubscribe_all [''PUNSUBSCRIBE'']"
  unfolding cmd_punsubscribe_all_def
  by (rule sends_words [where ws = "[lit ''PUNSUBSCRIBE'']"]) (simp_all add: word_simps)

lemma sends_punsubscribe: "fits [''PUNSUBSCRIBE'', pattern] \<Longrightarrow>
    sends libc (cmd_punsubscribe pattern) [''PUNSUBSCRIBE'', pattern]"
  unfolding cmd_punsubscribe_def
  by (rule sends_words [where ws = "[lit ''PUNSUBSCRIBE'', [FB pattern]]"]) (simp_all add: word_simps)

lemma sends_punsubscribe_range: "\<not> range_empty rng \<Longrightarrow> sends libc (cmd_punsubscribe_range rng)
    (''PUNSUBSCRIBE'' # range_texts rng)"
  by (simp add: cmd_punsubscribe_range_def Let_def wire_simps)

lemma sends_subscribe: "fits [''SUBSCRIBE'', channel] \<Longrightarrow>
    sends libc (cmd_subscribe channel) [''SUBSCRIBE'', channel]"
  unfolding cmd_subscribe_def
  by (rule sends_words [where ws = "[lit ''SUBSCRIBE'', [FB channel]]"]) (simp_all add: word_simps)

lemma sends_subscribe_range: "\<not> range_empty rng \<Longrightarrow> sends libc (cmd_subscribe_range rng)
    (''SUBSCRIBE'' # range_texts rng)"
  by (simp add: cmd_subscribe_range_def Let_def wire_simps)

lemma sends_unsubscribe_all: "fits [''UNSUBSCRIBE''] \<Longrightarrow>
    sends libc cmd_unsubscribe_all [''UNSUBSCRIBE'']"
  unfolding cmd_unsubscribe_all_def
  by (rule sends_words [where ws = "[lit ''UNSUBSCRIBE'']"]) (simp_all add: word_simps)

lemma sends_unsubscribe: "fits [''UNSUBSCRIBE'', channel] \<Longrightarrow>
    sends libc (cmd_unsubscribe channel) [''UNSUBSCRIBE'', channel]"
  unfolding cmd_unsubscribe_def
  by (rule sends_words [where ws = "[lit ''UNSUBSCRIBE'', [FB channel]]"]) (simp_all add: word_simps)

lemma sends_unsubscribe_range: "\<not> range_empty rng \<Longrightarrow> sends libc (cmd_unsubscribe_range rng)
    (''UNSUBSCRIBE'' # range_texts rng)"
  by (simp add: cmd_unsubscribe_range_def Let_def wire_simps)

lemma sends_discard: "fits [''DISCARD''] \<Longrightarrow>
    sends libc cmd_discard [''DISCARD'']"
  unfolding cmd_discard_def
  by (rule sends_words [where ws = "[lit ''DISCARD'']"]) (simp_all add: word_simps)

lemma sends_exec: "fits [''EXEC''] \<Longrightarrow>
    sends libc cmd_exec [''EXEC'']"
  unfolding cmd_exec_def
  by (rule sends_words [where ws = "[lit ''EXEC'']"]) (simp_all add: word_simps)

lemma sends_multi: "fits [''MULTI''] \<Longrightarrow>
    sends libc cmd_multi [''MULTI'']"
  unfolding cmd_multi_def
  by (rule sends_words [where ws = "[lit ''MULTI'']"]) (simp_all add: word_simps)

lemma sends_unwatch: "fits [''UNWATCH'', key] \<Longrightarrow>
    sends libc (cmd_unwatch key) [''UNWATCH'', key]"
  unfolding cmd_unwatch_def
  by (rule sends_words [where ws = "[lit ''UNWATCH'', [FB key]]"]) (simp_all add: word_simps)

lemma sends_unwatch_range: "\<not> range_empty rng \<Longrightarrow> sends libc (cmd_unwatch_range rng)
    (''UNWATCH'' # range_texts rng)"
  by (simp add: cmd_unwatch_range_def Let_def wire_simps)

lemma sends_watch: "fits [''WATCH'', key] \<Longrightarrow>
    sends libc (cmd_watch key) [''WATCH'', key]"
  unfolding cmd_watch_def
  by (rule sends_words [where ws = "[lit ''WATCH'', [FB key]]"]) (simp_all add: word_simps)

lemma sends_watch_range: "\<not> range_empty rng \<Longrightarrow> sends libc (cmd_watch_range rng)
    (''WATCH'' # range_texts rng)"
  by (simp add: cmd_watch_range_def Let_def wire_simps)

lemma sends_geodist: "sends libc (cmd_geodist key member1 member2 gunit)
    [''GEODIST'', key, member1, member2, unit_word gunit]"
  by (simp add: cmd_geodist_def Let_def wire_simps)

lemma sends_georadius_store: "sends libc (cmd_georadius_store key loc radius gunit destination store_dist count)
    [''GEORADIUS'', key, fmt_f (fst loc), fmt_f (snd loc), fmt_f radius, unit_word gunit, ''COUNT'', dec_int count, if store_dist then ''STOREDIST'' else ''STORE'', destination]"
  by (simp add: cmd_georadius_store_def Let_def wire_simps)

lemma sends_georadius: "sends libc (cmd_georadius key loc radius gunit count asc with_coord with_dist with_hash)
    (''GEORADIUS'' # key # fmt_f (fst loc) # fmt_f (snd loc) # fmt_f radius # unit_word gunit # flag with_coord ''WITHCOORD'' @ flag with_dist ''WITHDIST'' @ flag with_hash ''WITHHASH'' @ [''COUNT'', dec_int count, if asc then ''ASC'' else ''DESC''])"
  by (simp add: cmd_georadius_def Let_def wire_simps)

lemma sends_georadiusbymember: "sends libc (cmd_georadiusbymember key mem radius gunit count asc with_coord with_dist with_hash)
    (''GEORADIUSBYMEMBER'' # key # mem # fmt_f radius # unit_word gunit # flag with_coord ''WITHCOORD'' @ flag with_dist ''WITHDIST'' @ flag with_hash ''WITHHASH'' @ [''COUNT'', dec_int count, if asc then ''ASC'' else ''DESC''])"
  by (simp add: cmd_georadiusbymember_def Let_def wire_simps)

lemma sends_georadiusbymember_store: "sends libc (cmd_georadiusbymember_store key mem radius gunit destination store_dist count)
    [''GEORADIUSBYMEMBER'', key, mem, fmt_f radius, unit_word gunit, ''COUNT'', dec_int count, if store_dist then ''STOREDIST'' else ''STORE'', destination]"
  by (simp add: cmd_georadiusbymember_store_def Let_def wire_simps)

end
