(* ===== verification/Cmd_Stream.thy ===== *)
theory Cmd_Stream
  imports Cmd_Wire
begin

text \<open>
  The stream commands of \<open>src/commlib/redis/command.h\<close>
  (lines 1649--2022, and \<open>xtrim\<close> of \<open>command.cpp\<close>): one definition \<open>cmd_<name>\<close> per
  function, giving what it passes to \<open>Connection::send\<close> or how it fails before that.  A lemma
  \<open>sends_<name>\<close> says which argument vector the server reads.
\<close>

subsection \<open>The functions\<close>

definition cmd_xack :: "bytes \<Rightarrow> bytes \<Rightarrow> bytes \<Rightarrow> fault + csend" where
  "cmd_xack key grp eid =
    Inr (SendFmt ''XACK %b %b %b''
      [APtr key, ASize (length key), APtr grp, ASize (length grp), APtr eid, ASize (length eid)])"

definition cmd_xack_range :: "bytes \<Rightarrow> bytes \<Rightarrow> crange \<Rightarrow> fault + csend" where
  "cmd_xack_range key grp rng =
    (let args = put_range rng (puts [VView ''XACK'', VView key, VView grp] no_args) in
    Inr (sent_args args))"

definition cmd_xadd_range :: "bytes \<Rightarrow> bytes \<Rightarrow> crange \<Rightarrow> fault + csend" where
  "cmd_xadd_range key eid rng =
    (let args = put_range rng (puts [VView ''XADD'', VView key, VView eid] no_args) in
    Inr (sent_args args))"

definition cmd_xadd_maxlen_range :: "bytes \<Rightarrow> bytes \<Rightarrow> crange \<Rightarrow> int \<Rightarrow> bool \<Rightarrow> fault + csend" where
  "cmd_xadd_maxlen_range key eid rng count approx =
    (let args = puts [VView ''XADD'', VView key, VView ''MAXLEN''] no_args in
    let args = (if approx then put (VView ''~'') args else args) in
    let args = put_range rng (puts [VInt count, VView eid] args) in
    Inr (sent_args args))"

definition cmd_xclaim :: "bytes \<Rightarrow> bytes \<Rightarrow> bytes \<Rightarrow> int \<Rightarrow> bytes \<Rightarrow> fault + csend" where
  "cmd_xclaim key grp consumer min_idle_time eid =
    Inr (SendFmt ''XCLAIM %b %b %b %lld %b''
      [APtr key, ASize (length key), APtr grp, ASize (length grp), APtr consumer, ASize (length consumer), ALLong min_idle_time, APtr eid, ASize (length eid)])"

definition cmd_xclaim_range :: "bytes \<Rightarrow> bytes \<Rightarrow> bytes \<Rightarrow> int \<Rightarrow> crange \<Rightarrow> fault + csend" where
  "cmd_xclaim_range key grp consumer min_idle_time rng =
    (let args = put_range rng (puts [VView ''XCLAIM'', VView key, VView grp, VView consumer, VInt min_idle_time] no_args) in
    Inr (sent_args args))"

definition cmd_xdel :: "bytes \<Rightarrow> bytes \<Rightarrow> fault + csend" where
  "cmd_xdel key eid =
    Inr (SendFmt ''XDEL %b %b''
      [APtr key, ASize (length key), APtr eid, ASize (length eid)])"

definition cmd_xdel_range :: "bytes \<Rightarrow> crange \<Rightarrow> fault + csend" where
  "cmd_xdel_range key rng =
    (let args = put_range rng (puts [VView ''XDEL'', VView key] no_args) in
    Inr (sent_args args))"

definition cmd_xgroup_create :: "bytes \<Rightarrow> bytes \<Rightarrow> bytes \<Rightarrow> bool \<Rightarrow> fault + csend" where
  "cmd_xgroup_create key grp eid mkstream =
    (let args = puts [VView ''XGROUP'', VView ''CREATE'', VView key, VView grp, VView eid] no_args in
    let args = (if mkstream then put (VView ''MKSTREAM'') args else args) in
    Inr (sent_args args))"

definition cmd_xgroup_setid :: "bytes \<Rightarrow> bytes \<Rightarrow> bytes \<Rightarrow> fault + csend" where
  "cmd_xgroup_setid key grp eid =
    Inr (SendFmt ''XGROUP SETID %b %b %b''
      [APtr key, ASize (length key), APtr grp, ASize (length grp), APtr eid, ASize (length eid)])"

definition cmd_xgroup_destroy :: "bytes \<Rightarrow> bytes \<Rightarrow> fault + csend" where
  "cmd_xgroup_destroy key grp =
    Inr (SendFmt ''XGROUP DESTROY %b %b''
      [APtr key, ASize (length key), APtr grp, ASize (length grp)])"

definition cmd_xgroup_delconsumer :: "bytes \<Rightarrow> bytes \<Rightarrow> bytes \<Rightarrow> fault + csend" where
  "cmd_xgroup_delconsumer key grp consumer =
    Inr (SendFmt ''XGROUP DELCONSUMER %b %b %b''
      [APtr key, ASize (length key), APtr grp, ASize (length grp), APtr consumer, ASize (length consumer)])"

definition cmd_xlen :: "bytes \<Rightarrow> fault + csend" where
  "cmd_xlen key =
    Inr (SendFmt ''XLEN %b''
      [APtr key, ASize (length key)])"

definition cmd_xpending :: "bytes \<Rightarrow> bytes \<Rightarrow> fault + csend" where
  "cmd_xpending key grp =
    Inr (SendFmt ''XPENDING %b %b''
      [APtr key, ASize (length key), APtr grp, ASize (length grp)])"

definition cmd_xpending_detail :: "bytes \<Rightarrow> bytes \<Rightarrow> bytes \<Rightarrow> bytes \<Rightarrow> int \<Rightarrow> fault + csend" where
  "cmd_xpending_detail key grp start stop1 count =
    Inr (SendFmt ''XPENDING %b %b %b %b %lld''
      [APtr key, ASize (length key), APtr grp, ASize (length grp), APtr start, ASize (length start), APtr stop1, ASize (length stop1), ALLong count])"

definition cmd_xpending_per_consumer :: "bytes \<Rightarrow> bytes \<Rightarrow> bytes \<Rightarrow> bytes \<Rightarrow> int \<Rightarrow> bytes \<Rightarrow> fault + csend" where
  "cmd_xpending_per_consumer key grp start stop1 count consumer =
    Inr (SendFmt ''XPENDING %b %b %b %b %lld %b''
      [APtr key, ASize (length key), APtr grp, ASize (length grp), APtr start, ASize (length start), APtr stop1, ASize (length stop1), ALLong count, APtr consumer, ASize (length consumer)])"

definition cmd_xrange :: "bytes \<Rightarrow> bytes \<Rightarrow> bytes \<Rightarrow> fault + csend" where
  "cmd_xrange key start stop1 =
    Inr (SendFmt ''XRANGE %b %b %b''
      [APtr key, ASize (length key), APtr start, ASize (length start), APtr stop1, ASize (length stop1)])"

definition cmd_xrange_count :: "bytes \<Rightarrow> bytes \<Rightarrow> bytes \<Rightarrow> int \<Rightarrow> fault + csend" where
  "cmd_xrange_count key start stop1 count =
    Inr (SendFmt ''XRANGE %b %b %b COUNT %lld''
      [APtr key, ASize (length key), APtr start, ASize (length start), APtr stop1, ASize (length stop1), ALLong count])"

definition cmd_xread :: "bytes \<Rightarrow> bytes \<Rightarrow> int \<Rightarrow> fault + csend" where
  "cmd_xread key eid count =
    Inr (SendFmt ''XREAD COUNT %lld STREAMS %b %b''
      [ALLong count, APtr key, ASize (length key), APtr eid, ASize (length eid)])"

definition cmd_xread_range :: "(cval \<times> cval) list \<Rightarrow> int \<Rightarrow> fault + csend" where
  "cmd_xread_range rng count =
    (let args = puts [VView ''XREAD'', VView ''COUNT'', VInt count, VView ''STREAMS''] no_args in
    let args = puts (map fst rng) args in
    let args = puts (map snd rng) args in
    Inr (sent_args args))"

definition cmd_xread_block :: "bytes \<Rightarrow> bytes \<Rightarrow> int \<Rightarrow> int \<Rightarrow> fault + csend" where
  "cmd_xread_block key eid timeout count =
    Inr (SendFmt ''XREAD COUNT %lld BLOCK %lld STREAMS %b %b''
      [ALLong count, ALLong timeout, APtr key, ASize (length key), APtr eid, ASize (length eid)])"

definition cmd_xread_block_range :: "(cval \<times> cval) list \<Rightarrow> int \<Rightarrow> int \<Rightarrow> fault + csend" where
  "cmd_xread_block_range rng timeout count =
    (let args = puts [VView ''XREAD'', VView ''COUNT'', VInt count, VView ''BLOCK'', VInt timeout, VView ''STREAMS''] no_args in
    let args = puts (map fst rng) args in
    let args = puts (map snd rng) args in
    Inr (sent_args args))"

definition cmd_xreadgroup :: "bytes \<Rightarrow> bytes \<Rightarrow> bytes \<Rightarrow> bytes \<Rightarrow> int \<Rightarrow> bool \<Rightarrow> fault + csend" where
  "cmd_xreadgroup grp consumer key eid count noack =
    (let args = puts [VView ''XREADGROUP'', VView ''GROUP'', VView grp, VView consumer, VView ''COUNT'', VInt count] no_args in
    let args = (if noack then put (VView ''NOACK'') args else args) in
    let args = puts [VView ''STREAMS'', VView key, VView eid] args in
    Inr (sent_args args))"

definition cmd_xreadgroup_range :: "bytes \<Rightarrow> bytes \<Rightarrow> (cval \<times> cval) list \<Rightarrow> int \<Rightarrow> bool \<Rightarrow> fault + csend" where
  "cmd_xreadgroup_range grp consumer rng count noack =
    (let args = puts [VView ''XREADGROUP'', VView ''GROUP'', VView grp, VView consumer, VView ''COUNT'', VInt count] no_args in
    let args = (if noack then put (VView ''NOACK'') args else args) in
    let args = put (VView ''STREAMS'') args in
    let args = puts (map fst rng) args in
    let args = puts (map snd rng) args in
    Inr (sent_args args))"

definition cmd_xreadgroup_block :: "bytes \<Rightarrow> bytes \<Rightarrow> bytes \<Rightarrow> bytes \<Rightarrow> int \<Rightarrow> int \<Rightarrow> bool \<Rightarrow> fault + csend" where
  "cmd_xreadgroup_block grp consumer key eid timeout count noack =
    (let args = puts [VView ''XREADGROUP'', VView ''GROUP'', VView grp, VView consumer, VView ''COUNT'', VInt count, VView ''BLOCK'', VInt timeout] no_args in
    let args = (if noack then put (VView ''NOACK'') args else args) in
    let args = puts [VView ''STREAMS'', VView key, VView eid] args in
    Inr (sent_args args))"

definition cmd_xreadgroup_block_range :: "bytes \<Rightarrow> bytes \<Rightarrow> (cval \<times> cval) list \<Rightarrow> int \<Rightarrow> int \<Rightarrow> bool \<Rightarrow> fault + csend" where
  "cmd_xreadgroup_block_range grp consumer rng timeout count noack =
    (let args = puts [VView ''XREADGROUP'', VView ''GROUP'', VView grp, VView consumer, VView ''COUNT'', VInt count, VView ''BLOCK'', VInt timeout] no_args in
    let args = (if noack then put (VView ''NOACK'') args else args) in
    let args = put (VView ''STREAMS'') args in
    let args = puts (map fst rng) args in
    let args = puts (map snd rng) args in
    Inr (sent_args args))"

definition cmd_xrevrange :: "bytes \<Rightarrow> bytes \<Rightarrow> bytes \<Rightarrow> fault + csend" where
  "cmd_xrevrange key stop1 start =
    Inr (SendFmt ''XREVRANGE %b %b %b''
      [APtr key, ASize (length key), APtr stop1, ASize (length stop1), APtr start, ASize (length start)])"

definition cmd_xrevrange_count :: "bytes \<Rightarrow> bytes \<Rightarrow> bytes \<Rightarrow> int \<Rightarrow> fault + csend" where
  "cmd_xrevrange_count key stop1 start count =
    Inr (SendFmt ''XREVRANGE %b %b %b COUNT %lld''
      [APtr key, ASize (length key), APtr stop1, ASize (length stop1), APtr start, ASize (length start), ALLong count])"

definition cmd_xtrim :: "bytes \<Rightarrow> int \<Rightarrow> bool \<Rightarrow> fault + csend" where
  "cmd_xtrim key count approx =
    (let args = puts [VView ''XTRIM'', VView key, VView ''MAXLEN''] no_args in
    let args = (if approx then put (VView ''~'') args else args) in
    let args = put (VInt count) args in
    Inr (sent_args args))"

subsection \<open>What the server reads\<close>

lemma sends_xack: "fits [''XACK'', key, grp, eid] \<Longrightarrow>
    sends libc (cmd_xack key grp eid) [''XACK'', key, grp, eid]"
  unfolding cmd_xack_def
  by (rule sends_words [where ws = "[lit ''XACK'', [FB key], [FB grp], [FB eid]]"]) (simp_all add: word_simps)

lemma sends_xack_range: "sends libc (cmd_xack_range key grp rng)
    (''XACK'' # key # grp # range_texts rng)"
  by (simp add: cmd_xack_range_def Let_def wire_simps)

lemma sends_xadd_range: "sends libc (cmd_xadd_range key eid rng)
    (''XADD'' # key # eid # range_texts rng)"
  by (simp add: cmd_xadd_range_def Let_def wire_simps)

lemma sends_xadd_maxlen_range: "sends libc (cmd_xadd_maxlen_range key eid rng count approx)
    (''XADD'' # key # ''MAXLEN'' # flag approx ''~'' @ dec_int count # eid # range_texts rng)"
  by (simp add: cmd_xadd_maxlen_range_def Let_def wire_simps)

lemma sends_xclaim: "fits [''XCLAIM'', key, grp, consumer, dec_int min_idle_time, eid] \<Longrightarrow>
    sends libc (cmd_xclaim key grp consumer min_idle_time eid) [''XCLAIM'', key, grp, consumer, dec_int min_idle_time, eid]"
  unfolding cmd_xclaim_def
  by (rule sends_words [where ws = "[lit ''XCLAIM'', [FB key], [FB grp], [FB consumer], [FLL min_idle_time], [FB eid]]"]) (simp_all add: word_simps)

lemma sends_xclaim_range: "sends libc (cmd_xclaim_range key grp consumer min_idle_time rng)
    (''XCLAIM'' # key # grp # consumer # dec_int min_idle_time # range_texts rng)"
  by (simp add: cmd_xclaim_range_def Let_def wire_simps)

lemma sends_xdel: "fits [''XDEL'', key, eid] \<Longrightarrow>
    sends libc (cmd_xdel key eid) [''XDEL'', key, eid]"
  unfolding cmd_xdel_def
  by (rule sends_words [where ws = "[lit ''XDEL'', [FB key], [FB eid]]"]) (simp_all add: word_simps)

lemma sends_xdel_range: "sends libc (cmd_xdel_range key rng)
    (''XDEL'' # key # range_texts rng)"
  by (simp add: cmd_xdel_range_def Let_def wire_simps)

lemma sends_xgroup_create: "sends libc (cmd_xgroup_create key grp eid mkstream)
    (''XGROUP'' # ''CREATE'' # key # grp # eid # flag mkstream ''MKSTREAM'')"
  by (simp add: cmd_xgroup_create_def Let_def wire_simps)

lemma sends_xgroup_setid: "fits [''XGROUP'', ''SETID'', key, grp, eid] \<Longrightarrow>
    sends libc (cmd_xgroup_setid key grp eid) [''XGROUP'', ''SETID'', key, grp, eid]"
  unfolding cmd_xgroup_setid_def
  by (rule sends_words [where ws = "[lit ''XGROUP'', lit ''SETID'', [FB key], [FB grp], [FB eid]]"]) (simp_all add: word_simps)

lemma sends_xgroup_destroy: "fits [''XGROUP'', ''DESTROY'', key, grp] \<Longrightarrow>
    sends libc (cmd_xgroup_destroy key grp) [''XGROUP'', ''DESTROY'', key, grp]"
  unfolding cmd_xgroup_destroy_def
  by (rule sends_words [where ws = "[lit ''XGROUP'', lit ''DESTROY'', [FB key], [FB grp]]"]) (simp_all add: word_simps)

lemma sends_xgroup_delconsumer: "fits [''XGROUP'', ''DELCONSUMER'', key, grp, consumer] \<Longrightarrow>
    sends libc (cmd_xgroup_delconsumer key grp consumer) [''XGROUP'', ''DELCONSUMER'', key, grp, consumer]"
  unfolding cmd_xgroup_delconsumer_def
  by (rule sends_words [where ws = "[lit ''XGROUP'', lit ''DELCONSUMER'', [FB key], [FB grp], [FB consumer]]"]) (simp_all add: word_simps)

lemma sends_xlen: "fits [''XLEN'', key] \<Longrightarrow>
    sends libc (cmd_xlen key) [''XLEN'', key]"
  unfolding cmd_xlen_def
  by (rule sends_words [where ws = "[lit ''XLEN'', [FB key]]"]) (simp_all add: word_simps)

lemma sends_xpending: "fits [''XPENDING'', key, grp] \<Longrightarrow>
    sends libc (cmd_xpending key grp) [''XPENDING'', key, grp]"
  unfolding cmd_xpending_def
  by (rule sends_words [where ws = "[lit ''XPENDING'', [FB key], [FB grp]]"]) (simp_all add: word_simps)

lemma sends_xpending_detail: "fits [''XPENDING'', key, grp, start, stop1, dec_int count] \<Longrightarrow>
    sends libc (cmd_xpending_detail key grp start stop1 count) [''XPENDING'', key, grp, start, stop1, dec_int count]"
  unfolding cmd_xpending_detail_def
  by (rule sends_words [where ws = "[lit ''XPENDING'', [FB key], [FB grp], [FB start], [FB stop1], [FLL count]]"]) (simp_all add: word_simps)

lemma sends_xpending_per_consumer: "fits [''XPENDING'', key, grp, start, stop1, dec_int count, consumer] \<Longrightarrow>
    sends libc (cmd_xpending_per_consumer key grp start stop1 count consumer) [''XPENDING'', key, grp, start, stop1, dec_int count, consumer]"
  unfolding cmd_xpending_per_consumer_def
  by (rule sends_words [where ws = "[lit ''XPENDING'', [FB key], [FB grp], [FB start], [FB stop1], [FLL count], [FB consumer]]"]) (simp_all add: word_simps)

lemma sends_xrange: "fits [''XRANGE'', key, start, stop1] \<Longrightarrow>
    sends libc (cmd_xrange key start stop1) [''XRANGE'', key, start, stop1]"
  unfolding cmd_xrange_def
  by (rule sends_words [where ws = "[lit ''XRANGE'', [FB key], [FB start], [FB stop1]]"]) (simp_all add: word_simps)

lemma sends_xrange_count: "fits [''XRANGE'', key, start, stop1, ''COUNT'', dec_int count] \<Longrightarrow>
    sends libc (cmd_xrange_count key start stop1 count) [''XRANGE'', key, start, stop1, ''COUNT'', dec_int count]"
  unfolding cmd_xrange_count_def
  by (rule sends_words [where ws = "[lit ''XRANGE'', [FB key], [FB start], [FB stop1], lit ''COUNT'', [FLL count]]"]) (simp_all add: word_simps)

lemma sends_xread: "fits [''XREAD'', ''COUNT'', dec_int count, ''STREAMS'', key, eid] \<Longrightarrow>
    sends libc (cmd_xread key eid count) [''XREAD'', ''COUNT'', dec_int count, ''STREAMS'', key, eid]"
  unfolding cmd_xread_def
  by (rule sends_words [where ws = "[lit ''XREAD'', lit ''COUNT'', [FLL count], lit ''STREAMS'', [FB key], [FB eid]]"]) (simp_all add: word_simps)

lemma sends_xread_range: "sends libc (cmd_xread_range rng count)
    (''XREAD'' # ''COUNT'' # dec_int count # ''STREAMS'' # concat (map (texts \<circ> fst) rng) @ concat (map (texts \<circ> snd) rng))"
  by (simp add: cmd_xread_range_def Let_def wire_simps split_def comp_def concat_map_concat)

lemma sends_xread_block: "fits [''XREAD'', ''COUNT'', dec_int count, ''BLOCK'', dec_int timeout, ''STREAMS'', key, eid] \<Longrightarrow>
    sends libc (cmd_xread_block key eid timeout count) [''XREAD'', ''COUNT'', dec_int count, ''BLOCK'', dec_int timeout, ''STREAMS'', key, eid]"
  unfolding cmd_xread_block_def
  by (rule sends_words [where ws = "[lit ''XREAD'', lit ''COUNT'', [FLL count], lit ''BLOCK'', [FLL timeout], lit ''STREAMS'', [FB key], [FB eid]]"]) (simp_all add: word_simps)

lemma sends_xread_block_range: "sends libc (cmd_xread_block_range rng timeout count)
    (''XREAD'' # ''COUNT'' # dec_int count # ''BLOCK'' # dec_int timeout # ''STREAMS'' # concat (map (texts \<circ> fst) rng) @ concat (map (texts \<circ> snd) rng))"
  by (simp add: cmd_xread_block_range_def Let_def wire_simps split_def comp_def concat_map_concat)

lemma sends_xreadgroup: "sends libc (cmd_xreadgroup grp consumer key eid count noack)
    (''XREADGROUP'' # ''GROUP'' # grp # consumer # ''COUNT'' # dec_int count # flag noack ''NOACK'' @ [''STREAMS'', key, eid])"
  by (simp add: cmd_xreadgroup_def Let_def wire_simps)

lemma sends_xreadgroup_range: "sends libc (cmd_xreadgroup_range grp consumer rng count noack)
    (''XREADGROUP'' # ''GROUP'' # grp # consumer # ''COUNT'' # dec_int count # flag noack ''NOACK'' @ ''STREAMS'' # concat (map (texts \<circ> fst) rng) @ concat (map (texts \<circ> snd) rng))"
  by (simp add: cmd_xreadgroup_range_def Let_def wire_simps split_def comp_def concat_map_concat)

lemma sends_xreadgroup_block: "sends libc (cmd_xreadgroup_block grp consumer key eid timeout count noack)
    (''XREADGROUP'' # ''GROUP'' # grp # consumer # ''COUNT'' # dec_int count # ''BLOCK'' # dec_int timeout # flag noack ''NOACK'' @ [''STREAMS'', key, eid])"
  by (simp add: cmd_xreadgroup_block_def Let_def wire_simps)

lemma sends_xreadgroup_block_range: "sends libc (cmd_xreadgroup_block_range grp consumer rng timeout count noack)
    (''XREADGROUP'' # ''GROUP'' # grp # consumer # ''COUNT'' # dec_int count # ''BLOCK'' # dec_int timeout # flag noack ''NOACK'' @ ''STREAMS'' # concat (map (texts \<circ> fst) rng) @ concat (map (texts \<circ> snd) rng))"
  by (simp add: cmd_xreadgroup_block_range_def Let_def wire_simps split_def comp_def concat_map_concat)

lemma sends_xrevrange: "fits [''XREVRANGE'', key, stop1, start] \<Longrightarrow>
    sends libc (cmd_xrevrange key stop1 start) [''XREVRANGE'', key, stop1, start]"
  unfolding cmd_xrevrange_def
  by (rule sends_words [where ws = "[lit ''XREVRANGE'', [FB key], [FB stop1], [FB start]]"]) (simp_all add: word_simps)

lemma sends_xrevrange_count: "fits [''XREVRANGE'', key, stop1, start, ''COUNT'', dec_int count] \<Longrightarrow>
    sends libc (cmd_xrevrange_count key stop1 start count) [''XREVRANGE'', key, stop1, start, ''COUNT'', dec_int count]"
  unfolding cmd_xrevrange_count_def
  by (rule sends_words [where ws = "[lit ''XREVRANGE'', [FB key], [FB stop1], [FB start], lit ''COUNT'', [FLL count]]"]) (simp_all add: word_simps)

lemma sends_xtrim: "sends libc (cmd_xtrim key count approx)
    (''XTRIM'' # key # ''MAXLEN'' # flag approx ''~'' @ [dec_int count])"
  by (simp add: cmd_xtrim_def Let_def wire_simps)

end
