(* ===== verification/Reply.thy ===== *)
theory Reply
  imports Errors "HOL-Library.Multiset"
begin

text \<open>
  Replies and their parsers: \<open>src/commlib/redis/redis_reply.h\<close>, \<open>reply.h\<close> and \<open>reply.cpp\<close>.

  A reply object is a tree on the C heap.  The model keeps which heap block each part lives in:
  \<open>rblock\<close> is the block of the object, the string and the element vector carry theirs, so that
  freeing is a list of blocks and a double free is visible.  \<open>len\<close> and \<open>elements\<close> are the lengths of
  the string and of the vector: everything that builds a reply sets them together, so a reply without a
  vector has no elements and one without a string has no length.  The arguments of \<open>std::make_pair\<close>
  are parsed from left to right, an order C++ leaves open; it matters only for which of two
  exceptions is thrown.

  The template \<open>parse<T>\<close> is overloaded on the type it produces.  Here the types are a datatype
  \<open>rty\<close>, their values \<open>rval\<close>, and \<open>parse\<close> is one function by recursion over the type.  The standard
  function \<open>std::stod\<close> is the argument \<open>stod\<close>: its value, or the exception it throws.
\<close>

subsection \<open>Reply objects\<close>

datatype rreply = Reply (rblock: nat) (rtype: int) (rint: int) (rstr: "(nat \<times> bytes) option")
  (relem: "(nat \<times> rreply option list) option")

definition REDIS_REPLY_STRING :: int where "REDIS_REPLY_STRING = 1"
definition REDIS_REPLY_ARRAY :: int where "REDIS_REPLY_ARRAY = 2"
definition REDIS_REPLY_INTEGER :: int where "REDIS_REPLY_INTEGER = 3"
definition REDIS_REPLY_NIL :: int where "REDIS_REPLY_NIL = 4"
definition REDIS_REPLY_STATUS :: int where "REDIS_REPLY_STATUS = 5"
definition REDIS_REPLY_ERROR :: int where "REDIS_REPLY_ERROR = 6"

lemmas reply_type_defs [simp] = REDIS_REPLY_STRING_def REDIS_REPLY_ARRAY_def REDIS_REPLY_INTEGER_def
  REDIS_REPLY_NIL_def REDIS_REPLY_STATUS_def REDIS_REPLY_ERROR_def

definition elements :: "rreply \<Rightarrow> nat" where
  "elements r = (case relem r of None \<Rightarrow> 0 | Some (_, xs) \<Rightarrow> length xs)"

definition is_error :: "rreply \<Rightarrow> bool" where "is_error r \<longleftrightarrow> rtype r = REDIS_REPLY_ERROR"
definition is_nil :: "rreply \<Rightarrow> bool" where "is_nil r \<longleftrightarrow> rtype r = REDIS_REPLY_NIL"
definition is_string :: "rreply \<Rightarrow> bool" where "is_string r \<longleftrightarrow> rtype r = REDIS_REPLY_STRING"
definition is_status :: "rreply \<Rightarrow> bool" where "is_status r \<longleftrightarrow> rtype r = REDIS_REPLY_STATUS"
definition is_integer :: "rreply \<Rightarrow> bool" where "is_integer r \<longleftrightarrow> rtype r = REDIS_REPLY_INTEGER"
definition is_array :: "rreply \<Rightarrow> bool" where "is_array r \<longleftrightarrow> rtype r = REDIS_REPLY_ARRAY"

lemmas is_type_defs = is_error_def is_nil_def is_string_def is_status_def is_integer_def is_array_def

declare is_type_defs [reply_simps]

text \<open>\<open>freeReplyObject\<close> gives the blocks it passes to \<open>free\<close>, in that order.\<close>

fun freeReplyObject :: "rreply option \<Rightarrow> nat list" where
  "freeReplyObject None = []"
| "freeReplyObject (Some (Reply b ty i s e)) =
    (if ty = REDIS_REPLY_INTEGER then []
     else if ty = REDIS_REPLY_ARRAY then
       (case e of None \<Rightarrow> []
        | Some (eb, xs) \<Rightarrow> concat (map (\<lambda>x. if x \<noteq> None then freeReplyObject x else []) xs) @ [eb])
     else if ty = REDIS_REPLY_ERROR \<or> ty = REDIS_REPLY_STATUS \<or> ty = REDIS_REPLY_STRING then
       (case s of None \<Rightarrow> [] | Some (sb, _) \<Rightarrow> [sb])
     else []) @ [b]"

subsection \<open>Types and values\<close>

datatype rty = TVoid | TStr | TInt | TDbl | TBool | TOpt rty | TPair rty rty | TTup "rty list"
  | TSeq rty | TAssoc rty

datatype rval = RVoid | RStr bytes | RInt int | RDbl cdouble | RBool bool | RNone | RSome rval
  | RPair rval rval | RTup "rval list" | RList "rval list"

type_synonym stod_fun = "bytes \<Rightarrow> fault + cdouble"
type_synonym parser = "rreply \<Rightarrow> fault + rval"
type_synonym written = "rval list \<times> fault option"

abbreviation proto_error :: "bytes \<Rightarrow> fault + 'a" where
  "proto_error msg \<equiv> Inl (Throw (ProtoError msg))"

subsection \<open>Scalars\<close>

definition to_status :: "rreply \<Rightarrow> fault + bytes" where
  "to_status r =
    (if \<not> is_status r then proto_error ''Expect STATUS reply''
     else case rstr r of None \<Rightarrow> proto_error ''A null status reply'' | Some (_, s) \<Rightarrow> Inr s)"

definition parse_string :: "rreply \<Rightarrow> fault + bytes" where
  "parse_string r =
    (if \<not> is_string r \<and> \<not> is_status r then proto_error ''Expect STRING reply''
     else case rstr r of None \<Rightarrow> proto_error ''A null string reply'' | Some (_, s) \<Rightarrow> Inr s)"

definition parse_longlong :: "rreply \<Rightarrow> fault + int" where
  "parse_longlong r =
    (if \<not> is_integer r then proto_error ''Expect INTEGER reply'' else Inr (rint r))"

definition parse_double :: "stod_fun \<Rightarrow> rreply \<Rightarrow> fault + cdouble" where
  "parse_double stod r = rbind (parse_string r) stod"

definition parse_bool :: "rreply \<Rightarrow> fault + bool" where
  "parse_bool r = rbind (parse_longlong r) (\<lambda>ret.
     if ret = 1 then Inr True
     else if ret = 0 then Inr False
     else proto_error (''Invalid bool reply: '' @ dec_int ret))"

definition parse_void :: "rreply \<Rightarrow> fault + unit" where
  "parse_void r =
    (if \<not> is_status r then proto_error ''Expect STATUS reply''
     else case rstr r of None \<Rightarrow> proto_error ''A null status reply''
       | Some (_, s) \<Rightarrow>
           if length s \<noteq> length ''OK'' \<or> s \<noteq> ''OK''
           then rbind (to_status r) (\<lambda>t. proto_error (''NOT ok status reply: '' @ t))
           else Inr ())"

subsection \<open>Arrays\<close>

text \<open>
  \<open>to_array\<close> writes each parsed element through the output iterator before it parses the next, so
  what was written before an exception stays written: its result is the list of what was written
  and the exception, if there was one.
\<close>

definition emit :: "rval \<Rightarrow> written \<Rightarrow> written" where
  "emit v rest = (v # fst rest, snd rest)"

fun to_array_from :: "parser \<Rightarrow> rreply option list \<Rightarrow> written" where
  "to_array_from p [] = ([], None)"
| "to_array_from p (None # xs) = ([], Some (Throw (ProtoError ''Null array element reply'')))"
| "to_array_from p (Some x # xs) =
    (case p x of Inl e \<Rightarrow> ([], Some e) | Inr v \<Rightarrow> emit v (to_array_from p xs))"

definition to_plain_array :: "parser \<Rightarrow> rreply \<Rightarrow> written" where
  "to_plain_array p r =
    (if \<not> is_array r then ([], Some (Throw (ProtoError ''Expect ARRAY reply'')))
     else case relem r of None \<Rightarrow> ([], None) | Some (_, xs) \<Rightarrow> to_array_from p xs)"

definition is_flat_array :: "rreply \<Rightarrow> fault + bool" where
  "is_flat_array r =
    (if \<not> is_array r then Inl AssertFail
     else case relem r of None \<Rightarrow> Inr False
       | Some (_, xs) \<Rightarrow>
           Inr (case xs of [] \<Rightarrow> False | None # _ \<Rightarrow> False | Some sub_reply # _ \<Rightarrow> \<not> is_array sub_reply))"

fun to_flat_from :: "parser \<Rightarrow> parser \<Rightarrow> rreply option list \<Rightarrow> written" where
  "to_flat_from p q [] = ([], None)"
| "to_flat_from p q [x] = ([], Some Undef)"
| "to_flat_from p q (k # v # xs) =
    (case (k, v) of
       (Some key_reply, Some val_reply) \<Rightarrow>
         (case rbind (p key_reply) (\<lambda>a. rbind (q val_reply) (\<lambda>b. Inr (RPair a b))) of
            Inl e \<Rightarrow> ([], Some e)
          | Inr kv \<Rightarrow> emit kv (to_flat_from p q xs))
     | _ \<Rightarrow> ([], Some (Throw (ProtoError ''Null string array reply''))))"

definition to_flat_array :: "parser \<Rightarrow> parser \<Rightarrow> rreply \<Rightarrow> written" where
  "to_flat_array p q r =
    (case relem r of None \<Rightarrow> ([], None)
     | Some (_, xs) \<Rightarrow>
         if length xs mod 2 \<noteq> 0 then ([], Some (Throw (ProtoError ''Not string pair array reply'')))
         else to_flat_from p q xs)"

subsection \<open>Pairs and tuples\<close>

definition parse_pair :: "parser \<Rightarrow> parser \<Rightarrow> parser" where
  "parse_pair p q r =
    (if \<not> is_array r then proto_error ''Expect ARRAY reply''
     else if elements r \<noteq> 2 then proto_error ''NOT key-value PAIR reply''
     else case relem r of None \<Rightarrow> proto_error ''Null PAIR reply''
       | Some (_, xs) \<Rightarrow>
           (case (xs ! 0, xs ! 1) of
              (Some first, Some second) \<Rightarrow>
                rbind (p first) (\<lambda>a. rbind (q second) (\<lambda>b. Inr (RPair a b)))
            | _ \<Rightarrow> proto_error ''Null pair reply''))"

fun parse_tuple_from :: "parser list \<Rightarrow> rreply option list \<Rightarrow> fault + rval list" where
  "parse_tuple_from [] xs = Inr []"
| "parse_tuple_from (p # ps) [] = Inl Undef"
| "parse_tuple_from (p # ps) (None # xs) = proto_error ''Null reply''"
| "parse_tuple_from (p # ps) (Some x # xs) =
    rbind (p x) (\<lambda>a. rbind (parse_tuple_from ps xs) (\<lambda>as. Inr (a # as)))"

definition parse_tuple :: "parser list \<Rightarrow> parser" where
  "parse_tuple ps r =
    (if \<not> is_array r then proto_error ''Expect ARRAY reply''
     else if elements r \<noteq> length ps
     then proto_error (''Expect tuple reply with '' @ dec_nat (length ps) @ ''elements'')
     else case relem r of None \<Rightarrow> proto_error ''Null TUPLE reply''
       | Some (_, xs) \<Rightarrow> rbind (parse_tuple_from ps xs) (\<lambda>vs. Inr (RTup vs)))"

subsection \<open>Containers\<close>

definition collect :: "(rval list \<Rightarrow> rval) \<Rightarrow> written \<Rightarrow> fault + rval" where
  "collect f out = (case snd out of Some e \<Rightarrow> Inl e | None \<Rightarrow> Inr (f (fst out)))"

text \<open>An associative container keeps the first element of every key.\<close>

fun rkey :: "rval \<Rightarrow> rval" where
  "rkey (RPair k v) = k"
| "rkey v = v"

fun keep_first :: "rval list \<Rightarrow> rval list \<Rightarrow> rval list" where
  "keep_first seen [] = []"
| "keep_first seen (v # vs) =
    (if rkey v \<in> set seen then keep_first seen vs else v # keep_first (rkey v # seen) vs)"

definition array_output :: "bool \<Rightarrow> parser \<Rightarrow> parser \<Rightarrow> parser \<Rightarrow> rreply \<Rightarrow> written" where
  "array_output kv p q pq r =
    (if \<not> is_array r then ([], Some (Throw (ProtoError ''Expect ARRAY reply'')))
     else if kv then
       (case is_flat_array r of Inl e \<Rightarrow> ([], Some e)
        | Inr flat \<Rightarrow> if flat then to_flat_array p q r else to_plain_array pq r)
     else to_plain_array pq r)"

fun is_pair_ty :: "rty \<Rightarrow> bool" where
  "is_pair_ty (TPair _ _) = True"
| "is_pair_ty _ = False"

subsection \<open>The template\<close>

fun parse :: "stod_fun \<Rightarrow> rty \<Rightarrow> rreply \<Rightarrow> fault + rval"
  and to_array :: "stod_fun \<Rightarrow> rty \<Rightarrow> rreply \<Rightarrow> written" where
  "parse sd TVoid r = rbind (parse_void r) (\<lambda>_. Inr RVoid)"
| "parse sd TStr r = rbind (parse_string r) (\<lambda>s. Inr (RStr s))"
| "parse sd TInt r = rbind (parse_longlong r) (\<lambda>i. Inr (RInt i))"
| "parse sd TDbl r = rbind (parse_double sd r) (\<lambda>d. Inr (RDbl d))"
| "parse sd TBool r = rbind (parse_bool r) (\<lambda>b. Inr (RBool b))"
| "parse sd (TOpt t) r =
    (if is_nil r then Inr RNone else rbind (parse sd t r) (\<lambda>v. Inr (RSome v)))"
| "parse sd (TPair t u) r = parse_pair (parse sd t) (parse sd u) r"
| "parse sd (TTup ts) r = parse_tuple (map (parse sd) ts) r"
| "parse sd (TSeq t) r =
    (if \<not> is_array r then proto_error ''Expect ARRAY reply'' else collect RList (to_array sd t r))"
| "parse sd (TAssoc t) r =
    (if \<not> is_array r then proto_error ''Expect ARRAY reply''
     else collect (\<lambda>vs. RList (keep_first [] vs)) (to_array sd t r))"
| "to_array sd t r =
    (case t of
       TPair u w \<Rightarrow> array_output True (parse sd u) (parse sd w) (parse_pair (parse sd u) (parse sd w)) r
     | _ \<Rightarrow> array_output False (parse sd t) (parse sd t) (parse sd t) r)"

subsection \<open>Rewriting, scanning, pending entries\<close>

text \<open>
  \<open>rewrite_set_reply\<close> turns the reply of \<open>SET\<close> into an integer: the reply it leaves, and the
  blocks it frees.  The string pointer stays in the object although its block is gone.
\<close>

fun set_int_reply :: "int \<Rightarrow> rreply \<Rightarrow> rreply" where
  "set_int_reply v (Reply b ty i s e) = Reply b REDIS_REPLY_INTEGER v s e"

fun set_reply_type :: "int \<Rightarrow> rreply \<Rightarrow> rreply" where
  "set_reply_type t (Reply b ty i s e) = Reply b t i s e"

definition rewrite_set_reply :: "rreply \<Rightarrow> fault + (rreply \<times> nat list)" where
  "rewrite_set_reply r =
    (if is_nil r then Inr (set_int_reply 0 r, [])
     else rbind (parse_void r) (\<lambda>_.
       case rstr r of
         Some (sb, _) \<Rightarrow> if is_status r then Inr (set_int_reply 1 r, [sb]) else Inl AssertFail
       | None \<Rightarrow> Inl AssertFail))"

definition rewrite_georadius_reply :: "rreply \<Rightarrow> rreply" where
  "rewrite_georadius_reply r =
    (if is_array r \<and> relem r = None then set_reply_type REDIS_REPLY_NIL r else r)"

text \<open>\<open>std::stoll\<close>: blanks, a sign, the longest run of digits; \<open>None\<close> where it throws.\<close>

definition is_blank :: "char \<Rightarrow> bool" where
  "is_blank c \<longleftrightarrow> c = CHR '' '' \<or> (9 \<le> (of_char c :: nat) \<and> (of_char c :: nat) \<le> 13)"

fun sign_of :: "bytes \<Rightarrow> int \<times> bytes" where
  "sign_of [] = (1, [])"
| "sign_of (c # s) = (if c = CHR ''-'' then (-1, s) else if c = CHR ''+'' then (1, s) else (1, c # s))"

definition stoll :: "bytes \<Rightarrow> int option" where
  "stoll s =
    (let (sg, r) = sign_of (dropWhile is_blank s); ds = takeWhile is_digit r; v = sg * int (undec ds) in
     if ds = [] then None
     else if - (2 ^ 63) \<le> v \<and> v < 2 ^ 63 then Some v else None)"

text \<open>
  \<open>new_cursor\<close> is declared \<open>auto new_cursor = 0\<close>, so it is an \<open>int\<close>: the assignment keeps the low
  32 bits of the cursor.
\<close>

definition parse_scan_reply :: "stod_fun \<Rightarrow> rty \<Rightarrow> rreply \<Rightarrow> (fault + int) \<times> rval list" where
  "parse_scan_reply sd t r =
    (if elements r \<noteq> 2 \<or> relem r = None then (proto_error ''Invalid scan reply'', [])
     else case (snd (the (relem r)) ! 0, snd (the (relem r)) ! 1) of
        (Some cursor_reply, Some data_reply) \<Rightarrow>
          (case parse_string cursor_reply of Inl e \<Rightarrow> (Inl e, [])
           | Inr cursor_str \<Rightarrow>
             (case stoll cursor_str of
                None \<Rightarrow> (proto_error (''Invalid cursor reply: '' @ cursor_str), [])
              | Some c \<Rightarrow>
                (let new_cursor = int32 c; out = to_array sd t data_reply in
                 (case snd out of Some e \<Rightarrow> Inl e | None \<Rightarrow> Inr new_cursor, fst out))))
      | _ \<Rightarrow> (proto_error ''Invalid cursor reply or data reply'', []))"

definition parse_xpending_reply :: "stod_fun \<Rightarrow> rty \<Rightarrow> rreply \<Rightarrow> (fault + rval) \<times> rval list" where
  "parse_xpending_reply sd t r =
    (if \<not> is_array r \<or> elements r \<noteq> 4 then (proto_error ''expect array reply with 4 elements'', [])
     else case relem r of None \<Rightarrow> (Inl Undef, [])
     | Some (_, xs) \<Rightarrow>
        if \<exists>x\<in>set xs. x = None then (proto_error ''null array reply'', [])
        else case rbind (parse_longlong (the (xs ! 0))) (\<lambda>num.
                  rbind (parse sd (TOpt TStr) (the (xs ! 1))) (\<lambda>start.
                  rbind (parse sd (TOpt TStr) (the (xs ! 2))) (\<lambda>stop1.
                    Inr (RTup [RInt num, start, stop1])))) of
            Inl e \<Rightarrow> (Inl e, [])
          | Inr res \<Rightarrow>
              (if is_nil (the (xs ! 3)) then (Inr res, [])
               else let out = to_array sd t (the (xs ! 3)) in
                 (case snd out of Some e \<Rightarrow> Inl e | None \<Rightarrow> Inr res, fst out)))"

subsection \<open>Values as the server writes them\<close>

fun is_opt_ty :: "rty \<Rightarrow> bool" where
  "is_opt_ty (TOpt _) = True"
| "is_opt_ty _ = False"

primrec typed :: "rty \<Rightarrow> rval \<Rightarrow> bool" where
  "typed TVoid v = (case v of RVoid \<Rightarrow> True | _ \<Rightarrow> False)"
| "typed TStr v = (case v of RStr _ \<Rightarrow> True | _ \<Rightarrow> False)"
| "typed TInt v = (case v of RInt _ \<Rightarrow> True | _ \<Rightarrow> False)"
| "typed TDbl v = (case v of RDbl _ \<Rightarrow> True | _ \<Rightarrow> False)"
| "typed TBool v = (case v of RBool _ \<Rightarrow> True | _ \<Rightarrow> False)"
| "typed (TOpt t) v =
     (case v of RNone \<Rightarrow> True | RSome w \<Rightarrow> \<not> is_opt_ty t \<and> typed t w | _ \<Rightarrow> False)"
| "typed (TPair t u) v = (case v of RPair a b \<Rightarrow> typed t a \<and> typed u b | _ \<Rightarrow> False)"
| "typed (TTup ts) v =
     (case v of RTup vs \<Rightarrow> list_all2 (\<lambda>p w. p w) (map typed ts) vs | _ \<Rightarrow> False)"
| "typed (TSeq t) v = (case v of RList vs \<Rightarrow> list_all (typed t) vs | _ \<Rightarrow> False)"
| "typed (TAssoc t) v =
     (case v of RList vs \<Rightarrow> list_all (typed t) vs \<and> distinct (map rkey vs) | _ \<Rightarrow> False)"

abbreviation array_reply :: "rreply list \<Rightarrow> rreply" where
  "array_reply xs \<equiv> Reply 0 REDIS_REPLY_ARRAY 0 None (Some (0, map Some xs))"

abbreviation string_reply :: "bytes \<Rightarrow> rreply" where
  "string_reply s \<equiv> Reply 0 REDIS_REPLY_STRING 0 (Some (0, s)) None"

fun enc :: "(cdouble \<Rightarrow> bytes) \<Rightarrow> rval \<Rightarrow> rreply" where
  "enc fd RVoid = Reply 0 REDIS_REPLY_STATUS 0 (Some (0, ''OK'')) None"
| "enc fd (RStr s) = string_reply s"
| "enc fd (RInt i) = Reply 0 REDIS_REPLY_INTEGER i None None"
| "enc fd (RDbl d) = string_reply (fd d)"
| "enc fd (RBool b) = Reply 0 REDIS_REPLY_INTEGER (of_bool b) None None"
| "enc fd RNone = Reply 0 REDIS_REPLY_NIL 0 None None"
| "enc fd (RSome v) = enc fd v"
| "enc fd (RPair a b) = array_reply [enc fd a, enc fd b]"
| "enc fd (RTup vs) = array_reply (map (enc fd) vs)"
| "enc fd (RList vs) = array_reply (map (enc fd) vs)"

text \<open>The doubles of a value; only their texts need to be readable.\<close>

fun doubles :: "rval \<Rightarrow> cdouble list" where
  "doubles (RDbl d) = [d]"
| "doubles (RSome v) = doubles v"
| "doubles (RPair a b) = doubles a @ doubles b"
| "doubles (RTup vs) = concat (map doubles vs)"
| "doubles (RList vs) = concat (map doubles vs)"
| "doubles _ = []"

definition reads_back :: "stod_fun \<Rightarrow> (cdouble \<Rightarrow> bytes) \<Rightarrow> rval \<Rightarrow> bool" where
  "reads_back sd fd v \<longleftrightarrow> (\<forall>d\<in>set (doubles v). sd (fd d) = Inr d)"

lemma enc_not_nil: "typed t v \<Longrightarrow> \<not> is_opt_ty t \<Longrightarrow> \<not> is_nil (enc fd v)"
  by (cases t; cases v) (auto simp: is_nil_def)

lemma to_array_from_enc:
  "\<forall>v\<in>set vs. p (enc fd v) = Inr v \<Longrightarrow> to_array_from p (map Some (map (enc fd) vs)) = (vs, None)"
  by (induction vs) (auto simp: emit_def)

lemma parse_tuple_from_enc:
  "list_all2 (\<lambda>p v. p (enc fd v) = Inr v) ps vs \<Longrightarrow>
   parse_tuple_from ps (map Some (map (enc fd) vs)) = Inr vs"
  by (induction rule: list_all2_induct) auto

lemma keep_first_distinct:
  "distinct (map rkey vs) \<Longrightarrow> set (map rkey vs) \<inter> set seen = {} \<Longrightarrow> keep_first seen vs = vs"
  by (induction vs arbitrary: seen) auto

lemma parse_TPair: "parse sd (TPair t u) = parse_pair (parse sd t) (parse sd u)"
  by (rule ext) simp

lemma typed_pair_ty: "is_pair_ty t \<Longrightarrow> typed t v \<Longrightarrow> is_array (enc fd v)"
  by (cases t; cases v) (auto simp: is_array_def)

lemma to_array_enc:
  assumes "\<And>v. v \<in> set vs \<Longrightarrow> parse sd t (enc fd v) = Inr v" "list_all (typed t) vs"
  shows "to_array sd t (array_reply (map (enc fd) vs)) = (vs, None)"
proof -
  have elems: "to_array_from (parse sd t) (map Some (map (enc fd) vs)) = (vs, None)"
    using assms by (intro to_array_from_enc) (auto simp: list_all_iff)
  show ?thesis
  proof (cases "is_pair_ty t")
    case True
    then obtain u w where t: "t = TPair u w" by (cases t) auto
    have "is_flat_array (array_reply (map (enc fd) vs)) = Inr False"
      using assms(2) typed_pair_ty [OF True]
      by (cases vs) (auto simp: is_flat_array_def is_array_def)
    with elems show ?thesis
      by (simp add: t array_output_def reply_simps to_plain_array_def parse_TPair)
  next
    case False
    with elems show ?thesis
      by (cases t) (simp_all add: array_output_def reply_simps to_plain_array_def)
  qed
qed

lemma parse_enc: "typed t v \<Longrightarrow> reads_back sd fd v \<Longrightarrow> parse sd t (enc fd v) = Inr v"
proof (induction t arbitrary: v)
  case (TOpt t)
  then show ?case using enc_not_nil [of t _ fd] by (cases v) (auto simp: is_nil_def reads_back_def)
next
  case (TPair t u)
  then show ?case
    by (cases v) (auto simp: parse_pair_def reply_simps elements_def reads_back_def)
next
  case (TTup ts)
  then obtain vs where v: "v = RTup vs" and ty: "list_all2 (\<lambda>p w. p w) (map typed ts) vs"
    by (cases v) auto
  have "reads_back sd fd w" if "w \<in> set vs" for w
    using TTup.prems(2) v that by (auto simp: reads_back_def)
  then have "list_all2 (\<lambda>p v. p (enc fd v) = Inr v) (map (parse sd) ts) vs"
    using ty TTup.IH by (auto simp: list_all2_conv_all_nth)
  from parse_tuple_from_enc [OF this] v list_all2_lengthD [OF this] show ?case
    by (simp add: parse_tuple_def reply_simps elements_def)
next
  case (TSeq t)
  then obtain vs where v: "v = RList vs" "list_all (typed t) vs" by (cases v) auto
  have "parse sd t (enc fd w) = Inr w" if "w \<in> set vs" for w
    using TSeq v that by (auto simp: reads_back_def list_all_iff)
  from to_array_enc [OF this v(2)] v(1) show ?case by (simp add: is_array_def collect_def)
next
  case (TAssoc t)
  then obtain vs where v: "v = RList vs" "list_all (typed t) vs" "distinct (map rkey vs)" by (cases v) auto
  have "parse sd t (enc fd w) = Inr w" if "w \<in> set vs" for w
    using TAssoc v that by (auto simp: reads_back_def list_all_iff)
  from to_array_enc [OF this v(2)] v show ?case
    by (simp add: is_array_def collect_def keep_first_distinct)
next
  case TVoid
  then have "v = RVoid" by (cases v) simp_all
  then show ?case by (simp add: parse_void_def is_status_def)
next
  case TStr
  then obtain s where "v = RStr s" by (cases v) simp_all
  then show ?case by (simp add: parse_string_def is_string_def)
next
  case TInt
  then obtain i where "v = RInt i" by (cases v) simp_all
  then show ?case by (simp add: parse_longlong_def is_integer_def)
next
  case TDbl
  then obtain d where "v = RDbl d" by (cases v) simp_all
  with TDbl.prems show ?case by (simp add: parse_double_def parse_string_def is_string_def reads_back_def)
next
  case TBool
  then obtain b where "v = RBool b" by (cases v) simp_all
  then show ?case by (cases b) (simp_all add: parse_bool_def parse_longlong_def is_integer_def)
qed

end
