(* ===== verification/Reply_Facts.thy ===== *)
theory Reply_Facts
  imports Reply
begin

text \<open>
  What the reply parsers of \<open>reply.h\<close>/\<open>reply.cpp\<close> promise: maps arrive flat or nested with the same
  result; a parser fails with a \<open>ProtoError\<close> or with what \<open>std::stod\<close> throws, and with nothing
  else; every heap block of a reply is freed exactly once, also after \<open>rewrite_set_reply\<close>; the
  cursor \<open>parse_scan_reply\<close> returns.
\<close>

subsection \<open>Maps that arrive flat\<close>

text \<open>\<open>HGETALL\<close> and \<open>WITHSCORES\<close> answer with keys and values in one array.\<close>

definition flat_reply :: "(cdouble \<Rightarrow> bytes) \<Rightarrow> (rval \<times> rval) list \<Rightarrow> rreply" where
  "flat_reply fd kvs = array_reply (concat (map (\<lambda>(k, v). [enc fd k, enc fd v]) kvs))"

fun is_array_ty :: "rty \<Rightarrow> bool" where
  "is_array_ty (TPair _ _) = True"
| "is_array_ty (TTup _) = True"
| "is_array_ty (TSeq _) = True"
| "is_array_ty (TAssoc _) = True"
| "is_array_ty (TOpt t) = is_array_ty t"
| "is_array_ty _ = False"

lemma not_array_enc: "typed t v \<Longrightarrow> \<not> is_array_ty t \<Longrightarrow> \<not> is_array (enc fd v)"
proof (induction t arbitrary: v)
  case (TOpt t)
  then show ?case by (cases v) (auto simp: is_array_def)
qed (auto simp: is_array_def split: rval.splits)

lemma to_flat_from_enc:
  assumes "\<forall>(k, v)\<in>set kvs. p (enc fd k) = Inr k \<and> q (enc fd v) = Inr v"
  shows "to_flat_from p q (map Some (concat (map (\<lambda>(k, v). [enc fd k, enc fd v]) kvs))) =
    (map (\<lambda>(k, v). RPair k v) kvs, None)"
  using assms by (induction kvs) (auto simp: emit_def)

lemma length_flat: "length (concat (map (\<lambda>p. [f p, g p]) kvs)) = 2 * length kvs"
  by (induction kvs) auto

lemma to_array_flat:
  assumes sd: "reads_back sd fd (RList (map (\<lambda>(k, v). RPair k v) kvs))"
    and ty: "\<forall>(k, v)\<in>set kvs. typed t k \<and> typed u v" and "\<not> is_array_ty t"
  shows "to_array sd (TPair t u) (flat_reply fd kvs) = (map (\<lambda>(k, v). RPair k v) kvs, None)"
proof -
  have "to_flat_from (parse sd t) (parse sd u)
      (map Some (concat (map (\<lambda>(k, v). [enc fd k, enc fd v]) kvs))) = (map (\<lambda>(k, v). RPair k v) kvs, None)"
    using ty sd by (intro to_flat_from_enc) (auto intro!: parse_enc simp: reads_back_def)
  moreover have "is_flat_array (flat_reply fd kvs) = Inr (kvs \<noteq> [])"
    using ty not_array_enc [OF _ assms(3)]
    by (cases kvs) (auto simp: is_flat_array_def flat_reply_def is_array_def)
  ultimately show ?thesis
    by (cases kvs) (simp_all add: array_output_def flat_reply_def is_array_def to_flat_array_def
        to_plain_array_def length_flat split_def)
qed

subsection \<open>Parsers fail with protocol errors only\<close>

definition fails_only :: "(fault \<Rightarrow> bool) \<Rightarrow> parser \<Rightarrow> bool" where
  "fails_only E p \<longleftrightarrow> (\<forall>r f. p r = Inl f \<longrightarrow> E f)"

definition proto_or :: "stod_fun \<Rightarrow> fault \<Rightarrow> bool" where
  "proto_or sd f \<longleftrightarrow> (\<exists>m. f = Throw (ProtoError m)) \<or> (\<exists>s. sd s = Inl f)"

lemma proto_or_proto [simp]: "proto_or sd (Throw (ProtoError m))"
  by (simp add: proto_or_def)

lemma fails_only_iff: "fails_only E p \<longleftrightarrow> (\<forall>r. case p r of Inl f \<Rightarrow> E f | Inr _ \<Rightarrow> True)"
  by (auto simp: fails_only_def split: sum.splits)

lemma to_array_from_fails:
  "fails_only (proto_or sd) p \<Longrightarrow> snd (to_array_from p xs) = Some f \<Longrightarrow> proto_or sd f"
  by (induction p xs rule: to_array_from.induct)
    (auto simp: fails_only_def emit_def split: sum.splits)

lemma to_flat_from_fails:
  "fails_only (proto_or sd) p \<Longrightarrow> fails_only (proto_or sd) q \<Longrightarrow> even (length xs) \<Longrightarrow>
   snd (to_flat_from p q xs) = Some f \<Longrightarrow> proto_or sd f"
  by (induction p q xs rule: to_flat_from.induct)
    (auto simp: fails_only_def emit_def rbind_Inl_iff split: sum.splits option.splits)

lemma parse_tuple_from_fails:
  "\<forall>p\<in>set ps. fails_only (proto_or sd) p \<Longrightarrow> length ps \<le> length xs \<Longrightarrow>
   parse_tuple_from ps xs = Inl f \<Longrightarrow> proto_or sd f"
  by (induction ps xs rule: parse_tuple_from.induct) (auto simp: fails_only_def rbind_Inl_iff)

lemma parse_pair_fails:
  "fails_only (proto_or sd) p \<Longrightarrow> fails_only (proto_or sd) q \<Longrightarrow> fails_only (proto_or sd) (parse_pair p q)"
  unfolding fails_only_def parse_pair_def
  by (auto simp: rbind_Inl_iff split: if_splits option.splits)

lemma array_output_fails:
  assumes "fails_only (proto_or sd) p" "fails_only (proto_or sd) q" "fails_only (proto_or sd) pq"
    and "snd (array_output kv p q pq r) = Some f"
  shows "proto_or sd f"
proof -
  have "snd (to_plain_array pq r) = Some f \<Longrightarrow> proto_or sd f"
    using to_array_from_fails [OF assms(3)]
    by (auto simp: to_plain_array_def split: if_splits option.splits)
  moreover have "snd (to_flat_array p q r) = Some f \<Longrightarrow> proto_or sd f"
    using to_flat_from_fails [OF assms(1,2)]
    by (auto simp: to_flat_array_def even_iff_mod_2_eq_zero split: if_splits option.splits)
  ultimately show ?thesis
    using assms(4) by (auto simp: array_output_def is_flat_array_def split: if_splits sum.splits option.splits)
qed

lemma collect_fails: "collect g out = Inl f \<longleftrightarrow> snd out = Some f"
  by (auto simp: collect_def split: option.splits)

text \<open>The induction carries the components of a pair type, which a flat array is parsed with.\<close>

definition ty_fails :: "stod_fun \<Rightarrow> rty \<Rightarrow> bool" where
  "ty_fails sd t \<longleftrightarrow> fails_only (proto_or sd) (parse sd t) \<and>
     (\<forall>u w. t = TPair u w \<longrightarrow> fails_only (proto_or sd) (parse sd u) \<and> fails_only (proto_or sd) (parse sd w))"

lemma to_array_fails:
  assumes "ty_fails sd t" "snd (to_array sd t r) = Some f"
  shows "proto_or sd f"
proof (cases "is_pair_ty t")
  case True
  then obtain u w where t: "t = TPair u w" by (cases t) auto
  with assms array_output_fails [of sd "parse sd u" "parse sd w" "parse_pair (parse sd u) (parse sd w)" True r f]
  show ?thesis by (simp add: parse_pair_fails ty_fails_def)
next
  case False
  then have out: "to_array sd t r = array_output False (parse sd t) (parse sd t) (parse sd t) r"
    by (cases t) simp_all
  from assms(1) have "fails_only (proto_or sd) (parse sd t)" by (simp add: ty_fails_def)
  from array_output_fails [OF this this this] assms(2) show ?thesis unfolding out by blast
qed

lemma collect_to_array_fails: "ty_fails sd t \<Longrightarrow> fails_only (proto_or sd)
    (\<lambda>r. if \<not> is_array r then proto_error m else collect g (to_array sd t r))"
  using to_array_fails [of sd t] by (auto simp: fails_only_def collect_fails simp del: to_array.simps)

lemma parse_tuple_fails:
  "\<forall>p\<in>set ps. fails_only (proto_or sd) p \<Longrightarrow> fails_only (proto_or sd) (parse_tuple ps)"
proof -
  assume ps: "\<forall>p\<in>set ps. fails_only (proto_or sd) p"
  have "proto_or sd f" if f: "parse_tuple ps r = Inl f" for r f
  proof (cases "is_array r \<and> elements r = length ps \<and> relem r \<noteq> None")
    case True
    then obtain b xs where xs: "relem r = Some (b, xs)" "length xs = length ps"
      by (auto simp: elements_def)
    with f True have "parse_tuple_from ps xs = Inl f"
      by (auto simp: parse_tuple_def rbind_Inl_iff)
    with parse_tuple_from_fails [OF ps] xs(2) show ?thesis by (metis order_refl)
  qed (use f in \<open>auto simp: parse_tuple_def split: if_splits option.splits\<close>)
  then show ?thesis by (simp add: fails_only_def)
qed

lemma ty_fails: "ty_fails sd t"
proof (induction t)
  case (TOpt t)
  then show ?case by (auto simp: ty_fails_def fails_only_def rbind_Inl_iff split: if_splits)
next
  case (TPair t u)
  then show ?case by (simp add: ty_fails_def parse_TPair parse_pair_fails)
next
  case (TTup ts)
  have "fails_only (proto_or sd) (parse_tuple (map (parse sd) ts))"
    by (rule parse_tuple_fails) (use TTup.IH in \<open>auto simp: ty_fails_def\<close>)
  moreover have "parse sd (TTup ts) = parse_tuple (map (parse sd) ts)" by (rule ext) simp
  ultimately show ?case by (simp add: ty_fails_def)
next
  case (TSeq t)
  have "parse sd (TSeq t) =
      (\<lambda>r. if \<not> is_array r then proto_error ''Expect ARRAY reply'' else collect RList (to_array sd t r))"
    by (rule ext) simp
  with collect_to_array_fails [OF TSeq.IH] show ?case by (simp add: ty_fails_def)
next
  case (TAssoc t)
  have "parse sd (TAssoc t) = (\<lambda>r. if \<not> is_array r then proto_error ''Expect ARRAY reply''
      else collect (\<lambda>vs. RList (keep_first [] vs)) (to_array sd t r))"
    by (rule ext) simp
  with collect_to_array_fails [OF TAssoc.IH] show ?case by (simp add: ty_fails_def)
qed (auto simp: ty_fails_def fails_only_def parse_void_def parse_string_def parse_longlong_def
    parse_double_def parse_bool_def to_status_def proto_or_def rbind_Inl_iff split: if_splits option.splits)

lemma parse_Inl: "parse sd t r = Inl f \<Longrightarrow> proto_or sd f"
  using ty_fails [of sd t] by (auto simp: ty_fails_def fails_only_def)

subsection \<open>Blocks of the heap\<close>

text \<open>
  \<open>blocks r\<close> are all the blocks of a reply; \<open>tidy r\<close> says that only the types that
  \<open>freeReplyObject\<close> looks at own a string or a vector, as every reply has that is built by hiredis
  or by \<open>ConvertReply\<close>.
\<close>

fun blocks :: "rreply \<Rightarrow> nat list" where
  "blocks (Reply b ty i s e) =
    (case e of None \<Rightarrow> []
     | Some (eb, xs) \<Rightarrow> concat (map (\<lambda>x. case x of None \<Rightarrow> [] | Some r \<Rightarrow> blocks r) xs) @ [eb]) @
    (case s of None \<Rightarrow> [] | Some (sb, _) \<Rightarrow> [sb]) @ [b]"

fun tidy :: "rreply \<Rightarrow> bool" where
  "tidy (Reply b ty i s e) \<longleftrightarrow>
    (s \<noteq> None \<longrightarrow> ty = REDIS_REPLY_ERROR \<or> ty = REDIS_REPLY_STATUS \<or> ty = REDIS_REPLY_STRING) \<and>
    (e \<noteq> None \<longrightarrow> ty = REDIS_REPLY_ARRAY) \<and>
    (case e of None \<Rightarrow> True | Some (_, xs) \<Rightarrow> \<forall>x\<in>set xs. case x of None \<Rightarrow> True | Some r \<Rightarrow> tidy r)"

lemma free_blocks: "tidy r \<Longrightarrow> freeReplyObject (Some r) = blocks r"
proof (induction r rule: tidy.induct)
  case (1 b ty i s e)
  show ?case
  proof (cases e)
    case None
    with "1.prems" show ?thesis by (auto split: option.splits)
  next
    case (Some ex)
    obtain eb xs where ex: "ex = (eb, xs)" by fastforce
    from "1.prems" Some have ty: "ty = REDIS_REPLY_ARRAY" "s = None" by (cases s; auto)+
    have "freeReplyObject x = (case x of None \<Rightarrow> [] | Some r \<Rightarrow> blocks r)" if "x \<in> set xs" for x
      using "1.IH" "1.prems" Some ex that by (cases x) auto
    then have "map (\<lambda>x. if x \<noteq> None then freeReplyObject x else []) xs =
        map (\<lambda>x. case x of None \<Rightarrow> [] | Some r \<Rightarrow> blocks r) xs"
      by (intro map_cong) (auto split: option.splits)
    then show ?thesis unfolding Some ex ty by (simp del: map_eq_conv)
  qed
qed

text \<open>After \<open>SET\<close> every block is freed once: the string early, the rest with the object.\<close>

lemma rewrite_set_frees:
  assumes "tidy r" "rewrite_set_reply r = Inr (r', freed)"
  shows "mset (freed @ freeReplyObject (Some r')) = mset (blocks r)"
proof (cases r)
  case (Reply b ty i s e)
  show ?thesis
  proof (cases "is_nil r")
    case True
    with assms Reply show ?thesis by (cases s; cases e) (auto simp: rewrite_set_reply_def is_nil_def)
  next
    case False
    with assms(2) obtain sb t where "s = Some (sb, t)" "ty = REDIS_REPLY_STATUS" "r' = set_int_reply 1 r" "freed = [sb]"
      by (auto simp: rewrite_set_reply_def Reply is_status_def split: if_splits option.splits sum.splits
          simp: rbind_Inr_iff)
    with assms(1) Reply show ?thesis by (cases e) auto
  qed
qed

lemma rewrite_set_value:
  "rewrite_set_reply r = Inr (r', freed) \<Longrightarrow> parse_bool r' = Inr (\<not> is_nil r)"
  by (cases r) (auto simp: rewrite_set_reply_def parse_bool_def parse_longlong_def is_integer_def
      rbind_Inr_iff split: if_splits option.splits)

lemma rewrite_set_accepts:
  "(\<exists>r' fs. rewrite_set_reply r = Inr (r', fs)) \<longleftrightarrow>
     is_nil r \<or> (is_status r \<and> (\<exists>sb. rstr r = Some (sb, ''OK'')))"
  by (auto simp: rewrite_set_reply_def parse_void_def is_nil_def is_status_def rbind_Inr_iff
      split: if_splits option.splits)

subsection \<open>The cursor of a scan\<close>

lemma sign_of_dec_int: "i < 0 \<Longrightarrow> sign_of (dec_int i) = (-1, dec_nat (nat (- i)))"
  by (simp add: dec_int_def)

lemma dec_nat_Cons: "\<exists>c s. dec_nat n = c # s \<and> is_digit c"
  using dec_nat_digits [of "hd (dec_nat n)" n] by (cases "dec_nat n") auto

lemma digit_not_blank: "is_digit c \<Longrightarrow> \<not> is_blank c \<and> c \<noteq> CHR ''+'' \<and> c \<noteq> CHR ''-''"
  by (auto simp: is_digit_def is_blank_def)

lemma takeWhile_dec_nat: "takeWhile is_digit (dec_nat n) = dec_nat n"
  using dec_nat_digits by (simp add: takeWhile_eq_all_conv)

lemma stoll_dec_int:
  assumes "- (2 ^ 63) \<le> i" "i < 2 ^ 63"
  shows "stoll (dec_int i) = Some i"
proof (cases "i < 0")
  case True
  moreover have "dropWhile is_blank (dec_int i) = dec_int i"
    using True by (simp add: dec_int_def is_blank_def)
  ultimately show ?thesis
    using assms by (simp add: stoll_def sign_of_dec_int takeWhile_dec_nat Let_def)
next
  case False
  obtain c s where c: "dec_nat (nat i) = c # s" "is_digit c" using dec_nat_Cons by blast
  then have "dropWhile is_blank (dec_int i) = dec_int i" "sign_of (dec_int i) = (1, dec_nat (nat i))"
    using False digit_not_blank [of c] by (simp_all add: dec_int_def)
  with assms False show ?thesis
    by (simp add: stoll_def takeWhile_dec_nat Let_def)
qed

definition scan_answer :: "int \<Rightarrow> rreply \<Rightarrow> rreply" where
  "scan_answer cursor data = array_reply [string_reply (dec_int cursor), data]"

lemma parse_scan_answer:
  assumes "- (2 ^ 63) \<le> cursor" "cursor < 2 ^ 63"
  shows "parse_scan_reply sd t (scan_answer cursor data) =
    (case snd (to_array sd t data) of Some e \<Rightarrow> Inl e | None \<Rightarrow> Inr (int32 cursor), fst (to_array sd t data))"
  using assms by (simp add: parse_scan_reply_def scan_answer_def elements_def parse_string_def
      is_string_def stoll_dec_int Let_def del: to_array.simps)

end
