(* ===== verification/Api_Core.thy ===== *)
theory Api_Core
  imports Cmd_Key Cmd_String Cmd_List Cmd_Hash Cmd_Set Cmd_Zset Cmd_Misc Cmd_Stream Reply_Facts
begin

text \<open>
  The client class \<open>Redis\<close> of \<open>src/commlib/redis/redis.h\<close>, its call mechanism: a method builds a
  command, sends it through the connection, receives one reply and interprets it
  (\<open>redis.hpp\<close>, \<open>Redis::command\<close> and \<open>Redis::_command\<close>).

  The connection is abstract (\<open>Connection\<close> has two virtual functions that take a request and one
  that returns the reply): \<open>conn_ops\<close> is a record of what a concrete one does on its state \<open>'c\<close>.
  A method of \<open>Redis\<close> is an \<open>api\<close> value: what it sends, or how it fails before that, and how it
  interprets the reply.  \<open>run_call\<close> performs such a method.
\<close>

subsection \<open>Calls\<close>

datatype how =
    ParseAs rty
  | StatusText
  | ArrayInto rty
  | NilOrArrayInto rty
  | ScanInto rty
  | XPendingInto rty
  | SetResult
  | GeoStoreResult
  | Asserted how

type_synonym api = "(fault + csend) \<times> how"

record 'c conn_ops =
  do_request :: "request \<Rightarrow> 'c \<Rightarrow> (fault + unit) \<times> 'c"
  do_recv :: "'c \<Rightarrow> rreply option \<times> 'c"

definition array_result :: "rval \<Rightarrow> written \<Rightarrow> (fault + rval) \<times> rval list" where
  "array_result v out = (case snd out of Some e \<Rightarrow> Inl e | None \<Rightarrow> Inr v, fst out)"

fun interpret_reply :: "stod_fun \<Rightarrow> how \<Rightarrow> rreply \<Rightarrow> (fault + rval) \<times> rval list" where
  "interpret_reply sd (ParseAs t) r = (parse sd t r, [])"
| "interpret_reply sd StatusText r = (rbind (to_status r) (\<lambda>s. Inr (RStr s)), [])"
| "interpret_reply sd (ArrayInto t) r = array_result RVoid (to_array sd t r)"
| "interpret_reply sd (NilOrArrayInto t) r =
     (if is_nil r then (Inr RVoid, []) else array_result RVoid (to_array sd t r))"
| "interpret_reply sd (ScanInto t) r =
     (case parse_scan_reply sd t r of (res, out) \<Rightarrow> (rbind res (\<lambda>c. Inr (RInt c)), out))"
| "interpret_reply sd (XPendingInto t) r = parse_xpending_reply sd t r"
| "interpret_reply sd SetResult r =
     (rbind (rewrite_set_reply r) (\<lambda>(r', _). parse sd TBool r'), [])"
| "interpret_reply sd GeoStoreResult r = (parse sd (TOpt TInt) (rewrite_georadius_reply r), [])"
| "interpret_reply sd (Asserted h) r = interpret_reply sd h r"

text \<open>
  \<open>redis_command\<close> is \<open>_command\<close>: run the command function on the connection, then \<open>recv\<close>.  The
  named methods dereference the pointer it returns without a test, so a null reply is undefined
  behaviour; the generic commands assert it first (\<open>Asserted\<close>).
\<close>

fun null_reply :: "how \<Rightarrow> fault" where
  "null_reply (Asserted h) = AssertFail"
| "null_reply h = Undef"

definition redis_command ::
  "(bytes \<Rightarrow> varg \<Rightarrow> bytes) \<Rightarrow> (nat \<Rightarrow> bool) \<Rightarrow> 'c conn_ops \<Rightarrow> fault + csend \<Rightarrow> 'c \<Rightarrow>
   (fault + rreply option) \<times> 'c" where
  "redis_command libc ok ops m c =
    (case rbind m (conn_send libc ok) of
       Inl e \<Rightarrow> (Inl e, c)
     | Inr sent \<Rightarrow>
         (case (case sent of None \<Rightarrow> (Inr (), c) | Some req \<Rightarrow> do_request ops req c) of
            (Inl e, c1) \<Rightarrow> (Inl e, c1)
          | (Inr _, c1) \<Rightarrow> (case do_recv ops c1 of (r, c2) \<Rightarrow> (Inr r, c2))))"

definition run_call ::
  "(bytes \<Rightarrow> varg \<Rightarrow> bytes) \<Rightarrow> (nat \<Rightarrow> bool) \<Rightarrow> stod_fun \<Rightarrow> 'c conn_ops \<Rightarrow> api \<Rightarrow> 'c \<Rightarrow>
   ((fault + rval) \<times> rval list) \<times> 'c" where
  "run_call libc ok sd ops call c =
    (case redis_command libc ok ops (fst call) c of
       (Inl e, c1) \<Rightarrow> ((Inl e, []), c1)
     | (Inr None, c1) \<Rightarrow> ((Inl (null_reply (snd call)), []), c1)
     | (Inr (Some r), c1) \<Rightarrow> (interpret_reply sd (snd call) r, c1))"

text \<open>The constructor: a \<open>Redis\<close> object holds a connection that is not null.\<close>

definition redis_ctor :: "'a option \<Rightarrow> fault + 'a" where
  "redis_ctor connection = (case connection of None \<Rightarrow> Inl AssertFail | Some c \<Rightarrow> Inr c)"

subsection \<open>Generic commands\<close>

text \<open>\<open>command(name, args...)\<close>: every argument is appended by \<open>CmdArgs::append\<close>.\<close>

definition command_words :: "bytes \<Rightarrow> cval list \<Rightarrow> fault + csend" where
  "command_words cmd_name xs =
    (let cmd_args = puts (VView cmd_name # xs) no_args in Inr (sent_args cmd_args))"

definition command_range :: "cval list \<Rightarrow> fault + csend" where
  "command_range rng =
    (if rng = [] then Inl (Throw (Error ''command: empty range''))
     else let cmd_args = append_vals rng no_args in Inr (sent_args cmd_args))"

definition command_words_as :: "rty \<Rightarrow> bytes \<Rightarrow> cval list \<Rightarrow> api" where
  "command_words_as t cmd_name xs = (command_words cmd_name xs, Asserted (ParseAs t))"

definition command_words_into :: "rty \<Rightarrow> bytes \<Rightarrow> cval list \<Rightarrow> api" where
  "command_words_into t cmd_name xs = (command_words cmd_name xs, Asserted (ArrayInto t))"

definition command_range_as :: "rty \<Rightarrow> cval list \<Rightarrow> api" where
  "command_range_as t rng = (command_range rng, Asserted (ParseAs t))"

definition command_range_into :: "rty \<Rightarrow> cval list \<Rightarrow> api" where
  "command_range_into t rng = (command_range rng, Asserted (ArrayInto t))"

text \<open>
  \<open>_score_command\<close> adds the flag \<open>WITHSCORES\<close> when the output takes pairs; \<open>tuple_with\<close> is
  \<open>TupleWithType\<close>, by which the geo methods find out which columns the output asks for.
\<close>

definition score_command :: "rty \<Rightarrow> (bool \<Rightarrow> fault + csend) \<Rightarrow> fault + csend" where
  "score_command t cmd = cmd (is_pair_ty t)"

fun tuple_with :: "rty \<Rightarrow> rty \<Rightarrow> bool" where
  "tuple_with x (TTup ts) = (x \<in> set ts)"
| "tuple_with x _ = False"

abbreviation OptionalString :: rty where "OptionalString \<equiv> TOpt TStr"
abbreviation OptionalLongLong :: rty where "OptionalLongLong \<equiv> TOpt TInt"
abbreviation OptionalDouble :: rty where "OptionalDouble \<equiv> TOpt TDbl"
abbreviation OptionalStringPair :: rty where "OptionalStringPair \<equiv> TOpt (TPair TStr TStr)"

definition no_key :: "bytes \<Rightarrow> how \<Rightarrow> api" where
  "no_key name h = (Inl (Throw (Error (name @ '': no key specified''))), h)"

subsection \<open>A call, when the server answers\<close>

text \<open>
  \<open>served ops srv\<close>: a request whose argument vector the server \<open>srv\<close> can read is answered with the
  reply \<open>srv\<close> gives, and leaves the state \<open>srv\<close> gives.
\<close>

definition served :: "'c conn_ops \<Rightarrow> (bytes list \<Rightarrow> 'c \<Rightarrow> rreply \<times> 'c) \<Rightarrow> bool" where
  "served ops srv \<longleftrightarrow> (\<forall>req argv c. request_argv req = Some argv \<longrightarrow>
     (\<exists>c1. do_request ops req c = (Inr (), c1) \<and>
       do_recv ops c1 = (Some (fst (srv argv c)), snd (srv argv c))))"

lemma run_call_served:
  assumes "served ops srv" "sends libc m argv"
  shows "run_call libc (\<lambda>_. True) sd ops (m, h) c =
    (interpret_reply sd h (fst (srv argv c)), snd (srv argv c))"
proof -
  from assms(2) obtain req where req: "rbind m (conn_send libc (\<lambda>_. True)) = Inr (Some req)"
    "request_argv req = Some argv"
    by (auto simp: sends_def split: sum.splits option.splits)
  with assms(1) obtain c1 where "do_request ops req c = (Inr (), c1)"
    "do_recv ops c1 = (Some (fst (srv argv c)), snd (srv argv c))"
    unfolding served_def by blast
  with req show ?thesis by (simp add: run_call_def redis_command_def)
qed

lemma run_call_rejected: "run_call libc ok sd ops (Inl f, h) c = ((Inl f, []), c)"
  by (simp add: run_call_def redis_command_def)

lemma sends_command_words: "sends libc (command_words name xs) (name # concat (map texts xs))"
  by (simp add: command_words_def Let_def wire_simps)

lemma sends_command_range: "rng \<noteq> [] \<Longrightarrow> sends libc (command_range rng) (concat (map texts rng))"
  using arg_view_put_range [OF args_wf_empty, of "Vals rng"]
  by (simp add: command_range_def Let_def wire_simps put_range.simps)

end
