(* ===== verification/Api_Basic.thy ===== *)
theory Api_Basic
  imports Api_Core
begin

text \<open>
  Class \<open>Redis\<close>: the methods defined in \<open>src/commlib/redis/redis.cpp\<close>.
  Each method is the command it sends, with its guard, and the way it reads the reply.  An output
  iterator is given by the type \<open>t\<close> of the values it takes.
\<close>

definition redis_auth :: "bytes \<Rightarrow> api" where
  "redis_auth password =
    (cmd_auth password, ParseAs TVoid)"

definition redis_echo :: "bytes \<Rightarrow> api" where
  "redis_echo msg =
    (cmd_echo msg, ParseAs TStr)"

definition redis_ping :: "api" where
  "redis_ping =
    (cmd_ping, StatusText)"

definition redis_ping_msg :: "bytes \<Rightarrow> api" where
  "redis_ping_msg msg =
    (cmd_ping_msg msg, ParseAs TStr)"

definition redis_swapdb :: "int \<Rightarrow> int \<Rightarrow> api" where
  "redis_swapdb idx1 idx2 =
    (cmd_swapdb idx1 idx2, ParseAs TVoid)"

definition redis_bgrewriteaof :: "api" where
  "redis_bgrewriteaof =
    (cmd_bgrewriteaof, ParseAs TVoid)"

definition redis_bgsave :: "api" where
  "redis_bgsave =
    (cmd_bgsave, ParseAs TVoid)"

definition redis_dbsize :: "api" where
  "redis_dbsize =
    (cmd_dbsize, ParseAs TInt)"

definition redis_flushall :: "bool \<Rightarrow> api" where
  "redis_flushall async =
    (cmd_flushall async, ParseAs TVoid)"

definition redis_flushdb :: "bool \<Rightarrow> api" where
  "redis_flushdb async =
    (cmd_flushdb async, ParseAs TVoid)"

definition redis_info :: "api" where
  "redis_info =
    (cmd_info, ParseAs TStr)"

definition redis_info_section :: "bytes \<Rightarrow> api" where
  "redis_info_section section1 =
    (cmd_info_section section1, ParseAs TStr)"

definition redis_lastsave :: "api" where
  "redis_lastsave =
    (cmd_lastsave, ParseAs TInt)"

definition redis_save :: "api" where
  "redis_save =
    (cmd_save, ParseAs TVoid)"

definition redis_del :: "bytes \<Rightarrow> api" where
  "redis_del key =
    (cmd_del key, ParseAs TInt)"

definition redis_dump :: "bytes \<Rightarrow> api" where
  "redis_dump key =
    (cmd_dump key, ParseAs OptionalString)"

definition redis_exists :: "bytes \<Rightarrow> api" where
  "redis_exists key =
    (cmd_exists key, ParseAs TInt)"

definition redis_expire :: "bytes \<Rightarrow> int \<Rightarrow> api" where
  "redis_expire key timeout =
    (cmd_expire key timeout, ParseAs TBool)"

definition redis_expireat :: "bytes \<Rightarrow> int \<Rightarrow> api" where
  "redis_expireat key timestamp =
    (cmd_expireat key timestamp, ParseAs TBool)"

definition redis_move :: "bytes \<Rightarrow> int \<Rightarrow> api" where
  "redis_move key db =
    (cmd_move key db, ParseAs TBool)"

definition redis_persist :: "bytes \<Rightarrow> api" where
  "redis_persist key =
    (cmd_persist key, ParseAs TBool)"

definition redis_pexpire :: "bytes \<Rightarrow> int \<Rightarrow> api" where
  "redis_pexpire key timeout =
    (cmd_pexpire key timeout, ParseAs TBool)"

definition redis_pexpireat :: "bytes \<Rightarrow> int \<Rightarrow> api" where
  "redis_pexpireat key timestamp =
    (cmd_pexpireat key timestamp, ParseAs TBool)"

definition redis_pttl :: "bytes \<Rightarrow> api" where
  "redis_pttl key =
    (cmd_pttl key, ParseAs TInt)"

definition redis_randomkey :: "api" where
  "redis_randomkey =
    (cmd_randomkey, ParseAs OptionalString)"

definition redis_rename :: "bytes \<Rightarrow> bytes \<Rightarrow> api" where
  "redis_rename key newkey =
    (cmd_rename key newkey, ParseAs TVoid)"

definition redis_renamenx :: "bytes \<Rightarrow> bytes \<Rightarrow> api" where
  "redis_renamenx key newkey =
    (cmd_renamenx key newkey, ParseAs TBool)"

definition redis_restore :: "bytes \<Rightarrow> bytes \<Rightarrow> int \<Rightarrow> bool \<Rightarrow> api" where
  "redis_restore key val ttl replace =
    (cmd_restore key val ttl replace, ParseAs TVoid)"

definition redis_touch :: "bytes \<Rightarrow> api" where
  "redis_touch key =
    (cmd_touch key, ParseAs TInt)"

definition redis_ttl :: "bytes \<Rightarrow> api" where
  "redis_ttl key =
    (cmd_ttl key, ParseAs TInt)"

definition redis_type :: "bytes \<Rightarrow> api" where
  "redis_type key =
    (cmd_type key, ParseAs TStr)"

definition redis_unlink :: "bytes \<Rightarrow> api" where
  "redis_unlink key =
    (cmd_unlink key, ParseAs TInt)"

definition redis_wait :: "int \<Rightarrow> int \<Rightarrow> api" where
  "redis_wait numslaves timeout =
    (cmd_wait numslaves timeout, ParseAs TInt)"

definition redis_append :: "bytes \<Rightarrow> bytes \<Rightarrow> api" where
  "redis_append key val =
    (cmd_append key val, ParseAs TInt)"

definition redis_bitcount :: "bytes \<Rightarrow> int \<Rightarrow> int \<Rightarrow> api" where
  "redis_bitcount key start stop1 =
    (cmd_bitcount key start stop1, ParseAs TInt)"

definition redis_bitop :: "BitOp \<Rightarrow> bytes \<Rightarrow> bytes \<Rightarrow> api" where
  "redis_bitop op1 destination key =
    (cmd_bitop op1 destination key, ParseAs TInt)"

definition redis_bitpos :: "bytes \<Rightarrow> int \<Rightarrow> int \<Rightarrow> int \<Rightarrow> api" where
  "redis_bitpos key bit1 start stop1 =
    (cmd_bitpos key bit1 start stop1, ParseAs TInt)"

definition redis_decr :: "bytes \<Rightarrow> api" where
  "redis_decr key =
    (cmd_decr key, ParseAs TInt)"

definition redis_decrby :: "bytes \<Rightarrow> int \<Rightarrow> api" where
  "redis_decrby key decrement =
    (cmd_decrby key decrement, ParseAs TInt)"

definition redis_get :: "bytes \<Rightarrow> api" where
  "redis_get key =
    (cmd_get key, ParseAs OptionalString)"

definition redis_getbit :: "bytes \<Rightarrow> int \<Rightarrow> api" where
  "redis_getbit key offset =
    (cmd_getbit key offset, ParseAs TInt)"

definition redis_getrange :: "bytes \<Rightarrow> int \<Rightarrow> int \<Rightarrow> api" where
  "redis_getrange key start stop1 =
    (cmd_getrange key start stop1, ParseAs TStr)"

definition redis_getset :: "bytes \<Rightarrow> bytes \<Rightarrow> api" where
  "redis_getset key val =
    (cmd_getset key val, ParseAs OptionalString)"

definition redis_incr :: "bytes \<Rightarrow> api" where
  "redis_incr key =
    (cmd_incr key, ParseAs TInt)"

definition redis_incrby :: "bytes \<Rightarrow> int \<Rightarrow> api" where
  "redis_incrby key increment =
    (cmd_incrby key increment, ParseAs TInt)"

definition redis_incrbyfloat :: "bytes \<Rightarrow> cdouble \<Rightarrow> api" where
  "redis_incrbyfloat key increment =
    (cmd_incrbyfloat key increment, ParseAs TDbl)"

definition redis_psetex :: "bytes \<Rightarrow> int \<Rightarrow> bytes \<Rightarrow> api" where
  "redis_psetex key ttl val =
    (cmd_psetex key ttl val, ParseAs TVoid)"

definition redis_set_t :: "bytes \<Rightarrow> bytes \<Rightarrow> int \<Rightarrow> UpdateType \<Rightarrow> api" where
  "redis_set_t key val ttl utype =
    (cmd_set key val ttl utype, SetResult)"

definition redis_setex :: "bytes \<Rightarrow> int \<Rightarrow> bytes \<Rightarrow> api" where
  "redis_setex key ttl val =
    (cmd_setex key ttl val, ParseAs TVoid)"

definition redis_setnx :: "bytes \<Rightarrow> bytes \<Rightarrow> api" where
  "redis_setnx key val =
    (cmd_setnx key val, ParseAs TBool)"

definition redis_setrange :: "bytes \<Rightarrow> int \<Rightarrow> bytes \<Rightarrow> api" where
  "redis_setrange key offset val =
    (cmd_setrange key offset val, ParseAs TInt)"

definition redis_strlen :: "bytes \<Rightarrow> api" where
  "redis_strlen key =
    (cmd_strlen key, ParseAs TInt)"

definition redis_blpop :: "bytes \<Rightarrow> int \<Rightarrow> api" where
  "redis_blpop key timeout =
    (cmd_blpop key timeout, ParseAs OptionalStringPair)"

definition redis_blpop_t :: "bytes \<Rightarrow> int \<Rightarrow> api" where
  "redis_blpop_t key timeout =
    redis_blpop key timeout"

definition redis_brpop :: "bytes \<Rightarrow> int \<Rightarrow> api" where
  "redis_brpop key timeout =
    (cmd_brpop key timeout, ParseAs OptionalStringPair)"

definition redis_brpop_t :: "bytes \<Rightarrow> int \<Rightarrow> api" where
  "redis_brpop_t key timeout =
    redis_brpop key timeout"

definition redis_brpoplpush :: "bytes \<Rightarrow> bytes \<Rightarrow> int \<Rightarrow> api" where
  "redis_brpoplpush src1 destination timeout =
    (cmd_brpoplpush src1 destination timeout, ParseAs OptionalString)"

definition redis_lindex :: "bytes \<Rightarrow> int \<Rightarrow> api" where
  "redis_lindex key index1 =
    (cmd_lindex key index1, ParseAs OptionalString)"

definition redis_linsert :: "bytes \<Rightarrow> InsertPosition \<Rightarrow> bytes \<Rightarrow> bytes \<Rightarrow> api" where
  "redis_linsert key position pivot val =
    (cmd_linsert key position pivot val, ParseAs TInt)"

definition redis_llen :: "bytes \<Rightarrow> api" where
  "redis_llen key =
    (cmd_llen key, ParseAs TInt)"

definition redis_lpop :: "bytes \<Rightarrow> api" where
  "redis_lpop key =
    (cmd_lpop key, ParseAs OptionalString)"

definition redis_lpush :: "bytes \<Rightarrow> bytes \<Rightarrow> api" where
  "redis_lpush key val =
    (cmd_lpush key val, ParseAs TInt)"

definition redis_lpushx :: "bytes \<Rightarrow> bytes \<Rightarrow> api" where
  "redis_lpushx key val =
    (cmd_lpushx key val, ParseAs TInt)"

definition redis_lrem :: "bytes \<Rightarrow> int \<Rightarrow> bytes \<Rightarrow> api" where
  "redis_lrem key cnt val =
    (cmd_lrem key cnt val, ParseAs TInt)"

definition redis_lset :: "bytes \<Rightarrow> int \<Rightarrow> bytes \<Rightarrow> api" where
  "redis_lset key index1 val =
    (cmd_lset key index1 val, ParseAs TVoid)"

definition redis_ltrim :: "bytes \<Rightarrow> int \<Rightarrow> int \<Rightarrow> api" where
  "redis_ltrim key start stop =
    (cmd_ltrim key start stop, ParseAs TVoid)"

definition redis_rpop :: "bytes \<Rightarrow> api" where
  "redis_rpop key =
    (cmd_rpop key, ParseAs OptionalString)"

definition redis_rpoplpush :: "bytes \<Rightarrow> bytes \<Rightarrow> api" where
  "redis_rpoplpush src1 destination =
    (cmd_rpoplpush src1 destination, ParseAs OptionalString)"

definition redis_rpush :: "bytes \<Rightarrow> bytes \<Rightarrow> api" where
  "redis_rpush key val =
    (cmd_rpush key val, ParseAs TInt)"

definition redis_rpushx :: "bytes \<Rightarrow> bytes \<Rightarrow> api" where
  "redis_rpushx key val =
    (cmd_rpushx key val, ParseAs TInt)"

definition redis_hdel :: "bytes \<Rightarrow> bytes \<Rightarrow> api" where
  "redis_hdel key field =
    (cmd_hdel key field, ParseAs TInt)"

definition redis_hexists :: "bytes \<Rightarrow> bytes \<Rightarrow> api" where
  "redis_hexists key field =
    (cmd_hexists key field, ParseAs TBool)"

definition redis_hget :: "bytes \<Rightarrow> bytes \<Rightarrow> api" where
  "redis_hget key field =
    (cmd_hget key field, ParseAs OptionalString)"

definition redis_hincrby :: "bytes \<Rightarrow> bytes \<Rightarrow> int \<Rightarrow> api" where
  "redis_hincrby key field increment =
    (cmd_hincrby key field increment, ParseAs TInt)"

definition redis_hincrbyfloat :: "bytes \<Rightarrow> bytes \<Rightarrow> cdouble \<Rightarrow> api" where
  "redis_hincrbyfloat key field increment =
    (cmd_hincrbyfloat key field increment, ParseAs TDbl)"

definition redis_hlen :: "bytes \<Rightarrow> api" where
  "redis_hlen key =
    (cmd_hlen key, ParseAs TInt)"

definition redis_hset :: "bytes \<Rightarrow> bytes \<Rightarrow> bytes \<Rightarrow> api" where
  "redis_hset key field val =
    (cmd_hset key field val, ParseAs TBool)"

definition redis_hset_2 :: "bytes \<Rightarrow> (bytes \<times> bytes) \<Rightarrow> api" where
  "redis_hset_2 key item =
    redis_hset key (fst item) (snd item)"

definition redis_hsetnx :: "bytes \<Rightarrow> bytes \<Rightarrow> bytes \<Rightarrow> api" where
  "redis_hsetnx key field val =
    (cmd_hsetnx key field val, ParseAs TBool)"

definition redis_hsetnx_2 :: "bytes \<Rightarrow> (bytes \<times> bytes) \<Rightarrow> api" where
  "redis_hsetnx_2 key item =
    redis_hsetnx key (fst item) (snd item)"

definition redis_hstrlen :: "bytes \<Rightarrow> bytes \<Rightarrow> api" where
  "redis_hstrlen key field =
    (cmd_hstrlen key field, ParseAs TInt)"

definition redis_sadd :: "bytes \<Rightarrow> bytes \<Rightarrow> api" where
  "redis_sadd key mem =
    (cmd_sadd key mem, ParseAs TInt)"

definition redis_scard :: "bytes \<Rightarrow> api" where
  "redis_scard key =
    (cmd_scard key, ParseAs TInt)"

definition redis_sdiffstore :: "bytes \<Rightarrow> bytes \<Rightarrow> api" where
  "redis_sdiffstore destination key =
    (cmd_sdiffstore destination key, ParseAs TInt)"

definition redis_sinterstore :: "bytes \<Rightarrow> bytes \<Rightarrow> api" where
  "redis_sinterstore destination key =
    (cmd_sinterstore destination key, ParseAs TInt)"

definition redis_sismember :: "bytes \<Rightarrow> bytes \<Rightarrow> api" where
  "redis_sismember key mem =
    (cmd_sismember key mem, ParseAs TBool)"

definition redis_smove :: "bytes \<Rightarrow> bytes \<Rightarrow> bytes \<Rightarrow> api" where
  "redis_smove src1 destination mem =
    (cmd_smove src1 destination mem, ParseAs TBool)"

definition redis_spop :: "bytes \<Rightarrow> api" where
  "redis_spop key =
    (cmd_spop key, ParseAs OptionalString)"

definition redis_srandmember :: "bytes \<Rightarrow> api" where
  "redis_srandmember key =
    (cmd_srandmember key, ParseAs OptionalString)"

definition redis_srem :: "bytes \<Rightarrow> bytes \<Rightarrow> api" where
  "redis_srem key mem =
    (cmd_srem key mem, ParseAs TInt)"

definition redis_sunionstore :: "bytes \<Rightarrow> bytes \<Rightarrow> api" where
  "redis_sunionstore destination key =
    (cmd_sunionstore destination key, ParseAs TInt)"

definition redis_bzpopmax :: "bytes \<Rightarrow> int \<Rightarrow> api" where
  "redis_bzpopmax key timeout =
    (cmd_bzpopmax key timeout, ParseAs (TOpt (TTup [TStr, TStr, TDbl])))"

definition redis_bzpopmin :: "bytes \<Rightarrow> int \<Rightarrow> api" where
  "redis_bzpopmin key timeout =
    (cmd_bzpopmin key timeout, ParseAs (TOpt (TTup [TStr, TStr, TDbl])))"

definition redis_zadd :: "bytes \<Rightarrow> bytes \<Rightarrow> cdouble \<Rightarrow> UpdateType \<Rightarrow> bool \<Rightarrow> api" where
  "redis_zadd key mem score utype changed =
    (cmd_zadd key mem score utype changed, ParseAs TInt)"

definition redis_zcard :: "bytes \<Rightarrow> api" where
  "redis_zcard key =
    (cmd_zcard key, ParseAs TInt)"

definition redis_zincrby :: "bytes \<Rightarrow> cdouble \<Rightarrow> bytes \<Rightarrow> api" where
  "redis_zincrby key increment mem =
    (cmd_zincrby key increment mem, ParseAs TDbl)"

definition redis_zinterstore :: "bytes \<Rightarrow> bytes \<Rightarrow> cdouble \<Rightarrow> api" where
  "redis_zinterstore destination key weight =
    (cmd_zinterstore destination key weight, ParseAs TInt)"

definition redis_zpopmax :: "bytes \<Rightarrow> api" where
  "redis_zpopmax key =
    (cmd_zpopmax key 1, ParseAs (TOpt (TPair TStr TDbl)))"

definition redis_zpopmin :: "bytes \<Rightarrow> api" where
  "redis_zpopmin key =
    (cmd_zpopmin key 1, ParseAs (TOpt (TPair TStr TDbl)))"

definition redis_zrank :: "bytes \<Rightarrow> bytes \<Rightarrow> api" where
  "redis_zrank key mem =
    (cmd_zrank key mem, ParseAs OptionalLongLong)"

definition redis_zrem :: "bytes \<Rightarrow> bytes \<Rightarrow> api" where
  "redis_zrem key mem =
    (cmd_zrem key mem, ParseAs TInt)"

definition redis_zremrangebyrank :: "bytes \<Rightarrow> int \<Rightarrow> int \<Rightarrow> api" where
  "redis_zremrangebyrank key start stop =
    (cmd_zremrangebyrank key start stop, ParseAs TInt)"

definition redis_zrevrank :: "bytes \<Rightarrow> bytes \<Rightarrow> api" where
  "redis_zrevrank key mem =
    (cmd_zrevrank key mem, ParseAs OptionalLongLong)"

definition redis_zscore :: "bytes \<Rightarrow> bytes \<Rightarrow> api" where
  "redis_zscore key mem =
    (cmd_zscore key mem, ParseAs OptionalDouble)"

definition redis_zunionstore :: "bytes \<Rightarrow> bytes \<Rightarrow> cdouble \<Rightarrow> api" where
  "redis_zunionstore destination key weight =
    (cmd_zunionstore destination key weight, ParseAs TInt)"

definition redis_pfadd :: "bytes \<Rightarrow> bytes \<Rightarrow> api" where
  "redis_pfadd key element =
    (cmd_pfadd key element, ParseAs TBool)"

definition redis_pfcount :: "bytes \<Rightarrow> api" where
  "redis_pfcount key =
    (cmd_pfcount key, ParseAs TInt)"

definition redis_pfmerge :: "bytes \<Rightarrow> bytes \<Rightarrow> api" where
  "redis_pfmerge destination key =
    (cmd_pfmerge destination key, ParseAs TVoid)"

definition redis_geoadd :: "bytes \<Rightarrow> (bytes \<times> cdouble \<times> cdouble) \<Rightarrow> api" where
  "redis_geoadd key mem =
    (cmd_geoadd key mem, ParseAs TInt)"

definition redis_geodist :: "bytes \<Rightarrow> bytes \<Rightarrow> bytes \<Rightarrow> GeoUnit \<Rightarrow> api" where
  "redis_geodist key member1 member2 gunit =
    (cmd_geodist key member1 member2 gunit, ParseAs OptionalDouble)"

definition redis_georadius_store :: "bytes \<Rightarrow> (cdouble \<times> cdouble) \<Rightarrow> cdouble \<Rightarrow> GeoUnit \<Rightarrow> bytes \<Rightarrow> bool \<Rightarrow> int \<Rightarrow> api" where
  "redis_georadius_store key loc radius gunit destination store_dist cnt =
    (cmd_georadius_store key loc radius gunit destination store_dist cnt, GeoStoreResult)"

definition redis_georadiusbymember_store :: "bytes \<Rightarrow> bytes \<Rightarrow> cdouble \<Rightarrow> GeoUnit \<Rightarrow> bytes \<Rightarrow> bool \<Rightarrow> int \<Rightarrow> api" where
  "redis_georadiusbymember_store key mem radius gunit destination store_dist cnt =
    (cmd_georadiusbymember_store key mem radius gunit destination store_dist cnt, GeoStoreResult)"

definition redis_script_flush :: "api" where
  "redis_script_flush =
    (cmd_script_flush, ParseAs TVoid)"

definition redis_script_kill :: "api" where
  "redis_script_kill =
    (cmd_script_kill, ParseAs TVoid)"

definition redis_script_load :: "bytes \<Rightarrow> api" where
  "redis_script_load script =
    (cmd_script_load script, ParseAs TStr)"

definition redis_publish :: "bytes \<Rightarrow> bytes \<Rightarrow> api" where
  "redis_publish channel message =
    (cmd_publish channel message, ParseAs TInt)"

definition redis_watch :: "bytes \<Rightarrow> api" where
  "redis_watch key =
    (cmd_watch key, ParseAs TVoid)"

definition redis_xack :: "bytes \<Rightarrow> bytes \<Rightarrow> bytes \<Rightarrow> api" where
  "redis_xack key grp eid =
    (cmd_xack key grp eid, ParseAs TInt)"

definition redis_xdel :: "bytes \<Rightarrow> bytes \<Rightarrow> api" where
  "redis_xdel key eid =
    (cmd_xdel key eid, ParseAs TInt)"

definition redis_xgroup_create :: "bytes \<Rightarrow> bytes \<Rightarrow> bytes \<Rightarrow> bool \<Rightarrow> api" where
  "redis_xgroup_create key grp eid mkstream =
    (cmd_xgroup_create key grp eid mkstream, ParseAs TVoid)"

definition redis_xgroup_setid :: "bytes \<Rightarrow> bytes \<Rightarrow> bytes \<Rightarrow> api" where
  "redis_xgroup_setid key grp eid =
    (cmd_xgroup_setid key grp eid, ParseAs TVoid)"

definition redis_xgroup_destroy :: "bytes \<Rightarrow> bytes \<Rightarrow> api" where
  "redis_xgroup_destroy key grp =
    (cmd_xgroup_destroy key grp, ParseAs TInt)"

definition redis_xgroup_delconsumer :: "bytes \<Rightarrow> bytes \<Rightarrow> bytes \<Rightarrow> api" where
  "redis_xgroup_delconsumer key grp consumer =
    (cmd_xgroup_delconsumer key grp consumer, ParseAs TInt)"

definition redis_xlen :: "bytes \<Rightarrow> api" where
  "redis_xlen key =
    (cmd_xlen key, ParseAs TInt)"

definition redis_xtrim :: "bytes \<Rightarrow> int \<Rightarrow> bool \<Rightarrow> api" where
  "redis_xtrim key cnt approx =
    (cmd_xtrim key cnt approx, ParseAs TInt)"

end
