(* ===== verification/Api_Range.thy ===== *)
theory Api_Range
  imports Api_Basic
begin

text \<open>
  Class \<open>Redis\<close>: the methods defined in \<open>src/commlib/redis/redis.hpp\<close>: ranges of keys, output
  iterators, scans, and the overloads that take \<open>std::chrono\<close> durations (suffix \<open>_t\<close>, in the unit
  of the command).
  Each method is the command it sends, with its guard, and the way it reads the reply.  An output
  iterator is given by the type \<open>t\<close> of the values it takes.
\<close>

definition redis_del_range :: "crange \<Rightarrow> api" where
  "redis_del_range rng =
    (if range_empty rng then no_key ''DEL'' (ParseAs TInt)
     else (cmd_del_range rng, ParseAs TInt))"

definition redis_exists_range :: "crange \<Rightarrow> api" where
  "redis_exists_range rng =
    (if range_empty rng then no_key ''EXISTS'' (ParseAs TInt)
     else (cmd_exists_range rng, ParseAs TInt))"

definition redis_expire_t :: "bytes \<Rightarrow> int \<Rightarrow> api" where
  "redis_expire_t key timeout =
    redis_expire key timeout"

definition redis_expireat_t :: "bytes \<Rightarrow> int \<Rightarrow> api" where
  "redis_expireat_t key tp =
    redis_expireat key tp"

definition redis_keys :: "bytes \<Rightarrow> rty \<Rightarrow> api" where
  "redis_keys pattern t =
    (cmd_keys pattern, ArrayInto t)"

definition redis_pexpire_t :: "bytes \<Rightarrow> int \<Rightarrow> api" where
  "redis_pexpire_t key timeout =
    redis_pexpire key timeout"

definition redis_pexpireat_t :: "bytes \<Rightarrow> int \<Rightarrow> api" where
  "redis_pexpireat_t key tp =
    redis_pexpireat key tp"

definition redis_restore_t :: "bytes \<Rightarrow> bytes \<Rightarrow> int \<Rightarrow> bool \<Rightarrow> api" where
  "redis_restore_t key val ttl replace =
    redis_restore key val ttl replace"

definition redis_scan :: "int \<Rightarrow> bytes \<Rightarrow> int \<Rightarrow> rty \<Rightarrow> api" where
  "redis_scan cursor pattern cnt t =
    (cmd_scan cursor pattern cnt, ScanInto t)"

definition redis_scan_2 :: "int \<Rightarrow> bytes \<Rightarrow> rty \<Rightarrow> api" where
  "redis_scan_2 cursor pattern t =
    redis_scan cursor pattern 10 t"

definition redis_scan_3 :: "int \<Rightarrow> int \<Rightarrow> rty \<Rightarrow> api" where
  "redis_scan_3 cursor cnt t =
    redis_scan cursor ''*'' cnt t"

definition redis_scan_4 :: "int \<Rightarrow> rty \<Rightarrow> api" where
  "redis_scan_4 cursor t =
    redis_scan cursor ''*'' 10 t"

definition redis_touch_range :: "crange \<Rightarrow> api" where
  "redis_touch_range rng =
    (if range_empty rng then no_key ''TOUCH'' (ParseAs TInt)
     else (cmd_touch_range rng, ParseAs TInt))"

definition redis_unlink_range :: "crange \<Rightarrow> api" where
  "redis_unlink_range rng =
    (if range_empty rng then no_key ''UNLINK'' (ParseAs TInt)
     else (cmd_unlink_range rng, ParseAs TInt))"

definition redis_wait_t :: "int \<Rightarrow> int \<Rightarrow> api" where
  "redis_wait_t numslaves timeout =
    redis_wait numslaves timeout"

definition redis_bitop_range :: "BitOp \<Rightarrow> bytes \<Rightarrow> crange \<Rightarrow> api" where
  "redis_bitop_range op1 destination rng =
    (if range_empty rng then no_key ''BITOP'' (ParseAs TInt)
     else (cmd_bitop_range op1 destination rng, ParseAs TInt))"

definition redis_mget_range :: "crange \<Rightarrow> rty \<Rightarrow> api" where
  "redis_mget_range rng t =
    (if range_empty rng then no_key ''MGET'' (ArrayInto t)
     else (cmd_mget rng, ArrayInto t))"

definition redis_mset_range :: "crange \<Rightarrow> api" where
  "redis_mset_range rng =
    (if range_empty rng then no_key ''MSET'' (ParseAs TVoid)
     else (cmd_mset rng, ParseAs TVoid))"

definition redis_msetnx_range :: "crange \<Rightarrow> api" where
  "redis_msetnx_range rng =
    (if range_empty rng then no_key ''MSETNX'' (ParseAs TBool)
     else (cmd_msetnx rng, ParseAs TBool))"

definition redis_psetex_t :: "bytes \<Rightarrow> int \<Rightarrow> bytes \<Rightarrow> api" where
  "redis_psetex_t key ttl val =
    redis_psetex key ttl val"

definition redis_setex_t :: "bytes \<Rightarrow> int \<Rightarrow> bytes \<Rightarrow> api" where
  "redis_setex_t key ttl val =
    redis_setex key ttl val"

definition redis_blpop_range :: "crange \<Rightarrow> int \<Rightarrow> api" where
  "redis_blpop_range rng timeout =
    (if range_empty rng then no_key ''BLPOP'' (ParseAs OptionalStringPair)
     else (cmd_blpop_range rng timeout, ParseAs OptionalStringPair))"

definition redis_blpop_range_t :: "crange \<Rightarrow> int \<Rightarrow> api" where
  "redis_blpop_range_t rng timeout =
    redis_blpop_range rng timeout"

definition redis_brpop_range :: "crange \<Rightarrow> int \<Rightarrow> api" where
  "redis_brpop_range rng timeout =
    (if range_empty rng then no_key ''BRPOP'' (ParseAs OptionalStringPair)
     else (cmd_brpop_range rng timeout, ParseAs OptionalStringPair))"

definition redis_brpop_range_t :: "crange \<Rightarrow> int \<Rightarrow> api" where
  "redis_brpop_range_t rng timeout =
    redis_brpop_range rng timeout"

definition redis_brpoplpush_t :: "bytes \<Rightarrow> bytes \<Rightarrow> int \<Rightarrow> api" where
  "redis_brpoplpush_t src1 destination timeout =
    redis_brpoplpush src1 destination timeout"

definition redis_lpush_range :: "bytes \<Rightarrow> crange \<Rightarrow> api" where
  "redis_lpush_range key rng =
    (if range_empty rng then no_key ''LPUSH'' (ParseAs TInt)
     else (cmd_lpush_range key rng, ParseAs TInt))"

definition redis_lrange :: "bytes \<Rightarrow> int \<Rightarrow> int \<Rightarrow> rty \<Rightarrow> api" where
  "redis_lrange key start stop t =
    (cmd_lrange key start stop, ArrayInto t)"

definition redis_rpush_range :: "bytes \<Rightarrow> crange \<Rightarrow> api" where
  "redis_rpush_range key rng =
    (if range_empty rng then no_key ''RPUSH'' (ParseAs TInt)
     else (cmd_rpush_range key rng, ParseAs TInt))"

definition redis_hdel_range :: "bytes \<Rightarrow> crange \<Rightarrow> api" where
  "redis_hdel_range key rng =
    (if range_empty rng then no_key ''HDEL'' (ParseAs TInt)
     else (cmd_hdel_range key rng, ParseAs TInt))"

definition redis_hgetall :: "bytes \<Rightarrow> rty \<Rightarrow> api" where
  "redis_hgetall key t =
    (cmd_hgetall key, ArrayInto t)"

definition redis_hkeys :: "bytes \<Rightarrow> rty \<Rightarrow> api" where
  "redis_hkeys key t =
    (cmd_hkeys key, ArrayInto t)"

definition redis_hmget_range :: "bytes \<Rightarrow> crange \<Rightarrow> rty \<Rightarrow> api" where
  "redis_hmget_range key rng t =
    (if range_empty rng then no_key ''HMGET'' (ArrayInto t)
     else (cmd_hmget key rng, ArrayInto t))"

definition redis_hmset_range :: "bytes \<Rightarrow> crange \<Rightarrow> api" where
  "redis_hmset_range key rng =
    (if range_empty rng then no_key ''HMSET'' (ParseAs TVoid)
     else (cmd_hmset key rng, ParseAs TVoid))"

definition redis_hscan :: "bytes \<Rightarrow> int \<Rightarrow> bytes \<Rightarrow> int \<Rightarrow> rty \<Rightarrow> api" where
  "redis_hscan key cursor pattern cnt t =
    (cmd_hscan key cursor pattern cnt, ScanInto t)"

definition redis_hscan_2 :: "bytes \<Rightarrow> int \<Rightarrow> bytes \<Rightarrow> rty \<Rightarrow> api" where
  "redis_hscan_2 key cursor pattern t =
    redis_hscan key cursor pattern 10 t"

definition redis_hscan_3 :: "bytes \<Rightarrow> int \<Rightarrow> int \<Rightarrow> rty \<Rightarrow> api" where
  "redis_hscan_3 key cursor cnt t =
    redis_hscan key cursor ''*'' cnt t"

definition redis_hscan_4 :: "bytes \<Rightarrow> int \<Rightarrow> rty \<Rightarrow> api" where
  "redis_hscan_4 key cursor t =
    redis_hscan key cursor ''*'' 10 t"

definition redis_hvals :: "bytes \<Rightarrow> rty \<Rightarrow> api" where
  "redis_hvals key t =
    (cmd_hvals key, ArrayInto t)"

definition redis_sadd_range :: "bytes \<Rightarrow> crange \<Rightarrow> api" where
  "redis_sadd_range key rng =
    (if range_empty rng then no_key ''SADD'' (ParseAs TInt)
     else (cmd_sadd_range key rng, ParseAs TInt))"

definition redis_sdiff_range :: "crange \<Rightarrow> rty \<Rightarrow> api" where
  "redis_sdiff_range rng t =
    (if range_empty rng then no_key ''SDIFF'' (ArrayInto t)
     else (cmd_sdiff rng, ArrayInto t))"

definition redis_sdiffstore_range :: "bytes \<Rightarrow> crange \<Rightarrow> api" where
  "redis_sdiffstore_range destination rng =
    (if range_empty rng then no_key ''SDIFFSTORE'' (ParseAs TInt)
     else (cmd_sdiffstore_range destination rng, ParseAs TInt))"

definition redis_sinter_range :: "crange \<Rightarrow> rty \<Rightarrow> api" where
  "redis_sinter_range rng t =
    (if range_empty rng then no_key ''SINTER'' (ArrayInto t)
     else (cmd_sinter rng, ArrayInto t))"

definition redis_sinterstore_range :: "bytes \<Rightarrow> crange \<Rightarrow> api" where
  "redis_sinterstore_range destination rng =
    (if range_empty rng then no_key ''SINTERSTORE'' (ParseAs TInt)
     else (cmd_sinterstore_range destination rng, ParseAs TInt))"

definition redis_smembers :: "bytes \<Rightarrow> rty \<Rightarrow> api" where
  "redis_smembers key t =
    (cmd_smembers key, ArrayInto t)"

definition redis_spop_n :: "bytes \<Rightarrow> int \<Rightarrow> rty \<Rightarrow> api" where
  "redis_spop_n key cnt t =
    (cmd_spop_range key cnt, ArrayInto t)"

definition redis_srandmember_n :: "bytes \<Rightarrow> int \<Rightarrow> rty \<Rightarrow> api" where
  "redis_srandmember_n key cnt t =
    (cmd_srandmember_range key cnt, ArrayInto t)"

definition redis_srem_range :: "bytes \<Rightarrow> crange \<Rightarrow> api" where
  "redis_srem_range key rng =
    (if range_empty rng then no_key ''SREM'' (ParseAs TInt)
     else (cmd_srem_range key rng, ParseAs TInt))"

definition redis_sscan :: "bytes \<Rightarrow> int \<Rightarrow> bytes \<Rightarrow> int \<Rightarrow> rty \<Rightarrow> api" where
  "redis_sscan key cursor pattern cnt t =
    (cmd_sscan key cursor pattern cnt, ScanInto t)"

definition redis_sscan_2 :: "bytes \<Rightarrow> int \<Rightarrow> bytes \<Rightarrow> rty \<Rightarrow> api" where
  "redis_sscan_2 key cursor pattern t =
    redis_sscan key cursor pattern 10 t"

definition redis_sscan_3 :: "bytes \<Rightarrow> int \<Rightarrow> int \<Rightarrow> rty \<Rightarrow> api" where
  "redis_sscan_3 key cursor cnt t =
    redis_sscan key cursor ''*'' cnt t"

definition redis_sscan_4 :: "bytes \<Rightarrow> int \<Rightarrow> rty \<Rightarrow> api" where
  "redis_sscan_4 key cursor t =
    redis_sscan key cursor ''*'' 10 t"

definition redis_sunion_range :: "crange \<Rightarrow> rty \<Rightarrow> api" where
  "redis_sunion_range rng t =
    (if range_empty rng then no_key ''SUNION'' (ArrayInto t)
     else (cmd_sunion rng, ArrayInto t))"

definition redis_sunionstore_range :: "bytes \<Rightarrow> crange \<Rightarrow> api" where
  "redis_sunionstore_range destination rng =
    (if range_empty rng then no_key ''SUNIONSTORE'' (ParseAs TInt)
     else (cmd_sunionstore_range destination rng, ParseAs TInt))"

definition redis_bzpopmax_t :: "bytes \<Rightarrow> int \<Rightarrow> api" where
  "redis_bzpopmax_t key timeout =
    redis_bzpopmax key timeout"

definition redis_bzpopmax_range :: "crange \<Rightarrow> int \<Rightarrow> api" where
  "redis_bzpopmax_range rng timeout =
    (cmd_bzpopmax_range rng timeout, ParseAs (TOpt (TTup [TStr, TStr, TDbl])))"

definition redis_bzpopmax_range_t :: "crange \<Rightarrow> int \<Rightarrow> api" where
  "redis_bzpopmax_range_t rng timeout =
    redis_bzpopmax_range rng timeout"

definition redis_bzpopmin_t :: "bytes \<Rightarrow> int \<Rightarrow> api" where
  "redis_bzpopmin_t key timeout =
    redis_bzpopmin key timeout"

definition redis_bzpopmin_range :: "crange \<Rightarrow> int \<Rightarrow> api" where
  "redis_bzpopmin_range rng timeout =
    (cmd_bzpopmin_range rng timeout, ParseAs (TOpt (TTup [TStr, TStr, TDbl])))"

definition redis_bzpopmin_range_t :: "crange \<Rightarrow> int \<Rightarrow> api" where
  "redis_bzpopmin_range_t rng timeout =
    redis_bzpopmin_range rng timeout"

definition redis_zadd_range :: "bytes \<Rightarrow> (cval \<times> cval) list \<Rightarrow> UpdateType \<Rightarrow> bool \<Rightarrow> api" where
  "redis_zadd_range key rng utype changed =
    (if rng = [] then no_key ''ZADD'' (ParseAs TInt)
     else (cmd_zadd_range key rng utype changed, ParseAs TInt))"

definition redis_zcount :: "bytes \<Rightarrow> interval \<Rightarrow> api" where
  "redis_zcount key ivl =
    (cmd_zcount key ivl, ParseAs TInt)"

definition redis_zinterstore_range :: "bytes \<Rightarrow> crange \<Rightarrow> Aggregation \<Rightarrow> api" where
  "redis_zinterstore_range destination rng utype =
    (if range_empty rng then no_key ''ZINTERSTORE'' (ParseAs TInt)
     else (cmd_zinterstore_range destination rng utype, ParseAs TInt))"

definition redis_zlexcount :: "bytes \<Rightarrow> interval \<Rightarrow> api" where
  "redis_zlexcount key ivl =
    (cmd_zlexcount key ivl, ParseAs TInt)"

definition redis_zpopmax_2 :: "bytes \<Rightarrow> int \<Rightarrow> rty \<Rightarrow> api" where
  "redis_zpopmax_2 key cnt t =
    (cmd_zpopmax key cnt, ArrayInto t)"

definition redis_zpopmin_2 :: "bytes \<Rightarrow> int \<Rightarrow> rty \<Rightarrow> api" where
  "redis_zpopmin_2 key cnt t =
    (cmd_zpopmin key cnt, ArrayInto t)"

definition redis_zrange :: "bytes \<Rightarrow> int \<Rightarrow> int \<Rightarrow> rty \<Rightarrow> api" where
  "redis_zrange key start stop t =
    (score_command t (cmd_zrange key start stop), ArrayInto t)"

definition redis_zrangebylex_2 :: "bytes \<Rightarrow> interval \<Rightarrow> LimitOptions \<Rightarrow> rty \<Rightarrow> api" where
  "redis_zrangebylex_2 key ivl opts t =
    (cmd_zrangebylex key ivl opts, ArrayInto t)"

definition redis_zrangebylex :: "bytes \<Rightarrow> interval \<Rightarrow> rty \<Rightarrow> api" where
  "redis_zrangebylex key ivl t =
    redis_zrangebylex_2 key ivl default_limit t"

definition redis_zrangebyscore_2 :: "bytes \<Rightarrow> interval \<Rightarrow> LimitOptions \<Rightarrow> rty \<Rightarrow> api" where
  "redis_zrangebyscore_2 key ivl opts t =
    (score_command t (cmd_zrangebyscore key ivl opts), ArrayInto t)"

definition redis_zrangebyscore :: "bytes \<Rightarrow> interval \<Rightarrow> rty \<Rightarrow> api" where
  "redis_zrangebyscore key ivl t =
    redis_zrangebyscore_2 key ivl default_limit t"

definition redis_zrem_range :: "bytes \<Rightarrow> crange \<Rightarrow> api" where
  "redis_zrem_range key rng =
    (if range_empty rng then no_key ''ZREM'' (ParseAs TInt)
     else (cmd_zrem_range key rng, ParseAs TInt))"

definition redis_zremrangebylex :: "bytes \<Rightarrow> interval \<Rightarrow> api" where
  "redis_zremrangebylex key ivl =
    (cmd_zremrangebylex key ivl, ParseAs TInt)"

definition redis_zremrangebyscore :: "bytes \<Rightarrow> interval \<Rightarrow> api" where
  "redis_zremrangebyscore key ivl =
    (cmd_zremrangebyscore key ivl, ParseAs TInt)"

definition redis_zrevrange :: "bytes \<Rightarrow> int \<Rightarrow> int \<Rightarrow> rty \<Rightarrow> api" where
  "redis_zrevrange key start stop t =
    (score_command t (cmd_zrevrange key start stop), ArrayInto t)"

definition redis_zrevrangebylex_2 :: "bytes \<Rightarrow> interval \<Rightarrow> LimitOptions \<Rightarrow> rty \<Rightarrow> api" where
  "redis_zrevrangebylex_2 key ivl opts t =
    (cmd_zrevrangebylex key ivl opts, ArrayInto t)"

definition redis_zrevrangebylex :: "bytes \<Rightarrow> interval \<Rightarrow> rty \<Rightarrow> api" where
  "redis_zrevrangebylex key ivl t =
    redis_zrevrangebylex_2 key ivl default_limit t"

definition redis_zrevrangebyscore_2 :: "bytes \<Rightarrow> interval \<Rightarrow> LimitOptions \<Rightarrow> rty \<Rightarrow> api" where
  "redis_zrevrangebyscore_2 key ivl opts t =
    (score_command t (cmd_zrevrangebyscore key ivl opts), ArrayInto t)"

definition redis_zrevrangebyscore :: "bytes \<Rightarrow> interval \<Rightarrow> rty \<Rightarrow> api" where
  "redis_zrevrangebyscore key ivl t =
    redis_zrevrangebyscore_2 key ivl default_limit t"

definition redis_zscan :: "bytes \<Rightarrow> int \<Rightarrow> bytes \<Rightarrow> int \<Rightarrow> rty \<Rightarrow> api" where
  "redis_zscan key cursor pattern cnt t =
    (cmd_zscan key cursor pattern cnt, ScanInto t)"

definition redis_zscan_2 :: "bytes \<Rightarrow> int \<Rightarrow> bytes \<Rightarrow> rty \<Rightarrow> api" where
  "redis_zscan_2 key cursor pattern t =
    redis_zscan key cursor pattern 10 t"

definition redis_zscan_3 :: "bytes \<Rightarrow> int \<Rightarrow> int \<Rightarrow> rty \<Rightarrow> api" where
  "redis_zscan_3 key cursor cnt t =
    redis_zscan key cursor ''*'' cnt t"

definition redis_zscan_4 :: "bytes \<Rightarrow> int \<Rightarrow> rty \<Rightarrow> api" where
  "redis_zscan_4 key cursor t =
    redis_zscan key cursor ''*'' 10 t"

definition redis_zunionstore_range :: "bytes \<Rightarrow> crange \<Rightarrow> Aggregation \<Rightarrow> api" where
  "redis_zunionstore_range destination rng utype =
    (if range_empty rng then no_key ''ZUNIONSTORE'' (ParseAs TInt)
     else (cmd_zunionstore_range destination rng utype, ParseAs TInt))"

definition redis_pfadd_range :: "bytes \<Rightarrow> crange \<Rightarrow> api" where
  "redis_pfadd_range key rng =
    (if range_empty rng then no_key ''PFADD'' (ParseAs TBool)
     else (cmd_pfadd_range key rng, ParseAs TBool))"

definition redis_pfcount_range :: "crange \<Rightarrow> api" where
  "redis_pfcount_range rng =
    (if range_empty rng then no_key ''PFCOUNT'' (ParseAs TInt)
     else (cmd_pfcount_range rng, ParseAs TInt))"

definition redis_pfmerge_range :: "bytes \<Rightarrow> crange \<Rightarrow> api" where
  "redis_pfmerge_range destination rng =
    (if range_empty rng then no_key ''PFMERGE'' (ParseAs TVoid)
     else (cmd_pfmerge_range destination rng, ParseAs TVoid))"

definition redis_geoadd_range :: "bytes \<Rightarrow> (bytes \<times> cdouble \<times> cdouble) list \<Rightarrow> api" where
  "redis_geoadd_range key rng =
    (if rng = [] then no_key ''GEOADD'' (ParseAs TInt)
     else (cmd_geoadd_range key rng, ParseAs TInt))"

definition redis_geohash_range :: "bytes \<Rightarrow> crange \<Rightarrow> rty \<Rightarrow> api" where
  "redis_geohash_range key rng t =
    (if range_empty rng then no_key ''GEOHASH'' (ArrayInto t)
     else (cmd_geohash_range key rng, ArrayInto t))"

definition redis_geopos_range :: "bytes \<Rightarrow> crange \<Rightarrow> rty \<Rightarrow> api" where
  "redis_geopos_range key rng t =
    (if range_empty rng then no_key ''GEOPOS'' (ArrayInto t)
     else (cmd_geopos_range key rng, ArrayInto t))"

definition redis_georadius :: "bytes \<Rightarrow> (cdouble \<times> cdouble) \<Rightarrow> cdouble \<Rightarrow> GeoUnit \<Rightarrow> int \<Rightarrow> bool \<Rightarrow> rty \<Rightarrow> api" where
  "redis_georadius key loc radius gunit cnt asc t =
    (cmd_georadius key loc radius gunit cnt asc (tuple_with (TPair TDbl TDbl) t) (tuple_with TDbl t) (tuple_with TInt t), ArrayInto t)"

definition redis_georadiusbymember :: "bytes \<Rightarrow> bytes \<Rightarrow> cdouble \<Rightarrow> GeoUnit \<Rightarrow> int \<Rightarrow> bool \<Rightarrow> rty \<Rightarrow> api" where
  "redis_georadiusbymember key mem radius gunit cnt asc t =
    (cmd_georadiusbymember key mem radius gunit cnt asc (tuple_with (TPair TDbl TDbl) t) (tuple_with TDbl t) (tuple_with TInt t), ArrayInto t)"

definition redis_eval :: "bytes \<Rightarrow> bytes list \<Rightarrow> bytes list \<Rightarrow> rty \<Rightarrow> api" where
  "redis_eval script keys sargs t =
    (cmd_eval script keys sargs, ParseAs t)"

definition redis_eval_into :: "bytes \<Rightarrow> bytes list \<Rightarrow> bytes list \<Rightarrow> rty \<Rightarrow> api" where
  "redis_eval_into script keys sargs t =
    (cmd_eval script keys sargs, ArrayInto t)"

definition redis_evalsha :: "bytes \<Rightarrow> bytes list \<Rightarrow> bytes list \<Rightarrow> rty \<Rightarrow> api" where
  "redis_evalsha script keys sargs t =
    (cmd_evalsha script keys sargs, ParseAs t)"

definition redis_evalsha_into :: "bytes \<Rightarrow> bytes list \<Rightarrow> bytes list \<Rightarrow> rty \<Rightarrow> api" where
  "redis_evalsha_into script keys sargs t =
    (cmd_evalsha script keys sargs, ArrayInto t)"

definition redis_script_exists_range :: "crange \<Rightarrow> rty \<Rightarrow> api" where
  "redis_script_exists_range rng t =
    (if range_empty rng then no_key ''SCRIPT EXISTS'' (ArrayInto t)
     else (cmd_script_exists_range rng, ArrayInto t))"

definition redis_watch_range :: "crange \<Rightarrow> api" where
  "redis_watch_range rng =
    (cmd_watch_range rng, ParseAs TVoid)"

definition redis_xack_range :: "bytes \<Rightarrow> bytes \<Rightarrow> crange \<Rightarrow> api" where
  "redis_xack_range key grp rng =
    (cmd_xack_range key grp rng, ParseAs TInt)"

definition redis_xadd_range :: "bytes \<Rightarrow> bytes \<Rightarrow> crange \<Rightarrow> api" where
  "redis_xadd_range key eid rng =
    (cmd_xadd_range key eid rng, ParseAs TStr)"

definition redis_xadd_range_2 :: "bytes \<Rightarrow> bytes \<Rightarrow> crange \<Rightarrow> int \<Rightarrow> bool \<Rightarrow> api" where
  "redis_xadd_range_2 key eid rng cnt approx =
    (cmd_xadd_maxlen_range key eid rng cnt approx, ParseAs TStr)"

definition redis_xclaim_t :: "bytes \<Rightarrow> bytes \<Rightarrow> bytes \<Rightarrow> int \<Rightarrow> bytes \<Rightarrow> rty \<Rightarrow> api" where
  "redis_xclaim_t key grp consumer min_idle_time eid t =
    (cmd_xclaim key grp consumer min_idle_time eid, ArrayInto t)"

definition redis_xclaim_range_t :: "bytes \<Rightarrow> bytes \<Rightarrow> bytes \<Rightarrow> int \<Rightarrow> crange \<Rightarrow> rty \<Rightarrow> api" where
  "redis_xclaim_range_t key grp consumer min_idle_time rng t =
    (cmd_xclaim_range key grp consumer min_idle_time rng, ArrayInto t)"

definition redis_xdel_range :: "bytes \<Rightarrow> crange \<Rightarrow> api" where
  "redis_xdel_range key rng =
    (cmd_xdel_range key rng, ParseAs TInt)"

definition redis_xpending :: "bytes \<Rightarrow> bytes \<Rightarrow> rty \<Rightarrow> api" where
  "redis_xpending key grp t =
    (cmd_xpending key grp, XPendingInto t)"

definition redis_xpending_detail :: "bytes \<Rightarrow> bytes \<Rightarrow> bytes \<Rightarrow> bytes \<Rightarrow> int \<Rightarrow> rty \<Rightarrow> api" where
  "redis_xpending_detail key grp start stop1 cnt t =
    (cmd_xpending_detail key grp start stop1 cnt, ArrayInto t)"

definition redis_xpending_per_consumer :: "bytes \<Rightarrow> bytes \<Rightarrow> bytes \<Rightarrow> bytes \<Rightarrow> int \<Rightarrow> bytes \<Rightarrow> rty \<Rightarrow> api" where
  "redis_xpending_per_consumer key grp start stop1 cnt consumer t =
    (cmd_xpending_per_consumer key grp start stop1 cnt consumer, ArrayInto t)"

definition redis_xrange :: "bytes \<Rightarrow> bytes \<Rightarrow> bytes \<Rightarrow> rty \<Rightarrow> api" where
  "redis_xrange key start stop1 t =
    (cmd_xrange key start stop1, ArrayInto t)"

definition redis_xrange_count :: "bytes \<Rightarrow> bytes \<Rightarrow> bytes \<Rightarrow> int \<Rightarrow> rty \<Rightarrow> api" where
  "redis_xrange_count key start stop1 cnt t =
    (cmd_xrange_count key start stop1 cnt, ArrayInto t)"

definition redis_xread :: "bytes \<Rightarrow> bytes \<Rightarrow> int \<Rightarrow> rty \<Rightarrow> api" where
  "redis_xread key eid cnt t =
    (cmd_xread key eid cnt, NilOrArrayInto t)"

definition redis_xread_range :: "(cval \<times> cval) list \<Rightarrow> int \<Rightarrow> rty \<Rightarrow> api" where
  "redis_xread_range rng cnt t =
    (if rng = [] then no_key ''XREAD'' (NilOrArrayInto t)
     else (cmd_xread_range rng cnt, NilOrArrayInto t))"

definition redis_xread_block_t :: "bytes \<Rightarrow> bytes \<Rightarrow> int \<Rightarrow> int \<Rightarrow> rty \<Rightarrow> api" where
  "redis_xread_block_t key eid timeout cnt t =
    (cmd_xread_block key eid timeout cnt, NilOrArrayInto t)"

definition redis_xread_range_t :: "(cval \<times> cval) list \<Rightarrow> int \<Rightarrow> int \<Rightarrow> rty \<Rightarrow> api" where
  "redis_xread_range_t rng timeout cnt t =
    (if rng = [] then no_key ''XREAD'' (NilOrArrayInto t)
     else (cmd_xread_block_range rng timeout cnt, NilOrArrayInto t))"

definition redis_xreadgroup :: "bytes \<Rightarrow> bytes \<Rightarrow> bytes \<Rightarrow> bytes \<Rightarrow> int \<Rightarrow> bool \<Rightarrow> rty \<Rightarrow> api" where
  "redis_xreadgroup grp consumer key eid cnt noack t =
    (cmd_xreadgroup grp consumer key eid cnt noack, NilOrArrayInto t)"

definition redis_xreadgroup_range :: "bytes \<Rightarrow> bytes \<Rightarrow> (cval \<times> cval) list \<Rightarrow> int \<Rightarrow> bool \<Rightarrow> rty \<Rightarrow> api" where
  "redis_xreadgroup_range grp consumer rng cnt noack t =
    (if rng = [] then no_key ''XREADGROUP'' (NilOrArrayInto t)
     else (cmd_xreadgroup_range grp consumer rng cnt noack, NilOrArrayInto t))"

definition redis_xreadgroup_block_t :: "bytes \<Rightarrow> bytes \<Rightarrow> bytes \<Rightarrow> bytes \<Rightarrow> int \<Rightarrow> int \<Rightarrow> bool \<Rightarrow> rty \<Rightarrow> api" where
  "redis_xreadgroup_block_t grp consumer key eid timeout cnt noack t =
    (cmd_xreadgroup_block grp consumer key eid timeout cnt noack, NilOrArrayInto t)"

definition redis_xreadgroup_range_t :: "bytes \<Rightarrow> bytes \<Rightarrow> (cval \<times> cval) list \<Rightarrow> int \<Rightarrow> int \<Rightarrow> bool \<Rightarrow> rty \<Rightarrow> api" where
  "redis_xreadgroup_range_t grp consumer rng timeout cnt noack t =
    (if rng = [] then no_key ''XREADGROUP'' (NilOrArrayInto t)
     else (cmd_xreadgroup_block_range grp consumer rng timeout cnt noack, NilOrArrayInto t))"

definition redis_xrevrange :: "bytes \<Rightarrow> bytes \<Rightarrow> bytes \<Rightarrow> rty \<Rightarrow> api" where
  "redis_xrevrange key stop1 start t =
    (cmd_xrevrange key stop1 start, ArrayInto t)"

definition redis_xrevrange_count :: "bytes \<Rightarrow> bytes \<Rightarrow> bytes \<Rightarrow> int \<Rightarrow> rty \<Rightarrow> api" where
  "redis_xrevrange_count key stop1 start cnt t =
    (cmd_xrevrange_count key stop1 start cnt, ArrayInto t)"

end
