(* ===== verification/Api_Inline.thy ===== *)
theory Api_Inline
  imports Api_Range
begin

text \<open>
  Class \<open>Redis\<close>: the methods defined in the class body, in \<open>src/commlib/redis/redis.h\<close>: initializer lists
  (suffix \<open>_il\<close>) and default arguments.
  Each method is the command it sends, with its guard, and the way it reads the reply.  An output
  iterator is given by the type \<open>t\<close> of the values it takes.
\<close>

definition redis_del_il :: "crange \<Rightarrow> api" where
  "redis_del_il rng =
    redis_del_range rng"

definition redis_exists_il :: "crange \<Rightarrow> api" where
  "redis_exists_il rng =
    redis_exists_range rng"

definition redis_touch_il :: "crange \<Rightarrow> api" where
  "redis_touch_il rng =
    redis_touch_range rng"

definition redis_unlink_il :: "crange \<Rightarrow> api" where
  "redis_unlink_il rng =
    redis_unlink_range rng"

definition redis_bitop_il :: "BitOp \<Rightarrow> bytes \<Rightarrow> crange \<Rightarrow> api" where
  "redis_bitop_il op1 destination rng =
    redis_bitop_range op1 destination rng"

definition redis_mget_il :: "crange \<Rightarrow> rty \<Rightarrow> api" where
  "redis_mget_il rng t =
    redis_mget_range rng t"

definition redis_mset_il :: "crange \<Rightarrow> api" where
  "redis_mset_il rng =
    redis_mset_range rng"

definition redis_msetnx_il :: "crange \<Rightarrow> api" where
  "redis_msetnx_il rng =
    redis_msetnx_range rng"

definition redis_blpop_il :: "crange \<Rightarrow> int \<Rightarrow> api" where
  "redis_blpop_il rng timeout =
    redis_blpop_range rng timeout"

definition redis_blpop_il_t :: "crange \<Rightarrow> int \<Rightarrow> api" where
  "redis_blpop_il_t rng timeout =
    redis_blpop_range_t rng timeout"

definition redis_brpop_il :: "crange \<Rightarrow> int \<Rightarrow> api" where
  "redis_brpop_il rng timeout =
    redis_brpop_range rng timeout"

definition redis_brpop_il_t :: "crange \<Rightarrow> int \<Rightarrow> api" where
  "redis_brpop_il_t rng timeout =
    redis_brpop_range_t rng timeout"

definition redis_lpush_il :: "bytes \<Rightarrow> crange \<Rightarrow> api" where
  "redis_lpush_il key rng =
    redis_lpush_range key rng"

definition redis_rpush_il :: "bytes \<Rightarrow> crange \<Rightarrow> api" where
  "redis_rpush_il key rng =
    redis_rpush_range key rng"

definition redis_hdel_il :: "bytes \<Rightarrow> crange \<Rightarrow> api" where
  "redis_hdel_il key rng =
    redis_hdel_range key rng"

definition redis_hmget_il :: "bytes \<Rightarrow> crange \<Rightarrow> rty \<Rightarrow> api" where
  "redis_hmget_il key rng t =
    redis_hmget_range key rng t"

definition redis_hmset_il :: "bytes \<Rightarrow> crange \<Rightarrow> api" where
  "redis_hmset_il key rng =
    redis_hmset_range key rng"

definition redis_sadd_il :: "bytes \<Rightarrow> crange \<Rightarrow> api" where
  "redis_sadd_il key rng =
    redis_sadd_range key rng"

definition redis_sdiff_il :: "crange \<Rightarrow> rty \<Rightarrow> api" where
  "redis_sdiff_il rng t =
    redis_sdiff_range rng t"

definition redis_sdiffstore_il :: "bytes \<Rightarrow> crange \<Rightarrow> api" where
  "redis_sdiffstore_il destination rng =
    redis_sdiffstore_range destination rng"

definition redis_sinter_il :: "crange \<Rightarrow> rty \<Rightarrow> api" where
  "redis_sinter_il rng t =
    redis_sinter_range rng t"

definition redis_sinterstore_il :: "bytes \<Rightarrow> crange \<Rightarrow> api" where
  "redis_sinterstore_il destination rng =
    redis_sinterstore_range destination rng"

definition redis_srem_il :: "bytes \<Rightarrow> crange \<Rightarrow> api" where
  "redis_srem_il key rng =
    redis_srem_range key rng"

definition redis_sunion_il :: "crange \<Rightarrow> rty \<Rightarrow> api" where
  "redis_sunion_il rng t =
    redis_sunion_range rng t"

definition redis_sunionstore_il :: "bytes \<Rightarrow> crange \<Rightarrow> api" where
  "redis_sunionstore_il destination rng =
    redis_sunionstore_range destination rng"

definition redis_bzpopmax_il :: "crange \<Rightarrow> int \<Rightarrow> api" where
  "redis_bzpopmax_il rng timeout =
    redis_bzpopmax_range rng timeout"

definition redis_bzpopmax_il_t :: "crange \<Rightarrow> int \<Rightarrow> api" where
  "redis_bzpopmax_il_t rng timeout =
    redis_bzpopmax_range_t rng timeout"

definition redis_bzpopmin_il :: "crange \<Rightarrow> int \<Rightarrow> api" where
  "redis_bzpopmin_il rng timeout =
    redis_bzpopmin_range rng timeout"

definition redis_bzpopmin_il_t :: "crange \<Rightarrow> int \<Rightarrow> api" where
  "redis_bzpopmin_il_t rng timeout =
    redis_bzpopmin_range_t rng timeout"

definition redis_zadd_il :: "bytes \<Rightarrow> (cval \<times> cval) list \<Rightarrow> UpdateType \<Rightarrow> bool \<Rightarrow> api" where
  "redis_zadd_il key rng utype changed =
    redis_zadd_range key rng utype changed"

definition redis_zinterstore_il :: "bytes \<Rightarrow> crange \<Rightarrow> Aggregation \<Rightarrow> api" where
  "redis_zinterstore_il destination rng utype =
    redis_zinterstore_range destination rng utype"

definition redis_zrem_il :: "bytes \<Rightarrow> crange \<Rightarrow> api" where
  "redis_zrem_il key rng =
    redis_zrem_range key rng"

definition redis_zunionstore_il :: "bytes \<Rightarrow> crange \<Rightarrow> Aggregation \<Rightarrow> api" where
  "redis_zunionstore_il destination rng utype =
    redis_zunionstore_range destination rng utype"

definition redis_pfadd_il :: "bytes \<Rightarrow> crange \<Rightarrow> api" where
  "redis_pfadd_il key rng =
    redis_pfadd_range key rng"

definition redis_pfcount_il :: "crange \<Rightarrow> api" where
  "redis_pfcount_il rng =
    redis_pfcount_range rng"

definition redis_pfmerge_il :: "bytes \<Rightarrow> crange \<Rightarrow> api" where
  "redis_pfmerge_il destination rng =
    redis_pfmerge_range destination rng"

definition redis_geoadd_il :: "bytes \<Rightarrow> (bytes \<times> cdouble \<times> cdouble) list \<Rightarrow> api" where
  "redis_geoadd_il key rng =
    redis_geoadd_range key rng"

definition redis_geohash_il :: "bytes \<Rightarrow> crange \<Rightarrow> rty \<Rightarrow> api" where
  "redis_geohash_il key rng t =
    redis_geohash_range key rng t"

definition redis_geopos_il :: "bytes \<Rightarrow> crange \<Rightarrow> rty \<Rightarrow> api" where
  "redis_geopos_il key rng t =
    redis_geopos_range key rng t"

definition redis_script_exists_il :: "crange \<Rightarrow> rty \<Rightarrow> api" where
  "redis_script_exists_il rng t =
    redis_script_exists_range rng t"

definition redis_watch_il :: "crange \<Rightarrow> api" where
  "redis_watch_il rng =
    redis_watch_range rng"

definition redis_xack_il :: "bytes \<Rightarrow> bytes \<Rightarrow> crange \<Rightarrow> api" where
  "redis_xack_il key grp rng =
    redis_xack_range key grp rng"

definition redis_xadd_il :: "bytes \<Rightarrow> bytes \<Rightarrow> crange \<Rightarrow> api" where
  "redis_xadd_il key eid rng =
    redis_xadd_range key eid rng"

definition redis_xadd_il_2 :: "bytes \<Rightarrow> bytes \<Rightarrow> crange \<Rightarrow> int \<Rightarrow> bool \<Rightarrow> api" where
  "redis_xadd_il_2 key eid rng cnt approx =
    redis_xadd_range_2 key eid rng cnt approx"

definition redis_xclaim_il_t :: "bytes \<Rightarrow> bytes \<Rightarrow> bytes \<Rightarrow> int \<Rightarrow> crange \<Rightarrow> rty \<Rightarrow> api" where
  "redis_xclaim_il_t key grp consumer min_idle_time rng t =
    redis_xclaim_range_t key grp consumer min_idle_time rng t"

definition redis_xdel_il :: "bytes \<Rightarrow> crange \<Rightarrow> api" where
  "redis_xdel_il key rng =
    redis_xdel_range key rng"

definition redis_xread_2 :: "bytes \<Rightarrow> bytes \<Rightarrow> rty \<Rightarrow> api" where
  "redis_xread_2 key eid t =
    redis_xread key eid 0 t"

definition redis_xread_range_2 :: "(cval \<times> cval) list \<Rightarrow> rty \<Rightarrow> api" where
  "redis_xread_range_2 rng t =
    redis_xread_range rng 0 t"

definition redis_xread_t :: "bytes \<Rightarrow> bytes \<Rightarrow> int \<Rightarrow> rty \<Rightarrow> api" where
  "redis_xread_t key eid timeout t =
    redis_xread_block_t key eid timeout 0 t"

definition redis_xread_range_t_2 :: "(cval \<times> cval) list \<Rightarrow> int \<Rightarrow> rty \<Rightarrow> api" where
  "redis_xread_range_t_2 rng timeout t =
    redis_xread_range_t rng timeout 0 t"

definition redis_xreadgroup_2 :: "bytes \<Rightarrow> bytes \<Rightarrow> bytes \<Rightarrow> bytes \<Rightarrow> int \<Rightarrow> rty \<Rightarrow> api" where
  "redis_xreadgroup_2 grp consumer key eid cnt t =
    redis_xreadgroup grp consumer key eid cnt False t"

definition redis_xreadgroup_3 :: "bytes \<Rightarrow> bytes \<Rightarrow> bytes \<Rightarrow> bytes \<Rightarrow> rty \<Rightarrow> api" where
  "redis_xreadgroup_3 grp consumer key eid t =
    redis_xreadgroup grp consumer key eid 0 False t"

definition redis_xreadgroup_range_2 :: "bytes \<Rightarrow> bytes \<Rightarrow> (cval \<times> cval) list \<Rightarrow> int \<Rightarrow> rty \<Rightarrow> api" where
  "redis_xreadgroup_range_2 grp consumer rng cnt t =
    redis_xreadgroup_range grp consumer rng cnt False t"

definition redis_xreadgroup_range_3 :: "bytes \<Rightarrow> bytes \<Rightarrow> (cval \<times> cval) list \<Rightarrow> rty \<Rightarrow> api" where
  "redis_xreadgroup_range_3 grp consumer rng t =
    redis_xreadgroup_range grp consumer rng 0 False t"

definition redis_xreadgroup_t :: "bytes \<Rightarrow> bytes \<Rightarrow> bytes \<Rightarrow> bytes \<Rightarrow> int \<Rightarrow> int \<Rightarrow> rty \<Rightarrow> api" where
  "redis_xreadgroup_t grp consumer key eid timeout cnt t =
    redis_xreadgroup_block_t grp consumer key eid timeout cnt False t"

definition redis_xreadgroup_t_2 :: "bytes \<Rightarrow> bytes \<Rightarrow> bytes \<Rightarrow> bytes \<Rightarrow> int \<Rightarrow> rty \<Rightarrow> api" where
  "redis_xreadgroup_t_2 grp consumer key eid timeout t =
    redis_xreadgroup_block_t grp consumer key eid timeout 0 False t"

definition redis_xreadgroup_range_t_2 :: "bytes \<Rightarrow> bytes \<Rightarrow> (cval \<times> cval) list \<Rightarrow> int \<Rightarrow> int \<Rightarrow> rty \<Rightarrow> api" where
  "redis_xreadgroup_range_t_2 grp consumer rng timeout cnt t =
    redis_xreadgroup_range_t grp consumer rng timeout cnt False t"

definition redis_xreadgroup_range_t_3 :: "bytes \<Rightarrow> bytes \<Rightarrow> (cval \<times> cval) list \<Rightarrow> int \<Rightarrow> rty \<Rightarrow> api" where
  "redis_xreadgroup_range_t_3 grp consumer rng timeout t =
    redis_xreadgroup_range_t grp consumer rng timeout 0 False t"

end
