(* ===== verification/Redis_Props.thy ===== *)
theory Redis_Props
  imports Api_Inline
begin

text \<open>
  The properties of the redis client: what a formatted request is, what the server reads of each
  command, what the methods of \<open>Redis\<close> return, and which failures are possible.
\<close>

subsection \<open>Formatting and sending\<close>

text \<open>
  C1: whatever the format, the arguments and the allocations that fail, \<open>redisvFormatCommand\<close> reports the
  memory error -1 (only if an allocation failed), the format error -2, or a command that is the wire
  encoding of the arguments the walk collected, with its exact length.  Behaviour is undefined only
  if the arguments are not those the format asks for (\<open>well_called\<close>), or if the encoding has
  \<open>2 ^ 31 - 1\<close> bytes or more, which no longer fit the \<open>int\<close> that counts them: otherwise the buffer is never
  too short.  The assertion on the length never fails.
\<close>

lemma format_command_result:
  "case redisvFormatCommand libc ok format ap of
     Inr (len, cmd) \<Rightarrow> (len, cmd) = (-1, []) \<and> (\<exists>k. \<not> ok k) \<or> (len, cmd) = (-2, []) \<or>
       (\<exists>st. fmt_loop libc ok (c_format format) ap fmt_init = Inr st \<and> cmd = resp_encode (args_of st) \<and>
          len = int (length cmd) \<and> length cmd < 2 ^ 31 - 1 \<and> resp_decode cmd = Some (args_of st, []))
   | Inl f \<Rightarrow> f = Undef \<and> (\<not> well_called (c_format format) ap \<or>
       (\<exists>st. fmt_loop libc ok (c_format format) ap fmt_init = Inr st \<and> 2 ^ 31 - 1 \<le> length (resp_encode (args_of st))))"
  by (rule redisvFormatCommand_cases)

lemma format_command_result_witness:
  "\<exists>cmd. redisvFormatCommand (\<lambda>_ _. []) (\<lambda>_. True) ''GET %b'' [APtr [nul, cr], ASize 2] = Inr (int (length cmd), cmd) \<and>
     length cmd = 21 \<and> resp_decode cmd = Some ([''GET'', [nul, cr]], [])"
proof -
  let ?ws = "[lit ''GET'', [FB [nul, cr]]]"
  let ?cmd = "resp_encode [''GET'', [nul, cr]]"
  have l: "length ?cmd = 21" by (simp add: resp_encode_def bulk_def dec_nat_small)
  have two: "(2 :: nat) = Suc (Suc 0)" by simp
  have f: "redisvFormatCommand (\<lambda>_ _. []) (\<lambda>_. True) ''GET %b'' [APtr [nul, cr], ASize 2] = Inr (21, ?cmd)"
    using format_words_lemma [of ?ws "\<lambda>_ _. []"] l by (simp add: word_simps) (metis two)
  obtain argv where "resp_decode ?cmd = Some (argv, [])"
    using format_command_result [where libc = "\<lambda>_ _. []" and ok = "\<lambda>_. True" and format = "''GET %b''" and
        ap = "[APtr [nul, cr], ASize 2]"] by (auto simp: f)
  moreover have "resp_decode ?cmd = Some ([''GET'', [nul, cr]], [])"
    using resp_codec.dec_enc [of _ "[]"] by simp
  ultimately show ?thesis using f l by auto
qed

text \<open>
  C28: a format of words separated by single spaces becomes one argument per word, with every
  conversion replaced by its argument, embedded NUL bytes and blanks of the arguments included; this is the
  request that is sent and what the server decodes.  (The format itself has no NUL, no allocation fails, and
  the request is shorter than \<open>2 ^ 31 - 1\<close> bytes.)
\<close>

lemma format_words_sent:
  assumes "\<forall>w\<in>set ws. word_ok w" "length (resp_encode (map word_text ws)) < 2 ^ 31 - 1"
  shows "conn_send libc (\<lambda>_. True) (SendFmt (words_fmt ws) (words_args ws)) =
      Inr (Some (ReqFormatted (resp_encode (map word_text ws)))) \<and>
    request_argv (ReqFormatted (resp_encode (map word_text ws))) = Some (map word_text ws)"
  using conn_send_words [OF assms, of libc] request_argv_formatted by simp

lemma format_words_sent_witness:
  "conn_send (\<lambda>_ _. []) (\<lambda>_. True)
      (SendFmt (words_fmt [lit ''GET'', [FB [CHR '' '', nul]]]) (words_args [lit ''GET'', [FB [CHR '' '', nul]]])) =
    Inr (Some (ReqFormatted (resp_encode [''GET'', [CHR '' '', nul]])))"
  using format_words_sent [of "[lit ''GET'', [FB [CHR '' '', nul]]]" "\<lambda>_ _. []"]
  by (simp add: word_simps resp_encode_def bulk_def dec_nat_small)

text \<open>
  the wire encoding is prefix-free: whatever follows an encoded argument vector, a reader gets
  exactly that vector and the rest.
\<close>

lemma resp_roundtrip: "resp_decode (resp_encode argv @ rest) = Some (argv, rest)"
  by (rule resp_codec.dec_enc)

text \<open>
  C7: a \<open>CmdArgs\<close> built by any sequence of appends and then a range of values or of pairs stands
  for the texts of what was appended, in order: no pointer into the owned strings goes stale.
\<close>

lemma cmd_args_content:
  "args_wf (put_range r (puts vs no_args)) \<and>
   resolve (put_range r (puts vs no_args)) = map Some (concat (map texts vs) @ range_texts r)"
  by (rule puts_range_resolve)

subsection \<open>The commands on the wire\<close>

text \<open>
  what the server reads of every connection, server and key command: the argument
  vector in the order of the protocol, whatever bytes the arguments hold.
\<close>

lemma key_commands_wire:
  "list_all (\<lambda>(m, argv). fits argv \<longrightarrow> sends libc m argv)
      [(cmd_auth password, [''AUTH'', password]),
       (cmd_echo msg, [''ECHO'', msg]),
       (cmd_ping, [''PING'']),
       (cmd_quit, [''QUIT'']),
       (cmd_ping_msg msg, [''PING'', msg]),
       (cmd_select idx, [''SELECT'', dec_int idx]),
       (cmd_swapdb idx1 idx2, [''SWAPDB'', dec_int idx1, dec_int idx2]),
       (cmd_bgrewriteaof, [''BGREWRITEAOF'']),
       (cmd_bgsave, [''BGSAVE'']),
       (cmd_dbsize, [''DBSIZE'']),
       (cmd_flushall True, [''FLUSHALL'', ''ASYNC'']),
       (cmd_flushall False, [''FLUSHALL'']),
       (cmd_flushdb True, [''FLUSHDB'', ''ASYNC'']),
       (cmd_flushdb False, [''FLUSHDB'']),
       (cmd_info, [''INFO'']),
       (cmd_info_section section1, [''INFO'', section1]),
       (cmd_lastsave, [''LASTSAVE'']),
       (cmd_save, [''SAVE'']),
       (cmd_del key, [''DEL'', key]),
       (cmd_dump key, [''DUMP'', key]),
       (cmd_exists key, [''EXISTS'', key]),
       (cmd_expire key timeout, [''EXPIRE'', key, dec_int timeout]),
       (cmd_expireat key timestamp, [''EXPIREAT'', key, dec_int timestamp]),
       (cmd_keys pattern, [''KEYS'', pattern]),
       (cmd_move key db, [''MOVE'', key, dec_int db]),
       (cmd_persist key, [''PERSIST'', key]),
       (cmd_pexpire key timeout, [''PEXPIRE'', key, dec_int timeout]),
       (cmd_pexpireat key timestamp, [''PEXPIREAT'', key, dec_int timestamp]),
       (cmd_pttl key, [''PTTL'', key]),
       (cmd_randomkey, [''RANDOMKEY'']),
       (cmd_rename key newkey, [''RENAME'', key, newkey]),
       (cmd_renamenx key newkey, [''RENAMENX'', key, newkey]),
       (cmd_scan cursor pattern cnt, [''SCAN'', dec_int cursor, ''MATCH'', pattern, ''COUNT'', dec_int cnt]),
       (cmd_touch key, [''TOUCH'', key]),
       (cmd_ttl key, [''TTL'', key]),
       (cmd_type key, [''TYPE'', key]),
       (cmd_unlink key, [''UNLINK'', key]),
       (cmd_wait numslave timeout, [''WAIT'', dec_int numslave, dec_int timeout])]
   \<and> (\<not> range_empty rng \<longrightarrow> list_all (\<lambda>(m, argv). sends libc m argv)
      [(cmd_del_range rng, ''DEL'' # range_texts rng),
       (cmd_exists_range rng, ''EXISTS'' # range_texts rng),
       (cmd_touch_range rng, ''TOUCH'' # range_texts rng),
       (cmd_unlink_range rng, ''UNLINK'' # range_texts rng)])
   \<and> list_all (\<lambda>(m, argv). sends libc m argv)
      [(cmd_restore key val ttl replace, ''RESTORE'' # key # dec_int ttl # val # flag replace ''REPLACE'')]"
  by (simp add: 
sends_auth sends_echo sends_ping sends_quit
    sends_ping_msg sends_select sends_swapdb sends_bgrewriteaof
    sends_bgsave sends_dbsize sends_flushall_on sends_flushall_off
    sends_flushdb_on sends_flushdb_off sends_info sends_info_section
    sends_lastsave sends_save sends_del sends_del_range
    sends_dump sends_exists sends_exists_range sends_expire
    sends_expireat sends_keys sends_move sends_persist
    sends_pexpire sends_pexpireat sends_pttl sends_randomkey
    sends_rename sends_renamenx sends_scan sends_touch
    sends_touch_range sends_ttl sends_type sends_unlink
    sends_unlink_range sends_wait sends_restore)

lemma key_commands_wire_witness: "sends (\<lambda>_ _. []) (cmd_dump ''k'') [''DUMP'', ''k'']"
  using key_commands_wire [where libc = "\<lambda>_ _. []" and key = "''k''"] by (simp add: fits_def resp_encode_def bulk_def dec_nat_small)

text \<open>
  what the server reads of every string command: the argument
  vector in the order of the protocol, whatever bytes the arguments hold.
\<close>

lemma string_commands_wire:
  "list_all (\<lambda>(m, argv). fits argv \<longrightarrow> sends libc m argv)
      [(cmd_append key str1, [''APPEND'', key, str1]),
       (cmd_bitcount key start stop1, [''BITCOUNT'', key, dec_int start, dec_int stop1]),
       (cmd_bitpos key bit1 start stop1, [''BITPOS'', key, dec_int bit1, dec_int start, dec_int stop1]),
       (cmd_decr key, [''DECR'', key]),
       (cmd_decrby key decrement, [''DECRBY'', key, dec_int decrement]),
       (cmd_get key, [''GET'', key]),
       (cmd_getbit key offset, [''GETBIT'', key, dec_int offset]),
       (cmd_getrange key start stop1, [''GETRANGE'', key, dec_int start, dec_int stop1]),
       (cmd_getset key val, [''GETSET'', key, val]),
       (cmd_incr key, [''INCR'', key]),
       (cmd_incrby key increment, [''INCRBY'', key, dec_int increment]),
       (cmd_incrbyfloat key amount, [''INCRBYFLOAT'', key, fmt_f amount]),
       (cmd_psetex key ttl val, [''PSETEX'', key, dec_int ttl, val]),
       (cmd_setex key ttl val, [''SETEX'', key, dec_int ttl, val]),
       (cmd_setnx key val, [''SETNX'', key, val]),
       (cmd_setrange key offset val, [''SETRANGE'', key, dec_int offset, val]),
       (cmd_strlen key, [''STRLEN'', key])]
   \<and> (\<not> range_empty rng \<longrightarrow> list_all (\<lambda>(m, argv). sends libc m argv)
      [(cmd_mget rng, ''MGET'' # range_texts rng),
       (cmd_mset rng, ''MSET'' # range_texts rng),
       (cmd_msetnx rng, ''MSETNX'' # range_texts rng),
       (cmd_bitop_range op1 destination rng, ''BITOP'' # bitop_word op1 # destination # range_texts rng)])
   \<and> list_all (\<lambda>(m, argv). sends libc m argv)
      [(cmd_bitop op1 destination key, [''BITOP'', bitop_word op1, destination, key]),
       (cmd_set key val ttl utype, ''SET'' # key # val # (if 0 < ttl then [''PX'', dec_int ttl] else []) @ update_words utype)]"
  by (simp add: 
sends_append sends_bitcount sends_bitpos sends_decr
    sends_decrby sends_get sends_getbit sends_getrange
    sends_getset sends_incr sends_incrby sends_incrbyfloat
    sends_mget sends_mset sends_msetnx sends_psetex
    sends_setex sends_setnx sends_setrange sends_strlen
    sends_bitop_range sends_bitop sends_set)

lemma string_commands_wire_witness: "sends (\<lambda>_ _. []) (cmd_incr ''k'') [''INCR'', ''k'']"
  using string_commands_wire [where libc = "\<lambda>_ _. []" and key = "''k''"] by (simp add: fits_def resp_encode_def bulk_def dec_nat_small)

text \<open>
  what the server reads of every list command: the argument
  vector in the order of the protocol, whatever bytes the arguments hold.
\<close>

lemma list_commands_wire:
  "list_all (\<lambda>(m, argv). fits argv \<longrightarrow> sends libc m argv)
      [(cmd_blpop key timeout, [''BLPOP'', key, dec_int timeout]),
       (cmd_brpop key timeout, [''BRPOP'', key, dec_int timeout]),
       (cmd_brpoplpush src1 destination timeout, [''BRPOPLPUSH'', src1, destination, dec_int timeout]),
       (cmd_lindex key index1, [''LINDEX'', key, dec_int index1]),
       (cmd_llen key, [''LLEN'', key]),
       (cmd_lpop key, [''LPOP'', key]),
       (cmd_lpush key val, [''LPUSH'', key, val]),
       (cmd_lpushx key val, [''LPUSHX'', key, val]),
       (cmd_lrange key start stop, [''LRANGE'', key, dec_int start, dec_int stop]),
       (cmd_lrem key cnt val, [''LREM'', key, dec_int cnt, val]),
       (cmd_lset key index1 val, [''LSET'', key, dec_int index1, val]),
       (cmd_ltrim key start stop, [''LTRIM'', key, dec_int start, dec_int stop]),
       (cmd_rpop key, [''RPOP'', key]),
       (cmd_rpoplpush src1 destination, [''RPOPLPUSH'', src1, destination]),
       (cmd_rpush key val, [''RPUSH'', key, val]),
       (cmd_rpushx key val, [''RPUSHX'', key, val]),
       (cmd_linsert key position pivot val, [''LINSERT'', key, insert_word position, pivot, val])]
   \<and> (\<not> range_empty rng \<longrightarrow> list_all (\<lambda>(m, argv). sends libc m argv)
      [(cmd_blpop_range rng timeout, ''BLPOP'' # range_texts rng @ [dec_int timeout]),
       (cmd_brpop_range rng timeout, ''BRPOP'' # range_texts rng @ [dec_int timeout]),
       (cmd_lpush_range key rng, ''LPUSH'' # key # range_texts rng),
       (cmd_rpush_range key rng, ''RPUSH'' # key # range_texts rng)])"
  by (simp add: 
sends_blpop sends_blpop_range sends_brpop sends_brpop_range
    sends_brpoplpush sends_lindex sends_llen sends_lpop
    sends_lpush sends_lpush_range sends_lpushx sends_lrange
    sends_lrem sends_lset sends_ltrim sends_rpop
    sends_rpoplpush sends_rpush sends_rpush_range sends_rpushx
    sends_linsert)

lemma list_commands_wire_witness: "sends (\<lambda>_ _. []) (cmd_llen ''k'') [''LLEN'', ''k'']"
  using list_commands_wire [where libc = "\<lambda>_ _. []" and key = "''k''"] by (simp add: fits_def resp_encode_def bulk_def dec_nat_small)

text \<open>
  what the server reads of every hash command: the argument
  vector in the order of the protocol, whatever bytes the arguments hold.
\<close>

lemma hash_commands_wire:
  "list_all (\<lambda>(m, argv). fits argv \<longrightarrow> sends libc m argv)
      [(cmd_hdel key field, [''HDEL'', key, field]),
       (cmd_hexists key field, [''HEXISTS'', key, field]),
       (cmd_hget key field, [''HGET'', key, field]),
       (cmd_hgetall key, [''HGETALL'', key]),
       (cmd_hincrby key field increment, [''HINCRBY'', key, field, dec_int increment]),
       (cmd_hincrbyfloat key field amount, [''HINCRBYFLOAT'', key, field, fmt_f amount]),
       (cmd_hkeys key, [''HKEYS'', key]),
       (cmd_hlen key, [''HLEN'', key]),
       (cmd_hscan key cursor pattern cnt, [''HSCAN'', key, dec_int cursor, ''MATCH'', pattern, ''COUNT'', dec_int cnt]),
       (cmd_hset key field val, [''HSET'', key, field, val]),
       (cmd_hsetnx key field val, [''HSETNX'', key, field, val]),
       (cmd_hstrlen key field, [''HSTRLEN'', key, field]),
       (cmd_hvals key, [''HVALS'', key])]
   \<and> (\<not> range_empty rng \<longrightarrow> list_all (\<lambda>(m, argv). sends libc m argv)
      [(cmd_hdel_range key rng, ''HDEL'' # key # range_texts rng),
       (cmd_hmget key rng, ''HMGET'' # key # range_texts rng),
       (cmd_hmset key rng, ''HMSET'' # key # range_texts rng)])"
  by (simp add: 
sends_hdel sends_hdel_range sends_hexists sends_hget
    sends_hgetall sends_hincrby sends_hincrbyfloat sends_hkeys
    sends_hlen sends_hmget sends_hmset sends_hscan
    sends_hset sends_hsetnx sends_hstrlen sends_hvals)

lemma hash_commands_wire_witness: "sends (\<lambda>_ _. []) (cmd_hlen ''k'') [''HLEN'', ''k'']"
  using hash_commands_wire [where libc = "\<lambda>_ _. []" and key = "''k''"] by (simp add: fits_def resp_encode_def bulk_def dec_nat_small)

text \<open>
  what the server reads of every set command: the argument
  vector in the order of the protocol, whatever bytes the arguments hold.
\<close>

lemma set_commands_wire:
  "list_all (\<lambda>(m, argv). fits argv \<longrightarrow> sends libc m argv)
      [(cmd_sadd key mem, [''SADD'', key, mem]),
       (cmd_scard key, [''SCARD'', key]),
       (cmd_sdiffstore destination key, [''SDIFFSTORE'', destination, key]),
       (cmd_sinterstore destination key, [''SINTERSTORE'', destination, key]),
       (cmd_sismember key mem, [''SISMEMBER'', key, mem]),
       (cmd_smembers key, [''SMEMBERS'', key]),
       (cmd_smove src1 destination mem, [''SMOVE'', src1, destination, mem]),
       (cmd_spop key, [''SPOP'', key]),
       (cmd_spop_range key cnt, [''SPOP'', key, dec_int cnt]),
       (cmd_srandmember key, [''SRANDMEMBER'', key]),
       (cmd_srandmember_range key cnt, [''SRANDMEMBER'', key, dec_int cnt]),
       (cmd_srem key mem, [''SREM'', key, mem]),
       (cmd_sscan key cursor pattern cnt, [''SSCAN'', key, dec_int cursor, ''MATCH'', pattern, ''COUNT'', dec_int cnt]),
       (cmd_sunionstore destination key, [''SUNIONSTORE'', destination, key])]
   \<and> (\<not> range_empty rng \<longrightarrow> list_all (\<lambda>(m, argv). sends libc m argv)
      [(cmd_sadd_range key rng, ''SADD'' # key # range_texts rng),
       (cmd_sdiff rng, ''SDIFF'' # range_texts rng),
       (cmd_sdiffstore_range destination rng, ''SDIFFSTORE'' # destination # range_texts rng),
       (cmd_sinter rng, ''SINTER'' # range_texts rng),
       (cmd_sinterstore_range destination rng, ''SINTERSTORE'' # destination # range_texts rng),
       (cmd_srem_range key rng, ''SREM'' # key # range_texts rng),
       (cmd_sunion rng, ''SUNION'' # range_texts rng),
       (cmd_sunionstore_range destination rng, ''SUNIONSTORE'' # destination # range_texts rng)])"
  by (simp add: 
sends_sadd sends_sadd_range sends_scard sends_sdiff
    sends_sdiffstore sends_sdiffstore_range sends_sinter sends_sinterstore
    sends_sinterstore_range sends_sismember sends_smembers sends_smove
    sends_spop sends_spop_range sends_srandmember sends_srandmember_range
    sends_srem sends_srem_range sends_sscan sends_sunion
    sends_sunionstore sends_sunionstore_range)

lemma set_commands_wire_witness: "sends (\<lambda>_ _. []) (cmd_scard ''k'') [''SCARD'', ''k'']"
  using set_commands_wire [where libc = "\<lambda>_ _. []" and key = "''k''"] by (simp add: fits_def resp_encode_def bulk_def dec_nat_small)

text \<open>
  what the server reads of every sorted-set command: the argument
  vector in the order of the protocol, whatever bytes the arguments hold.
\<close>

lemma zset_commands_wire:
  "list_all (\<lambda>(m, argv). fits argv \<longrightarrow> sends libc m argv)
      [(cmd_bzpopmax key timeout, [''BZPOPMAX'', key, dec_int timeout]),
       (cmd_bzpopmin key timeout, [''BZPOPMIN'', key, dec_int timeout]),
       (cmd_zcard key, [''ZCARD'', key]),
       (cmd_zincrby key increment mem, [''ZINCRBY'', key, fmt_f increment, mem]),
       (cmd_zinterstore destination key weight, [''ZINTERSTORE'', destination, ''1'', key, ''WEIGHTS'', fmt_f weight]),
       (cmd_zlexcount key ivl, [''ZLEXCOUNT'', key, (imin ivl), (imax ivl)]),
       (cmd_zpopmax key cnt, [''ZPOPMAX'', key, dec_int cnt]),
       (cmd_zpopmin key cnt, [''ZPOPMIN'', key, dec_int cnt]),
       (cmd_zrange key start stop True, [''ZRANGE'', key, dec_int start, dec_int stop, ''WITHSCORES'']),
       (cmd_zrange key start stop False, [''ZRANGE'', key, dec_int start, dec_int stop]),
       (cmd_zrangebylex key ivl opts, [''ZRANGEBYLEX'', key, (imin ivl), (imax ivl), ''LIMIT'', dec_int (limit_offset opts), dec_int (limit_count opts)]),
       (cmd_zrangebyscore key ivl opts True, [''ZRANGEBYSCORE'', key, (imin ivl), (imax ivl), ''WITHSCORES'', ''LIMIT'', dec_int (limit_offset opts), dec_int (limit_count opts)]),
       (cmd_zrangebyscore key ivl opts False, [''ZRANGEBYSCORE'', key, (imin ivl), (imax ivl), ''LIMIT'', dec_int (limit_offset opts), dec_int (limit_count opts)]),
       (cmd_zrank key mem, [''ZRANK'', key, mem]),
       (cmd_zrem key mem, [''ZREM'', key, mem]),
       (cmd_zremrangebylex key ivl, [''ZREMRANGEBYLEX'', key, (imin ivl), (imax ivl)]),
       (cmd_zremrangebyrank key start stop, [''zremrangebyrank'', key, dec_int start, dec_int stop]),
       (cmd_zremrangebyscore key ivl, [''ZREMRANGEBYSCORE'', key, (imin ivl), (imax ivl)]),
       (cmd_zrevrange key start stop True, [''ZREVRANGE'', key, dec_int start, dec_int stop, ''WITHSCORES'']),
       (cmd_zrevrange key start stop False, [''ZREVRANGE'', key, dec_int start, dec_int stop]),
       (cmd_zrevrangebylex key ivl opts, [''ZREVRANGEBYLEX'', key, (imax ivl), (imin ivl), ''LIMIT'', dec_int (limit_offset opts), dec_int (limit_count opts)]),
       (cmd_zrevrangebyscore key ivl opts True, [''ZREVRANGEBYSCORE'', key, (imax ivl), (imin ivl), ''WITHSCORES'', ''LIMIT'', dec_int (limit_offset opts), dec_int (limit_count opts)]),
       (cmd_zrevrangebyscore key ivl opts False, [''ZREVRANGEBYSCORE'', key, (imax ivl), (imin ivl), ''LIMIT'', dec_int (limit_offset opts), dec_int (limit_count opts)]),
       (cmd_zrevrank key mem, [''ZREVRANK'', key, mem]),
       (cmd_zscan key cursor pattern cnt, [''ZSCAN'', key, dec_int cursor, ''MATCH'', pattern, ''COUNT'', dec_int cnt]),
       (cmd_zscore key mem, [''ZSCORE'', key, mem]),
       (cmd_zunionstore destination key weight, [''ZUNIONSTORE'', destination, ''1'', key, ''WEIGHTS'', fmt_f weight])]
   \<and> (\<not> range_empty rng \<longrightarrow> list_all (\<lambda>(m, argv). sends libc m argv)
      [(cmd_bzpopmax_range rng timeout, ''BZPOPMAX'' # range_texts rng @ [dec_int timeout]),
       (cmd_bzpopmin_range rng timeout, ''BZPOPMIN'' # range_texts rng @ [dec_int timeout]),
       (cmd_zrem_range key rng, ''ZREM'' # key # range_texts rng),
       (cmd_zinterstore_range destination rng aggr, ''ZINTERSTORE'' # destination # dec_int (int (range_length rng)) # weighted_args rng @ [''AGGREGATE'', aggr_word aggr]),
       (cmd_zunionstore_range destination rng aggr, ''ZUNIONSTORE'' # destination # dec_int (int (range_length rng)) # weighted_args rng @ [''AGGREGATE'', aggr_word aggr])])
   \<and> (kvs \<noteq> [] \<longrightarrow> list_all (\<lambda>(m, argv). sends libc m argv)
      [(cmd_zadd_range key kvs utype changed, ''ZADD'' # key # update_words utype @ flag changed ''CH'' @ concat (map (\<lambda>(m, sc). texts sc @ texts m) kvs))])
   \<and> list_all (\<lambda>(m, argv). sends libc m argv)
      [(cmd_zinterstore_vals destination rng aggr, ''ZINTERSTORE'' # destination # dec_int (int (range_length rng)) # range_texts rng @ [''AGGREGATE'', aggr_word aggr]),
       (cmd_zinterstore_kvs destination kvs aggr, ''ZINTERSTORE'' # destination # dec_int (int (length kvs)) # concat (map (texts \<circ> fst) kvs) @ ''WEIGHTS'' # concat (map (texts \<circ> snd) kvs) @ [''AGGREGATE'', aggr_word aggr]),
       (cmd_zunionstore_vals destination rng aggr, ''ZUNIONSTORE'' # destination # dec_int (int (range_length rng)) # range_texts rng @ [''AGGREGATE'', aggr_word aggr]),
       (cmd_zunionstore_kvs destination kvs aggr, ''ZUNIONSTORE'' # destination # dec_int (int (length kvs)) # concat (map (texts \<circ> fst) kvs) @ ''WEIGHTS'' # concat (map (texts \<circ> snd) kvs) @ [''AGGREGATE'', aggr_word aggr]),
       (cmd_zadd key mem score utype changed, ''ZADD'' # key # update_words utype @ flag changed ''CH'' @ [fmt_f score, mem])]"
  by (simp add: 
sends_bzpopmax sends_bzpopmax_range sends_bzpopmin sends_bzpopmin_range
    sends_zcard sends_zincrby sends_zinterstore sends_zlexcount
    sends_zpopmax sends_zpopmin sends_zrange_on sends_zrange_off
    sends_zrangebylex sends_zrangebyscore_on sends_zrangebyscore_off sends_zrank
    sends_zrem sends_zrem_range sends_zremrangebylex sends_zremrangebyrank
    sends_zremrangebyscore sends_zrevrange_on sends_zrevrange_off sends_zrevrangebylex
    sends_zrevrangebyscore_on sends_zrevrangebyscore_off sends_zrevrank sends_zscan
    sends_zscore sends_zunionstore sends_zinterstore_vals sends_zinterstore_kvs
    sends_zunionstore_vals sends_zunionstore_kvs sends_zadd_range sends_zadd
    sends_zinterstore_range sends_zunionstore_range)

lemma zset_commands_wire_witness: "sends (\<lambda>_ _. []) (cmd_zcard ''k'') [''ZCARD'', ''k'']"
  using zset_commands_wire [where libc = "\<lambda>_ _. []" and key = "''k''"] by (simp add: fits_def resp_encode_def bulk_def dec_nat_small)

text \<open>
  what the server reads of every HyperLogLog, geo, script, publish/subscribe and transaction command: the argument
  vector in the order of the protocol, whatever bytes the arguments hold.
\<close>

lemma misc_commands_wire:
  "list_all (\<lambda>(m, argv). fits argv \<longrightarrow> sends libc m argv)
      [(cmd_pfadd key element, [''PFADD'', key, element]),
       (cmd_pfcount key, [''PFCOUNT'', key]),
       (cmd_pfmerge destination key, [''PFMERGE'', destination, key]),
       (cmd_geoadd key mem, [''GEOADD'', key, fmt_f (fst (snd mem)), fmt_f (snd (snd mem)), (fst mem)]),
       (cmd_script_exists sha, [''SCRIPT'', ''EXISTS'', sha]),
       (cmd_script_flush, [''SCRIPT'', ''FLUSH'']),
       (cmd_script_kill, [''SCRIPT'', ''KILL'']),
       (cmd_script_load script, [''SCRIPT'', ''LOAD'', script]),
       (cmd_psubscribe pattern, [''PSUBSCRIBE'', pattern]),
       (cmd_publish channel message, [''PUBLISH'', channel, message]),
       (cmd_punsubscribe_all, [''PUNSUBSCRIBE'']),
       (cmd_punsubscribe pattern, [''PUNSUBSCRIBE'', pattern]),
       (cmd_subscribe channel, [''SUBSCRIBE'', channel]),
       (cmd_unsubscribe_all, [''UNSUBSCRIBE'']),
       (cmd_unsubscribe channel, [''UNSUBSCRIBE'', channel]),
       (cmd_discard, [''DISCARD'']),
       (cmd_exec, [''EXEC'']),
       (cmd_multi, [''MULTI'']),
       (cmd_unwatch key, [''UNWATCH'', key]),
       (cmd_watch key, [''WATCH'', key])]
   \<and> (\<not> range_empty rng \<longrightarrow> list_all (\<lambda>(m, argv). sends libc m argv)
      [(cmd_pfadd_range key rng, ''PFADD'' # key # range_texts rng),
       (cmd_pfcount_range rng, ''PFCOUNT'' # range_texts rng),
       (cmd_pfmerge_range destination rng, ''PFMERGE'' # destination # range_texts rng),
       (cmd_geohash_range key rng, ''GEOHASH'' # key # range_texts rng),
       (cmd_geopos_range key rng, ''GEOPOS'' # key # range_texts rng),
       (cmd_script_exists_range rng, ''SCRIPT'' # ''EXISTS'' # range_texts rng),
       (cmd_psubscribe_range rng, ''PSUBSCRIBE'' # range_texts rng),
       (cmd_punsubscribe_range rng, ''PUNSUBSCRIBE'' # range_texts rng),
       (cmd_subscribe_range rng, ''SUBSCRIBE'' # range_texts rng),
       (cmd_unsubscribe_range rng, ''UNSUBSCRIBE'' # range_texts rng),
       (cmd_unwatch_range rng, ''UNWATCH'' # range_texts rng),
       (cmd_watch_range rng, ''WATCH'' # range_texts rng)])
   \<and> (geos \<noteq> [] \<longrightarrow> list_all (\<lambda>(m, argv). sends libc m argv)
      [(cmd_geoadd_range key geos, ''GEOADD'' # key # concat (map (\<lambda>(m, lo, la). [fmt_f lo, fmt_f la, m]) geos))])
   \<and> list_all (\<lambda>(m, argv). sends libc m argv)
      [(cmd_eval script keys sargs, ''EVAL'' # script # dec_int (int (length keys)) # keys @ sargs),
       (cmd_evalsha script keys sargs, ''EVALSHA'' # script # dec_int (int (length keys)) # keys @ sargs),
       (cmd_geodist key member1 member2 gunit, [''GEODIST'', key, member1, member2, unit_word gunit]),
       (cmd_georadius_store key loc radius gunit destination store_dist cnt, [''GEORADIUS'', key, fmt_f (fst loc), fmt_f (snd loc), fmt_f radius, unit_word gunit, ''COUNT'', dec_int cnt, if store_dist then ''STOREDIST'' else ''STORE'', destination]),
       (cmd_georadius key loc radius gunit cnt asc with_coord with_dist with_hash, ''GEORADIUS'' # key # fmt_f (fst loc) # fmt_f (snd loc) # fmt_f radius # unit_word gunit # flag with_coord ''WITHCOORD'' @ flag with_dist ''WITHDIST'' @ flag with_hash ''WITHHASH'' @ [''COUNT'', dec_int cnt, if asc then ''ASC'' else ''DESC'']),
       (cmd_georadiusbymember key who radius gunit cnt asc with_coord with_dist with_hash, ''GEORADIUSBYMEMBER'' # key # who # fmt_f radius # unit_word gunit # flag with_coord ''WITHCOORD'' @ flag with_dist ''WITHDIST'' @ flag with_hash ''WITHHASH'' @ [''COUNT'', dec_int cnt, if asc then ''ASC'' else ''DESC'']),
       (cmd_georadiusbymember_store key who radius gunit destination store_dist cnt, [''GEORADIUSBYMEMBER'', key, who, fmt_f radius, unit_word gunit, ''COUNT'', dec_int cnt, if store_dist then ''STOREDIST'' else ''STORE'', destination])]"
  by (simp add: 
sends_pfadd sends_pfadd_range sends_pfcount sends_pfcount_range
    sends_pfmerge sends_pfmerge_range sends_geoadd sends_geoadd_range
    sends_geohash_range sends_geopos_range sends_eval sends_evalsha
    sends_script_exists sends_script_exists_range sends_script_flush sends_script_kill
    sends_script_load sends_psubscribe sends_psubscribe_range sends_publish
    sends_punsubscribe_all sends_punsubscribe sends_punsubscribe_range sends_subscribe
    sends_subscribe_range sends_unsubscribe_all sends_unsubscribe sends_unsubscribe_range
    sends_discard sends_exec sends_multi sends_unwatch
    sends_unwatch_range sends_watch sends_watch_range sends_geodist
    sends_georadius_store sends_georadius sends_georadiusbymember sends_georadiusbymember_store)

lemma misc_commands_wire_witness: "sends (\<lambda>_ _. []) (cmd_pfcount ''k'') [''PFCOUNT'', ''k'']"
  using misc_commands_wire [where libc = "\<lambda>_ _. []" and key = "''k''"] by (simp add: fits_def resp_encode_def bulk_def dec_nat_small)

text \<open>
  what the server reads of every stream command: the argument
  vector in the order of the protocol, whatever bytes the arguments hold.
\<close>

lemma stream_commands_wire:
  "list_all (\<lambda>(m, argv). fits argv \<longrightarrow> sends libc m argv)
      [(cmd_xack key grp eid, [''XACK'', key, grp, eid]),
       (cmd_xclaim key grp consumer min_idle_time eid, [''XCLAIM'', key, grp, consumer, dec_int min_idle_time, eid]),
       (cmd_xdel key eid, [''XDEL'', key, eid]),
       (cmd_xgroup_setid key grp eid, [''XGROUP'', ''SETID'', key, grp, eid]),
       (cmd_xgroup_destroy key grp, [''XGROUP'', ''DESTROY'', key, grp]),
       (cmd_xgroup_delconsumer key grp consumer, [''XGROUP'', ''DELCONSUMER'', key, grp, consumer]),
       (cmd_xlen key, [''XLEN'', key]),
       (cmd_xpending key grp, [''XPENDING'', key, grp]),
       (cmd_xpending_detail key grp start stop1 cnt, [''XPENDING'', key, grp, start, stop1, dec_int cnt]),
       (cmd_xpending_per_consumer key grp start stop1 cnt consumer, [''XPENDING'', key, grp, start, stop1, dec_int cnt, consumer]),
       (cmd_xrange key start stop1, [''XRANGE'', key, start, stop1]),
       (cmd_xrange_count key start stop1 cnt, [''XRANGE'', key, start, stop1, ''COUNT'', dec_int cnt]),
       (cmd_xread key eid cnt, [''XREAD'', ''COUNT'', dec_int cnt, ''STREAMS'', key, eid]),
       (cmd_xread_block key eid timeout cnt, [''XREAD'', ''COUNT'', dec_int cnt, ''BLOCK'', dec_int timeout, ''STREAMS'', key, eid]),
       (cmd_xrevrange key stop1 start, [''XREVRANGE'', key, stop1, start]),
       (cmd_xrevrange_count key stop1 start cnt, [''XREVRANGE'', key, stop1, start, ''COUNT'', dec_int cnt])]
   \<and> list_all (\<lambda>(m, argv). sends libc m argv)
      [(cmd_xack_range key grp rng, ''XACK'' # key # grp # range_texts rng),
       (cmd_xadd_range key eid rng, ''XADD'' # key # eid # range_texts rng),
       (cmd_xadd_maxlen_range key eid rng cnt approx, ''XADD'' # key # ''MAXLEN'' # flag approx ''~'' @ dec_int cnt # eid # range_texts rng),
       (cmd_xclaim_range key grp consumer min_idle_time rng, ''XCLAIM'' # key # grp # consumer # dec_int min_idle_time # range_texts rng),
       (cmd_xdel_range key rng, ''XDEL'' # key # range_texts rng),
       (cmd_xgroup_create key grp eid mkstream, ''XGROUP'' # ''CREATE'' # key # grp # eid # flag mkstream ''MKSTREAM''),
       (cmd_xread_range kvs cnt, ''XREAD'' # ''COUNT'' # dec_int cnt # ''STREAMS'' # concat (map (texts \<circ> fst) kvs) @ concat (map (texts \<circ> snd) kvs)),
       (cmd_xread_block_range kvs timeout cnt, ''XREAD'' # ''COUNT'' # dec_int cnt # ''BLOCK'' # dec_int timeout # ''STREAMS'' # concat (map (texts \<circ> fst) kvs) @ concat (map (texts \<circ> snd) kvs)),
       (cmd_xreadgroup grp consumer key eid cnt noack, ''XREADGROUP'' # ''GROUP'' # grp # consumer # ''COUNT'' # dec_int cnt # flag noack ''NOACK'' @ [''STREAMS'', key, eid]),
       (cmd_xreadgroup_range grp consumer kvs cnt noack, ''XREADGROUP'' # ''GROUP'' # grp # consumer # ''COUNT'' # dec_int cnt # flag noack ''NOACK'' @ ''STREAMS'' # concat (map (texts \<circ> fst) kvs) @ concat (map (texts \<circ> snd) kvs)),
       (cmd_xreadgroup_block grp consumer key eid timeout cnt noack, ''XREADGROUP'' # ''GROUP'' # grp # consumer # ''COUNT'' # dec_int cnt # ''BLOCK'' # dec_int timeout # flag noack ''NOACK'' @ [''STREAMS'', key, eid]),
       (cmd_xreadgroup_block_range grp consumer kvs timeout cnt noack, ''XREADGROUP'' # ''GROUP'' # grp # consumer # ''COUNT'' # dec_int cnt # ''BLOCK'' # dec_int timeout # flag noack ''NOACK'' @ ''STREAMS'' # concat (map (texts \<circ> fst) kvs) @ concat (map (texts \<circ> snd) kvs)),
       (cmd_xtrim key cnt approx, ''XTRIM'' # key # ''MAXLEN'' # flag approx ''~'' @ [dec_int cnt])]"
  by (simp add: 
sends_xack sends_xack_range sends_xadd_range sends_xadd_maxlen_range
    sends_xclaim sends_xclaim_range sends_xdel sends_xdel_range
    sends_xgroup_create sends_xgroup_setid sends_xgroup_destroy sends_xgroup_delconsumer
    sends_xlen sends_xpending sends_xpending_detail sends_xpending_per_consumer
    sends_xrange sends_xrange_count sends_xread sends_xread_range
    sends_xread_block sends_xread_block_range sends_xreadgroup sends_xreadgroup_range
    sends_xreadgroup_block sends_xreadgroup_block_range sends_xrevrange sends_xrevrange_count
    sends_xtrim)

lemma stream_commands_wire_witness: "sends (\<lambda>_ _. []) (cmd_xlen ''k'') [''XLEN'', ''k'']"
  using stream_commands_wire [where libc = "\<lambda>_ _. []" and key = "''k''"] by (simp add: fits_def resp_encode_def bulk_def dec_nat_small)

subsection \<open>Options\<close>

text \<open>
  a lexicographic interval selects, for every bound type, exactly the members between its
  bounds, each bound included or excluded as the type says; a half-bounded interval is built
  exactly for the two bound types that make sense for it.
\<close>

lemma lex_interval_members:
  "(\<exists>r. bounded_lex mn mx b = Inr r \<and>
      in_lex r x = Some ((byte_le mn x \<and> (lex_closed_below b \<or> mn \<noteq> x)) \<and>
                         (byte_le x mx \<and> (lex_closed_above b \<or> mx \<noteq> x)))) \<and>
   in_lex unbounded_lex x = Some True \<and>
   (case left_bounded_lex mn b of
      Inr r \<Rightarrow> in_lex r x = Some (byte_le mn x \<and> (b = RightOpen \<or> mn \<noteq> x)) \<and> b \<in> {Open, RightOpen}
    | Inl f \<Rightarrow> b \<in> {Closed, LeftOpen} \<and> (\<exists>m. f = Throw (Error m))) \<and>
   (case right_bounded_lex mx b of
      Inr r \<Rightarrow> in_lex r x = Some (byte_le x mx \<and> (b = LeftOpen \<or> mx \<noteq> x)) \<and> b \<in> {Open, LeftOpen}
    | Inl f \<Rightarrow> b \<in> {Closed, RightOpen} \<and> (\<exists>m. f = Throw (Error m)))"
  using in_lex_bounded [of mn mx b x] in_lex_left_bounded [of mn b _ x] in_lex_right_bounded [of mx b _ x]
  by (cases b) (simp_all add: in_lex_unbounded lex_closed_below_def lex_closed_above_def)

lemma lex_interval_members_witness:
  "\<exists>r. bounded_lex ''a'' ''c'' LeftOpen = Inr r \<and> in_lex r ''a'' = Some False"
  using lex_interval_members [of "''a''" "''c''" LeftOpen "''a''"]
  by (auto simp: lex_closed_below_def)

subsection \<open>Ranges\<close>

text \<open>A method that rejects an empty range with an \<open>Error\<close> and sends any other.\<close>

definition guarded :: "bool \<Rightarrow> api \<Rightarrow> bool" where
  "guarded none call \<longleftrightarrow>
     (if none then \<exists>m. fst call = Inl (Throw (Error m)) else \<exists>a. fst call = Inr (SendArgs a))"

text \<open>
  C38: what the methods of the client class that take a range of keys, members, pairs or ids do with
  an empty one.  (The overloads for initializer lists call these; the generic commands, and the keys and
  arguments of scripts, are not among them.)  The methods on keys, strings, lists, hashes, sets, sorted sets, HyperLogLogs,
  geo sets and scripts, \<open>watch\<close>, and the reading of streams reject it with an \<open>Error\<close> before
  anything is sent, and none of them reaches the assertion of its command function; the other methods on
  streams send the command without arguments; and \<open>bzpopmax\<close> and \<open>bzpopmin\<close>, which have no guard,
  fail the assertion.  A range that is not empty is sent by all of them.
\<close>

theorem range_methods_guarded:
  "(\<forall>call \<in> {redis_del_range rng, redis_exists_range rng, redis_touch_range rng, redis_unlink_range rng,
      redis_bitop_range op1 dest rng, redis_mget_range rng t, redis_mset_range rng, redis_msetnx_range rng,
      redis_blpop_range rng timeout, redis_brpop_range rng timeout, redis_lpush_range key rng,
      redis_rpush_range key rng, redis_hdel_range key rng, redis_hmget_range key rng t,
      redis_hmset_range key rng, redis_sadd_range key rng, redis_sdiff_range rng t,
      redis_sdiffstore_range dest rng, redis_sinter_range rng t, redis_sinterstore_range dest rng,
      redis_srem_range key rng, redis_sunion_range rng t, redis_sunionstore_range dest rng,
      redis_zinterstore_range dest rng aggr, redis_zunionstore_range dest rng aggr,
      redis_zrem_range key rng, redis_pfadd_range key rng, redis_pfcount_range rng,
      redis_pfmerge_range dest rng, redis_geohash_range key rng t, redis_geopos_range key rng t,
      redis_script_exists_range rng t,
      redis_blpop_range_t rng timeout, redis_brpop_range_t rng timeout, redis_watch_range rng}.
      guarded (range_empty rng) call) \<and>
   guarded (pairs = []) (redis_zadd_range key pairs utype changed) \<and>
   guarded (places = []) (redis_geoadd_range key places) \<and>
   (\<forall>call \<in> {redis_xread_range pairs cnt t, redis_xread_range_t pairs timeout cnt t,
      redis_xreadgroup_range grp consumer pairs cnt noack t,
      redis_xreadgroup_range_t grp consumer pairs timeout cnt noack t}. guarded (pairs = []) call) \<and>
   (\<forall>call \<in> {redis_xack_range key grp rng, redis_xadd_range key eid rng, redis_xadd_range_2 key eid rng cnt approx,
      redis_xclaim_range_t key grp consumer idle rng t, redis_xdel_range key rng}. guarded False call) \<and>
   (\<forall>call \<in> {redis_bzpopmax_range rng timeout, redis_bzpopmax_range_t rng timeout,
      redis_bzpopmin_range rng timeout, redis_bzpopmin_range_t rng timeout}.
      if range_empty rng then fst call = Inl AssertFail else guarded False call)"
proof (intro conjI)
  show "\<forall>call \<in> {redis_del_range rng, redis_exists_range rng, redis_touch_range rng, redis_unlink_range rng,
      redis_bitop_range op1 dest rng, redis_mget_range rng t, redis_mset_range rng, redis_msetnx_range rng,
      redis_blpop_range rng timeout, redis_brpop_range rng timeout, redis_lpush_range key rng,
      redis_rpush_range key rng, redis_hdel_range key rng, redis_hmget_range key rng t,
      redis_hmset_range key rng, redis_sadd_range key rng, redis_sdiff_range rng t,
      redis_sdiffstore_range dest rng, redis_sinter_range rng t, redis_sinterstore_range dest rng,
      redis_srem_range key rng, redis_sunion_range rng t, redis_sunionstore_range dest rng,
      redis_zinterstore_range dest rng aggr, redis_zunionstore_range dest rng aggr,
      redis_zrem_range key rng, redis_pfadd_range key rng, redis_pfcount_range rng,
      redis_pfmerge_range dest rng, redis_geohash_range key rng t, redis_geopos_range key rng t,
      redis_script_exists_range rng t,
      redis_blpop_range_t rng timeout, redis_brpop_range_t rng timeout, redis_watch_range rng}.
      guarded (range_empty rng) call"
    by (cases rng) (simp_all add: guarded_def redis_blpop_range_t_def redis_brpop_range_t_def redis_watch_range_def
      cmd_watch_range_def no_key_def sent_args_view
      redis_bitop_range_def redis_blpop_range_def redis_brpop_range_def redis_del_range_def
      redis_exists_range_def redis_geohash_range_def redis_geopos_range_def redis_hdel_range_def
      redis_hmget_range_def redis_hmset_range_def redis_lpush_range_def redis_mget_range_def
      redis_mset_range_def redis_msetnx_range_def redis_pfadd_range_def redis_pfcount_range_def
      redis_pfmerge_range_def redis_rpush_range_def redis_sadd_range_def redis_script_exists_range_def
      redis_sdiff_range_def redis_sdiffstore_range_def redis_sinter_range_def redis_sinterstore_range_def
      redis_srem_range_def redis_sunion_range_def redis_sunionstore_range_def redis_touch_range_def
      redis_unlink_range_def redis_zinterstore_range_def redis_zrem_range_def redis_zunionstore_range_def
      cmd_bitop_range_def cmd_blpop_range_def cmd_brpop_range_def cmd_del_range_def
      cmd_exists_range_def cmd_geohash_range_def cmd_geopos_range_def cmd_hdel_range_def
      cmd_hmget_def cmd_hmset_def cmd_lpush_range_def cmd_mget_def
      cmd_mset_def cmd_msetnx_def cmd_pfadd_range_def cmd_pfcount_range_def
      cmd_pfmerge_range_def cmd_rpush_range_def cmd_sadd_range_def cmd_script_exists_range_def
      cmd_sdiff_def cmd_sdiffstore_range_def cmd_sinter_def cmd_sinterstore_range_def
      cmd_srem_range_def cmd_sunion_def cmd_sunionstore_range_def cmd_touch_range_def
      cmd_unlink_range_def cmd_zrem_range_def cmd_zinterstore_vals_def cmd_zinterstore_kvs_def
      cmd_zunionstore_vals_def cmd_zunionstore_kvs_def Let_def)
qed (simp_all add: guarded_def no_key_def sent_args_view redis_zadd_range_def cmd_zadd_range_def redis_geoadd_range_def
    cmd_geoadd_range_def redis_xread_range_def cmd_xread_range_def redis_xread_range_t_def cmd_xread_block_range_def
    redis_xreadgroup_range_def cmd_xreadgroup_range_def redis_xreadgroup_range_t_def cmd_xreadgroup_block_range_def
    redis_xack_range_def cmd_xack_range_def redis_xadd_range_def cmd_xadd_range_def redis_xadd_range_2_def
    cmd_xadd_maxlen_range_def redis_xclaim_range_t_def cmd_xclaim_range_def redis_xdel_range_def cmd_xdel_range_def
    redis_bzpopmax_range_def redis_bzpopmax_range_t_def redis_bzpopmin_range_def redis_bzpopmin_range_t_def
    cmd_bzpopmax_range_def cmd_bzpopmin_range_def Let_def)

lemma range_methods_guarded_witness:
  "(\<exists>m. fst (redis_del_range (Vals [])) = Inl (Throw (Error m))) \<and>
   (\<exists>a. fst (redis_xdel_range ''k'' (Vals [])) = Inr (SendArgs a)) \<and>
   fst (redis_bzpopmax_range (Vals []) 0) = Inl AssertFail"
  using range_methods_guarded [of "Vals []" BitAnd "[]" TStr 0 "''k''" AggSum] by (auto simp: guarded_def)

text \<open>
  the two blocking sorted-set methods have no such guard: on an empty range the assertion of the
  command function fails, also through the overloads with a duration and an initializer list.
\<close>

lemma bzpop_range_asserts:
  assumes "range_empty rng"
  shows "\<forall>call \<in> {redis_bzpopmax_range rng timeout, redis_bzpopmin_range rng timeout,
      redis_bzpopmax_range_t rng timeout, redis_bzpopmin_range_t rng timeout,
      redis_bzpopmax_il rng timeout, redis_bzpopmin_il rng timeout}.
    run_call libc ok sd ops call c = ((Inl AssertFail, []), c)"
  using assms
  by (simp add: redis_bzpopmax_range_def redis_bzpopmin_range_def redis_bzpopmax_range_t_def
      redis_bzpopmin_range_t_def redis_bzpopmax_il_def redis_bzpopmin_il_def
      cmd_bzpopmax_range_def cmd_bzpopmin_range_def run_call_rejected)

lemma bzpop_range_asserts_witness:
  "run_call (\<lambda>_ _. []) (\<lambda>_. True) (\<lambda>_. Inl Undef)
      \<lparr>do_request = (\<lambda>_ c. (Inr (), c)), do_recv = (\<lambda>c. (None, c))\<rparr> (redis_bzpopmax_il (Vals []) 0) () =
    ((Inl AssertFail, []), ())"
  using bzpop_range_asserts [of "Vals []" 0 "\<lambda>_ _. []" "\<lambda>_. True" "\<lambda>_. Inl Undef"
      "\<lparr>do_request = (\<lambda>_ c. (Inr (), c)), do_recv = (\<lambda>c. (None, c))\<rparr>" "()"] by simp

subsection \<open>A call against a server\<close>

text \<open>A small server and a connection to it, for the witness of the next property.\<close>

type_synonym map_state = "(bytes \<Rightarrow> bytes option) \<times> rreply list"

definition map_server :: "bytes list \<Rightarrow> map_state \<Rightarrow> rreply \<times> map_state" where
  "map_server cmd c =
    (case cmd of
       [_, k] \<Rightarrow> (case fst c k of None \<Rightarrow> Reply 0 REDIS_REPLY_NIL 0 None None | Some v \<Rightarrow> string_reply v, c)
     | [_, k, v] \<Rightarrow> (Reply 0 REDIS_REPLY_STATUS 0 (Some (0, ''OK'')) None, ((fst c)(k \<mapsto> v), snd c))
     | _ \<Rightarrow> (Reply 0 REDIS_REPLY_ERROR 0 (Some (0, ''ERR'')) None, c))"

definition map_conn :: "map_state conn_ops" where
  "map_conn =
    \<lparr>do_request = (\<lambda>req c. (Inr (),
        case request_argv req of None \<Rightarrow> c
        | Some cmd \<Rightarrow> (case map_server cmd c of (r, m, p) \<Rightarrow> (m, r # p)))),
     do_recv = (\<lambda>(m, p). case p of [] \<Rightarrow> (None, m, []) | r # p \<Rightarrow> (Some r, m, p))\<rparr>"

lemma served_map_conn: "served map_conn map_server"
  by (auto simp: served_def map_conn_def split: prod.splits)

text \<open>
  C40: a value set through the client and read back is the value, byte for byte.  The server is any
  one that answers \<open>SET\<close> and \<open>GET\<close> as documented (\<open>look\<close> reads its keyspace), behind any
  connection that delivers requests to it; formatting, decoding, the reply rewriting and the
  parsers are the code's.
\<close>

lemma set_then_get:
  assumes "served ops srv"
    and set_doc: "\<And>k v c. srv [''SET'', k, v] c =
      (Reply 0 REDIS_REPLY_STATUS 0 (Some (0, ''OK'')) None, upd k v c)"
    and get_doc: "\<And>k c. srv [''GET'', k] c =
      ((case look c k of None \<Rightarrow> Reply 0 REDIS_REPLY_NIL 0 None None | Some v \<Rightarrow> string_reply v), c)"
    and look_upd: "\<And>k v c. look (upd k v c) = (look c)(k \<mapsto> v)"
    and "fits [''GET'', k]" "fits [''GET'', k']"
  shows "\<exists>c1. run_call libc (\<lambda>_. True) sd ops (redis_set_t k v 0 UpdAlways) c = ((Inr (RBool True), []), c1) \<and>
    run_call libc (\<lambda>_. True) sd ops (redis_get k) c1 = ((Inr (RSome (RStr v)), []), c1) \<and>
    (k' \<noteq> k \<longrightarrow> fst (run_call libc (\<lambda>_. True) sd ops (redis_get k') c1) =
       (Inr (case look c k' of None \<Rightarrow> RNone | Some w \<Rightarrow> RSome (RStr w)), []))"
proof -
  have "sends libc (cmd_set k v 0 UpdAlways) [''SET'', k, v]"
    using sends_set [of libc k v 0 UpdAlways] by simp
  from run_call_served [OF assms(1) this, of sd SetResult c]
  have "run_call libc (\<lambda>_. True) sd ops (redis_set_t k v 0 UpdAlways) c = ((Inr (RBool True), []), upd k v c)"
    by (simp add: redis_set_t_def set_doc rewrite_set_reply_def is_nil_def parse_void_def is_status_def
        parse_bool_def parse_longlong_def is_integer_def)
  moreover have "run_call libc (\<lambda>_. True) sd ops (redis_get q) (upd k v c) =
      ((Inr (case look (upd k v c) q of None \<Rightarrow> RNone | Some w \<Rightarrow> RSome (RStr w)), []), upd k v c)"
    if "fits [''GET'', q]" for q
    using run_call_served [OF assms(1) sends_get [OF that], of libc sd "ParseAs OptionalString" "upd k v c"]
    by (simp add: redis_get_def get_doc is_nil_def parse_string_def is_string_def split: option.splits)
  ultimately show ?thesis
    using assms(5,6) by (simp add: look_upd)
qed

lemma set_then_get_witness:
  "\<exists>c1. run_call (\<lambda>_ _. []) (\<lambda>_. True) (\<lambda>_. Inl Undef) map_conn (redis_set_t ''k'' [nul, cr] 0 UpdAlways) (Map.empty, []) =
     ((Inr (RBool True), []), c1) \<and>
    run_call (\<lambda>_ _. []) (\<lambda>_. True) (\<lambda>_. Inl Undef) map_conn (redis_get ''k'') c1 = ((Inr (RSome (RStr [nul, cr])), []), c1) \<and>
    fst (run_call (\<lambda>_ _. []) (\<lambda>_. True) (\<lambda>_. Inl Undef) map_conn (redis_get ''j'') c1) = (Inr RNone, [])"
proof -
  have "fits [''GET'', x]" if "length x = 1" for x
    using that by (simp add: fits_def resp_encode_def bulk_def dec_nat_small)
  then have "fits [''GET'', ''k'']" "fits [''GET'', ''j'']" by simp_all
  from set_then_get [OF served_map_conn, where upd = "\<lambda>k v c. ((fst c)(k \<mapsto> v), snd c)" and look = fst,
      OF _ _ _ this, of "\<lambda>_ _. []" "\<lambda>_. Inl Undef" "[nul, cr]" "(Map.empty, [])"]
  show ?thesis by (auto simp: map_server_def)
qed

end
