(* ===== verification/Reply_Props.thy ===== *)
theory Reply_Props
  imports Reply_Facts
begin

text \<open>The properties of the reply parsers and of the memory of reply objects.\<close>

text \<open>
  C24: every value of every type the client can ask for (scalars, optionals, pairs, tuples,
  sequences, maps and sets, nested in any way) is read back from the reply a server writes for it,
  provided \<open>std::stod\<close> reads back the server's texts of its doubles.
\<close>

lemma parse_roundtrip:
  assumes "typed t v" and "\<forall>d\<in>set (doubles v). stod (fd d) = Inr d"
  shows "parse stod t (enc fd v) = Inr v"
  using assms by (intro parse_enc) (auto simp: reads_back_def)

lemma parse_roundtrip_witness:
  "parse (\<lambda>_. Inr (DFin False 3 0)) (TSeq (TPair TStr (TOpt TDbl)))
      (enc (\<lambda>_. ''3'') (RList [RPair (RStr ''a'') (RSome (RDbl (DFin False 3 0))), RPair (RStr [nul]) RNone])) =
    Inr (RList [RPair (RStr ''a'') (RSome (RDbl (DFin False 3 0))), RPair (RStr [nul]) RNone])"
  by (rule parse_roundtrip) simp_all

text \<open>
  a map that arrives as one flat array of keys and values (\<open>HGETALL\<close>, \<open>WITHSCORES\<close>) gives
  the same pairs, in order, as one that arrives as an array of two-element arrays.
\<close>

lemma flat_map_same:
  assumes "\<forall>(k, v)\<in>set kvs. typed t k \<and> typed u v" "\<not> is_array_ty t"
    and "\<forall>(k, v)\<in>set kvs. \<forall>d\<in>set (doubles k @ doubles v). stod (fd d) = Inr d"
  shows "to_array stod (TPair t u) (flat_reply fd kvs) = (map (\<lambda>(k, v). RPair k v) kvs, None) \<and>
    to_array stod (TPair t u) (enc fd (RList (map (\<lambda>(k, v). RPair k v) kvs))) =
      (map (\<lambda>(k, v). RPair k v) kvs, None)"
proof -
  let ?vs = "map (\<lambda>(k, v). RPair k v) kvs"
  have ok: "reads_back stod fd v" "typed (TPair t u) v" if "v \<in> set ?vs" for v
    using assms(1,3) that by (auto simp: reads_back_def)
  then have "reads_back stod fd (RList ?vs)" by (auto simp: reads_back_def)
  moreover have "to_array stod (TPair t u) (array_reply (map (enc fd) ?vs)) = (?vs, None)"
    by (rule to_array_enc) (use ok in \<open>auto simp: list_all_iff simp del: typed.simps parse.simps intro!: parse_enc\<close>)
  ultimately show ?thesis
    using to_array_flat [OF _ assms(1,2)] by (simp only: enc.simps simp_thms)
qed

lemma flat_map_same_witness:
  "to_array (\<lambda>_. Inl Undef) (TPair TStr TStr) (flat_reply (\<lambda>_. []) [(RStr ''f'', RStr ''v'')]) =
    ([RPair (RStr ''f'') (RStr ''v'')], None)"
  using flat_map_same [of "[(RStr ''f'', RStr ''v'')]" TStr TStr "\<lambda>_. Inl Undef" "\<lambda>_. []"] by simp

text \<open>
  C37: parsing any reply to any type either gives a value or throws a \<open>ProtoError\<close> or what
  \<open>std::stod\<close> throws: no assertion fails and nothing outside the reply is read.
\<close>

lemma parse_failures:
  "parse stod t r = Inl f \<longrightarrow> (\<exists>m. f = Throw (ProtoError m)) \<or> (\<exists>s. stod s = Inl f)"
  using parse_Inl [of stod t r f] by (simp add: proto_or_def)

lemma parse_failures_witness:
  "(\<exists>f. parse (\<lambda>_. Inl (Throw (StdException ''stod''))) (TSeq (TPair TStr TDbl)) (array_reply [string_reply ''a'', string_reply ''x'']) = Inl f \<and>
     ((\<exists>m. f = Throw (ProtoError m)) \<or> f = Throw (StdException ''stod''))) \<and>
   (\<exists>f m. parse (\<lambda>_. Inl (Throw (StdException ''stod''))) (TSeq TInt) (array_reply [Reply 0 REDIS_REPLY_INTEGER 7 None None, string_reply ''a'']) = Inl f \<and>
     f = Throw (ProtoError m))"
proof -
  let ?sd = "\<lambda>_. Inl (Throw (StdException ''stod''))"
  let ?flat = "array_reply [string_reply ''a'', string_reply ''x'']"
    and ?mixed = "array_reply [Reply 0 REDIS_REPLY_INTEGER 7 None None, string_reply ''a'']"
  have 1: "parse ?sd (TSeq (TPair TStr TDbl)) ?flat = Inl (Throw (StdException ''stod''))"
    by (simp add: array_output_def is_flat_array_def to_flat_array_def collect_def
        parse_string_def parse_double_def is_type_defs)
  have 2: "parse ?sd (TSeq TInt) ?mixed = Inl (Throw (ProtoError ''Expect INTEGER reply''))"
    by (simp add: array_output_def to_plain_array_def collect_def emit_def
        parse_longlong_def is_type_defs)
  from parse_failures [THEN mp, OF 1] parse_failures [THEN mp, OF 2] 1 2 show ?thesis by auto
qed

text \<open>
  \<open>SET\<close> succeeds as a boolean: the rewritten reply parses to true for \<open>OK\<close> and to false for
  nil, any other reply is refused; and over the rewrite and the deletion of the object every heap
  block of the reply is freed exactly once, although the string pointer is left in the object.
\<close>

lemma set_reply_rewritten:
  assumes "tidy r"
  shows "case rewrite_set_reply r of
      Inr (r', freed) \<Rightarrow> parse_bool r' = Inr (\<not> is_nil r) \<and>
        (is_nil r \<or> (\<exists>b. rstr r = Some (b, ''OK''))) \<and>
        mset (freed @ freeReplyObject (Some r')) = mset (blocks r)
    | Inl f \<Rightarrow> (\<exists>m. f = Throw (ProtoError m)) \<and> freeReplyObject (Some r) = blocks r"
proof (cases "rewrite_set_reply r")
  case (Inl f)
  have "\<exists>m. f = Throw (ProtoError m)"
    using Inl by (auto simp: rewrite_set_reply_def parse_void_def to_status_def rbind_Inl_iff
        split: if_splits option.splits)
  with Inl free_blocks [OF assms] show ?thesis by simp
next
  case (Inr p)
  obtain r' fs where p: "p = (r', fs)" by fastforce
  with Inr have r: "rewrite_set_reply r = Inr (r', fs)" by simp
  from rewrite_set_value [OF r] rewrite_set_accepts [of r] rewrite_set_frees [OF assms r] r show ?thesis
    by auto
qed

lemma set_reply_rewritten_witness:
  "mset (snd (set_int_reply 1 (Reply 7 5 0 (Some (8, ''OK'')) None), [8::nat]) @
      freeReplyObject (Some (set_int_reply 1 (Reply 7 5 0 (Some (8, ''OK'')) None)))) =
    mset (blocks (Reply 7 5 0 (Some (8, ''OK'')) None))"
  using set_reply_rewritten [of "Reply 7 5 0 (Some (8, ''OK'')) None"]
  by (simp add: rewrite_set_reply_def is_nil_def parse_void_def is_status_def)

text \<open>
  \<open>parse_scan_reply\<close> returns the server's cursor only up to 31 bits: of a larger cursor it
  returns the low 32 bits as a signed number, with the data intact and no error.
\<close>

lemma scan_cursor_truncated:
  assumes "- (2 ^ 63) \<le> cursor" "cursor < 2 ^ 63" "snd (to_array stod t data) = None"
  shows "parse_scan_reply stod t (scan_answer cursor data) = (Inr (int32 cursor), fst (to_array stod t data)) \<and>
    (int32 cursor = cursor \<longleftrightarrow> - (2 ^ 31) \<le> cursor \<and> cursor < 2 ^ 31)"
proof -
  have "int32 cursor = cursor \<longleftrightarrow> - (2 ^ 31) \<le> cursor \<and> cursor < 2 ^ 31"
    using int32_id [of cursor] int32_range [of cursor] by auto
  with parse_scan_answer [OF assms(1,2), of stod t data] assms(3) show ?thesis by simp
qed

lemma scan_cursor_truncated_witness:
  "parse_scan_reply (\<lambda>_. Inl Undef) TStr (scan_answer (2 ^ 32 + 5) (array_reply [])) = (Inr 5, [])"
  using scan_cursor_truncated [of "2 ^ 32 + 5" "\<lambda>_. Inl Undef" TStr "array_reply []"]
  by (simp add: array_output_def is_array_def to_plain_array_def int32_def)

end
