(* ===== verification/Reply_Types.thy ===== *)
theory Reply_Types
  imports Reply_Facts
begin

text \<open>
  Type soundness of the reply parsers of \<open>src/commlib/redis/reply.h\<close> and \<open>reply.cpp\<close>: whatever the
  server sends, a parser for a type gives a value of that type or fails, and an output iterator
  only ever gets elements of its element type, also when a later element fails.
\<close>

definition makes :: "(rval \<Rightarrow> bool) \<Rightarrow> parser \<Rightarrow> bool" where
  "makes P p \<longleftrightarrow> (\<forall>r v. p r = Inr v \<longrightarrow> P v)"

definition pair_of :: "(rval \<Rightarrow> bool) \<Rightarrow> (rval \<Rightarrow> bool) \<Rightarrow> rval \<Rightarrow> bool" where
  "pair_of P Q v \<longleftrightarrow> (case v of RPair a b \<Rightarrow> P a \<and> Q b | _ \<Rightarrow> False)"

text \<open>\<open>Optional\<close> of \<open>Optional\<close> is no type of a reply.\<close>

primrec opts_ok :: "rty \<Rightarrow> bool" where
  "opts_ok TVoid = True"
| "opts_ok TStr = True"
| "opts_ok TInt = True"
| "opts_ok TDbl = True"
| "opts_ok TBool = True"
| "opts_ok (TOpt t) = (\<not> is_opt_ty t \<and> opts_ok t)"
| "opts_ok (TPair t u) = (opts_ok t \<and> opts_ok u)"
| "opts_ok (TTup ts) = list_all (\<lambda>b. b) (map opts_ok ts)"
| "opts_ok (TSeq t) = opts_ok t"
| "opts_ok (TAssoc t) = opts_ok t"

lemma to_array_from_makes: "makes P p \<Longrightarrow> list_all P (fst (to_array_from p xs))"
  by (induction p xs rule: to_array_from.induct) (auto simp: makes_def emit_def split: sum.splits)

lemma to_flat_from_makes: "makes P p \<Longrightarrow> makes Q q \<Longrightarrow> list_all (pair_of P Q) (fst (to_flat_from p q xs))"
  by (induction p q xs rule: to_flat_from.induct)
    (auto simp: makes_def pair_of_def emit_def rbind_Inr_iff split: sum.splits option.splits)

lemma parse_pair_makes: "makes P p \<Longrightarrow> makes Q q \<Longrightarrow> makes (pair_of P Q) (parse_pair p q)"
  unfolding makes_def parse_pair_def
  by (auto simp: rbind_Inr_iff pair_of_def split: if_splits option.splits)

lemma parse_tuple_from_makes:
  "list_all2 makes Ps ps \<Longrightarrow> parse_tuple_from ps xs = Inr vs \<Longrightarrow> list_all2 (\<lambda>P v. P v) Ps vs"
proof (induction ps xs arbitrary: Ps vs rule: parse_tuple_from.induct)
  case (4 p ps x xs)
  then show ?case by (auto simp: list_all2_Cons2 rbind_Inr_iff makes_def)
qed auto

lemma array_output_makes:
  assumes "makes P p" "makes Q q" "makes R pq" "kv \<Longrightarrow> R = pair_of P Q"
  shows "list_all R (fst (array_output kv p q pq r))"
  using assms to_array_from_makes [OF assms(3)] to_flat_from_makes [OF assms(1,2)]
  by (auto simp: array_output_def to_plain_array_def to_flat_array_def split: sum.splits option.splits)

definition ty_makes :: "stod_fun \<Rightarrow> rty \<Rightarrow> bool" where
  "ty_makes sd t \<longleftrightarrow> makes (typed t) (parse sd t) \<and>
     (\<forall>u w. t = TPair u w \<longrightarrow> makes (typed u) (parse sd u) \<and> makes (typed w) (parse sd w))"

lemma typed_pair: "typed (TPair u w) = pair_of (typed u) (typed w)"
  by (rule ext) (simp add: pair_of_def)

lemma to_array_makes:
  assumes "ty_makes sd t"
  shows "list_all (typed t) (fst (to_array sd t r))"
proof (cases "is_pair_ty t")
  case True
  then obtain u w where t: "t = TPair u w" by (cases t) auto
  with assms have "makes (typed u) (parse sd u)" "makes (typed w) (parse sd w)" by (simp_all add: ty_makes_def)
  from array_output_makes [OF this parse_pair_makes [OF this] refl, of True r] show ?thesis
    unfolding t typed_pair by simp
next
  case False
  then have out: "to_array sd t r = array_output False (parse sd t) (parse sd t) (parse sd t) r"
    by (cases t) simp_all
  from assms have "makes (typed t) (parse sd t)" by (simp add: ty_makes_def)
  from array_output_makes [OF this this this, of False r] show ?thesis unfolding out by simp
qed

lemma keep_first_sub: "list_all P vs \<Longrightarrow> list_all P (keep_first seen vs)"
  by (induction seen vs rule: keep_first.induct) auto

lemma keep_first_keys: "distinct (map rkey (keep_first seen vs)) \<and> rkey ` set (keep_first seen vs) \<inter> set seen = {}"
  by (induction seen vs rule: keep_first.induct) auto

lemma collect_makes: "collect f out = Inr v \<Longrightarrow> v = f (fst out)"
  by (simp add: collect_def split: option.splits)

lemma parse_makes: "opts_ok t \<Longrightarrow> ty_makes sd t"
proof (induction t)
  case (TOpt t)
  then have "makes (typed t) (parse sd t)" by (simp add: ty_makes_def)
  with TOpt(2) show ?case by (auto simp: ty_makes_def makes_def rbind_Inr_iff split: if_splits)
next
  case (TPair t u)
  then have t: "makes (typed t) (parse sd t)" "makes (typed u) (parse sd u)" by (simp_all add: ty_makes_def)
  have "makes (pair_of (typed t) (typed u)) (parse sd (TPair t u))" using parse_pair_makes [OF t] by (simp add: makes_def)
  with t show ?case unfolding ty_makes_def typed_pair by simp
next
  case (TTup ts)
  then have "list_all2 makes (map typed ts) (map (parse sd) ts)"
    by (auto simp: ty_makes_def list_all2_conv_all_nth list_all_iff)
  then show ?case
    by (auto simp: ty_makes_def makes_def parse_tuple_def rbind_Inr_iff split: if_splits option.splits
        dest: parse_tuple_from_makes)
next
  case (TSeq t)
  then have "ty_makes sd t" by simp
  from to_array_makes [OF this] show ?case
    by (auto simp: ty_makes_def makes_def dest!: collect_makes split: if_splits simp del: to_array.simps)
next
  case (TAssoc t)
  then have "ty_makes sd t" by simp
  from to_array_makes [OF this] show ?case using keep_first_keys
    by (auto simp: ty_makes_def makes_def keep_first_sub dest!: collect_makes split: if_splits simp del: to_array.simps)
qed (auto simp: ty_makes_def makes_def rbind_Inr_iff)

text \<open>
  whatever reply a server sends, a parsed value has the type that was asked for (an associative
  container holds each key once), and every element handed to an output iterator has the element
  type, even when parsing fails at a later element.
\<close>

theorem parse_typed:
  assumes "opts_ok t"
  shows "(\<forall>r v. parse sd t r = Inr v \<longrightarrow> typed t v) \<and> (\<forall>r. list_all (typed t) (fst (to_array sd t r)))"
  using parse_makes [OF assms, of sd] to_array_makes [OF parse_makes [OF assms], of sd]
  by (auto simp: ty_makes_def makes_def simp del: to_array.simps)

lemma parse_typed_witness:
  "\<exists>v. parse (\<lambda>_. Inl Undef) (TAssoc (TPair TStr TInt))
       (enc (\<lambda>_. []) (RList [RPair (RStr ''a'') (RInt 1), RPair (RStr ''a'') (RInt 2)])) = Inr v \<and>
     typed (TAssoc (TPair TStr TInt)) v"
proof -
  let ?sd = "\<lambda>_. Inl Undef" and ?t = "TAssoc (TPair TStr TInt)"
  let ?r = "enc (\<lambda>_. []) (RList [RPair (RStr ''a'') (RInt 1), RPair (RStr ''a'') (RInt 2)])"
  have "parse ?sd ?t ?r = Inr (RList [RPair (RStr ''a'') (RInt 1)])" by code_simp
  moreover from this have "typed ?t (RList [RPair (RStr ''a'') (RInt 1)])"
    using parse_typed [of ?t ?sd] by (simp del: typed.simps parse.simps)
  ultimately show ?thesis by blast
qed

end
