(* ===== verification/Timer.thy ===== *)
theory Timer
  imports Prelude
begin

text \<open>
  The timer of \<open>src/commlib/timer.h\<close>.

  \<open>timer_set_\<close> is a \<open>std::set\<close> of pairs of a time and a shared pointer, ordered by time and then by
  the address of the \<open>TimeInfo\<close>: here a list in that order.  A \<open>TimeInfo\<close> does not change after
  \<open>AddTimer\<close>, so a node carries it together with its address.  \<open>AddTimer\<close> is given the address
  that the allocation returns; a freed address can be returned again.  A timer id is the
  address and the second in which the timer was added.

  Tasks are values of a type \<open>'k\<close>; \<open>exec\<close> runs one on the timer itself and on the rest \<open>'s\<close> of
  the program, since tasks add and cancel timers while \<open>DoTimeOutTask\<close> is running.
\<close>

subsection \<open>State\<close>

record 'k time_info =
  ti_task :: 'k
  ti_interval :: nat
  ti_seq :: nat
  ti_repeat :: bool

type_synonym 'k tnode = "int \<times> nat \<times> 'k time_info"
type_synonym timer_id = "nat \<times> nat"

text \<open>
  \<open>firing\<close> is the local vector \<open>time_out_set\<close> while \<open>DoTimeOutTask\<close> is running: it keeps the
  \<open>TimeInfo\<close>s of the whole round alive, so their addresses are not handed out again before the
  round is over.
\<close>

record 'k timer =
  timer_set :: "'k tnode list"
  cancel_list :: "timer_id set"
  firing :: "'k tnode list"

definition empty_timer :: "'k timer" where
  "empty_timer = \<lparr>timer_set = [], cancel_list = {}, firing = []\<rparr>"

definition c_div :: "int \<Rightarrow> int \<Rightarrow> int" where
  "c_div a b = (if a < 0 then - ((- a) div b) else a div b)"

definition node_less :: "'k tnode \<Rightarrow> 'k tnode \<Rightarrow> bool" where
  "node_less n m \<longleftrightarrow> fst n < fst m \<or> fst n = fst m \<and> fst (snd n) < fst (snd m)"

definition node_id :: "'k tnode \<Rightarrow> timer_id" where
  "node_id n = (fst (snd n), ti_seq (snd (snd n)))"

definition node_task :: "'k tnode \<Rightarrow> 'k" where
  "node_task n = ti_task (snd (snd n))"

fun emplace :: "'k tnode \<Rightarrow> 'k tnode list \<Rightarrow> 'k tnode list" where
  "emplace n [] = [n]"
| "emplace n (m # ms) =
    (if node_less n m then n # m # ms
     else if node_less m n then m # emplace n ms
     else m # ms)"

subsection \<open>Operations\<close>

definition AddTimer :: "nat \<Rightarrow> int \<Rightarrow> int \<Rightarrow> 'k \<Rightarrow> bool \<Rightarrow> 'k timer \<Rightarrow> 'k timer \<times> timer_id" where
  "AddTimer addr now interval task rpt t =
    (let info = \<lparr>ti_task = task, ti_interval = nat (interval mod 2 ^ 32),
                 ti_seq = nat (c_div now 1000 mod 2 ^ 32), ti_repeat = rpt\<rparr> in
     (t\<lparr>timer_set := emplace (now + interval, addr, info) (timer_set t)\<rparr>, (addr, ti_seq info)))"

definition CancelTimer :: "timer_id \<Rightarrow> 'k timer \<Rightarrow> 'k timer" where
  "CancelTimer i t = t\<lparr>cancel_list := insert i (cancel_list t)\<rparr>"

definition TimerSize :: "'k timer \<Rightarrow> nat" where
  "TimerSize t = length (timer_set t)"

definition Clear :: "'k timer \<Rightarrow> 'k timer" where
  "Clear t = t\<lparr>timer_set := []\<rparr>"

text \<open>The loop over the nodes that were due, and the function around it.\<close>

fun fire_all ::
  "('k \<Rightarrow> 'k timer \<times> 's \<Rightarrow> 'k timer \<times> 's) \<Rightarrow> int \<Rightarrow> 'k tnode list \<Rightarrow> 'k timer \<times> 's \<Rightarrow> 'k timer \<times> 's" where
  "fire_all exec now [] st = st"
| "fire_all exec now (n # ns) (t, s) =
    (if node_id n \<in> cancel_list t
     then fire_all exec now ns (t\<lparr>cancel_list := cancel_list t - {node_id n}\<rparr>, s)
     else case exec (node_task n) (t, s) of (t1, s1) \<Rightarrow>
       fire_all exec now ns
         (if ti_repeat (snd (snd n))
          then t1\<lparr>timer_set :=
                 emplace (now + int (ti_interval (snd (snd n))), snd n) (timer_set t1)\<rparr>
          else t1, s1))"

definition end_round :: "'k timer \<times> 's \<Rightarrow> 'k timer \<times> 's" where
  "end_round st = ((fst st)\<lparr>firing := []\<rparr>, snd st)"

definition DoTimeOutTask ::
  "('k \<Rightarrow> 'k timer \<times> 's \<Rightarrow> 'k timer \<times> 's) \<Rightarrow> int \<Rightarrow> 'k timer \<times> 's \<Rightarrow> 'k timer \<times> 's" where
  "DoTimeOutTask exec now st =
    (let due = takeWhile (\<lambda>n. fst n < now + 1) (timer_set (fst st)) in
     if due = [] then st
     else end_round (fire_all exec now due
       ((fst st)\<lparr>timer_set := dropWhile (\<lambda>n. fst n < now + 1) (timer_set (fst st)),
                 firing := due\<rparr>, snd st)))"

subsection \<open>The order of the set\<close>

definition timer_ok :: "'k timer \<Rightarrow> bool" where
  "timer_ok t \<longleftrightarrow> sorted_wrt node_less (timer_set t)"

lemma node_less_trans: "node_less a b \<Longrightarrow> node_less b c \<Longrightarrow> node_less a c"
  by (auto simp: node_less_def)

lemma node_less_total: "\<not> node_less a b \<Longrightarrow> \<not> node_less b a \<Longrightarrow>
    fst a = fst b \<and> fst (snd a) = fst (snd b)"
  by (auto simp: node_less_def)

lemma set_emplace: "set (emplace n ms) \<subseteq> insert n (set ms)" "set ms \<subseteq> set (emplace n ms)"
  by (induction ms) auto

lemma set_emplace_fresh:
  "(\<And>m. m \<in> set ms \<Longrightarrow> fst m = fst n \<Longrightarrow> fst (snd m) \<noteq> fst (snd n)) \<Longrightarrow>
   set (emplace n ms) = insert n (set ms)"
proof (induction ms)
  case (Cons m ms)
  from Cons.prems [of m] have "node_less n m \<or> node_less m n"
    using node_less_total [of n m] by (metis list.set_intros(1))
  with Cons show ?case by auto
qed simp

lemma sorted_emplace: "sorted_wrt node_less ms \<Longrightarrow> sorted_wrt node_less (emplace n ms)"
proof (induction ms)
  case (Cons m ms)
  then show ?case
    using set_emplace(1) [of n ms] by (auto intro: node_less_trans dest: subsetD)
qed simp

lemma timer_ok_empty: "timer_ok empty_timer"
  by (simp add: timer_ok_def empty_timer_def)

lemma timer_ok_add: "timer_ok t \<Longrightarrow> timer_ok (fst (AddTimer addr now interval task rpt t))"
  by (simp add: timer_ok_def AddTimer_def Let_def sorted_emplace)

lemma timer_ok_cancel: "timer_ok t \<Longrightarrow> timer_ok (CancelTimer i t)"
  by (simp add: timer_ok_def CancelTimer_def)

lemma timer_ok_clear: "timer_ok (Clear t)"
  by (simp add: timer_ok_def Clear_def)

lemma timer_ok_reinsert: "timer_ok t \<Longrightarrow> timer_ok (t\<lparr>timer_set := emplace n (timer_set t)\<rparr>)"
  by (simp add: timer_ok_def sorted_emplace)

lemma timer_ok_cancelled: "timer_ok (t\<lparr>cancel_list := c\<rparr>) = timer_ok t"
  by (simp add: timer_ok_def)

lemma timer_ok_fire:
  assumes "\<And>k t s. timer_ok t \<Longrightarrow> timer_ok (fst (exec k (t, s)))"
  shows "timer_ok (fst st) \<Longrightarrow> timer_ok (fst (fire_all exec now ns st))"
proof (induction ns arbitrary: st)
  case (Cons n ns)
  obtain t s where st: "st = (t, s)" by fastforce
  obtain t1 s1 where e: "exec (node_task n) (t, s) = (t1, s1)" by fastforce
  from assms [of t "node_task n" s] Cons.prems have "timer_ok t1" by (simp add: st e)
  with Cons.prems show ?case
    by (auto simp: st e intro!: Cons.IH simp: timer_ok_cancelled timer_ok_reinsert)
qed simp

lemma sorted_dropWhile: "sorted_wrt P xs \<Longrightarrow> sorted_wrt P (dropWhile Q xs)"
  by (metis sorted_wrt_append takeWhile_dropWhile_id)

lemma timer_ok_do:
  assumes "\<And>k t s. timer_ok t \<Longrightarrow> timer_ok (fst (exec k (t, s)))" "timer_ok (fst st)"
  shows "timer_ok (fst (DoTimeOutTask exec now st))"
  using assms(2) timer_ok_fire [where exec = exec, OF assms(1)]
  by (simp add: DoTimeOutTask_def Let_def timer_ok_def sorted_dropWhile end_round_def)

text \<open>In a timer in order the nodes that are due are a prefix.\<close>

lemma due_prefix:
  assumes "timer_ok t"
  shows "takeWhile (\<lambda>n. fst n < now + 1) (timer_set t) = filter (\<lambda>n. fst n \<le> now) (timer_set t)"
    "dropWhile (\<lambda>n. fst n < now + 1) (timer_set t) = filter (\<lambda>n. \<not> fst n \<le> now) (timer_set t)"
proof -
  have "sorted_wrt node_less ns \<Longrightarrow>
      takeWhile (\<lambda>n. fst n < now + 1) ns = filter (\<lambda>n. fst n \<le> now) ns \<and>
      dropWhile (\<lambda>n. fst n < now + 1) ns = filter (\<lambda>n. \<not> fst n \<le> now) ns" for ns :: "'a tnode list"
  proof (induction ns)
    case (Cons n ns)
    show ?case
    proof (cases "fst n \<le> now")
      case False
      with Cons.prems have "\<forall>m\<in>set ns. \<not> fst m \<le> now" by (auto simp: node_less_def)
      then have "filter (\<lambda>n. fst n \<le> now) ns = []" "filter (\<lambda>n. \<not> fst n \<le> now) ns = ns"
        by (auto simp: filter_empty_conv)
      with False show ?thesis by simp
    qed (use Cons in auto)
  qed simp
  with assms show "takeWhile (\<lambda>n. fst n < now + 1) (timer_set t) = filter (\<lambda>n. fst n \<le> now) (timer_set t)"
    "dropWhile (\<lambda>n. fst n < now + 1) (timer_set t) = filter (\<lambda>n. \<not> fst n \<le> now) (timer_set t)"
    by (auto simp: timer_ok_def)
qed

lemma DoTimeOutTask_due: "timer_ok (fst st) \<Longrightarrow> DoTimeOutTask exec now st =
    (let due = filter (\<lambda>n. fst n \<le> now) (timer_set (fst st)) in
     if due = [] then st
     else end_round (fire_all exec now due
       ((fst st)\<lparr>timer_set := filter (\<lambda>n. \<not> fst n \<le> now) (timer_set (fst st)), firing := due\<rparr>, snd st)))"
  unfolding DoTimeOutTask_def by (simp only: due_prefix)

subsection \<open>A round of tasks that leave the timer alone\<close>

definition pure_exec :: "('k \<Rightarrow> 's \<Rightarrow> 's) \<Rightarrow> 'k \<Rightarrow> 'k timer \<times> 's \<Rightarrow> 'k timer \<times> 's" where
  "pure_exec run k st = (fst st, run k (snd st))"

definition set_addrs :: "'k timer \<Rightarrow> nat list" where
  "set_addrs t = map (\<lambda>n. fst (snd n)) (timer_set t)"

definition uncancelled :: "timer_id set \<Rightarrow> 'k tnode list \<Rightarrow> 'k tnode list" where
  "uncancelled C ns = filter (\<lambda>n. node_id n \<notin> C) ns"

definition repeated :: "int \<Rightarrow> 'k tnode list \<Rightarrow> 'k tnode set" where
  "repeated now ns =
    (\<lambda>n. (now + int (ti_interval (snd (snd n))), snd n)) ` {n \<in> set ns. ti_repeat (snd (snd n))}"

lemma distinct_emplace:
  "distinct (map (\<lambda>n. fst (snd n)) ms) \<Longrightarrow> fst (snd n) \<notin> (\<lambda>n. fst (snd n)) ` set ms \<Longrightarrow>
   distinct (map (\<lambda>n. fst (snd n)) (emplace n ms))"
proof (induction ms)
  case (Cons m ms)
  then show ?case using set_emplace(1) [of n ms] by (auto dest!: subsetD)
qed simp

lemma repeated_Cons: "repeated now (n # ns) =
    (if ti_repeat (snd (snd n)) then {(now + int (ti_interval (snd (snd n))), snd n)} else {}) \<union> repeated now ns"
  by (auto simp: repeated_def)

lemma repeated_Nil [simp]: "repeated now [] = {}"
  by (simp add: repeated_def)

lemma uncancelled_minus: "distinct (map (\<lambda>n. fst (snd n)) (n # ns)) \<Longrightarrow>
    uncancelled (C - {node_id n}) ns = uncancelled C ns"
proof -
  assume d: "distinct (map (\<lambda>n. fst (snd n)) (n # ns))"
  have "node_id x \<noteq> node_id n" if "x \<in> set ns" for x
    using d that by (force simp: node_id_def image_iff)
  then show ?thesis unfolding uncancelled_def by (intro filter_cong) auto
qed

lemma fire_all_pure:
  assumes "distinct (map (\<lambda>n. fst (snd n)) (ns @ timer_set t))"
  shows "case fire_all (pure_exec run) now ns (t, s) of (t', s') \<Rightarrow>
    s' = fold run (map node_task (uncancelled (cancel_list t) ns)) s \<and>
    cancel_list t' = cancel_list t - node_id ` set ns \<and>
    set (timer_set t') = set (timer_set t) \<union> repeated now (uncancelled (cancel_list t) ns)"
  using assms
proof (induction ns arbitrary: t s)
  case (Cons n ns)
  let ?t' = "if ti_repeat (snd (snd n))
    then t\<lparr>timer_set := emplace (now + int (ti_interval (snd (snd n))), snd n) (timer_set t)\<rparr> else t"
  have fresh: "fst (snd m) \<noteq> fst (snd n)" if "m \<in> set (timer_set t)" for m
    using Cons.prems that by (force simp: image_iff)
  have set': "set (timer_set ?t') = (if ti_repeat (snd (snd n))
      then {(now + int (ti_interval (snd (snd n))), snd n)} else {}) \<union> set (timer_set t)"
    using fresh by (auto simp: set_emplace_fresh)
  have un: "uncancelled (cancel_list t - {node_id n}) ns = uncancelled (cancel_list t) ns"
    using Cons.prems by (intro uncancelled_minus) auto
  show ?case
  proof (cases "node_id n \<in> cancel_list t")
    case True
    with Cons.IH [of "t\<lparr>cancel_list := cancel_list t - {node_id n}\<rparr>" s] Cons.prems un show ?thesis
      by (auto simp: uncancelled_def split: prod.splits)
  next
    case False
    have "distinct (map (\<lambda>n. fst (snd n)) (ns @ timer_set ?t'))"
      using Cons.prems distinct_emplace [where n = "(now + int (ti_interval (snd (snd n))), snd n)"
          and ms = "timer_set t"]
      by (auto simp: set')
    note ih = Cons.IH [OF this, of "run (node_task n) s"]
    have "fire_all (pure_exec run) now (n # ns) (t, s) =
        fire_all (pure_exec run) now ns (?t', run (node_task n) s)"
      using False by (simp add: pure_exec_def)
    moreover have "cancel_list ?t' = cancel_list t" by simp
    moreover have "uncancelled (cancel_list t) (n # ns) = n # uncancelled (cancel_list t) ns"
      using False by (simp add: uncancelled_def)
    ultimately show ?thesis
      using ih False by (simp only: set' repeated_Cons split: prod.splits) auto
  qed
qed (simp add: uncancelled_def)

lemma DoTimeOutTask_pure:
  assumes "timer_ok t" "distinct (set_addrs t)"
  shows "case DoTimeOutTask (pure_exec run) now (t, s) of (t', s') \<Rightarrow>
    (let due = filter (\<lambda>n. fst n \<le> now) (timer_set t); run_now = uncancelled (cancel_list t) due in
     s' = fold run (map node_task run_now) s \<and>
     cancel_list t' = cancel_list t - node_id ` set due \<and>
     set (timer_set t') = {n \<in> set (timer_set t). now < fst n} \<union> repeated now run_now)"
proof -
  let ?due = "filter (\<lambda>n. fst n \<le> now) (timer_set t)"
  let ?rest = "filter (\<lambda>n. \<not> fst n \<le> now) (timer_set t)"
  have "distinct (map (\<lambda>n. fst (snd n)) (?due @ ?rest))"
    using assms(2) unfolding set_addrs_def
    by (auto simp: distinct_map inj_on_def)
  then have fire: "case fire_all (pure_exec run) now ?due (t\<lparr>timer_set := ?rest, firing := ?due\<rparr>, s) of (t', s') \<Rightarrow>
      s' = fold run (map node_task (uncancelled (cancel_list t) ?due)) s \<and>
      cancel_list t' = cancel_list t - node_id ` set ?due \<and>
      set (timer_set t') = set ?rest \<union> repeated now (uncancelled (cancel_list t) ?due)"
    using fire_all_pure [of ?due "t\<lparr>timer_set := ?rest, firing := ?due\<rparr>"] by simp
  have rest: "set ?rest = {n \<in> set (timer_set t). now < fst n}" by auto
  show ?thesis
  proof (cases "?due = []")
    case True
    then have "{n \<in> set (timer_set t). now < fst n} = set (timer_set t)"
      by (auto simp: filter_empty_conv)
    with True show ?thesis
      by (simp add: DoTimeOutTask_due assms(1) uncancelled_def)
  next
    case False
    with fire rest show ?thesis
      by (simp add: DoTimeOutTask_due assms(1) Let_def end_round_def split: prod.splits)
  qed
qed

text \<open>The tasks of a round run in the order of their times.\<close>

lemma sorted_wrt_uncancelled: "timer_ok t \<Longrightarrow>
    sorted_wrt (\<lambda>n m. fst n \<le> fst m) (uncancelled C (filter P (timer_set t)))"
proof -
  assume "timer_ok t"
  then have "sorted_wrt (\<lambda>n m. fst n \<le> fst m) (timer_set t)"
    unfolding timer_ok_def by (rule sorted_wrt_mono_rel [rotated]) (auto simp: node_less_def)
  then show ?thesis by (simp add: uncancelled_def sorted_wrt_filter)
qed

end
