(* ===== verification/Coroutine.thy ===== *)
theory Coroutine
  imports Prelude
begin

text \<open>
  The coroutine pool \<open>CoPool\<close> of \<open>src/commlib/co/coroutine.h\<close> and \<open>coroutine.cpp\<close>.

  The \<open>Coroutine\<close> objects live in \<open>objs\<close>; a pointer to one is its index, and objects are never
  deleted.  \<open>'t\<close> is the type of tasks, \<open>'k\<close> of saved contexts (what \<open>swapcontext\<close> stores: where the
  body of the coroutine continues), \<open>'m\<close> of messages.  A switch of context is split at the switch:
  \<open>Yield_save\<close> is \<open>CoPool::Yield\<close> up to \<open>swapcontext\<close>, \<open>Yield_return\<close> the rest of it, run when the
  coroutine is resumed; \<open>Resume_enter\<close> and \<open>ResumeWithMsg_enter\<close> are the resuming side.
\<close>

datatype 'k ctx = NoCtx | Fresh | Saved 'k

text \<open>
  \<open>co_msg\<close> is a pointer to the message of the caller that resumes the coroutine; the model keeps the message,
  and \<open>None\<close> as long as none was stored (the source leaves the pointer uninitialised).  The message is
  only sure to exist until \<open>ResumeWithMsg\<close> returns: what a coroutine reads with \<open>GetMsg\<close> before its next
  switch is the message, what it reads after that is read through an old pointer.
\<close>

record ('t, 'k, 'm) coroutine =
  co_id :: u32
  co_task :: "'t option"
  co_ctx :: "'k ctx"
  co_msg :: "'m option"
  resume_by_time_out :: bool

record ('t, 'k, 'm) co_pool =
  objs :: "('t, 'k, 'm) coroutine list"
  free_coroutine :: "nat list"
  action_coroutine :: "u32 \<Rightarrow> nat option"
  inc_co_id :: u32

definition empty_pool :: "('t, 'k, 'm) co_pool" where
  "empty_pool = \<lparr>objs = [], free_coroutine = [], action_coroutine = (\<lambda>_. None), inc_co_id = 0\<rparr>"

definition new_object :: "u32 \<Rightarrow> ('t, 'k, 'm) coroutine" where
  "new_object i = \<lparr>co_id = i, co_task = None, co_ctx = NoCtx, co_msg = None, resume_by_time_out = False\<rparr>"

definition upd_obj ::
  "nat \<Rightarrow> (('t, 'k, 'm) coroutine \<Rightarrow> ('t, 'k, 'm) coroutine) \<Rightarrow> ('t, 'k, 'm) co_pool \<Rightarrow> ('t, 'k, 'm) co_pool" where
  "upd_obj p f cp = cp\<lparr>objs := (objs cp)[p := f (objs cp ! p)]\<rparr>"

subsection \<open>Operations\<close>

definition GetCoId :: "('t, 'k, 'm) co_pool \<Rightarrow> u32 \<times> ('t, 'k, 'm) co_pool" where
  "GetCoId cp =
    (let i = inc_co_id cp + 1; i' = (if i = 0 then i + 1 else i) in (i', cp\<lparr>inc_co_id := i'\<rparr>))"

definition FindCoId :: "u32 \<Rightarrow> ('t, 'k, 'm) co_pool \<Rightarrow> nat option" where
  "FindCoId i cp = action_coroutine cp i"

definition refill :: "('t, 'k, 'm) co_pool \<Rightarrow> ('t, 'k, 'm) co_pool" where
  "refill cp =
    (if free_coroutine cp = [] then
       (case GetCoId cp of (i, cp1) \<Rightarrow>
         cp1\<lparr>objs := objs cp1 @ [new_object i], free_coroutine := free_coroutine cp1 @ [length (objs cp1)]\<rparr>)
     else cp)"

definition NewCoroutine :: "'t \<Rightarrow> ('t, 'k, 'm) co_pool \<Rightarrow> u32 \<times> ('t, 'k, 'm) co_pool" where
  "NewCoroutine task cp =
    (let cp1 = refill cp; p = hd (free_coroutine cp1);
         cp2 = upd_obj p (\<lambda>co. co\<lparr>co_task := Some task, co_ctx := Fresh\<rparr>)
                 (cp1\<lparr>free_coroutine := tl (free_coroutine cp1)\<rparr>);
         i = co_id (objs cp2 ! p) in
     (i, cp2\<lparr>action_coroutine := (action_coroutine cp2)(i \<mapsto> p)\<rparr>))"

definition Yield_save :: "u32 \<Rightarrow> 'k \<Rightarrow> ('t, 'k, 'm) co_pool \<Rightarrow> ('t, 'k, 'm) co_pool option" where
  "Yield_save i k cp =
    (case FindCoId i cp of None \<Rightarrow> None
     | Some p \<Rightarrow> Some (upd_obj p (\<lambda>co. co\<lparr>co_ctx := Saved k\<rparr>) cp))"

definition Yield_return :: "nat \<Rightarrow> ('t, 'k, 'm) co_pool \<Rightarrow> int \<times> ('t, 'k, 'm) co_pool" where
  "Yield_return p cp =
    (let resume_time_out = resume_by_time_out (objs cp ! p) in
     (if resume_time_out then -1 else 0, upd_obj p (\<lambda>co. co\<lparr>resume_by_time_out := False\<rparr>) cp))"

definition Resume_enter :: "u32 \<Rightarrow> bool \<Rightarrow> ('t, 'k, 'm) co_pool \<Rightarrow> (nat \<times> ('t, 'k, 'm) co_pool) option" where
  "Resume_enter i time_out cp =
    (case FindCoId i cp of None \<Rightarrow> None
     | Some p \<Rightarrow> Some (p, upd_obj p (\<lambda>co. co\<lparr>resume_by_time_out := time_out\<rparr>) cp))"

definition ResumeWithMsg_enter :: "u32 \<Rightarrow> 'm \<Rightarrow> ('t, 'k, 'm) co_pool \<Rightarrow> (nat \<times> ('t, 'k, 'm) co_pool) option" where
  "ResumeWithMsg_enter i msg cp =
    (case FindCoId i cp of None \<Rightarrow> None
     | Some p \<Rightarrow> Some (p, upd_obj p (\<lambda>co. co\<lparr>co_msg := Some msg\<rparr>) cp))"

text \<open>\<open>FreeCoroutine\<close> also gives the task it destroys: what the task owned is released.\<close>

definition FreeCoroutine :: "u32 \<Rightarrow> ('t, 'k, 'm) co_pool \<Rightarrow> 't option \<times> ('t, 'k, 'm) co_pool" where
  "FreeCoroutine i cp =
    (case action_coroutine cp i of None \<Rightarrow> (None, cp)
     | Some p \<Rightarrow>
         (co_task (objs cp ! p),
          (upd_obj p (\<lambda>co. co\<lparr>co_task := None\<rparr>) cp)
            \<lparr>free_coroutine := free_coroutine cp @ [p],
             action_coroutine := (action_coroutine cp)(i := None)\<rparr>))"

definition GetMsg :: "u32 \<Rightarrow> ('t, 'k, 'm) co_pool \<Rightarrow> 'm option" where
  "GetMsg i cp = (case FindCoId i cp of None \<Rightarrow> None | Some p \<Rightarrow> co_msg (objs cp ! p))"

subsection \<open>The invariant\<close>

text \<open>
  Every object is either free or active under its own id, never both; the id of the \<open>n\<close>-th object
  is \<open>n + 1\<close>, so ids are distinct and not 0 as long as fewer than \<open>2 ^ 32 - 1\<close> objects were made.
\<close>

definition slot_id :: "nat \<Rightarrow> u32" where
  "slot_id p = of_nat (Suc p)"

definition pool_ok :: "('t, 'k, 'm) co_pool \<Rightarrow> bool" where
  "pool_ok cp \<longleftrightarrow>
     length (objs cp) < 2 ^ 32 - 1 \<and>
     inc_co_id cp = of_nat (length (objs cp)) \<and>
     (\<forall>p < length (objs cp). co_id (objs cp ! p) = slot_id p) \<and>
     distinct (free_coroutine cp) \<and> set (free_coroutine cp) \<subseteq> {..<length (objs cp)} \<and>
     (\<forall>i p. action_coroutine cp i = Some p \<longrightarrow>
        p < length (objs cp) \<and> p \<notin> set (free_coroutine cp) \<and> i = slot_id p \<and>
        co_task (objs cp ! p) \<noteq> None) \<and>
     (\<forall>p < length (objs cp). p \<in> set (free_coroutine cp) \<or> action_coroutine cp (slot_id p) = Some p)"

lemma pool_ok_empty: "pool_ok empty_pool"
  by (simp add: pool_ok_def empty_pool_def)

lemma slot_id_neq_0: "n < 2 ^ 32 - 1 \<Longrightarrow> slot_id n \<noteq> 0"
  by (auto simp: slot_id_def word_unat_eq_iff unat_of_nat simp del: of_nat_Suc)

lemma slot_id_inj: "n < 2 ^ 32 - 1 \<Longrightarrow> m < 2 ^ 32 - 1 \<Longrightarrow> slot_id n = slot_id m \<longleftrightarrow> n = m"
  by (auto simp: slot_id_def word_unat_eq_iff unat_of_nat simp del: of_nat_Suc)

lemma GetCoId_ok: "pool_ok cp \<Longrightarrow> GetCoId cp =
    (slot_id (length (objs cp)), cp\<lparr>inc_co_id := slot_id (length (objs cp))\<rparr>)"
  using slot_id_neq_0 [of "length (objs cp)"]
  by (simp add: GetCoId_def pool_ok_def Let_def add.commute slot_id_def)

text \<open>Changes of an object that keep its id and whether it has a task keep the invariant.\<close>

lemma pool_ok_upd_obj:
  assumes "pool_ok cp" "\<And>co. co_id (f co) = co_id co" "\<And>co. co_task co \<noteq> None \<Longrightarrow> co_task (f co) \<noteq> None"
  shows "pool_ok (upd_obj p f cp)"
  using assms unfolding pool_ok_def upd_obj_def by (auto simp: nth_update)

lemma pool_ok_refill:
  assumes "pool_ok cp" "length (objs cp) < 2 ^ 32 - 2"
  shows "pool_ok (refill cp)" "free_coroutine (refill cp) \<noteq> []"
    "action_coroutine (refill cp) = action_coroutine cp"
proof -
  show "free_coroutine (refill cp) \<noteq> []" "action_coroutine (refill cp) = action_coroutine cp"
    by (auto simp: refill_def GetCoId_def Let_def)
  show "pool_ok (refill cp)"
  proof (cases "free_coroutine cp = []")
    case True
    then show ?thesis
      using assms
      by (auto simp: refill_def GetCoId_ok pool_ok_def nth_append new_object_def less_Suc_eq slot_id_def)
  qed (use assms in \<open>simp add: refill_def\<close>)
qed

lemma NewCoroutine_parts:
  assumes "pool_ok cp" "length (objs cp) < 2 ^ 32 - 2" "NewCoroutine task cp = (i, cp')"
  obtains p where "p \<in> set (free_coroutine (refill cp))" "p < length (objs (refill cp))" "i = slot_id p"
    "cp' = (upd_obj p (\<lambda>co. co\<lparr>co_task := Some task, co_ctx := Fresh\<rparr>)
             ((refill cp)\<lparr>free_coroutine := tl (free_coroutine (refill cp))\<rparr>))
             \<lparr>action_coroutine := (action_coroutine cp)(i \<mapsto> p)\<rparr>"
    "p = hd (free_coroutine (refill cp))"
proof -
  let ?cp1 = "refill cp" and ?p = "hd (free_coroutine (refill cp))"
  note ok = pool_ok_refill [OF assms(1,2)]
  have p: "?p \<in> set (free_coroutine ?cp1)" using ok(2) by simp
  with ok(1) have len: "?p < length (objs ?cp1)" by (auto simp: pool_ok_def)
  with ok(1) have "co_id (objs ?cp1 ! ?p) = slot_id ?p" by (auto simp: pool_ok_def)
  with assms(3) len ok(3) p that [of ?p] show ?thesis
    by (auto simp: NewCoroutine_def Let_def upd_obj_def nth_update)
qed

lemma pool_small: "pool_ok cp \<Longrightarrow> length (objs cp) < 2 ^ 32 - 1"
  by (simp add: pool_ok_def)

lemma pool_act: "pool_ok cp \<Longrightarrow> action_coroutine cp i = Some p \<Longrightarrow>
    p < length (objs cp) \<and> p \<notin> set (free_coroutine cp) \<and> i = slot_id p \<and> co_task (objs cp ! p) \<noteq> None"
  unfolding pool_ok_def by blast

lemma pool_co_id: "pool_ok cp \<Longrightarrow> p < length (objs cp) \<Longrightarrow> co_id (objs cp ! p) = slot_id p"
  by (simp add: pool_ok_def)

lemma pool_slot_inj:
  "pool_ok cp \<Longrightarrow> p < length (objs cp) \<Longrightarrow> q < length (objs cp) \<Longrightarrow> slot_id p = slot_id q \<longleftrightarrow> p = q"
  using pool_small [of cp] by (intro slot_id_inj) auto

lemma pool_free_not_active:
  assumes "pool_ok cp" "p \<in> set (free_coroutine cp)"
  shows "p < length (objs cp)" "action_coroutine cp (slot_id p) = None"
proof -
  show p: "p < length (objs cp)" using assms by (auto simp: pool_ok_def)
  show "action_coroutine cp (slot_id p) = None"
  proof (cases "action_coroutine cp (slot_id p)")
    case (Some q)
    from pool_act [OF assms(1) Some] pool_slot_inj [OF assms(1) p, of q] assms(2) show ?thesis by auto
  qed simp
qed

lemma pool_ok_activate:
  assumes ok: "pool_ok cp" and fr: "free_coroutine cp = p # fs"
    and f: "co_task (f (objs cp ! p)) \<noteq> None" "co_id (f (objs cp ! p)) = slot_id p"
  shows "pool_ok ((upd_obj p f (cp\<lparr>free_coroutine := fs\<rparr>))
    \<lparr>action_coroutine := (action_coroutine cp)(slot_id p \<mapsto> p)\<rparr>)"
proof -
  have p: "p < length (objs cp)" and none: "action_coroutine cp (slot_id p) = None"
    using pool_free_not_active [OF ok] fr by auto
  have d: "p \<notin> set fs" "distinct fs" "set fs \<subseteq> {..<length (objs cp)}"
    using ok fr by (auto simp: pool_ok_def)
  have act: "q < length (objs cp) \<and> q \<notin> set (p # fs) \<and> i = slot_id q \<and> co_task (objs cp ! q) \<noteq> None"
    if "action_coroutine cp i = Some q" for i q
    using pool_act [OF ok that] fr by simp
  have cover: "q \<in> set (p # fs) \<or> action_coroutine cp (slot_id q) = Some q" if "q < length (objs cp)" for q
    using ok that fr by (auto simp: pool_ok_def)
  show ?thesis
    unfolding pool_ok_def
    using ok p d f none act cover pool_slot_inj [OF ok]
    by (auto simp: upd_obj_def nth_update pool_small pool_co_id) (auto simp: pool_ok_def)
qed

lemma pool_ok_New:
  assumes "pool_ok cp" "length (objs cp) < 2 ^ 32 - 2" "NewCoroutine task cp = (i, cp')"
  shows "pool_ok cp'" "i \<noteq> 0" "action_coroutine cp i = None"
proof -
  from NewCoroutine_parts [OF assms] obtain p where
    p: "p \<in> set (free_coroutine (refill cp))" "p < length (objs (refill cp))" and i: "i = slot_id p"
    and cp': "cp' = (upd_obj p (\<lambda>co. co\<lparr>co_task := Some task, co_ctx := Fresh\<rparr>)
             ((refill cp)\<lparr>free_coroutine := tl (free_coroutine (refill cp))\<rparr>))
             \<lparr>action_coroutine := (action_coroutine cp)(i \<mapsto> p)\<rparr>"
    and hd: "p = hd (free_coroutine (refill cp))" by metis
  note ok = pool_ok_refill [OF assms(1,2)]
  from p(2) pool_small [OF ok(1)] i show "i \<noteq> 0" by (auto intro!: slot_id_neq_0)
  from pool_free_not_active [OF ok(1) p(1)] i ok(3) show "action_coroutine cp i = None" by simp
  from ok(2) hd have fr: "free_coroutine (refill cp) = p # tl (free_coroutine (refill cp))" by simp
  from pool_ok_activate [OF ok(1) fr, of "\<lambda>co. co\<lparr>co_task := Some task, co_ctx := Fresh\<rparr>"]
    pool_co_id [OF ok(1) p(2)] ok(3) show "pool_ok cp'"
    by (simp add: cp' i)
qed

lemma pool_ok_Free:
  assumes ok: "pool_ok cp" and fr: "FreeCoroutine i cp = (t, cp')"
  shows "pool_ok cp'" "action_coroutine cp' i = None"
    "\<And>j. j \<noteq> i \<Longrightarrow> action_coroutine cp' j = action_coroutine cp j"
proof -
  show "action_coroutine cp' i = None" "\<And>j. j \<noteq> i \<Longrightarrow> action_coroutine cp' j = action_coroutine cp j"
    using fr by (auto simp: FreeCoroutine_def split: option.splits)
  show "pool_ok cp'"
  proof (cases "action_coroutine cp i")
    case None
    with fr ok show ?thesis by (simp add: FreeCoroutine_def)
  next
    case (Some p)
    from pool_act [OF ok Some] have p: "p < length (objs cp)" "p \<notin> set (free_coroutine cp)" "i = slot_id p"
      by auto
    have cp': "cp' = (upd_obj p (\<lambda>co. co\<lparr>co_task := None\<rparr>) cp)
        \<lparr>free_coroutine := free_coroutine cp @ [p], action_coroutine := (action_coroutine cp)(i := None)\<rparr>"
      using fr Some by (simp add: FreeCoroutine_def)
    have other: "q \<noteq> p" if "action_coroutine cp j = Some q" "j \<noteq> i" for j q
      using pool_act [OF ok that(1)] that(2) p(3) by auto
    have cover: "q \<in> set (free_coroutine cp) \<or> action_coroutine cp (slot_id q) = Some q"
      if "q < length (objs cp)" for q
      using ok that by (auto simp: pool_ok_def)
    show ?thesis
      unfolding pool_ok_def
      using ok p other cover pool_act [OF ok] pool_slot_inj [OF ok]
      by (auto simp: cp' upd_obj_def nth_update pool_small pool_co_id) (auto simp: pool_ok_def)
  qed
qed

subsection \<open>The pool as a source of ids\<close>

text \<open>
  What the callers of a pool rely on: a new id is not in use and can then be found, and neither \<open>new\<close>
  nor \<open>free\<close> disturbs another id.  \<open>room\<close> is how many more ids there are at least.
\<close>

locale id_pool =
  fixes new :: "'t \<Rightarrow> 's \<Rightarrow> 'i \<times> 's" and find :: "'i \<Rightarrow> 's \<Rightarrow> 'o option" and free :: "'i \<Rightarrow> 's \<Rightarrow> 's"
    and inv :: "'s \<Rightarrow> bool" and room :: "'s \<Rightarrow> nat"
  assumes new_inv: "inv s \<Longrightarrow> 0 < room s \<Longrightarrow> new t s = (i, s') \<Longrightarrow> inv s' \<and> room s \<le> Suc (room s')"
    and new_find: "inv s \<Longrightarrow> 0 < room s \<Longrightarrow> new t s = (i, s') \<Longrightarrow> find i s = None \<and> find i s' \<noteq> None"
    and new_other: "inv s \<Longrightarrow> 0 < room s \<Longrightarrow> new t s = (i, s') \<Longrightarrow> j \<noteq> i \<Longrightarrow> find j s' = find j s"
    and free_inv: "inv s \<Longrightarrow> inv (free i s)"
    and free_find: "inv s \<Longrightarrow> find j (free i s) = (if j = i then None else find j s)"
begin

fun new_all :: "'t list \<Rightarrow> 's \<Rightarrow> 'i list \<times> 's" where
  "new_all [] s = ([], s)"
| "new_all (t # ts) s = (case new t s of (i, s1) \<Rightarrow> case new_all ts s1 of (is, s2) \<Rightarrow> (i # is, s2))"

lemma new_all_ids:
  "inv s \<Longrightarrow> length ts \<le> room s \<Longrightarrow> new_all ts s = (is, s') \<Longrightarrow>
   inv s' \<and> distinct is \<and> (\<forall>i \<in> set is. find i s = None \<and> find i s' \<noteq> None) \<and>
   (\<forall>j. j \<notin> set is \<longrightarrow> find j s' = find j s)"
proof (induction ts arbitrary: s "is" s')
  case (Cons t ts)
  obtain i s1 where n: "new t s = (i, s1)" by (cases "new t s")
  obtain is2 s2 where r: "new_all ts s1 = (is2, s2)" by (cases "new_all ts s1")
  from Cons.prems have room: "0 < room s" by simp
  note N = new_inv [OF Cons.prems(1) room n] new_find [OF Cons.prems(1) room n]
    new_other [OF Cons.prems(1) room n]
  from N(1) Cons.prems(2) have "length ts \<le> room s1" by simp
  with Cons.IH [OF _ this r] N(1) have ih: "inv s2" "distinct is2"
    "\<And>k. k \<in> set is2 \<Longrightarrow> find k s1 = None \<and> find k s2 \<noteq> None"
    "\<And>j. j \<notin> set is2 \<Longrightarrow> find j s2 = find j s1" by auto
  have "i \<notin> set is2" using ih(3) [of i] N(2) by auto
  moreover have "find k s = None" if "k \<in> set is2" for k
    using that ih(3) [OF that] N(3) [of k] \<open>i \<notin> set is2\<close> by metis
  moreover have "is = i # is2" "s' = s2" using Cons.prems(3) n r by auto
  ultimately show ?case using ih N by auto
qed simp

lemma free_then_find: "inv s \<Longrightarrow> find i (free i s) = None"
  by (simp add: free_find)

end

definition id_room :: "('t, 'k, 'm) co_pool \<Rightarrow> nat" where
  "id_room cp = 2 ^ 32 - 2 - length (objs cp)"

lemma refill_length: "length (objs (refill cp)) \<le> Suc (length (objs cp))"
  by (simp add: refill_def GetCoId_def Let_def)

lemma NewCoroutine_ids:
  assumes "pool_ok cp" "0 < id_room cp" "NewCoroutine task cp = (i, cp')"
  shows "pool_ok cp'" "i \<noteq> 0" "FindCoId i cp = None" "FindCoId i cp' \<noteq> None"
    "j \<noteq> i \<Longrightarrow> FindCoId j cp' = FindCoId j cp" "id_room cp \<le> Suc (id_room cp')"
proof -
  have len: "length (objs cp) < 2 ^ 32 - 2" using assms(2) by (simp add: id_room_def)
  note N = pool_ok_New [OF assms(1) len assms(3)]
  from N show "pool_ok cp'" "i \<noteq> 0" "FindCoId i cp = None" by (simp_all add: FindCoId_def)
  from NewCoroutine_parts [OF assms(1) len assms(3)] obtain p where
    cp': "cp' = (upd_obj p (\<lambda>co. co\<lparr>co_task := Some task, co_ctx := Fresh\<rparr>)
             ((refill cp)\<lparr>free_coroutine := tl (free_coroutine (refill cp))\<rparr>))
             \<lparr>action_coroutine := (action_coroutine cp)(i \<mapsto> p)\<rparr>" by metis
  show "FindCoId i cp' \<noteq> None" "j \<noteq> i \<Longrightarrow> FindCoId j cp' = FindCoId j cp"
    by (simp_all add: cp' FindCoId_def)
  show "id_room cp \<le> Suc (id_room cp')"
    using refill_length [of cp] by (simp add: cp' upd_obj_def id_room_def)
qed

interpretation co_ids: id_pool NewCoroutine FindCoId "\<lambda>i cp. snd (FreeCoroutine i cp)" pool_ok id_room
proof
  fix s :: "('a, 'b, 'c) co_pool" and i j
  assume ok: "pool_ok s"
  obtain t s' where f: "FreeCoroutine i s = (t, s')" by (cases "FreeCoroutine i s")
  from pool_ok_Free [OF ok f] f show "pool_ok (snd (FreeCoroutine i s))"
    "FindCoId j (snd (FreeCoroutine i s)) = (if j = i then None else FindCoId j s)"
    by (auto simp: FindCoId_def)
qed (metis NewCoroutine_ids)+

end
