(* ===== verification/Co_Task.thy ===== *)
theory Co_Task
  imports Timer Coroutine
begin

text \<open>
  \<open>CoTask\<close> and \<open>CoYield\<close> of \<open>src/commlib/co/co_task.h\<close> and \<open>co_task.cpp\<close>: coroutines that wait
  with a time-out.

  The state is the timer (its tasks are the ids of the coroutines to resume) and, in \<open>co_rest\<close>, the
  coroutine pool, the map from waiting coroutines to their timer ids, and the rest \<open>'w\<close> of the
  program.  What a coroutine does is a parameter, \<open>co_env\<close>: \<open>body_run\<close> runs it from a saved context
  up to its next switch, given what \<open>Yield\<close> returned and the message it can read, and says whether
  it finishes or yields with a time-out.  A body does not resume other coroutines: \<open>CoPool\<close> has a
  single \<open>main\<close> context to come back to.

  \<open>malloc\<close> is the address the next \<open>TimeInfo\<close> gets; \<open>released\<close> is the effect of destroying the
  task of a coroutine that has finished.
\<close>

datatype ('k, 'w) outcome = Finish 'w | YieldFor int 'k 'w

record ('t, 'k, 'm, 'w) co_env =
  body_start :: "'t \<Rightarrow> u32 \<Rightarrow> 'k"
  body_run :: "'k \<Rightarrow> int \<Rightarrow> 'm option \<Rightarrow> 'w \<Rightarrow> ('k, 'w) outcome"
  clock :: "'w \<Rightarrow> int"
  malloc :: "u32 timer \<Rightarrow> nat"
  released :: "'t \<Rightarrow> 'w \<Rightarrow> 'w"

record ('t, 'k, 'm, 'w) co_rest =
  cpool :: "('t, 'k, 'm) co_pool"
  timer_ids :: "u32 \<Rightarrow> timer_id option"
  world :: 'w

type_synonym ('t, 'k, 'm, 'w) co_state = "u32 timer \<times> ('t, 'k, 'm, 'w) co_rest"

definition co_init :: "'w \<Rightarrow> ('t, 'k, 'm, 'w) co_state" where
  "co_init w = (empty_timer, \<lparr>cpool = empty_pool, timer_ids = (\<lambda>_. None), world = w\<rparr>)"

subsection \<open>Operations\<close>

definition CancelCoTimer :: "u32 \<Rightarrow> ('t, 'k, 'm, 'w) co_state \<Rightarrow> ('t, 'k, 'm, 'w) co_state" where
  "CancelCoTimer i st =
    (case timer_ids (snd st) i of None \<Rightarrow> st
     | Some tid \<Rightarrow> (CancelTimer tid (fst st), (snd st)\<lparr>timer_ids := (timer_ids (snd st))(i := None)\<rparr>))"

text \<open>
  A coroutine from a switch to the next one.  \<open>Finish\<close> runs the destructor of its \<open>CoYield\<close>.
  \<open>CoTask::Yield\<close> adds the timer first; \<open>CoPool::Yield\<close> returns -1 at once when the id is not
  active, and the body goes on (\<open>fuel\<close> bounds how often: \<open>run_body_fuel\<close> shows that this branch is
  never taken in a state of the program).
\<close>

fun run_body ::
  "('t, 'k, 'm, 'w) co_env \<Rightarrow> nat \<Rightarrow> u32 \<Rightarrow> 'k \<Rightarrow> int \<Rightarrow> ('t, 'k, 'm, 'w) co_state \<Rightarrow> ('t, 'k, 'm, 'w) co_state" where
  "run_body env 0 i k ret st = st"
| "run_body env (Suc fuel) i k ret (t, s) =
    (case body_run env k ret (GetMsg i (cpool s)) (world s) of
       Finish w \<Rightarrow>
         (case FreeCoroutine i (cpool s) of (task, cp) \<Rightarrow>
            (t, s\<lparr>cpool := cp, world := (case task of None \<Rightarrow> w | Some x \<Rightarrow> released env x w)\<rparr>))
     | YieldFor time_out_ms k' w \<Rightarrow>
         (case AddTimer (malloc env t) (clock env w) time_out_ms i False t of (t1, tid) \<Rightarrow>
            (let s1 = s\<lparr>world := w, timer_ids := (timer_ids s)(i \<mapsto> tid)\<rparr> in
             case Yield_save i k' (cpool s1) of
               Some cp \<Rightarrow> (t1, s1\<lparr>cpool := cp\<rparr>)
             | None \<Rightarrow> run_body env fuel i k' (-1) (t1, s1))))"

definition switch_to :: "('t, 'k, 'm, 'w) co_env \<Rightarrow> nat \<Rightarrow> ('t, 'k, 'm, 'w) co_state \<Rightarrow> ('t, 'k, 'm, 'w) co_state" where
  "switch_to env p st =
    (let co = objs (cpool (snd st)) ! p in
     case co_ctx co of
       Fresh \<Rightarrow>
         (case co_task co of None \<Rightarrow> st
          | Some x \<Rightarrow> run_body env 1 (co_id co) (body_start env x (co_id co)) 0 st)
     | Saved k \<Rightarrow>
         (case Yield_return p (cpool (snd st)) of (ret, cp) \<Rightarrow>
            run_body env 1 (co_id co) k ret (fst st, (snd st)\<lparr>cpool := cp\<rparr>))
     | NoCtx \<Rightarrow> st)"

definition CoResume ::
  "('t, 'k, 'm, 'w) co_env \<Rightarrow> u32 \<Rightarrow> bool \<Rightarrow> ('t, 'k, 'm, 'w) co_state \<Rightarrow> int \<times> ('t, 'k, 'm, 'w) co_state" where
  "CoResume env i time_out st =
    (case Resume_enter i time_out (cpool (snd st)) of None \<Rightarrow> (-1, st)
     | Some (p, cp) \<Rightarrow> (0, switch_to env p (fst st, (snd st)\<lparr>cpool := cp\<rparr>)))"

definition ResumeOne ::
  "('t, 'k, 'm, 'w) co_env \<Rightarrow> u32 \<Rightarrow> bool \<Rightarrow> ('t, 'k, 'm, 'w) co_state \<Rightarrow> int \<times> ('t, 'k, 'm, 'w) co_state" where
  "ResumeOne env i time_out st = CoResume env i time_out (CancelCoTimer i st)"

definition ResumeOneWithMsg ::
  "('t, 'k, 'm, 'w) co_env \<Rightarrow> u32 \<Rightarrow> 'm \<Rightarrow> ('t, 'k, 'm, 'w) co_state \<Rightarrow> int \<times> ('t, 'k, 'm, 'w) co_state" where
  "ResumeOneWithMsg env i msg st =
    (let st1 = CancelCoTimer i st in
     case ResumeWithMsg_enter i msg (cpool (snd st1)) of None \<Rightarrow> (-1, st1)
     | Some (p, cp) \<Rightarrow> (0, switch_to env p (fst st1, (snd st1)\<lparr>cpool := cp\<rparr>)))"

definition AddTack :: "'t \<Rightarrow> ('t, 'k, 'm, 'w) co_state \<Rightarrow> u32 \<times> ('t, 'k, 'm, 'w) co_state" where
  "AddTack task st =
    (case NewCoroutine task (cpool (snd st)) of (i, cp) \<Rightarrow> (i, (fst st, (snd st)\<lparr>cpool := cp\<rparr>)))"

definition DoTack ::
  "('t, 'k, 'm, 'w) co_env \<Rightarrow> 't \<Rightarrow> ('t, 'k, 'm, 'w) co_state \<Rightarrow> int \<times> ('t, 'k, 'm, 'w) co_state" where
  "DoTack env task st = (case AddTack task st of (i, st1) \<Rightarrow> ResumeOne env i False st1)"

definition CoIdExist :: "u32 \<Rightarrow> ('t, 'k, 'm, 'w) co_state \<Rightarrow> bool" where
  "CoIdExist i st \<longleftrightarrow> FindCoId i (cpool (snd st)) \<noteq> None"

text \<open>\<open>ResumeAll\<close> goes through the active ids in an order of the hash map's choosing.\<close>

definition ResumeAll ::
  "('t, 'k, 'm, 'w) co_env \<Rightarrow> u32 list \<Rightarrow> ('t, 'k, 'm, 'w) co_state \<Rightarrow> nat \<times> ('t, 'k, 'm, 'w) co_state" where
  "ResumeAll env co_id_list st =
    (length co_id_list, fold (\<lambda>i st. snd (CoResume env i False st)) co_id_list st)"

definition TickTimeOut :: "('t, 'k, 'm, 'w) co_env \<Rightarrow> int \<Rightarrow> ('t, 'k, 'm, 'w) co_state \<Rightarrow> ('t, 'k, 'm, 'w) co_state" where
  "TickTimeOut env now_ms st = DoTimeOutTask (\<lambda>i st. snd (ResumeOne env i True st)) now_ms st"

subsection \<open>The invariant\<close>

text \<open>
  \<open>rem\<close> is the part of a running round that has not been fired yet, \<open>R\<close> the coroutine that is
  running.  Every pending timer that is not cancelled belongs to the coroutine that waits on it,
  and every waiting coroutine has the id of a timer.  That this timer is pending and not cancelled
  is the part of the invariant that the flag \<open>S\<close> adds: it can be lost when an address comes back.
\<close>

definition waiting :: "('t, 'k, 'm) co_pool \<Rightarrow> u32 \<Rightarrow> bool" where
  "waiting cp i \<longleftrightarrow>
     (case action_coroutine cp i of None \<Rightarrow> False
      | Some p \<Rightarrow> (case co_ctx (objs cp ! p) of Saved _ \<Rightarrow> True | _ \<Rightarrow> False))"

definition node_addr :: "'k tnode \<Rightarrow> nat" where
  "node_addr n = fst (snd n)"

definition shape_ok :: "u32 tnode list \<Rightarrow> u32 timer \<Rightarrow> bool" where
  "shape_ok rem t \<longleftrightarrow>
     timer_ok t \<and> distinct (map node_addr (timer_set t @ firing t)) \<and>
     (\<exists>pre. firing t = pre @ rem) \<and>
     (\<forall>n \<in> set (timer_set t) \<union> set rem. \<not> ti_repeat (snd (snd n)))"

definition ids_ok :: "bool \<Rightarrow> u32 set \<Rightarrow> u32 tnode set \<Rightarrow> timer_id set \<Rightarrow> (u32 \<Rightarrow> bool) \<Rightarrow> (u32 \<Rightarrow> timer_id option) \<Rightarrow> bool" where
  "ids_ok S R ns C W ids \<longleftrightarrow>
     (\<forall>i tid. ids i = Some tid \<longrightarrow>
        W i \<and> i \<notin> R \<and> (S \<longrightarrow> tid \<notin> C \<and> (\<exists>n \<in> ns. node_id n = tid \<and> node_task n = i))) \<and>
     (\<forall>i. W i \<longrightarrow> i \<in> R \<or> ids i \<noteq> None) \<and>
     (\<forall>n \<in> ns. node_id n \<notin> C \<longrightarrow> ids (node_task n) = Some (node_id n))"

definition timers_ok :: "bool \<Rightarrow> u32 set \<Rightarrow> u32 tnode list \<Rightarrow> u32 timer \<Rightarrow> (u32 \<Rightarrow> bool) \<Rightarrow> (u32 \<Rightarrow> timer_id option) \<Rightarrow> bool" where
  "timers_ok S R rem t W ids \<longleftrightarrow>
     shape_ok rem t \<and> finite (cancel_list t) \<and> ids_ok S R (set (timer_set t) \<union> set rem) (cancel_list t) W ids"

definition flags_clear :: "('t, 'k, 'm) co_pool \<Rightarrow> bool" where
  "flags_clear cp \<longleftrightarrow> (\<forall>p < length (objs cp). \<not> resume_by_time_out (objs cp ! p))"

definition co_inv :: "bool \<Rightarrow> u32 set \<Rightarrow> u32 tnode list \<Rightarrow> ('t, 'k, 'm, 'w) co_state \<Rightarrow> bool" where
  "co_inv S R rem st \<longleftrightarrow>
     pool_ok (cpool (snd st)) \<and> flags_clear (cpool (snd st)) \<and>
     timers_ok S R rem (fst st) (waiting (cpool (snd st))) (timer_ids (snd st))"

text \<open>
  What is known of the allocator: an address it returns is not in use.  \<open>no_stale_reuse\<close> says more:
  it does not return an address for which a cancellation is still recorded.
\<close>

definition legal_malloc :: "(u32 timer \<Rightarrow> nat) \<Rightarrow> bool" where
  "legal_malloc ml \<longleftrightarrow> (\<forall>t. ml t \<notin> node_addr ` set (timer_set t @ firing t))"

definition no_stale_reuse :: "(u32 timer \<Rightarrow> nat) \<Rightarrow> bool" where
  "no_stale_reuse ml \<longleftrightarrow> (\<forall>t. finite (cancel_list t) \<longrightarrow> ml t \<notin> fst ` cancel_list t)"

definition allocates :: "bool \<Rightarrow> (u32 timer \<Rightarrow> nat) \<Rightarrow> bool" where
  "allocates S ml \<longleftrightarrow> legal_malloc ml \<and> (S \<longrightarrow> no_stale_reuse ml)"

abbreviation co_ok :: "u32 set \<Rightarrow> u32 tnode list \<Rightarrow> ('t, 'k, 'm, 'w) co_state \<Rightarrow> bool" where
  "co_ok \<equiv> co_inv False"

text \<open>The coroutine waits on this timer, which is pending and not cancelled.\<close>

definition waits_on :: "('t, 'k, 'm, 'w) co_state \<Rightarrow> u32 \<Rightarrow> u32 tnode \<Rightarrow> bool" where
  "waits_on st i n \<longleftrightarrow> node_task n = i \<and> timer_ids (snd st) i = Some (node_id n)"

definition armed :: "('t, 'k, 'm, 'w) co_state \<Rightarrow> u32 \<Rightarrow> u32 tnode \<Rightarrow> bool" where
  "armed st i n \<longleftrightarrow> n \<in> set (timer_set (fst st)) \<and> waits_on st i n \<and> node_id n \<notin> cancel_list (fst st)"

definition all_armed :: "('t, 'k, 'm, 'w) co_state \<Rightarrow> bool" where
  "all_armed st \<longleftrightarrow> (\<forall>i. waiting (cpool (snd st)) i \<longrightarrow> (\<exists>n. armed st i n))"

lemma co_ok_init: "co_inv S {} [] (co_init w)"
  using pool_ok_empty
  by (simp add: co_inv_def co_init_def flags_clear_def timers_ok_def shape_ok_def ids_ok_def
      empty_timer_def empty_pool_def waiting_def timer_ok_def)

subsection \<open>Timers\<close>

lemma same_node:
  assumes "shape_ok rem t" "n \<in> set (timer_set t) \<union> set rem" "m \<in> set (timer_set t) \<union> set rem"
    "node_id n = node_id m"
  shows "n = m"
proof -
  from assms(1) obtain pre where "firing t = pre @ rem" "distinct (map node_addr (timer_set t @ firing t))"
    unfolding shape_ok_def by blast
  then have "distinct (map node_addr (timer_set t @ rem))" by auto
  then have "inj_on node_addr (set (timer_set t) \<union> set rem)" by (metis distinct_map set_append)
  moreover have "node_addr n = node_addr m" using assms(4) by (simp add: node_id_def node_addr_def)
  ultimately show ?thesis using assms(2,3) by (rule inj_onD)
qed

lemma ids_okI:
  assumes "\<And>i tid. ids i = Some tid \<Longrightarrow>
      W i \<and> i \<notin> R \<and> (S \<longrightarrow> tid \<notin> C \<and> (\<exists>n\<in>ns. node_id n = tid \<and> node_task n = i))"
    "\<And>i. W i \<Longrightarrow> i \<in> R \<or> ids i \<noteq> None"
    "\<And>n. n \<in> ns \<Longrightarrow> node_id n \<notin> C \<Longrightarrow> ids (node_task n) = Some (node_id n)"
  shows "ids_ok S R ns C W ids"
  using assms unfolding ids_ok_def by blast

lemma ids_okD:
  assumes "ids_ok S R ns C W ids"
  shows "ids i = Some tid \<Longrightarrow> W i" "ids i = Some tid \<Longrightarrow> i \<notin> R" "S \<Longrightarrow> ids i = Some tid \<Longrightarrow> tid \<notin> C"
    "S \<Longrightarrow> ids i = Some tid \<Longrightarrow> \<exists>n\<in>ns. node_id n = tid \<and> node_task n = i"
    "W i \<Longrightarrow> i \<notin> R \<Longrightarrow> ids i \<noteq> None"
    "n \<in> ns \<Longrightarrow> node_id n \<notin> C \<Longrightarrow> ids (node_task n) = Some (node_id n)"
  using assms unfolding ids_ok_def by blast+

lemma ids_ok_cancel:
  assumes "ids_ok S {} ns C W ids" "ids i = Some tid"
    and inj: "\<And>n m. n \<in> ns \<Longrightarrow> m \<in> ns \<Longrightarrow> node_id n = node_id m \<Longrightarrow> n = m"
  shows "ids_ok S {i} ns (insert tid C) W (ids(i := None))"
proof -
  have other: "tid' \<noteq> tid" if "ids j = Some tid'" "j \<noteq> i" S for j tid'
  proof
    assume "tid' = tid"
    from assms(1,2) that obtain n m where "n \<in> ns" "m \<in> ns"
      "node_id n = tid" "node_task n = i" "node_id m = tid'" "node_task m = j"
      unfolding ids_ok_def by metis
    with inj [of n m] \<open>tid' = tid\<close> that(2) show False by auto
  qed
  from assms(1,2) other show ?thesis unfolding ids_ok_def by auto
qed

lemma ids_ok_drop:
  assumes "ids_ok S R (insert n ns) C W ids" "node_id n \<in> C" "\<And>m. m \<in> ns \<Longrightarrow> node_id m \<noteq> node_id n"
  shows "ids_ok S R ns C W ids" "ids_ok S R ns (C - {node_id n}) W ids"
proof -
  note d = ids_okD [OF assms(1)]
  show keep: "ids_ok S R ns C W ids"
  proof (rule ids_okI)
    fix i tid assume i: "ids i = Some tid"
    from d(4) [OF _ i] d(3) [OF _ i] assms(2) have "S \<Longrightarrow> \<exists>m\<in>ns. node_id m = tid \<and> node_task m = i" by auto
    with d(1,2) [OF i] d(3) [OF _ i]
    show "W i \<and> i \<notin> R \<and> (S \<longrightarrow> tid \<notin> C \<and> (\<exists>m\<in>ns. node_id m = tid \<and> node_task m = i))"
      by blast
  qed (use d(5,6) in blast)+
  show "ids_ok S R ns (C - {node_id n}) W ids"
    using keep assms(3) unfolding ids_ok_def by blast
qed

lemma ids_ok_add:
  assumes "ids_ok S {i} ns C W ids" "S \<Longrightarrow> node_id n \<notin> C" "node_task n = i"
  shows "ids_ok S {} (insert n ns) C (W(i := True)) (ids(i \<mapsto> node_id n))"
proof -
  from assms(1) have "ids i = None" by (cases "ids i") (auto simp: ids_ok_def)
  with assms show ?thesis unfolding ids_ok_def by auto
qed

lemma ids_ok_finish: "ids_ok S {i} ns C W ids \<Longrightarrow> ids_ok S {} ns C (W(i := False)) ids"
  unfolding ids_ok_def by auto

lemma ids_ok_no_timer: "ids_ok S {} ns C W ids \<Longrightarrow> ids i = None \<Longrightarrow> ids_ok S {i} ns C W ids"
  unfolding ids_ok_def by auto

lemma shape_ok_cancel: "shape_ok rem (t\<lparr>cancel_list := C\<rparr>) = shape_ok rem t"
  by (simp add: shape_ok_def timer_ok_def)

lemma shape_ok_tl: "shape_ok (n # rem) t \<Longrightarrow> shape_ok rem t"
  unfolding shape_ok_def by (auto intro: exI [where x = "_ @ [n]"])

text \<open>Cancelling the timer of a coroutine that is about to run.\<close>

lemma timers_ok_cancel:
  assumes "timers_ok S {} rem t W ids" "ids i = Some tid"
  shows "timers_ok S {i} rem (CancelTimer tid t) W (ids(i := None))"
proof -
  from assms(1) have sh: "shape_ok rem t" "finite (cancel_list t)"
    and ok: "ids_ok S {} (set (timer_set t) \<union> set rem) (cancel_list t) W ids"
    by (simp_all add: timers_ok_def)
  from ids_ok_cancel [OF ok assms(2)] same_node [OF sh(1)] sh show ?thesis
    by (simp add: timers_ok_def CancelTimer_def shape_ok_cancel)
qed

lemma timers_ok_no_timer: "timers_ok S {} rem t W ids \<Longrightarrow> ids i = None \<Longrightarrow> timers_ok S {i} rem t W ids"
  by (simp add: timers_ok_def ids_ok_no_timer)

text \<open>The head of a round: dropped if it was cancelled, else its coroutine's timer is cancelled.\<close>

lemma head_differs: "shape_ok (n # rem) t \<Longrightarrow> m \<in> set (timer_set t) \<union> set rem \<Longrightarrow> node_id m \<noteq> node_id n"
proof
  assume s: "shape_ok (n # rem) t" and m: "m \<in> set (timer_set t) \<union> set rem" and "node_id m = node_id n"
  with same_node [OF s, of m n] have "m = n" by auto
  with s m show False by (auto simp: shape_ok_def node_addr_def)
qed

lemma timers_ok_drop:
  assumes "timers_ok S {} (n # rem) t W ids" "node_id n \<in> cancel_list t"
  shows "timers_ok S {} rem (t\<lparr>cancel_list := cancel_list t - {node_id n}\<rparr>) W ids"
  using assms ids_ok_drop(2) [of S "{}" n "set (timer_set t) \<union> set rem" "cancel_list t" W ids]
    head_differs [of n rem t] shape_ok_tl [of n rem t]
  by (simp add: timers_ok_def shape_ok_cancel)

lemma timers_ok_fire:
  assumes "timers_ok S {} (n # rem) t W ids" "node_id n \<notin> cancel_list t"
  shows "ids (node_task n) = Some (node_id n)"
    "timers_ok S {node_task n} rem (CancelTimer (node_id n) t) W (ids(node_task n := None))"
proof -
  show ids: "ids (node_task n) = Some (node_id n)"
    using assms by (simp add: timers_ok_def ids_ok_def)
  from timers_ok_cancel [OF assms(1) ids] head_differs [of n rem t] shape_ok_tl [of n rem]
  show "timers_ok S {node_task n} rem (CancelTimer (node_id n) t) W (ids(node_task n := None))"
    using ids_ok_drop(1) [of S "{node_task n}" n "set (timer_set t) \<union> set rem"
        "insert (node_id n) (cancel_list t)" W "ids(node_task n := None)"] assms(1)
    by (simp add: timers_ok_def CancelTimer_def shape_ok_cancel)
qed

lemma AddTimer_parts:
  assumes "AddTimer addr now iv task False t = (t1, tid)"
  obtains n where "t1 = t\<lparr>timer_set := emplace n (timer_set t)\<rparr>" "node_addr n = addr" "node_id n = tid"
    "node_task n = task" "\<not> ti_repeat (snd (snd n))" "fst tid = addr" "fst n = now + iv"
  using assms that by (auto simp: AddTimer_def Let_def node_addr_def node_id_def node_task_def)

lemma distinct_addr_emplace:
  assumes "distinct (map node_addr (ms @ ns))" "node_addr n \<notin> node_addr ` set (ms @ ns)"
  shows "distinct (map node_addr (emplace n ms @ ns))" "set (emplace n ms) = insert n (set ms)"
proof -
  have "node_addr m \<noteq> node_addr n" if "m \<in> set ms" for m
  proof
    assume "node_addr m = node_addr n"
    with that have "node_addr n \<in> node_addr ` set (ms @ ns)" by (metis UnCI image_eqI set_append)
    with assms(2) show False by simp
  qed
  then show s: "set (emplace n ms) = insert n (set ms)"
    by (intro set_emplace_fresh) (auto simp: node_addr_def)
  have "distinct (map node_addr (emplace n ms))"
    using distinct_emplace [of ms n] assms unfolding node_addr_def [abs_def] by (simp add: image_Un)
  with assms s show "distinct (map node_addr (emplace n ms @ ns))" by auto
qed

lemma timers_ok_add:
  assumes ok: "timers_ok S {i} rem t W ids" and add: "AddTimer addr now iv i False t = (t1, tid)"
    and fresh: "addr \<notin> node_addr ` set (timer_set t @ firing t)" "S \<Longrightarrow> addr \<notin> fst ` cancel_list t"
  shows "timers_ok S {} rem t1 (W(i := True)) (ids(i \<mapsto> tid))"
proof -
  from AddTimer_parts [OF add] obtain n where
    t1: "t1 = t\<lparr>timer_set := emplace n (timer_set t)\<rparr>" and n: "node_addr n = addr" "node_id n = tid"
    "node_task n = i" "\<not> ti_repeat (snd (snd n))" "fst tid = addr" by metis
  from ok have sh: "shape_ok rem t" by (simp add: timers_ok_def)
  then have "distinct (map node_addr (timer_set t @ firing t))" by (simp add: shape_ok_def)
  note e = distinct_addr_emplace [OF this, of n]
  have "shape_ok rem t1"
    using sh e fresh(1) n unfolding shape_ok_def t1 timer_ok_def by (auto simp: sorted_emplace)
  moreover have "S \<Longrightarrow> node_id n \<notin> cancel_list t" using fresh(2) n(2,5) by force
  ultimately show ?thesis
    using ok ids_ok_add [of S i _ "cancel_list t" W ids n] n e fresh(1) by (simp add: timers_ok_def t1)
qed

lemma timers_ok_finish: "timers_ok S {i} rem t W ids \<Longrightarrow> timers_ok S {} rem t (W(i := False)) ids"
  by (simp add: timers_ok_def ids_ok_finish)

subsection \<open>Coroutines\<close>

lemma waiting_upd_obj: "(\<And>co. co_ctx (f co) = co_ctx co) \<Longrightarrow> waiting (upd_obj p f cp) = waiting cp"
  by (rule ext) (auto simp: waiting_def upd_obj_def nth_update split: option.splits)

lemma waiting_Free:
  assumes "pool_ok cp" "FreeCoroutine i cp = (task, cp')"
  shows "waiting cp' = (waiting cp)(i := False)"
  using assms(2)
  by (auto simp: FreeCoroutine_def waiting_def upd_obj_def nth_update fun_eq_iff
      split: option.splits if_splits)

lemma waiting_Yield:
  assumes "pool_ok cp" "Yield_save i k cp = Some cp'"
  shows "waiting cp' = (waiting cp)(i := True)"
proof -
  from assms(2) obtain p where p: "action_coroutine cp i = Some p"
    "cp' = upd_obj p (\<lambda>co. co\<lparr>co_ctx := Saved k\<rparr>) cp"
    by (auto simp: Yield_save_def FindCoId_def split: option.splits)
  have "q \<noteq> p" if "action_coroutine cp j = Some q" "j \<noteq> i" for j q
    using pool_act [OF assms(1) that(1)] pool_act [OF assms(1) p(1)] that(2) by auto
  with p pool_act [OF assms(1) p(1)] show ?thesis
    by (auto simp: waiting_def upd_obj_def nth_update fun_eq_iff split: option.splits)
qed

lemma flags_upd: "flags_clear cp \<Longrightarrow>
    (\<And>co. resume_by_time_out co = False \<Longrightarrow> resume_by_time_out (f co) = False) \<Longrightarrow> flags_clear (upd_obj p f cp)"
  by (auto simp: flags_clear_def upd_obj_def nth_update)

lemma run_body_ok:
  assumes "co_inv S {i} rem (t, s)" "action_coroutine (cpool s) i \<noteq> None"
    and ml: "allocates S (malloc env)"
  shows "co_inv S {} rem (run_body env (Suc fuel) i k ret (t, s))"
proof -
  from assms(1) have pool: "pool_ok (cpool s)" and fl: "flags_clear (cpool s)"
    and ti: "timers_ok S {i} rem t (waiting (cpool s)) (timer_ids s)"
    by (simp_all add: co_inv_def)
  show ?thesis
  proof (cases "body_run env k ret (GetMsg i (cpool s)) (world s)")
    case (Finish w)
    obtain task cp where fr: "FreeCoroutine i (cpool s) = (task, cp)" by fastforce
    have "flags_clear cp" using fr fl
      by (auto simp: FreeCoroutine_def flags_clear_def upd_obj_def nth_update split: option.splits if_splits)
    with Finish fr pool_ok_Free(1) [OF pool fr] waiting_Free [OF pool fr] timers_ok_finish [OF ti]
    show ?thesis by (simp add: co_inv_def)
  next
    case (YieldFor tmo k' w)
    obtain t1 tid where add: "AddTimer (malloc env t) (clock env w) tmo i False t = (t1, tid)"
      by (cases "AddTimer (malloc env t) (clock env w) tmo i False t")
    obtain cp where ys: "Yield_save i k' (cpool s) = Some cp"
      using assms(2) by (auto simp: Yield_save_def FindCoId_def)
    then obtain p where cp: "cp = upd_obj p (\<lambda>co. co\<lparr>co_ctx := Saved k'\<rparr>) (cpool s)"
      by (auto simp: Yield_save_def split: option.splits)
    have "pool_ok cp" "flags_clear cp"
      unfolding cp by (rule pool_ok_upd_obj [OF pool] flags_upd [OF fl]; simp)+
    moreover have "timers_ok S {} rem t1 ((waiting (cpool s))(i := True)) ((timer_ids s)(i \<mapsto> tid))"
      using ml ti
      by (intro timers_ok_add [OF ti add]) (simp_all add: allocates_def legal_malloc_def no_stale_reuse_def timers_ok_def)
    ultimately show ?thesis
      using YieldFor add ys waiting_Yield [OF pool ys] by (simp add: co_inv_def)
  qed
qed

lemma run_body_fuel: "action_coroutine (cpool s) i \<noteq> None \<Longrightarrow>
    run_body env (Suc m) i k ret (t, s) = run_body env (Suc n) i k ret (t, s)"
  by (auto simp: Yield_save_def FindCoId_def Let_def split: outcome.splits prod.splits option.splits)

subsection \<open>Operations keep the invariant\<close>

lemma co_ok_not_waiting: "co_inv S {i} rem st \<Longrightarrow> \<not> waiting (cpool (snd st)) i \<Longrightarrow> co_inv S {} rem st"
  using timers_ok_finish [of S i rem "fst st" "waiting (cpool (snd st))" "timer_ids (snd st)"]
  by (auto simp: co_inv_def fun_upd_idem)

lemma co_ok_cancel: "co_inv S {} rem st \<Longrightarrow> co_inv S {i} rem (CancelCoTimer i st)"
  by (auto simp: co_inv_def CancelCoTimer_def timers_ok_cancel timers_ok_no_timer split: option.splits)

lemma CancelCoTimer_rest [simp]:
  "cpool (snd (CancelCoTimer i st)) = cpool (snd st)" "world (snd (CancelCoTimer i st)) = world (snd st)"
  "timer_ids (snd (CancelCoTimer i st)) = (timer_ids (snd st))(i := None)"
  by (auto simp: CancelCoTimer_def split: option.splits)

lemma co_ok_upd_obj:
  assumes "co_inv S R rem (t, s)"
    "\<And>co. co_id (f co) = co_id co" "\<And>co. co_task co \<noteq> None \<Longrightarrow> co_task (f co) \<noteq> None"
    "\<And>co. co_ctx (f co) = co_ctx co" "\<And>co. resume_by_time_out co = False \<Longrightarrow> resume_by_time_out (f co) = False"
  shows "co_inv S R rem (t, s\<lparr>cpool := upd_obj p f (cpool s)\<rparr>)"
  using assms pool_ok_upd_obj [of "cpool s" f p] flags_upd [of "cpool s" f p]
  by (simp add: co_inv_def waiting_upd_obj)

lemma action_upd_obj [simp]: "action_coroutine (upd_obj p f cp) = action_coroutine cp"
  by (simp add: upd_obj_def)

lemma upd_obj_twice: "p < length (objs cp) \<Longrightarrow> upd_obj p g (upd_obj p f cp) = upd_obj p (\<lambda>co. g (f co)) cp"
  by (simp add: upd_obj_def)

lemma objs_upd_obj: "p < length (objs cp) \<Longrightarrow> objs (upd_obj p f cp) ! p = f (objs cp ! p)"
  by (simp add: upd_obj_def)

text \<open>The running coroutine from the switch on, when its flag says how it was resumed.\<close>

lemma switch_to_ok:
  assumes ok: "co_inv S {i} rem (t, s)" and p: "action_coroutine (cpool s) i = Some p"
    and ml: "allocates S (malloc env)"
    and b: "b \<Longrightarrow> waiting (cpool s) i"
  shows "co_inv S {} rem (switch_to env p (t, s\<lparr>cpool := upd_obj p (\<lambda>co. co\<lparr>resume_by_time_out := b\<rparr>) (cpool s)\<rparr>))"
proof -
  let ?f = "\<lambda>b co. co\<lparr>resume_by_time_out := b\<rparr>"
  from ok have pool: "pool_ok (cpool s)" by (simp add: co_inv_def)
  note P = pool_act [OF pool p]
  have id: "co_id (objs (cpool s) ! p) = i" using pool_co_id [OF pool] P by simp
  have clear: "co_inv S {i} rem (t, s\<lparr>cpool := upd_obj p (?f False) (cpool s)\<rparr>)"
    by (rule co_ok_upd_obj [OF ok]) simp_all
  show ?thesis
  proof (cases "co_ctx (objs (cpool s) ! p)")
    case NoCtx
    then have "\<not> waiting (cpool s) i" by (simp add: waiting_def p)
    with b clear NoCtx P show ?thesis
      by (cases b) (auto simp: switch_to_def Let_def objs_upd_obj waiting_upd_obj intro!: co_ok_not_waiting)
  next
    case Fresh
    then have "\<not> b" using b by (auto simp: waiting_def p)
    moreover obtain x where "co_task (objs (cpool s) ! p) = Some x" using P by auto
    ultimately show ?thesis
      using Fresh P id run_body_ok [OF clear _ ml, of 0] p
      by (simp add: switch_to_def Let_def objs_upd_obj)
  next
    case (Saved k)
    then show ?thesis
      using P id run_body_ok [OF clear _ ml, of 0] p
      by (simp add: switch_to_def Let_def objs_upd_obj Yield_return_def upd_obj_twice)
  qed
qed

lemma CoResume_ok:
  assumes "co_inv S {i} rem st" "b \<Longrightarrow> waiting (cpool (snd st)) i"
    "allocates S (malloc env)"
  shows "co_inv S {} rem (snd (CoResume env i b st))"
proof (cases "action_coroutine (cpool (snd st)) i")
  case None
  then have "\<not> waiting (cpool (snd st)) i" by (simp add: waiting_def)
  from co_ok_not_waiting [OF assms(1) this] None show ?thesis
    by (simp add: CoResume_def Resume_enter_def FindCoId_def)
next
  case (Some p)
  with switch_to_ok [of S i rem "fst st" "snd st" p env b] assms show ?thesis
    by (simp add: CoResume_def Resume_enter_def FindCoId_def)
qed

lemma ResumeOne_ok:
  assumes "co_inv S {} rem st" "b \<Longrightarrow> waiting (cpool (snd st)) i"
    "allocates S (malloc env)"
  shows "co_inv S {} rem (snd (ResumeOne env i b st))"
  unfolding ResumeOne_def using assms by (intro CoResume_ok co_ok_cancel) auto

lemma upd_obj_same: "p < length (objs cp) \<Longrightarrow> f (objs cp ! p) = objs cp ! p \<Longrightarrow> upd_obj p f cp = cp"
  by (simp add: upd_obj_def)

text \<open>With a message the flag is left as it is, which is clear.\<close>

lemma ResumeOneWithMsg_ok:
  assumes ok: "co_inv S {} rem st" and ml: "allocates S (malloc env)"
  shows "co_inv S {} rem (snd (ResumeOneWithMsg env i msg st))"
proof (cases "action_coroutine (cpool (snd st)) i")
  case None
  then have "\<not> waiting (cpool (snd (CancelCoTimer i st))) i" by (simp add: waiting_def)
  from co_ok_not_waiting [OF co_ok_cancel [OF ok] this] None show ?thesis
    by (simp add: ResumeOneWithMsg_def ResumeWithMsg_enter_def FindCoId_def)
next
  case (Some p)
  obtain t s where st1: "CancelCoTimer i st = (t, s)" by (cases "CancelCoTimer i st")
  then have cp: "cpool s = cpool (snd st)" using CancelCoTimer_rest(1) [of i st] by simp
  let ?cp = "upd_obj p (\<lambda>co. co\<lparr>co_msg := Some msg\<rparr>) (cpool s)"
  have ok1: "co_inv S {i} rem (t, s\<lparr>cpool := ?cp\<rparr>)"
    by (rule co_ok_upd_obj) (use co_ok_cancel [OF ok, of i] st1 in simp_all)
  then have "pool_ok ?cp" "flags_clear ?cp" by (simp_all add: co_inv_def)
  moreover from this(1) have p: "p < length (objs ?cp)" using pool_act [of ?cp i p] Some cp by simp
  ultimately have "objs ?cp ! p = (objs ?cp ! p)\<lparr>resume_by_time_out := False\<rparr>"
    by (simp add: flags_clear_def)
  then have "upd_obj p (\<lambda>co. co\<lparr>resume_by_time_out := False\<rparr>) ?cp = ?cp"
    by (intro upd_obj_same p) simp
  with switch_to_ok [OF ok1 _ ml, of p False] Some cp st1 show ?thesis
    by (simp add: ResumeOneWithMsg_def ResumeWithMsg_enter_def FindCoId_def Let_def)
qed

lemma waiting_New:
  assumes "pool_ok cp" "length (objs cp) < 2 ^ 32 - 2" "NewCoroutine task cp = (i, cp')"
  shows "waiting cp' = waiting cp" "flags_clear cp \<Longrightarrow> flags_clear cp'"
proof -
  from NewCoroutine_parts [OF assms] obtain p where
    p: "p \<in> set (free_coroutine (refill cp))" "p < length (objs (refill cp))" and i: "i = slot_id p"
    and cp': "cp' = (upd_obj p (\<lambda>co. co\<lparr>co_task := Some task, co_ctx := Fresh\<rparr>)
             ((refill cp)\<lparr>free_coroutine := tl (free_coroutine (refill cp))\<rparr>))
             \<lparr>action_coroutine := (action_coroutine cp)(i \<mapsto> p)\<rparr>" by metis
  note ok = pool_ok_refill [OF assms(1,2)]
  have objs: "objs (refill cp) ! q = objs cp ! q" if "q < length (objs cp)" for q
    using that by (auto simp: refill_def GetCoId_def Let_def nth_append)
  have other: "q \<noteq> p \<and> q < length (objs cp)" if "action_coroutine cp j = Some q" for j q
    using pool_act [OF assms(1) that] pool_act [OF ok(1), of j q] that ok(3) p(1) by auto
  have none: "action_coroutine cp i = None"
    using pool_free_not_active(2) [OF ok(1) p(1)] ok(3) i by simp
  show "waiting cp' = waiting cp"
    using p(2) none other objs
    by (auto simp: cp' waiting_def upd_obj_def nth_update fun_eq_iff split: option.splits)
  show "flags_clear cp \<Longrightarrow> flags_clear cp'"
    using p(2)
    by (auto simp: cp' flags_clear_def upd_obj_def nth_update refill_def GetCoId_def Let_def
        nth_append new_object_def less_Suc_eq split: if_splits)
qed

lemma AddTack_ok:
  assumes "co_inv S {} rem st" "length (objs (cpool (snd st))) < 2 ^ 32 - 2" "AddTack task st = (i, st')"
  shows "co_inv S {} rem st'" "i \<noteq> 0" "\<not> CoIdExist i st" "CoIdExist i st'"
proof -
  from assms(1) have pool: "pool_ok (cpool (snd st))" by (simp add: co_inv_def)
  obtain cp where new: "NewCoroutine task (cpool (snd st)) = (i, cp)" and st': "st' = (fst st, (snd st)\<lparr>cpool := cp\<rparr>)"
    using assms(3) by (auto simp: AddTack_def split: prod.splits)
  note N = pool_ok_New [OF pool assms(2) new] and W = waiting_New [OF pool assms(2) new]
  from N W assms(1) show "co_inv S {} rem st'" "i \<noteq> 0" "\<not> CoIdExist i st"
    by (simp_all add: st' co_inv_def CoIdExist_def FindCoId_def)
  show "CoIdExist i st'"
    using new by (auto simp: st' NewCoroutine_def Let_def CoIdExist_def FindCoId_def)
qed

subsection \<open>A tick\<close>

lemma tick_drop:
  "co_inv S {} (n # ns) (t, s) \<Longrightarrow> node_id n \<in> cancel_list t \<Longrightarrow>
   co_inv S {} ns (t\<lparr>cancel_list := cancel_list t - {node_id n}\<rparr>, s)"
  using timers_ok_drop by (simp add: co_inv_def)

lemma tick_fire:
  assumes ok: "co_inv S {} (n # ns) st" and new: "node_id n \<notin> cancel_list (fst st)"
    and ml: "allocates S (malloc env)"
  shows "co_inv S {} ns (snd (ResumeOne env (node_task n) True st))"
    "timer_ids (snd st) (node_task n) = Some (node_id n)" "\<not> ti_repeat (snd (snd n))"
proof -
  from ok have ti: "timers_ok S {} (n # ns) (fst st) (waiting (cpool (snd st))) (timer_ids (snd st))"
    and pool: "pool_ok (cpool (snd st))" "flags_clear (cpool (snd st))" by (simp_all add: co_inv_def)
  note f = timers_ok_fire [OF ti new]
  show "timer_ids (snd st) (node_task n) = Some (node_id n)" by (rule f)
  show "\<not> ti_repeat (snd (snd n))" using ti by (simp add: timers_ok_def shape_ok_def)
  have "waiting (cpool (snd st)) (node_task n)"
    using ti f(1) unfolding timers_ok_def by (blast intro: ids_okD(1))
  moreover have "co_inv S {node_task n} ns (CancelCoTimer (node_task n) st)"
    using f pool by (simp add: CancelCoTimer_def co_inv_def)
  ultimately show "co_inv S {} ns (snd (ResumeOne env (node_task n) True st))"
    unfolding ResumeOne_def by (intro CoResume_ok ml) simp_all
qed

abbreviation time_out_exec ::
  "('t, 'k, 'm, 'w) co_env \<Rightarrow> u32 \<Rightarrow> ('t, 'k, 'm, 'w) co_state \<Rightarrow> ('t, 'k, 'm, 'w) co_state" where
  "time_out_exec env i st \<equiv> snd (ResumeOne env i True st)"

text \<open>One node of the round, as a rule: it is dropped, or its coroutine resumed.\<close>

lemma fire_all_Cons:
  assumes ok: "co_inv S {} (n # ns) (t, s)" and ml: "allocates S (malloc env)"
  obtains st1 where "fire_all (time_out_exec env) now (n # ns) (t, s) = fire_all (time_out_exec env) now ns st1"
    "co_inv S {} ns st1"
    "node_id n \<in> cancel_list t \<and> st1 = (t\<lparr>cancel_list := cancel_list t - {node_id n}\<rparr>, s) \<or>
     node_id n \<notin> cancel_list t \<and> st1 = time_out_exec env (node_task n) (t, s) \<and>
       timer_ids s (node_task n) = Some (node_id n)"
proof (cases "node_id n \<in> cancel_list t")
  case True
  with tick_drop [OF ok True] that show thesis by simp
next
  case False
  with tick_fire [OF ok _ ml] that [of "time_out_exec env (node_task n) (t, s)"] show thesis
    by (simp split: prod.splits)
qed

lemma fire_all_ok:
  assumes ml: "allocates S (malloc env)"
  shows "co_inv S {} ns st \<Longrightarrow> co_inv S {} [] (fire_all (time_out_exec env) now ns st)"
proof (induction ns arbitrary: st)
  case (Cons n ns)
  obtain t s where st: "st = (t, s)" by fastforce
  from Cons.prems have ok: "co_inv S {} (n # ns) (t, s)" by (simp add: st)
  obtain st1 where "fire_all (time_out_exec env) now (n # ns) (t, s) = fire_all (time_out_exec env) now ns st1"
    "co_inv S {} ns st1"
    by (rule fire_all_Cons [OF ok ml])
  with Cons.IH [of st1] show ?case by (simp only: st)
qed simp

definition due_at :: "int \<Rightarrow> ('t, 'k, 'm, 'w) co_state \<Rightarrow> u32 tnode list" where
  "due_at now st = filter (\<lambda>n. fst n \<le> now) (timer_set (fst st))"

definition begin_round :: "int \<Rightarrow> ('t, 'k, 'm, 'w) co_state \<Rightarrow> ('t, 'k, 'm, 'w) co_state" where
  "begin_round now st =
    ((fst st)\<lparr>timer_set := filter (\<lambda>n. \<not> fst n \<le> now) (timer_set (fst st)), firing := due_at now st\<rparr>, snd st)"

lemma co_ok_begin_round:
  assumes "co_inv S {} [] st"
  shows "co_inv S {} (due_at now st) (begin_round now st)"
proof -
  let ?rest = "filter (\<lambda>n. \<not> fst n \<le> now) (timer_set (fst st))"
  from assms have sh: "shape_ok [] (fst st)" by (simp add: co_inv_def timers_ok_def)
  then have "inj_on node_addr (set (timer_set (fst st)))" "distinct (timer_set (fst st))"
    by (simp_all add: shape_ok_def distinct_map)
  then have "distinct (map node_addr ?rest)" "distinct (map node_addr (due_at now st))"
    "node_addr ` set ?rest \<inter> node_addr ` set (due_at now st) = {}"
    unfolding due_at_def distinct_map set_filter by (auto simp: inj_on_def)
  moreover have "set ?rest \<union> set (due_at now st) = set (timer_set (fst st))" by (auto simp: due_at_def)
  ultimately show ?thesis
    using assms sh
    by (simp add: begin_round_def co_inv_def timers_ok_def shape_ok_def timer_ok_def sorted_wrt_filter ball_Un)
qed

lemma co_ok_end_round: "co_inv S {} [] st \<Longrightarrow> co_inv S {} [] (end_round st)"
  by (simp add: co_inv_def timers_ok_def shape_ok_def timer_ok_def end_round_def)

lemma TickTimeOut_eq:
  assumes "co_inv S {} [] st"
  shows "TickTimeOut env now st = (if due_at now st = [] then st
    else end_round (fire_all (time_out_exec env) now (due_at now st) (begin_round now st)))"
proof -
  from assms have "timer_ok (fst st)" by (simp add: co_inv_def timers_ok_def shape_ok_def)
  from DoTimeOutTask_due [OF this] show ?thesis
    unfolding TickTimeOut_def due_at_def begin_round_def Let_def .
qed

lemma TickTimeOut_ok:
  assumes ok: "co_inv S {} [] st" and ml: "allocates S (malloc env)"
  shows "co_inv S {} [] (TickTimeOut env now st)"
  unfolding TickTimeOut_eq [OF ok]
  using ok co_ok_end_round [OF fire_all_ok [OF ml co_ok_begin_round [OF ok]]] by simp

end
