(* ===== verification/Co_Invariant.thy ===== *)
theory Co_Invariant
  imports Co_Task
begin

text \<open>
  The contract between the coroutines and an invariant of what they work on.  A client states what
  each change of the coroutine objects, each finished body and each yield does to its invariant \<open>Q\<close>;
  \<open>K\<close> is what it knows of contexts, \<open>M\<close> of messages.  The locale carries it through every operation
  of \<open>CoTask\<close> that resumes a coroutine.
\<close>

locale co_invariant =
  fixes env :: "('t, 'k, 'm, 'w) co_env"
    and Q :: "('t, 'k, 'm, 'w) co_rest \<Rightarrow> bool"
    and K :: "'k \<Rightarrow> bool"
    and M :: "'m \<Rightarrow> bool"
  assumes flag: "Q s \<Longrightarrow> Q (s\<lparr>cpool := upd_obj p (\<lambda>co. co\<lparr>resume_by_time_out := b\<rparr>) (cpool s)\<rparr>)"
    and message: "Q s \<Longrightarrow> M m \<Longrightarrow> Q (s\<lparr>cpool := upd_obj p (\<lambda>co. co\<lparr>co_msg := Some m\<rparr>) (cpool s)\<rparr>)"
    and save: "Q s \<Longrightarrow> K k \<Longrightarrow> Q (s\<lparr>cpool := upd_obj p (\<lambda>co. co\<lparr>co_ctx := Saved k\<rparr>) (cpool s)\<rparr>)"
    and ids: "Q s \<Longrightarrow> Q (s\<lparr>timer_ids := f\<rparr>)"
    and starts: "K (body_start env x i)"
    and saved: "Q s \<Longrightarrow> action_coroutine (cpool s) i = Some p \<Longrightarrow> co_ctx (objs (cpool s) ! p) = Saved k \<Longrightarrow> K k"
    and yields: "Q s \<Longrightarrow> K k \<Longrightarrow> body_run env k ret (GetMsg i (cpool s)) (world s) = YieldFor tmo k' w \<Longrightarrow>
      K k' \<and> Q (s\<lparr>world := w\<rparr>)"
    and finishes: "Q s \<Longrightarrow> K k \<Longrightarrow> body_run env k ret (GetMsg i (cpool s)) (world s) = Finish w \<Longrightarrow>
      FreeCoroutine i (cpool s) = (task, cp) \<Longrightarrow>
      Q (s\<lparr>cpool := cp, world := (case task of None \<Rightarrow> w | Some x \<Rightarrow> released env x w)\<rparr>)"
begin

lemma run_body_keeps: "Q s \<Longrightarrow> K k \<Longrightarrow> Q (snd (run_body env fuel i k ret (t, s)))"
proof (induction fuel arbitrary: k ret t s)
  case (Suc fuel)
  show ?case
  proof (cases "body_run env k ret (GetMsg i (cpool s)) (world s)")
    case (Finish w)
    obtain task cp where fr: "FreeCoroutine i (cpool s) = (task, cp)" by (cases "FreeCoroutine i (cpool s)")
    from finishes [OF Suc.prems Finish fr] show ?thesis by (simp add: Finish fr)
  next
    case (YieldFor tmo k' w)
    obtain t1 tid where add: "AddTimer (malloc env t) (clock env w) tmo i False t = (t1, tid)"
      by (cases "AddTimer (malloc env t) (clock env w) tmo i False t")
    from yields [OF Suc.prems YieldFor] have k': "K k'" and q: "Q (s\<lparr>world := w\<rparr>)" by auto
    let ?s1 = "s\<lparr>world := w, timer_ids := (timer_ids s)(i \<mapsto> tid)\<rparr>"
    have q1: "Q ?s1" using ids [OF q, of "(timer_ids s)(i \<mapsto> tid)"] by simp
    show ?thesis
    proof (cases "Yield_save i k' (cpool s)")
      case None
      with Suc.IH [OF q1 k'] YieldFor add show ?thesis by simp
    next
      case (Some cp)
      then obtain p where "cp = upd_obj p (\<lambda>co. co\<lparr>co_ctx := Saved k'\<rparr>) (cpool ?s1)"
        by (auto simp: Yield_save_def split: option.splits)
      with save [OF q1 k', of p] Some YieldFor add show ?thesis by simp
    qed
  qed
qed simp

lemma switch_to_keeps:
  assumes "Q s" "action_coroutine (cpool s) i = Some p"
  shows "Q (snd (switch_to env p (t, s)))"
proof (cases "co_ctx (objs (cpool s) ! p)")
  case Fresh
  with assms(1) starts run_body_keeps show ?thesis
    by (simp add: switch_to_def Let_def del: run_body.simps split: option.split)
next
  case (Saved k)
  with saved [OF assms] run_body_keeps [OF flag [OF assms(1)]] show ?thesis
    by (simp add: switch_to_def Let_def Yield_return_def del: run_body.simps)
qed (use assms(1) in \<open>simp add: switch_to_def Let_def\<close>)

lemma cancel_keeps: "Q (snd st) \<Longrightarrow> Q (snd (CancelCoTimer i st))"
  by (auto simp: CancelCoTimer_def ids split: option.splits)

lemma CoResume_keeps: "Q (snd st) \<Longrightarrow> Q (snd (snd (CoResume env i b st)))"
  using flag [of "snd st" _ b] switch_to_keeps [of _ i]
  by (auto simp: CoResume_def Resume_enter_def FindCoId_def upd_obj_def split: option.split)

lemma ResumeOne_keeps: "Q (snd st) \<Longrightarrow> Q (snd (snd (ResumeOne env i b st)))"
  by (simp add: ResumeOne_def CoResume_keeps cancel_keeps)

lemma ResumeOneWithMsg_keeps:
  assumes "Q (snd st)" "M m"
  shows "Q (snd (snd (ResumeOneWithMsg env i m st)))"
  using message [OF cancel_keeps [OF assms(1), of i] assms(2)] cancel_keeps [OF assms(1)] switch_to_keeps [of _ i]
  by (auto simp: ResumeOneWithMsg_def ResumeWithMsg_enter_def FindCoId_def upd_obj_def Let_def split: option.split)

lemma fire_keeps: "Q (snd st) \<Longrightarrow> Q (snd (fire_all (\<lambda>i st. snd (ResumeOne env i True st)) now ns st))"
proof (induction ns arbitrary: st)
  case (Cons n ns)
  obtain t s where st: "st = (t, s)" by fastforce
  obtain t1 s1 where e: "snd (ResumeOne env (node_task n) True (t, s)) = (t1, s1)"
    by (cases "snd (ResumeOne env (node_task n) True (t, s))")
  have "Q s1" using ResumeOne_keeps [of "(t, s)" "node_task n" True] Cons.prems by (simp add: st e)
  with Cons show ?case by (simp add: st e)
qed simp

lemma TickTimeOut_keeps: "Q (snd st) \<Longrightarrow> Q (snd (TickTimeOut env now st))"
  using fire_keeps by (simp add: TickTimeOut_def DoTimeOutTask_def Let_def end_round_def)

lemma ResumeAll_keeps: "Q (snd st) \<Longrightarrow> Q (snd (snd (ResumeAll env co_id_list st)))"
  unfolding ResumeAll_def by (induction co_id_list arbitrary: st) (simp_all add: CoResume_keeps)

end

end
