(* ===== verification/Object_Pool.thy ===== *)
theory Object_Pool
  imports Prelude "HOL-Library.Multiset"
begin

text \<open>
  \<open>ObjectPool\<close> of \<open>src/commlib/object_pool.h\<close>: a vector of objects, the last of which is handed out
  next.  The deleter of a handed-out pointer puts the object back.  An object is a value of type
  \<open>'o\<close>, its identity.
\<close>

datatype pool_error = logic_error

definition pool_add :: "'o \<Rightarrow> 'o list \<Rightarrow> 'o list" where
  "pool_add x pool = pool @ [x]"

definition pool_get :: "'o list \<Rightarrow> pool_error + 'o \<times> 'o list" where
  "pool_get pool = (if pool = [] then Inl logic_error else Inr (last pool, butlast pool))"

definition pool_get_shared :: "'o list \<Rightarrow> pool_error + 'o \<times> 'o list" where
  "pool_get_shared pool = (if pool = [] then Inl logic_error else Inr (last pool, butlast pool))"

definition pool_deleter :: "'o \<Rightarrow> 'o list \<Rightarrow> 'o list" where
  "pool_deleter x pool = pool @ [x]"

definition pool_empty :: "'o list \<Rightarrow> bool" where
  "pool_empty pool \<longleftrightarrow> pool = []"

definition pool_size :: "'o list \<Rightarrow> nat" where
  "pool_size pool = length pool"

subsection \<open>A store that lends objects\<close>

datatype 'o lending = Borrow | Bring_back 'o

locale object_store =
  fixes take_one :: "'s \<Rightarrow> 'e + 'o \<times> 's" and put_back :: "'o \<Rightarrow> 's \<Rightarrow> 's" and stock :: "'s \<Rightarrow> 'o multiset"
  assumes take_some: "stock s \<noteq> {#} \<Longrightarrow> \<exists>x s'. take_one s = Inr (x, s') \<and> stock s = add_mset x (stock s')"
    and take_none: "stock s = {#} \<Longrightarrow> \<exists>e. take_one s = Inl e"
    and put_stock: "stock (put_back x s) = add_mset x (stock s)"
begin

lemma take_stock: "take_one s = Inr (x, s') \<Longrightarrow> stock s = add_mset x (stock s')"
  using take_some [of s] take_none [of s] by (cases "stock s = {#}") auto

text \<open>The objects that are out are a list; only an object that is out can be brought back.\<close>

fun lend :: "'o lending \<Rightarrow> 's \<times> 'o list \<Rightarrow> 's \<times> 'o list" where
  "lend Borrow (s, lent) = (case take_one s of Inl e \<Rightarrow> (s, lent) | Inr (x, s') \<Rightarrow> (s', x # lent))"
| "lend (Bring_back x) (s, lent) = (if x \<in> set lent then (put_back x s, remove1 x lent) else (s, lent))"

lemma lend_total: "stock (fst (lend e st)) + mset (snd (lend e st)) = stock (fst st) + mset (snd st)"
proof (cases st)
  case (Pair s lent)
  show ?thesis
  proof (cases e)
    case Borrow
    then show ?thesis
      by (auto simp: Pair split: sum.split dest!: take_stock)
  next
    case (Bring_back x)
    then show ?thesis
      by (auto simp: Pair put_stock dest: insert_DiffM)
  qed
qed

lemma lend_all_total: "stock (fst (fold lend es st)) + mset (snd (fold lend es st)) = stock (fst st) + mset (snd st)"
  by (induction es arbitrary: st) (simp_all add: lend_total)

text \<open>Whatever is borrowed and brought back, no object is out twice, or out and in stock.\<close>

lemma lent_once:
  assumes "\<And>x. count (stock s) x \<le> 1"
  shows "distinct (snd (fold lend es (s, [])))"
    "x \<in> set (snd (fold lend es (s, []))) \<Longrightarrow> x \<notin># stock (fst (fold lend es (s, [])))"
proof -
  have total: "stock (fst (fold lend es (s, []))) + mset (snd (fold lend es (s, []))) = stock s"
    using lend_all_total [of es "(s, [])"] by simp
  let ?L = "snd (fold lend es (s, []))"
  have le: "count (stock (fst (fold lend es (s, [])))) y + count (mset ?L) y \<le> 1" for y
    using assms [of y] arg_cong [OF total, of "\<lambda>m. count m y"] by simp
  show "distinct ?L"
    unfolding distinct_count_atmost_1
  proof
    fix a
    show "count (mset ?L) a = (if a \<in> set ?L then 1 else 0)"
    proof (cases "a \<in> set ?L")
      case True
      then have "0 < count (mset ?L) a" by simp
      with le [of a] have "count (mset ?L) a = 1" by linarith
      with True show ?thesis by simp
    qed (simp add: not_in_iff [symmetric])
  qed
  assume "x \<in> set ?L"
  then have "0 < count (mset ?L) x" by simp
  with le [of x] have "count (stock (fst (fold lend es (s, [])))) x = 0" by linarith
  then show "x \<notin># stock (fst (fold lend es (s, [])))" by (simp add: not_in_iff)
qed

end

lemma mset_last: "xs \<noteq> [] \<Longrightarrow> mset xs = add_mset (last xs) (mset (butlast xs))"
  by (cases xs rule: rev_cases) auto

interpretation trans_pool: object_store pool_get_shared pool_deleter mset
  by unfold_locales (auto simp: pool_get_shared_def pool_deleter_def mset_last)

interpretation unique_pool: object_store pool_get pool_deleter mset
  by unfold_locales (auto simp: pool_get_def pool_deleter_def mset_last)

end
