(* ===== verification/Trans_Mgr.thy ===== *)
theory Trans_Mgr
  imports Co_Invariant Object_Pool
begin

text \<open>
  \<open>TransMgr\<close> of \<open>src/commlib/trans/trans_mgr.h\<close>: the pools of transaction objects, one per command,
  and the dispatch of messages to new and to waiting transactions.

  A task is the lambda \<open>[trans](CoYield &co) { trans->DoTask(co); }\<close>: the command of the pool its
  object came from, and the object.  When the lambda is destroyed the pointer's deleter brings the
  object back (the local copy of the pointer in \<open>OnMsg\<close> lives until \<open>OnMsg\<close> returns, with no other
  step of the program in between).  The world of the coroutines is the map of pools and the rest of
  the application, \<open>'w\<close>; \<open>DoTask\<close> works on the latter.
\<close>

record trans_msg =
  m_cmd :: u32
  m_co_id :: u32
  m_data :: bytes

record ('o, 'w) tm_world =
  trans_map :: "u32 \<Rightarrow> 'o list option"
  app :: 'w

text \<open>A message of a server is a \<open>TransMsg\<close> with more in it: an extension \<open>'m\<close> of the record.\<close>

type_synonym ('o, 'k, 'm, 'w) tm_states = "(u32 \<times> 'o, 'k, 'm trans_msg_scheme, ('o, 'w) tm_world) co_state"
type_synonym ('o, 'k, 'm, 'w) tm_envs = "(u32 \<times> 'o, 'k, 'm trans_msg_scheme, ('o, 'w) tm_world) co_env"
type_synonym ('o, 'k, 'w) tm_state = "('o, 'k, unit, 'w) tm_states"
type_synonym ('o, 'k, 'w) tm_env = "('o, 'k, unit, 'w) tm_envs"

definition pool_of :: "('o, 'w) tm_world \<Rightarrow> u32 \<Rightarrow> 'o list" where
  "pool_of w cmd = (case trans_map w cmd of None \<Rightarrow> [] | Some pool \<Rightarrow> pool)"

definition set_pool :: "u32 \<Rightarrow> 'o list \<Rightarrow> ('o, 'w) tm_world \<Rightarrow> ('o, 'w) tm_world" where
  "set_pool cmd pool w = w\<lparr>trans_map := (trans_map w)(cmd \<mapsto> pool)\<rparr>"

definition give_back :: "u32 \<times> 'o \<Rightarrow> ('o, 'w) tm_world \<Rightarrow> ('o, 'w) tm_world" where
  "give_back task w = set_pool (fst task) (pool_deleter (snd task) (pool_of w (fst task))) w"

text \<open>The environment of the coroutines, from the code of the transactions.\<close>

fun in_app :: "('o, 'w) tm_world \<Rightarrow> ('k, 'w) outcome \<Rightarrow> ('k, ('o, 'w) tm_world) outcome" where
  "in_app w (Finish a) = Finish (w\<lparr>app := a\<rparr>)"
| "in_app w (YieldFor tmo k a) = YieldFor tmo k (w\<lparr>app := a\<rparr>)"

definition tm_env ::
  "('o \<Rightarrow> u32 \<Rightarrow> 'k) \<Rightarrow> ('k \<Rightarrow> int \<Rightarrow> 'm trans_msg_scheme option \<Rightarrow> 'w \<Rightarrow> ('k, 'w) outcome) \<Rightarrow>
   ('w \<Rightarrow> int) \<Rightarrow> (u32 timer \<Rightarrow> nat) \<Rightarrow> ('o, 'k, 'm, 'w) tm_envs" where
  "tm_env start run clk ml =
    \<lparr>body_start = (\<lambda>task i. start (snd task) i),
     body_run = (\<lambda>k ret msg w. in_app w (run k ret msg (app w))),
     clock = (\<lambda>w. clk (app w)), malloc = ml, released = give_back\<rparr>"

subsection \<open>Operations\<close>

definition RegisterCmd :: "u32 \<Rightarrow> int \<Rightarrow> (nat \<Rightarrow> 'o) \<Rightarrow> ('o, 'w) tm_world \<Rightarrow> bool \<times> ('o, 'w) tm_world" where
  "RegisterCmd cmd cnt new w =
    (if trans_map w cmd \<noteq> None then (False, w)
     else (True, fold (\<lambda>i w. set_pool cmd (pool_add (new i) (pool_of w cmd)) w) [0..<nat cnt] w))"

text \<open>
  \<open>trans_map_[cmd]\<close> makes an empty pool for a command that has none.  After the test \<open>get_shared\<close> does
  not throw.
\<close>

definition OnMsg ::
  "('o, 'k, 'm, 'w) tm_envs \<Rightarrow> 'm trans_msg_scheme \<Rightarrow> ('o, 'k, 'm, 'w) tm_states \<Rightarrow> int \<times> ('o, 'k, 'm, 'w) tm_states" where
  "OnMsg env msg st =
    (if m_co_id msg = 0 then
       (let cmd = m_cmd msg; w = set_pool cmd (pool_of (world (snd st)) cmd) (world (snd st));
            st1 = (fst st, (snd st)\<lparr>world := w\<rparr>) in
        if pool_empty (pool_of w cmd) then (-1, st1)
        else case pool_get_shared (pool_of w cmd) of Inl _ \<Rightarrow> (-1, st1)
        | Inr (x, pool) \<Rightarrow>
            (case AddTack (cmd, x) (fst st1, (snd st1)\<lparr>world := set_pool cmd pool w\<rparr>) of (i, st2) \<Rightarrow>
               ResumeOneWithMsg env i msg st2))
     else if \<not> CoIdExist (m_co_id msg) st then (-1, st)
     else ResumeOneWithMsg env (m_co_id msg) msg st)"

definition TickTimeOutCo :: "('o, 'k, 'm, 'w) tm_envs \<Rightarrow> int \<Rightarrow> ('o, 'k, 'm, 'w) tm_states \<Rightarrow> ('o, 'k, 'm, 'w) tm_states" where
  "TickTimeOutCo env now_ms st = TickTimeOut env now_ms st"

subsection \<open>Where the objects are\<close>

text \<open>
  Every registered object is in its command's pool or held by the task of exactly one coroutine.
  A free \<open>Coroutine\<close> holds no task.
\<close>

definition task_of :: "('t, 'k, 'm) coroutine \<Rightarrow> 't multiset" where
  "task_of co = (case co_task co of None \<Rightarrow> {#} | Some x \<Rightarrow> {#x#})"

definition tasks_of :: "('t, 'k, 'm) co_pool \<Rightarrow> 't multiset" where
  "tasks_of cp = sum_list (map task_of (objs cp))"

definition idle_clear :: "('t, 'k, 'm) co_pool \<Rightarrow> bool" where
  "idle_clear cp \<longleftrightarrow> (\<forall>p \<in> set (free_coroutine cp). co_task (objs cp ! p) = None)"

definition in_hand :: "(u32 \<times> 'o) multiset \<Rightarrow> u32 \<Rightarrow> 'o multiset" where
  "in_hand ts cmd = image_mset snd (filter_mset (\<lambda>x. fst x = cmd) ts)"

definition stock_ok :: "(u32 \<Rightarrow> 'o multiset) \<Rightarrow> (u32 \<times> 'o, 'k, 'm, ('o, 'w) tm_world) co_rest \<Rightarrow> bool" where
  "stock_ok reg s \<longleftrightarrow> pool_ok (cpool s) \<and> idle_clear (cpool s) \<and>
     (\<forall>cmd. mset (pool_of (world s) cmd) + in_hand (tasks_of (cpool s)) cmd = reg cmd)"

lemma in_hand_add [simp]: "in_hand (A + B) cmd = in_hand A cmd + in_hand B cmd"
  by (simp add: in_hand_def)

lemma in_hand_empty [simp]: "in_hand {#} cmd = {#}"
  by (simp add: in_hand_def)

lemma in_hand_add_mset [simp]: "in_hand (add_mset x A) cmd =
    (if fst x = cmd then add_mset (snd x) (in_hand A cmd) else in_hand A cmd)"
  by (simp add: in_hand_def)

lemma pool_of_set_pool [simp]: "pool_of (set_pool cmd pool w) c = (if c = cmd then pool else pool_of w c)"
  by (simp add: pool_of_def set_pool_def)

lemma pool_of_app [simp]: "pool_of (w\<lparr>app := a\<rparr>) = pool_of w"
  by (simp add: pool_of_def fun_eq_iff)

lemma sum_list_swap: "p < length xs \<Longrightarrow>
    sum_list (map f (xs[p := x])) + f (xs ! p) = sum_list (map f xs) + (f x :: 'a multiset)"
proof (induction xs arbitrary: p)
  case (Cons y ys)
  then show ?case by (cases p) (auto simp: ac_simps)
qed simp

lemma tasks_upd_obj: "p < length (objs cp) \<Longrightarrow>
    tasks_of (upd_obj p f cp) + task_of (objs cp ! p) = tasks_of cp + task_of (f (objs cp ! p))"
  by (simp add: tasks_of_def upd_obj_def sum_list_swap)

lemma tasks_upd_same:
  assumes "\<And>co. co_task (f co) = co_task co"
  shows "tasks_of (upd_obj p f cp) = tasks_of cp"
proof (cases "p < length (objs cp)")
  case True
  have "task_of (f (objs cp ! p)) = task_of (objs cp ! p)" by (simp add: task_of_def assms)
  with tasks_upd_obj [OF True, of f] show ?thesis by simp
qed (simp add: upd_obj_def list_update_beyond)

lemma stock_ok_upd_obj:
  assumes "stock_ok reg s" "\<And>co. co_id (f co) = co_id co" "\<And>co. co_task (f co) = co_task co"
  shows "stock_ok reg (s\<lparr>cpool := upd_obj p f (cpool s)\<rparr>)"
proof -
  have "idle_clear (upd_obj p f (cpool s)) = idle_clear (cpool s)"
    by (auto simp: idle_clear_def upd_obj_def nth_update assms(3))
  with assms pool_ok_upd_obj [of "cpool s" f p] tasks_upd_same [of f p "cpool s"] show ?thesis
    by (simp add: stock_ok_def)
qed

lemma stock_ok_world: "(\<And>cmd. pool_of w cmd = pool_of (world s) cmd) \<Longrightarrow> stock_ok reg (s\<lparr>world := w\<rparr>) = stock_ok reg s"
  by (simp add: stock_ok_def)

lemma stock_ok_ids: "stock_ok reg (s\<lparr>timer_ids := ids\<rparr>) = stock_ok reg s"
  by (simp add: stock_ok_def)

text \<open>A coroutine that finishes brings its object back.\<close>

lemma stock_ok_Free:
  assumes ok: "stock_ok reg s" and fr: "FreeCoroutine i (cpool s) = (task, cp)"
    and w: "\<And>cmd. pool_of w cmd = pool_of (world s) cmd"
  shows "stock_ok reg (s\<lparr>cpool := cp, world := (case task of None \<Rightarrow> w | Some x \<Rightarrow> give_back x w)\<rparr>)"
proof (cases "action_coroutine (cpool s) i")
  case None
  with fr ok w show ?thesis by (simp add: FreeCoroutine_def stock_ok_def)
next
  case (Some p)
  from ok have pool: "pool_ok (cpool s)" and idle: "idle_clear (cpool s)" by (simp_all add: stock_ok_def)
  from pool_act [OF pool Some] obtain x where p: "p < length (objs (cpool s))" and x: "co_task (objs (cpool s) ! p) = Some x"
    by auto
  have cp: "task = Some x" "cp = (upd_obj p (\<lambda>co. co\<lparr>co_task := None\<rparr>) (cpool s))
      \<lparr>free_coroutine := free_coroutine (cpool s) @ [p], action_coroutine := (action_coroutine (cpool s))(i := None)\<rparr>"
    using fr Some x by (auto simp: FreeCoroutine_def)
  have "tasks_of (upd_obj p (\<lambda>co. co\<lparr>co_task := None\<rparr>) (cpool s)) + {#x#} = tasks_of (cpool s)"
    using tasks_upd_obj [OF p, of "\<lambda>co. co\<lparr>co_task := None\<rparr>"] x by (simp add: task_of_def)
  moreover have "tasks_of cp = tasks_of (upd_obj p (\<lambda>co. co\<lparr>co_task := None\<rparr>) (cpool s))"
    by (simp add: cp tasks_of_def)
  ultimately have t: "tasks_of (cpool s) = tasks_of cp + {#x#}" by simp
  have "idle_clear cp" using idle p by (auto simp: cp idle_clear_def upd_obj_def nth_update)
  moreover have "mset (pool_of (give_back x w) cmd) + in_hand (tasks_of cp) cmd = reg cmd" for cmd
  proof -
    from ok have "mset (pool_of (world s) cmd) + in_hand (tasks_of (cpool s)) cmd = reg cmd"
      by (simp add: stock_ok_def)
    then show ?thesis by (auto simp: give_back_def pool_deleter_def w t)
  qed
  ultimately show ?thesis
    using pool_ok_Free(1) [OF pool fr] cp(1) by (simp add: stock_ok_def)
qed

text \<open>The objects stay conserved in every operation that resumes a coroutine.\<close>

interpretation stock: co_invariant "tm_env start run clk ml" "stock_ok reg" "\<lambda>_. True" "\<lambda>_. True"
  for start run clk ml reg
proof unfold_locales
  fix s k ret i tmo k' w
  assume ok: "stock_ok reg s"
    and y: "body_run (tm_env start run clk ml) k ret (GetMsg i (cpool s)) (world s) = YieldFor tmo k' w"
  from y obtain a where "w = (world s)\<lparr>app := a\<rparr>"
    by (cases "run k ret (GetMsg i (cpool s)) (app (world s))") (auto simp: tm_env_def)
  with ok show "True \<and> stock_ok reg (s\<lparr>world := w\<rparr>)" by (simp add: stock_ok_world)
next
  fix s k ret i w task cp
  assume ok: "stock_ok reg s" and fr: "FreeCoroutine i (cpool s) = (task, cp)"
    and f: "body_run (tm_env start run clk ml) k ret (GetMsg i (cpool s)) (world s) = Finish w"
  from f obtain a where "w = (world s)\<lparr>app := a\<rparr>"
    by (cases "run k ret (GetMsg i (cpool s)) (app (world s))") (auto simp: tm_env_def)
  then have "pool_of w cmd = pool_of (world s) cmd" for cmd by simp
  from stock_ok_Free [OF ok fr this]
  show "stock_ok reg (s\<lparr>cpool := cp, world := (case task of None \<Rightarrow> w | Some x \<Rightarrow> released (tm_env start run clk ml) x w)\<rparr>)"
    by (simp add: tm_env_def cong: option.case_cong)
qed (simp_all add: stock_ok_upd_obj stock_ok_ids)

lemma stock_ok_ResumeOneWithMsg: "env = tm_env start run clk ml \<Longrightarrow> stock_ok reg (snd st) \<Longrightarrow>
    stock_ok reg (snd (snd (ResumeOneWithMsg env i msg st)))"
  by (simp add: stock.ResumeOneWithMsg_keeps)

lemma stock_ok_Tick: "env = tm_env start run clk ml \<Longrightarrow> stock_ok reg (snd st) \<Longrightarrow> stock_ok reg (snd (TickTimeOutCo env now st))"
  by (simp add: TickTimeOutCo_def stock.TickTimeOut_keeps)

text \<open>A task moves from the pool into a new coroutine.\<close>

lemma tasks_New:
  assumes pool: "pool_ok cp" and len: "length (objs cp) < 2 ^ 32 - 2" and idle: "idle_clear cp"
    and new: "NewCoroutine task cp = (i, cp')"
  shows "tasks_of cp' = add_mset task (tasks_of cp)" "idle_clear cp'"
proof -
  from NewCoroutine_parts [OF pool len new] obtain p where
    p: "p \<in> set (free_coroutine (refill cp))" "p < length (objs (refill cp))" and
    cp': "cp' = (upd_obj p (\<lambda>co. co\<lparr>co_task := Some task, co_ctx := Fresh\<rparr>)
             ((refill cp)\<lparr>free_coroutine := tl (free_coroutine (refill cp))\<rparr>))
             \<lparr>action_coroutine := (action_coroutine cp)(i \<mapsto> p)\<rparr>"
    and hd: "p = hd (free_coroutine (refill cp))" by metis
  note ok = pool_ok_refill [OF pool len]
  have idle1: "idle_clear (refill cp)"
    using idle by (auto simp: idle_clear_def refill_def GetCoId_def Let_def nth_append new_object_def)
  have t1: "tasks_of (refill cp) = tasks_of cp"
    by (simp add: refill_def GetCoId_def Let_def tasks_of_def task_of_def new_object_def)
  let ?f = "\<lambda>co. co\<lparr>co_task := Some task, co_ctx := Fresh\<rparr>"
  have none: "task_of (objs (refill cp) ! p) = {#}" using idle1 p(1) by (simp add: idle_clear_def task_of_def)
  have "tasks_of cp' = tasks_of (upd_obj p ?f (refill cp))" by (simp add: cp' tasks_of_def upd_obj_def)
  with tasks_upd_obj [OF p(2), of ?f] none t1 show "tasks_of cp' = add_mset task (tasks_of cp)"
    by (simp add: task_of_def)
  from ok(1) have "distinct (free_coroutine (refill cp))" by (simp add: pool_ok_def)
  then have "p \<notin> set (tl (free_coroutine (refill cp)))"
    "set (tl (free_coroutine (refill cp))) \<subseteq> set (free_coroutine (refill cp))"
    using ok(2) hd by (cases "free_coroutine (refill cp)"; auto)+
  with idle1 show "idle_clear cp'" by (auto simp: cp' idle_clear_def upd_obj_def nth_update)
qed

lemma stock_ok_OnMsg:
  assumes env: "env = tm_env start run clk ml" and ok: "stock_ok reg (snd st)"
    and len: "length (objs (cpool (snd st))) < 2 ^ 32 - 2"
  shows "stock_ok reg (snd (snd (OnMsg env msg st)))"
proof (cases "m_co_id msg = 0")
  case True
  let ?s = "snd st" and ?cmd = "m_cmd msg"
  let ?w = "set_pool ?cmd (pool_of (world ?s) ?cmd) (world ?s)"
  have ok1: "stock_ok reg (?s\<lparr>world := ?w\<rparr>)" using ok by (simp add: stock_ok_world)
  show ?thesis
  proof (cases "pool_of (world ?s) ?cmd = []")
    case True
    with \<open>m_co_id msg = 0\<close> ok1 show ?thesis by (simp add: OnMsg_def Let_def pool_empty_def)
  next
    case False
    define x where "x = last (pool_of (world ?s) ?cmd)"
    define pool where "pool = butlast (pool_of (world ?s) ?cmd)"
    have ms: "mset (pool_of (world ?s) ?cmd) = add_mset x (mset pool)"
      using mset_last [OF False] by (simp add: x_def pool_def)
    obtain i cp where new: "NewCoroutine (?cmd, x) (cpool ?s) = (i, cp)"
      by (cases "NewCoroutine (?cmd, x) (cpool ?s)")
    from ok have P: "pool_ok (cpool ?s)" "idle_clear (cpool ?s)" by (simp_all add: stock_ok_def)
    note T = tasks_New [OF P(1) len P(2) new]
    let ?s2 = "?s\<lparr>world := set_pool ?cmd pool ?w, cpool := cp\<rparr>"
    have "mset (pool_of (set_pool ?cmd pool ?w) c) + in_hand (tasks_of cp) c = reg c" for c
    proof -
      from ok have "mset (pool_of (world ?s) c) + in_hand (tasks_of (cpool ?s)) c = reg c" by (simp add: stock_ok_def)
      then show ?thesis using ms by (auto simp: T)
    qed
    then have "stock_ok reg ?s2"
      using pool_ok_New(1) [OF P(1) len new] T by (simp add: stock_ok_def)
    with stock_ok_ResumeOneWithMsg [OF env, of reg "(fst st, ?s2)" i msg] True False new show ?thesis
      by (simp add: OnMsg_def Let_def pool_empty_def pool_get_shared_def AddTack_def x_def pool_def)
  qed
next
  case False
  with stock_ok_ResumeOneWithMsg [OF env ok] ok show ?thesis by (simp add: OnMsg_def)
qed

subsection \<open>What a message does\<close>

text \<open>A message without a coroutine starts one; a message for a coroutine that waits resumes it.\<close>

lemma OnMsg_new:
  assumes pool: "pool_ok (cpool (snd st))" and len: "length (objs (cpool (snd st))) < 2 ^ 32 - 2"
    and zero: "m_co_id msg = 0" and px: "pool_of (world (snd st)) (m_cmd msg) = pool @ [x]"
  obtains i p t s where "i \<noteq> 0" "\<not> CoIdExist i st"
    "OnMsg env msg st = (0, run_body env 1 i (body_start env (m_cmd msg, x) i) 0 (t, s))"
    "GetMsg i (cpool s) = Some msg" "action_coroutine (cpool s) i = Some p" "pool_ok (cpool s)"
    "flags_clear (cpool (snd st)) \<Longrightarrow> flags_clear (cpool s)"
    "app (world s) = app (world (snd st))" "pool_of (world s) (m_cmd msg) = pool"
proof -
  let ?cmd = "m_cmd msg" and ?s = "snd st"
  obtain i cp where new: "NewCoroutine (?cmd, x) (cpool ?s) = (i, cp)"
    by (cases "NewCoroutine (?cmd, x) (cpool ?s)")
  note N = pool_ok_New [OF pool len new]
  have act: "action_coroutine cp i \<noteq> None" using new by (auto simp: NewCoroutine_def Let_def)
  then obtain p where p: "action_coroutine cp i = Some p" by auto
  from NewCoroutine_parts [OF pool len new] p obtain q where
    q: "q < length (objs (refill (cpool ?s)))" "cp = (upd_obj q (\<lambda>co. co\<lparr>co_task := Some (?cmd, x), co_ctx := Fresh\<rparr>)
             ((refill (cpool ?s))\<lparr>free_coroutine := tl (free_coroutine (refill (cpool ?s)))\<rparr>))
             \<lparr>action_coroutine := (action_coroutine (cpool ?s))(i \<mapsto> q)\<rparr>" by metis
  with p have "p = q" by simp
  with q have fresh: "p < length (objs cp)" "co_task (objs cp ! p) = Some (?cmd, x)" "co_ctx (objs cp ! p) = Fresh"
    by (simp_all add: upd_obj_def)
  have id: "co_id (objs cp ! p) = i" using pool_act [OF N(1) p] pool_co_id [OF N(1)] by simp
  obtain t s where c: "CancelCoTimer i (fst st, ?s\<lparr>world := set_pool ?cmd pool (set_pool ?cmd (pool @ [x]) (world ?s)), cpool := cp\<rparr>) = (t, s)"
    by (cases "CancelCoTimer i (fst st, ?s\<lparr>world := set_pool ?cmd pool (set_pool ?cmd (pool @ [x]) (world ?s)), cpool := cp\<rparr>)")
  have eq: "cpool s = cp" "world s = set_pool ?cmd pool (set_pool ?cmd (pool @ [x]) (world ?s))"
    using CancelCoTimer_rest [of i "(fst st, ?s\<lparr>world := set_pool ?cmd pool (set_pool ?cmd (pool @ [x]) (world ?s)), cpool := cp\<rparr>)"] c
    by auto
  let ?s' = "s\<lparr>cpool := upd_obj p (\<lambda>co. co\<lparr>co_msg := Some msg\<rparr>) (cpool s)\<rparr>"
  show ?thesis
  proof (rule that [of i t ?s' p])
    show "OnMsg env msg st = (0, run_body env 1 i (body_start env (m_cmd msg, x) i) 0 (t, ?s'))"
      using zero px new p c fresh id
      by (simp add: OnMsg_def Let_def pool_empty_def pool_get_shared_def AddTack_def ResumeOneWithMsg_def
          ResumeWithMsg_enter_def FindCoId_def eq switch_to_def objs_upd_obj del: run_body.simps)
    show "GetMsg i (cpool ?s') = Some msg"
      using p fresh by (simp add: GetMsg_def FindCoId_def eq objs_upd_obj)
    show "i \<noteq> 0" "\<not> CoIdExist i st" using N by (simp_all add: CoIdExist_def FindCoId_def)
    show "pool_ok (cpool ?s')" using N(1) by (simp add: eq pool_ok_upd_obj)
    show "action_coroutine (cpool ?s') i = Some p" using p by (simp add: eq)
    show "pool_of (world ?s') ?cmd = pool" "app (world ?s') = app (world ?s)" by (simp_all add: eq) (simp add: set_pool_def)
    assume "flags_clear (cpool ?s)"
    then show "flags_clear (cpool ?s')"
      by (auto simp: eq q flags_clear_def upd_obj_def nth_update refill_def GetCoId_def Let_def nth_append new_object_def less_Suc_eq)
  qed
qed

lemma OnMsg_resume:
  assumes "m_co_id msg \<noteq> 0" "action_coroutine (cpool s) (m_co_id msg) = Some p" "pool_ok (cpool s)"
    "flags_clear (cpool s)" "co_ctx (objs (cpool s) ! p) = Saved k"
  obtains t' s' where "OnMsg env msg (t, s) = (0, run_body env 1 (m_co_id msg) k 0 (t', s'))"
    "GetMsg (m_co_id msg) (cpool s') = Some msg" "world s' = world s"
proof -
  let ?i = "m_co_id msg"
  obtain t1 s1 where c: "CancelCoTimer ?i (t, s) = (t1, s1)" by (cases "CancelCoTimer ?i (t, s)")
  have eq: "cpool s1 = cpool s" "world s1 = world s" using CancelCoTimer_rest [of ?i "(t, s)"] c by auto
  have p: "p < length (objs (cpool s))" "co_id (objs (cpool s) ! p) = ?i" "\<not> resume_by_time_out (objs (cpool s) ! p)"
    using pool_act [OF assms(3,2)] pool_co_id [OF assms(3)] assms(4) by (simp_all add: flags_clear_def)
  let ?s = "s1\<lparr>cpool := upd_obj p (\<lambda>co. co\<lparr>resume_by_time_out := False\<rparr>) (upd_obj p (\<lambda>co. co\<lparr>co_msg := Some msg\<rparr>) (cpool s1))\<rparr>"
  show ?thesis
  proof (rule that [of t1 ?s])
    show "OnMsg env msg (t, s) = (0, run_body env 1 ?i k 0 (t1, ?s))"
      using assms c p
      by (simp add: OnMsg_def CoIdExist_def FindCoId_def ResumeOneWithMsg_def ResumeWithMsg_enter_def eq switch_to_def
          objs_upd_obj Yield_return_def del: run_body.simps)
    show "GetMsg ?i (cpool ?s) = Some msg" using assms(2) p by (simp add: GetMsg_def FindCoId_def eq upd_obj_def)
    show "world ?s = world s" by (simp add: eq)
  qed
qed

end
