(* ===== verification/Co_Props.thy ===== *)
theory Co_Props
  imports Co_Invariant
begin

text \<open>
  What a tick does to the coroutines that wait, and the properties of the timer, of the coroutine
  pool and of the two together.
\<close>

subsection \<open>A coroutine that runs touches no other\<close>

definition co_view :: "u32 \<Rightarrow> ('t, 'k, 'm, 'w) co_state \<Rightarrow> timer_id option \<times> ('t, 'k, 'm) coroutine option" where
  "co_view j st = (timer_ids (snd st) j,
     map_option (\<lambda>p. objs (cpool (snd st)) ! p) (action_coroutine (cpool (snd st)) j))"

lemma pool_other:
  "pool_ok cp \<Longrightarrow> action_coroutine cp i = Some p \<Longrightarrow> action_coroutine cp j = Some q \<Longrightarrow> j \<noteq> i \<Longrightarrow> p \<noteq> q"
  using pool_act [of cp i p] pool_act [of cp j q] by auto

lemma view_upd_obj:
  assumes "pool_ok (cpool s)" "action_coroutine (cpool s) i = Some p" "j \<noteq> i"
  shows "co_view j (t, s\<lparr>cpool := upd_obj p f (cpool s)\<rparr>) = co_view j (t, s)"
  using pool_other [OF assms(1,2)] assms(3)
  by (cases "action_coroutine (cpool s) j") (auto simp: co_view_def upd_obj_def nth_update)

lemma view_Free:
  assumes "pool_ok (cpool s)" "FreeCoroutine i (cpool s) = (task, cp)" "j \<noteq> i"
  shows "co_view j (t, s\<lparr>cpool := cp, world := w\<rparr>) = co_view j (t, s)"
  using pool_other [OF assms(1)] assms(2,3)
  by (cases "action_coroutine (cpool s) j")
     (auto simp: co_view_def FreeCoroutine_def upd_obj_def nth_update split: option.splits)

text \<open>
  What running coroutine \<open>i\<close> does to the timer and to its own timer id: the nodes stay, a new one is
  its own, the id it had is cancelled, and the id it has is either gone or belongs to an address
  that was not in use.
\<close>

definition ran :: "u32 \<Rightarrow> ('t, 'k, 'm, 'w) co_state \<Rightarrow> ('t, 'k, 'm, 'w) co_state \<Rightarrow> bool" where
  "ran i st st' \<longleftrightarrow>
     firing (fst st') = firing (fst st) \<and> set (timer_set (fst st)) \<subseteq> set (timer_set (fst st')) \<and>
     (\<forall>n \<in> set (timer_set (fst st')). n \<in> set (timer_set (fst st)) \<or> node_task n = i) \<and>
     cancel_list (fst st') = cancel_list (fst st) \<union> set_option (timer_ids (snd st) i) \<and>
     (\<forall>j. j \<noteq> i \<longrightarrow> co_view j st' = co_view j st) \<and>
     (\<forall>tid. timer_ids (snd st') i = Some tid \<longrightarrow>
        fst tid \<notin> node_addr ` set (timer_set (fst st) @ firing (fst st)))"

lemma ran_run_body:
  assumes pool: "pool_ok (cpool s)" and act: "action_coroutine (cpool s) i = Some p"
    and ml: "legal_malloc (malloc env)" and none: "timer_ids s i = None"
  shows "ran i (t, s) (run_body env (Suc fuel) i k ret (t, s))"
proof (cases "body_run env k ret (GetMsg i (cpool s)) (world s)")
  case (Finish w)
  obtain task cp where fr: "FreeCoroutine i (cpool s) = (task, cp)" by fastforce
  with Finish none view_Free [OF pool fr] show ?thesis by (simp add: ran_def)
next
  case (YieldFor tmo k' w)
  obtain t1 tid where add: "AddTimer (malloc env t) (clock env w) tmo i False t = (t1, tid)"
    by (cases "AddTimer (malloc env t) (clock env w) tmo i False t")
  from AddTimer_parts [OF add] obtain n where
    t1: "t1 = t\<lparr>timer_set := emplace n (timer_set t)\<rparr>" and tid: "fst tid = malloc env t" "node_task n = i" by metis
  have "fst tid \<notin> node_addr ` set (timer_set t @ firing t)" using ml tid by (simp add: legal_malloc_def)
  moreover have "co_view j (t1, s\<lparr>world := w, timer_ids := (timer_ids s)(i \<mapsto> tid),
      cpool := upd_obj p (\<lambda>co. co\<lparr>co_ctx := Saved k'\<rparr>) (cpool s)\<rparr>) = co_view j (t, s)" if "j \<noteq> i" for j
    using view_upd_obj [OF pool act that] that by (simp add: co_view_def)
  ultimately show ?thesis
    using YieldFor add act set_emplace(1) [of n "timer_set t"] set_emplace(2) [of "timer_set t" n] tid(2) none
    by (auto simp add: ran_def Yield_save_def FindCoId_def t1 Let_def)
qed

lemma ran_switch_to:
  assumes pool: "pool_ok (cpool s)" and act: "action_coroutine (cpool s) i = Some p"
    and ml: "legal_malloc (malloc env)" and none: "timer_ids s i = None"
  shows "ran i (t, s) (switch_to env p (t, s))"
proof -
  from pool_act [OF pool act] pool_co_id [OF pool] have id: "co_id (objs (cpool s) ! p) = i" by simp
  have refl: "ran i (t, s) (t, s)" using none by (simp add: ran_def)
  show ?thesis
  proof (cases "co_ctx (objs (cpool s) ! p)")
    case NoCtx
    with refl show ?thesis by (simp add: switch_to_def Let_def)
  next
    case Fresh
    with refl id ran_run_body [OF pool act ml none, of t 0] show ?thesis
      by (simp add: switch_to_def Let_def split: option.split)
  next
    case (Saved k)
    let ?s = "s\<lparr>cpool := upd_obj p (\<lambda>co. co\<lparr>resume_by_time_out := False\<rparr>) (cpool s)\<rparr>"
    have "ran i (t, ?s) (run_body env (Suc 0) i k ret (t, ?s))" for ret
      by (rule ran_run_body [OF _ _ ml]) (use act none in \<open>simp_all add: pool_ok_upd_obj pool\<close>)
    with Saved id view_upd_obj [OF pool act] show ?thesis
      by (simp add: switch_to_def Let_def Yield_return_def ran_def)
  qed
qed

lemma ran_ResumeOne:
  assumes pool: "pool_ok (cpool (snd st))" and ml: "legal_malloc (malloc env)"
  shows "ran i st (snd (ResumeOne env i b st))"
proof -
  obtain t s where st1: "CancelCoTimer i st = (t, s)" by (cases "CancelCoTimer i st")
  have eq: "firing t = firing (fst st)" "timer_set t = timer_set (fst st)" "cpool s = cpool (snd st)"
    "timer_ids s = (timer_ids (snd st))(i := None)"
    "cancel_list t = cancel_list (fst st) \<union> set_option (timer_ids (snd st) i)"
    using st1 CancelCoTimer_rest [of i st]
    by (auto simp: CancelCoTimer_def CancelTimer_def split: option.splits)
  show ?thesis
  proof (cases "action_coroutine (cpool (snd st)) i")
    case None
    then show ?thesis
      by (simp add: ran_def ResumeOne_def CoResume_def Resume_enter_def FindCoId_def st1 eq co_view_def)
  next
    case (Some p)
    let ?s = "s\<lparr>cpool := upd_obj p (\<lambda>co. co\<lparr>resume_by_time_out := b\<rparr>) (cpool s)\<rparr>"
    have "ran i (t, ?s) (switch_to env p (t, ?s))"
      by (rule ran_switch_to [OF _ _ ml]) (use Some in \<open>simp_all add: pool_ok_upd_obj pool eq\<close>)
    moreover have "co_view j (t, ?s) = co_view j st" if "j \<noteq> i" for j
      using view_upd_obj [of s i p j] pool Some that by (simp add: eq co_view_def)
    ultimately show ?thesis
      using Some by (simp add: ran_def ResumeOne_def CoResume_def Resume_enter_def FindCoId_def st1 eq)
  qed
qed

subsection \<open>Who is resumed by a tick\<close>

lemma weak_malloc: "legal_malloc ml \<Longrightarrow> allocates False ml"
  by (simp add: allocates_def)

lemma co_ok_ids: "co_inv S {} ns (t, s) \<Longrightarrow>
    ids_ok S {} (set (timer_set t) \<union> set ns) (cancel_list t) (waiting (cpool s)) (timer_ids s)"
  by (simp add: co_inv_def timers_ok_def)

lemma co_ok_shape: "co_inv S R ns st \<Longrightarrow> shape_ok ns (fst st)"
  by (simp add: co_inv_def timers_ok_def)

lemma co_ok_pool: "co_inv S R ns st \<Longrightarrow> pool_ok (cpool (snd st))"
  by (simp add: co_inv_def)

lemma ids_ok_armed:
  "ids_ok True {} N C W ids \<longleftrightarrow> ids_ok False {} N C W ids \<and>
    (\<forall>i. W i \<longrightarrow> (\<exists>n\<in>N. node_task n = i \<and> ids i = Some (node_id n) \<and> node_id n \<notin> C))"
  (is "?strong \<longleftrightarrow> ?weak \<and> ?armed")
proof (intro iffI conjI)
  assume s: ?strong
  then show ?weak unfolding ids_ok_def by blast
  show ?armed
  proof (intro allI impI)
    fix i assume "W i"
    then obtain tid where "ids i = Some tid" using ids_okD(5) [OF s, of i] by auto
    with ids_okD(3,4) [OF s TrueI this] show "\<exists>n\<in>N. node_task n = i \<and> ids i = Some (node_id n) \<and> node_id n \<notin> C"
      by metis
  qed
next
  assume w: "?weak \<and> ?armed"
  show ?strong
  proof (rule ids_okI)
    fix i tid assume i: "ids i = Some tid"
    with w have "W i" using ids_okD(1) [of False "{}" N C W ids i tid] by simp
    moreover from this w obtain n where "n \<in> N" "node_task n = i" "ids i = Some (node_id n)" "node_id n \<notin> C" by blast
    ultimately show "W i \<and> i \<notin> {} \<and> (True \<longrightarrow> tid \<notin> C \<and> (\<exists>n\<in>N. node_id n = tid \<and> node_task n = i))"
      using i by auto
  qed (use w in \<open>auto simp: ids_ok_def\<close>)
qed

lemma co_inv_armed: "co_inv True {} [] st \<longleftrightarrow> co_ok {} [] st \<and> all_armed st"
proof -
  have "all_armed st \<longleftrightarrow> (\<forall>i. waiting (cpool (snd st)) i \<longrightarrow> (\<exists>n\<in>set (timer_set (fst st)).
      node_task n = i \<and> timer_ids (snd st) i = Some (node_id n) \<and> node_id n \<notin> cancel_list (fst st)))"
    unfolding all_armed_def armed_def waits_on_def by blast
  then show ?thesis unfolding co_inv_def timers_ok_def by (simp only: ids_ok_armed list.set Un_empty_right) blast
qed

lemma waits_on_view: "co_view i st' = co_view i st \<Longrightarrow> waits_on st' i n \<longleftrightarrow> waits_on st i n"
  by (simp add: waits_on_def co_view_def)

lemma ranD:
  assumes "ran i st st'"
  shows "firing (fst st') = firing (fst st)" "set (timer_set (fst st)) \<subseteq> set (timer_set (fst st'))"
    "j \<noteq> i \<Longrightarrow> co_view j st' = co_view j st" "j \<noteq> i \<Longrightarrow> timer_ids (snd st') j = timer_ids (snd st) j"
    "fst tid \<in> node_addr ` set (firing (fst st)) \<Longrightarrow> timer_ids (snd st') i \<noteq> Some tid"
    "n \<in> set (timer_set (fst st')) \<Longrightarrow> node_task n \<noteq> i \<Longrightarrow> n \<in> set (timer_set (fst st))"
    "cancel_list (fst st') = cancel_list (fst st) \<union> set_option (timer_ids (snd st) i)"
proof -
  from assms show "firing (fst st') = firing (fst st)" "set (timer_set (fst st)) \<subseteq> set (timer_set (fst st'))"
    and v: "j \<noteq> i \<Longrightarrow> co_view j st' = co_view j st"
    and "n \<in> set (timer_set (fst st')) \<Longrightarrow> node_task n \<noteq> i \<Longrightarrow> n \<in> set (timer_set (fst st))"
    and "cancel_list (fst st') = cancel_list (fst st) \<union> set_option (timer_ids (snd st) i)"
    by (auto simp: ran_def)
  from v show "j \<noteq> i \<Longrightarrow> timer_ids (snd st') j = timer_ids (snd st) j" by (simp add: co_view_def)
  show "timer_ids (snd st') i \<noteq> Some tid" if "fst tid \<in> node_addr ` set (firing (fst st))"
  proof
    assume "timer_ids (snd st') i = Some tid"
    with assms have "fst tid \<notin> node_addr ` set (timer_set (fst st) @ firing (fst st))" unfolding ran_def by blast
    with that show False by (simp add: image_Un)
  qed
qed

text \<open>What one node of a round does: the coroutine it resumes, if any, and what it leaves alone.\<close>

definition one_fired ::
  "('t, 'k, 'm, 'w) co_env \<Rightarrow> u32 tnode \<Rightarrow> u32 tnode list \<Rightarrow> ('t, 'k, 'm, 'w) co_state \<Rightarrow> ('t, 'k, 'm, 'w) co_state \<Rightarrow> bool"
where
  "one_fired env m ns st st1 \<longleftrightarrow>
     firing (fst st1) = firing (fst st) \<and>
     (\<forall>n \<in> set ns \<union> set (timer_set (fst st)). node_id n \<noteq> node_id m) \<and>
     (\<forall>tid. tid \<noteq> node_id m \<longrightarrow> (tid \<in> cancel_list (fst st1) \<longleftrightarrow> tid \<in> cancel_list (fst st))) \<and>
     (waits_on st (node_task m) m \<longrightarrow> node_id m \<notin> cancel_list (fst st) \<longrightarrow> st1 = time_out_exec env (node_task m) st) \<and>
     (\<forall>i. \<not> (waits_on st i m \<and> node_id m \<notin> cancel_list (fst st)) \<longrightarrow>
        co_view i st1 = co_view i st \<and>
        (\<forall>n \<in> set (timer_set (fst st1)). node_task n = i \<longrightarrow> n \<in> set (timer_set (fst st)))) \<and>
     (\<forall>i tid. fst tid \<in> node_addr ` set (firing (fst st)) \<longrightarrow> timer_ids (snd st) i \<noteq> Some tid \<longrightarrow>
        timer_ids (snd st1) i \<noteq> Some tid)"

lemma one_firedD:
  assumes "one_fired env m ns st st1"
  shows "firing (fst st1) = firing (fst st)"
    "n \<in> set ns \<union> set (timer_set (fst st)) \<Longrightarrow> node_id n \<noteq> node_id m"
    "tid \<noteq> node_id m \<Longrightarrow> tid \<in> cancel_list (fst st1) \<longleftrightarrow> tid \<in> cancel_list (fst st)"
    "waits_on st (node_task m) m \<Longrightarrow> node_id m \<notin> cancel_list (fst st) \<Longrightarrow> st1 = time_out_exec env (node_task m) st"
    "\<not> (waits_on st i m \<and> node_id m \<notin> cancel_list (fst st)) \<Longrightarrow> co_view i st1 = co_view i st"
    "\<not> (waits_on st i m \<and> node_id m \<notin> cancel_list (fst st)) \<Longrightarrow>
      n \<in> set (timer_set (fst st1)) \<Longrightarrow> node_task n = i \<Longrightarrow> n \<in> set (timer_set (fst st))"
    "fst tid \<in> node_addr ` set (firing (fst st)) \<Longrightarrow> timer_ids (snd st) i \<noteq> Some tid \<Longrightarrow> timer_ids (snd st1) i \<noteq> Some tid"
  using assms unfolding one_fired_def by blast+

lemma one_fired_drop:
  assumes "co_ok {} (m # ns) (t, s)" "node_id m \<in> cancel_list t"
  shows "one_fired env m ns (t, s) (t\<lparr>cancel_list := cancel_list t - {node_id m}\<rparr>, s)"
proof -
  have "node_id n \<noteq> node_id m" if "n \<in> set ns \<union> set (timer_set t)" for n
    using head_differs [of m ns t n] co_ok_shape [OF assms(1)] that by auto
  with assms(2) show ?thesis by (simp add: one_fired_def co_view_def)
qed

lemma one_fired_run:
  assumes "co_ok {} (m # ns) st" "legal_malloc (malloc env)" "node_id m \<notin> cancel_list (fst st)"
    "timer_ids (snd st) (node_task m) = Some (node_id m)"
  shows "one_fired env m ns st (time_out_exec env (node_task m) st)"
proof -
  note r = ran_ResumeOne [OF co_ok_pool [OF assms(1)] assms(2), of "node_task m" True]
  have "node_id n \<noteq> node_id m" if "n \<in> set ns \<union> set (timer_set (fst st))" for n
    using head_differs [of m ns "fst st" n] co_ok_shape [OF assms(1)] that by auto
  moreover have "i \<noteq> node_task m" if "\<not> (waits_on st i m \<and> node_id m \<notin> cancel_list (fst st))" for i
    using that assms(3,4) by (auto simp: waits_on_def)
  moreover have "timer_ids (snd (time_out_exec env (node_task m) st)) i \<noteq> Some tid"
    if "fst tid \<in> node_addr ` set (firing (fst st))" "timer_ids (snd st) i \<noteq> Some tid" for i tid
    using ranD(4) [OF r, of i] ranD(5) [OF r, of tid] that by (cases "i = node_task m") simp_all
  ultimately show ?thesis
    using ranD(1,7) [OF r] assms(4) ranD(3,6) [OF r] unfolding one_fired_def by simp
qed

lemma fire_all_step:
  assumes ok: "co_ok {} (m # ns) st" and ml: "legal_malloc (malloc env)"
  obtains st1 where "fire_all (time_out_exec env) now (m # ns) st = fire_all (time_out_exec env) now ns st1"
    "co_ok {} ns st1" "one_fired env m ns st st1"
proof -
  obtain t s where st: "st = (t, s)" by fastforce
  obtain st1 where
    fire: "fire_all (time_out_exec env) now (m # ns) (t, s) = fire_all (time_out_exec env) now ns st1"
    and ok1: "co_ok {} ns st1"
    and c: "node_id m \<in> cancel_list t \<and> st1 = (t\<lparr>cancel_list := cancel_list t - {node_id m}\<rparr>, s) \<or>
     node_id m \<notin> cancel_list t \<and> st1 = time_out_exec env (node_task m) (t, s) \<and>
       timer_ids s (node_task m) = Some (node_id m)"
    by (rule fire_all_Cons [OF ok [unfolded st] weak_malloc [OF ml]])
  have "one_fired env m ns st st1"
    using c one_fired_drop [OF ok [unfolded st]] one_fired_run [OF ok ml] by (auto simp: st)
  with that fire ok1 show thesis unfolding st by blast
qed

definition unarmed :: "('t, 'k, 'm, 'w) co_state \<Rightarrow> u32 \<Rightarrow> u32 tnode set \<Rightarrow> bool" where
  "unarmed st i N \<longleftrightarrow> (\<forall>n \<in> N. waits_on st i n \<longrightarrow> node_id n \<in> cancel_list (fst st))"

lemma fire_all_keeps:
  assumes ml: "legal_malloc (malloc env)"
  shows "co_ok {} ns st \<Longrightarrow> unarmed st i (set ns) \<Longrightarrow>
    (let st' = fire_all (time_out_exec env) now ns st in
     co_view i st' = co_view i st \<and>
     (unarmed st i (set (timer_set (fst st))) \<longrightarrow> unarmed st' i (set (timer_set (fst st')))))"
proof (induction ns arbitrary: st)
  case (Cons m ns)
  obtain st1 where fire: "fire_all (time_out_exec env) now (m # ns) st = fire_all (time_out_exec env) now ns st1"
    and ok1: "co_ok {} ns st1" and f: "one_fired env m ns st st1"
    by (rule fire_all_step [OF Cons.prems(1) ml])
  have no: "\<not> (waits_on st i m \<and> node_id m \<notin> cancel_list (fst st))"
    using Cons.prems(2) by (auto simp: unarmed_def)
  note v = one_firedD(5) [OF f no]
  have un: "unarmed st1 i N'"
    if "unarmed st i N" "N \<subseteq> set ns \<union> set (timer_set (fst st))" "\<And>n. n \<in> N' \<Longrightarrow> node_task n = i \<Longrightarrow> n \<in> N" for N N'
    unfolding unarmed_def
  proof (intro ballI impI)
    fix n assume n: "n \<in> N'" "waits_on st1 i n"
    then have "waits_on st i n" using waits_on_view [OF v] by simp
    moreover from this n(1) that(3) have "n \<in> N" by (simp add: waits_on_def)
    moreover from this that(2) have "node_id n \<noteq> node_id m" by (intro one_firedD(2) [OF f]) blast
    ultimately show "node_id n \<in> cancel_list (fst st1)"
      using that(1) one_firedD(3) [OF f, of "node_id n"] by (auto simp: unarmed_def)
  qed
  have "unarmed st1 i (set ns)" by (rule un [of "set ns"]) (use Cons.prems(2) in \<open>simp_all add: unarmed_def\<close>)
  note IH = Cons.IH [OF ok1 this]
  have "unarmed st1 i (set (timer_set (fst st1)))" if "unarmed st i (set (timer_set (fst st)))"
    by (rule un [OF that]) (simp, rule one_firedD(6) [OF f no])
  with IH [unfolded Let_def] show ?case unfolding fire Let_def v [symmetric] by blast
qed simp

lemma fire_all_gone:
  assumes ml: "legal_malloc (malloc env)"
  shows "co_ok {} ns st \<Longrightarrow> fst tid \<in> node_addr ` set (firing (fst st)) \<Longrightarrow> timer_ids (snd st) i \<noteq> Some tid \<Longrightarrow>
    timer_ids (snd (fire_all (time_out_exec env) now ns st)) i \<noteq> Some tid"
proof (induction ns arbitrary: st)
  case (Cons m ns)
  obtain st1 where fire: "fire_all (time_out_exec env) now (m # ns) st = fire_all (time_out_exec env) now ns st1"
    and ok1: "co_ok {} ns st1" and f: "one_fired env m ns st st1"
    by (rule fire_all_step [OF Cons.prems(1) ml])
  from Cons.IH [OF ok1] one_firedD(1) [OF f] one_firedD(7) [OF f Cons.prems(2,3)] Cons.prems(2) fire
  show ?case by simp
qed simp

lemma fire_all_resumes:
  assumes ml: "legal_malloc (malloc env)"
  shows "co_ok {} ns st \<Longrightarrow> waits_on st i n \<Longrightarrow> node_id n \<notin> cancel_list (fst st) \<Longrightarrow> n \<in> set ns \<Longrightarrow>
    set ns \<subseteq> set (firing (fst st)) \<Longrightarrow>
    timer_ids (snd (fire_all (time_out_exec env) now ns st)) i \<noteq> Some (node_id n)"
proof (induction ns arbitrary: st)
  case (Cons m ns)
  have addr: "fst (node_id n) \<in> node_addr ` set (firing (fst st))"
    using Cons.prems(4,5) by (intro image_eqI [of _ _ n]) (auto simp: node_id_def node_addr_def)
  obtain st1 where fire: "fire_all (time_out_exec env) now (m # ns) st = fire_all (time_out_exec env) now ns st1"
    and ok1: "co_ok {} ns st1" and f: "one_fired env m ns st st1"
    by (rule fire_all_step [OF Cons.prems(1) ml])
  note same = one_firedD(1) [OF f]
  show ?case
  proof (cases "m = n")
    case True
    with one_firedD(4) [OF f] Cons.prems(2,3) have 1: "st1 = time_out_exec env i st" by (simp add: waits_on_def)
    have "timer_ids (snd st1) i \<noteq> Some (node_id n)"
      using ranD(5) [OF ran_ResumeOne [OF co_ok_pool [OF Cons.prems(1)] ml] addr] by (simp add: 1)
    with fire_all_gone [OF ml ok1] addr same fire show ?thesis by simp
  next
    case False
    with Cons.prems(4) have n: "n \<in> set ns" by simp
    with one_firedD(2) [OF f, of n] have d: "node_id n \<noteq> node_id m" by simp
    with Cons.prems(2) have "\<not> (waits_on st i m \<and> node_id m \<notin> cancel_list (fst st))" by (simp add: waits_on_def)
    from waits_on_view [OF one_firedD(5) [OF f this], of n] Cons.prems(2) have w: "waits_on st1 i n" by simp
    from Cons.IH [OF ok1 w _ n] Cons.prems(3,5) one_firedD(3) [OF f d] same fire show ?thesis by simp
  qed
qed simp

lemma end_round_snd [simp]: "snd (end_round st) = snd st"
  by (simp add: end_round_def)

lemma co_view_end_round [simp]: "co_view i (end_round st) = co_view i st"
  by (simp add: co_view_def)

lemma TickTimeOut_weak: "co_ok {} [] st \<Longrightarrow> legal_malloc (malloc env) \<Longrightarrow> co_ok {} [] (TickTimeOut env now st)"
  by (intro TickTimeOut_ok weak_malloc)

lemma TickTimeOut_resumes:
  assumes ok: "co_ok {} [] st" and ml: "legal_malloc (malloc env)" and n: "armed st i n" "fst n \<le> now"
  shows "timer_ids (snd (TickTimeOut env now st)) i \<noteq> Some (node_id n)"
proof -
  have due: "n \<in> set (due_at now st)" using n by (simp add: due_at_def armed_def)
  then have "due_at now st \<noteq> []" by auto
  moreover have "waits_on (begin_round now st) i n" "node_id n \<notin> cancel_list (fst (begin_round now st))"
    using n by (simp_all add: begin_round_def armed_def waits_on_def)
  ultimately show ?thesis
    using fire_all_resumes [OF ml co_ok_begin_round [OF ok, of now] _ _ due]
    by (simp add: TickTimeOut_eq [OF ok] begin_round_def)
qed

lemma TickTimeOut_unarmed:
  assumes ok: "co_ok {} [] st" and ml: "legal_malloc (malloc env)"
  shows "\<forall>n. armed st i n \<longrightarrow> now < fst n \<Longrightarrow> co_view i (TickTimeOut env now st) = co_view i st"
    "\<forall>n. \<not> armed st i n \<Longrightarrow> \<forall>n. \<not> armed (TickTimeOut env now st) i n"
proof -
  let ?st = "begin_round now st"
  have b: "co_view i ?st = co_view i st" "cancel_list (fst ?st) = cancel_list (fst st)" "timer_ids (snd ?st) = timer_ids (snd st)"
    "set (timer_set (fst ?st)) \<subseteq> set (timer_set (fst st))" "set (due_at now st) \<subseteq> {n \<in> set (timer_set (fst st)). fst n \<le> now}"
    by (auto simp: begin_round_def co_view_def due_at_def)
  note k = fire_all_keeps [OF ml co_ok_begin_round [OF ok, of now], where i = i and now = now, unfolded Let_def b(1)]
  {
    assume "\<forall>n. armed st i n \<longrightarrow> now < fst n"
    then have "unarmed ?st i (set (due_at now st))" using b by (force simp: unarmed_def armed_def waits_on_def)
    with k show "co_view i (TickTimeOut env now st) = co_view i st" by (simp add: TickTimeOut_eq [OF ok])
  next
    assume n: "\<forall>n. \<not> armed st i n"
    then have "unarmed ?st i (set (due_at now st))" "unarmed ?st i (set (timer_set (fst ?st)))"
      using b by (force simp: unarmed_def armed_def waits_on_def)+
    with k n show "\<forall>n. \<not> armed (TickTimeOut env now st) i n"
      by (simp add: TickTimeOut_eq [OF ok] unarmed_def armed_def waits_on_def end_round_def)
  }
qed

subsection \<open>The timer\<close>

text \<open>
  C36: a round of the timer (\<open>Timer::DoTimeOutTask\<close>) over tasks that leave the timer alone runs, in the
  order of their times, exactly the tasks that are due and not cancelled.  Every due node leaves the
  set, the repeated ones come back at the current time plus their interval, the cancellations of
  the due nodes are used up, and the order of the set is kept.
\<close>

theorem timer_round:
  assumes "timer_ok t" "distinct (set_addrs t)"
    and "due = filter (\<lambda>n. fst n \<le> now) (timer_set t)" "live = uncancelled (cancel_list t) due"
    and "DoTimeOutTask (pure_exec run) now (t, s) = (t', s')"
  shows "s' = fold run (map node_task live) s \<and> sorted_wrt (\<lambda>n m. fst n \<le> fst m) live \<and>
    cancel_list t' = cancel_list t - node_id ` set due \<and>
    set (timer_set t') = {n \<in> set (timer_set t). now < fst n} \<union> repeated now live \<and> timer_ok t'"
proof -
  have "timer_ok t'"
    using timer_ok_do [of "pure_exec run" "(t, s)" now] assms(1,5) by (simp add: pure_exec_def)
  moreover have "sorted_wrt (\<lambda>n m. fst n \<le> fst m) live"
    using sorted_wrt_uncancelled [OF assms(1)] assms(3,4) by simp
  ultimately show ?thesis
    using DoTimeOutTask_pure [OF assms(1,2), where run = run and now = now and s = s] assms(3-5) by (simp add: Let_def)
qed

lemma timer_round_witness:
  "\<exists>t :: string timer. \<exists>t' s' due live. timer_ok t \<and> distinct (set_addrs t) \<and>
     due = filter (\<lambda>n. fst n \<le> 20) (timer_set t) \<and> live = uncancelled (cancel_list t) due \<and>
     DoTimeOutTask (pure_exec (\<lambda>k s. s @ [k])) 20 (t, []) = (t', s') \<and>
     s' = [''a'', ''c''] \<and> cancel_list t' = {} \<and> set (timer_set t') = {(30, 4, \<lparr>ti_task = ''d'', ti_interval = 5, ti_seq = 0, ti_repeat = False\<rparr>),
       (27, 3, \<lparr>ti_task = ''c'', ti_interval = 7, ti_seq = 0, ti_repeat = True\<rparr>)} \<and> timer_ok t'"
proof -
  let ?n = "\<lambda>d a k iv r. (d, a, \<lparr>ti_task = k, ti_interval = iv, ti_seq = 0, ti_repeat = r\<rparr>)"
  let ?t = "\<lparr>timer_set = [?n 5 1 ''a'' 5 False, ?n 9 2 ''b'' 9 False, ?n 20 3 ''c'' 7 True, ?n 30 4 ''d'' 5 False],
      cancel_list = {(2, 0)}, firing = []\<rparr> :: string timer"
  obtain t' s' where d: "DoTimeOutTask (pure_exec (\<lambda>k s. s @ [k])) 20 (?t, []) = (t', s')"
    by (cases "DoTimeOutTask (pure_exec (\<lambda>k s. s @ [k])) 20 (?t, [])")
  have ok: "timer_ok ?t" "distinct (set_addrs ?t)" by (simp_all add: timer_ok_def node_less_def set_addrs_def)
  have un: "uncancelled (cancel_list ?t) (filter (\<lambda>n. fst n \<le> 20) (timer_set ?t)) =
      [?n 5 1 ''a'' 5 False, ?n 20 3 ''c'' 7 True]"
    by (simp add: uncancelled_def node_id_def)
  note th = timer_round [OF ok refl refl d, unfolded un]
  have "s' = [''a'', ''c'']" "timer_ok t'" using th by (simp_all add: node_task_def)
  moreover have "cancel_list t' = {}" using th by (simp add: node_id_def)
  moreover have "set (timer_set t') = {?n 30 4 ''d'' 5 False, ?n 27 3 ''c'' 7 True}"
    using th by (simp only: set_filter [symmetric]) (simp add: repeated_Cons insert_commute)
  ultimately show ?thesis using ok d by blast
qed

subsection \<open>Coroutines that wait\<close>

text \<open>
  C5: which coroutines a tick (\<open>CoTask::DoTimeOutTask\<close>) resumes, whatever the coroutines that it
  resumes do.  A coroutine that waits on a timer which is pending, not cancelled and due no longer
  waits on it afterwards; every other coroutine that waits is untouched: none is resumed
  early, and one whose timer's id is among the cancelled ones
  (\<open>stale_cancel_loses_wake_up\<close>) is not resumed at all.  The
  state is well formed again.  Of the allocator it is only used that it does not return an address in
  use.
\<close>

theorem tick_resumes_due:
  assumes "co_ok {} [] st" "legal_malloc (malloc env)" "st' = TickTimeOut env now st"
  shows "co_ok {} [] st' \<and>
    (\<forall>i. waiting (cpool (snd st)) i \<longrightarrow>
       (\<exists>tid. timer_ids (snd st) i = Some tid \<and>
          (if \<exists>n. armed st i n \<and> fst n \<le> now then timer_ids (snd st') i \<noteq> Some tid
           else co_view i st' = co_view i st)))"
proof (intro conjI allI impI)
  show "co_ok {} [] st'" unfolding assms(3) by (rule TickTimeOut_weak [OF assms(1,2)])
  fix i assume w: "waiting (cpool (snd st)) i"
  obtain t s where st: "st = (t, s)" by fastforce
  obtain tid where tid: "timer_ids (snd st) i = Some tid"
    using ids_okD(5) [OF co_ok_ids [OF assms(1) [unfolded st]], of i] w st by auto
  have "timer_ids (snd st') i \<noteq> Some tid" if "armed st i n" "fst n \<le> now" for n
    using TickTimeOut_resumes [OF assms(1,2) that] that tid by (simp add: assms(3) armed_def waits_on_def)
  moreover have "co_view i st' = co_view i st" if "\<not> (\<exists>n. armed st i n \<and> fst n \<le> now)"
    unfolding assms(3) by (rule TickTimeOut_unarmed(1) [OF assms(1,2)]) (use that in force)
  ultimately show "\<exists>tid. timer_ids (snd st) i = Some tid \<and>
      (if \<exists>n. armed st i n \<and> fst n \<le> now then timer_ids (snd st') i \<noteq> Some tid
       else co_view i st' = co_view i st)"
    using tid by auto
qed

text \<open>A program to run: every coroutine waits 100 ms once, then writes down what it saw.\<close>

definition addrs_in_use :: "u32 timer \<Rightarrow> nat list" where
  "addrs_in_use t = map node_addr (timer_set t @ firing t)"

definition careful_malloc :: "u32 timer \<Rightarrow> nat" where
  "careful_malloc t = Suc (sum_list (addrs_in_use t) + \<Sum> (fst ` cancel_list t))"

definition demo_env :: "(u32 timer \<Rightarrow> nat) \<Rightarrow> (unit, nat, string, int \<times> (int \<times> string option) list) co_env" where
  "demo_env ml = \<lparr>body_start = (\<lambda>_ _. 0),
     body_run = (\<lambda>k ret msg (now, log). if k = 0 then YieldFor 100 1 (now, log) else Finish (now, (ret, msg) # log)),
     clock = fst, malloc = ml, released = (\<lambda>_ w. w)\<rparr>"

lemma sum_list_ge: "(x::nat) \<in> set xs \<Longrightarrow> x \<le> sum_list xs"
  by (induction xs) auto

lemma careful_malloc_ok: "legal_malloc careful_malloc" "no_stale_reuse careful_malloc"
proof -
  have "careful_malloc t \<notin> set (addrs_in_use t)" for t
    using sum_list_ge [of "careful_malloc t" "addrs_in_use t"] by (auto simp: careful_malloc_def)
  then show "legal_malloc careful_malloc"
    unfolding legal_malloc_def addrs_in_use_def by (metis image_set)
  have "careful_malloc t \<notin> fst ` cancel_list t" if "finite (cancel_list t)" for t
    using member_le_sum [of "careful_malloc t" "fst ` cancel_list t" "\<lambda>x. x"] that
    by (auto simp: careful_malloc_def)
  then show "no_stale_reuse careful_malloc" unfolding no_stale_reuse_def by blast
qed

definition at_time :: "int \<Rightarrow> ('t, 'k, 'm, int \<times> 'l) co_state \<Rightarrow> ('t, 'k, 'm, int \<times> 'l) co_state" where
  "at_time now st = (fst st, (snd st)\<lparr>world := (now, snd (world (snd st)))\<rparr>)"

lemmas demo_simps = co_init_def empty_timer_def empty_pool_def AddTack_def DoTack_def NewCoroutine_def
  refill_def GetCoId_def Let_def new_object_def upd_obj_def ResumeOne_def CancelCoTimer_def CancelTimer_def
  CoResume_def Resume_enter_def FindCoId_def switch_to_def GetMsg_def AddTimer_def Yield_save_def
  Yield_return_def FreeCoroutine_def demo_env_def c_div_def node_less_def at_time_def
  TickTimeOut_def DoTimeOutTask_def end_round_def node_id_def node_task_def ResumeOneWithMsg_def
  ResumeWithMsg_enter_def

lemma DoTack_ok:
  assumes "co_inv S {} [] st" "length (objs (cpool (snd st))) < 2 ^ 32 - 2" "allocates S (malloc env)"
  shows "co_inv S {} [] (snd (DoTack env task st))"
proof -
  obtain i st1 where add: "AddTack task st = (i, st1)" by (cases "AddTack task st")
  from ResumeOne_ok [OF AddTack_ok(1) [OF assms(1,2) add], of False i env] assms(3) show ?thesis
    by (simp add: DoTack_def add)
qed

lemma demo_start:
  assumes "legal_malloc ml"
  shows "co_ok {} [] (snd (DoTack (demo_env ml) () (co_init w)))"
  using assms by (intro DoTack_ok co_ok_init weak_malloc) (simp_all add: co_init_def empty_pool_def demo_env_def)

lemma tick_resumes_due_witness:
  "\<exists>st :: (unit, nat, string, int \<times> (int \<times> string option) list) co_state. \<exists>st'.
     st = snd (DoTack (demo_env careful_malloc) () (co_init (0, []))) \<and>
     st' = TickTimeOut (demo_env careful_malloc) 100 st \<and> waiting (cpool (snd st)) 1 \<and>
     co_ok {} [] st' \<and> timer_ids (snd st') 1 \<noteq> Some (1, 0)"
proof -
  let ?env = "demo_env careful_malloc"
  let ?st = "snd (DoTack ?env () (co_init (0, [])))"
  let ?n = "(100, 1, \<lparr>ti_task = 1, ti_interval = 100, ti_seq = 0, ti_repeat = False\<rparr>)"
  have ml: "legal_malloc (malloc ?env)" by (simp add: demo_env_def careful_malloc_ok)
  have ok: "co_ok {} [] ?st" by (rule demo_start [OF careful_malloc_ok(1)])
  define st where "st = ?st"
  have w: "waiting (cpool (snd st)) 1" unfolding st_def
    by (simp add: demo_simps careful_malloc_def addrs_in_use_def waiting_def)
  have "armed st 1 ?n" "timer_ids (snd st) 1 = Some (1, 0)" unfolding st_def
    by (simp_all add: demo_simps careful_malloc_def addrs_in_use_def armed_def waits_on_def)
  with w tick_resumes_due [OF ok ml refl, of 100, folded st_def]
  have "co_ok {} [] (TickTimeOut ?env 100 st) \<and> timer_ids (snd (TickTimeOut ?env 100 st)) 1 \<noteq> Some (1, 0)"
    by (metis fst_conv option.inject order_refl)
  with w st_def show ?thesis by blast
qed

text \<open>
  \<open>ResumeAll\<close> does not cancel the timers: the coroutine it resumes leaves its timer behind.  The pool
  itself stays well formed.
\<close>

interpretation pool_inv: co_invariant env "\<lambda>s. pool_ok (cpool s)" "\<lambda>_. True" "\<lambda>_. True"
  by unfold_locales (auto simp: pool_ok_upd_obj dest: pool_ok_Free(1))

lemma ResumeAll_leaves_timer:
  assumes ok: "co_ok {} [] st" and ml: "legal_malloc (malloc env)" and n: "armed st i n"
    and w: "waiting (cpool (snd st)) i" and st': "snd (ResumeAll env [i] st) = st'"
  shows "n \<in> set (timer_set (fst st')) \<and> node_id n \<notin> cancel_list (fst st') \<and> \<not> co_ok {} [] st'"
proof -
  obtain t s where st: "st = (t, s)" by fastforce
  from w obtain p k where p: "action_coroutine (cpool s) i = Some p" and k: "co_ctx (objs (cpool s) ! p) = Saved k"
    by (auto simp: waiting_def st split: option.splits ctx.splits)
  from co_ok_pool [OF ok] have pool: "pool_ok (cpool s)" by (simp add: st)
  have P: "p < length (objs (cpool s))" and id: "co_id (objs (cpool s) ! p) = i"
    using pool_act [OF pool p] pool_co_id [OF pool, of p] by simp_all
  define s1 where "s1 = s\<lparr>cpool := upd_obj p (\<lambda>co. co\<lparr>resume_by_time_out := False\<rparr>) (cpool s)\<rparr>"
  have s1: "pool_ok (cpool s1)" "timer_ids s1 = timer_ids s" "action_coroutine (cpool s1) i = Some p"
    by (simp_all add: s1_def pool_ok_upd_obj pool p)
  have run: "st' = run_body env 1 i k 0 (t, s1)"
    using st' k P p id by (simp add: ResumeAll_def CoResume_def Resume_enter_def FindCoId_def st switch_to_def Let_def
        objs_upd_obj Yield_return_def upd_obj_twice s1_def del: run_body.simps)
  have n': "n \<in> set (timer_set t)" "node_id n \<notin> cancel_list t" "node_task n = i" "timer_ids s i = Some (node_id n)"
    using n by (simp_all add: st armed_def waits_on_def)
  show ?thesis
  proof (cases "body_run env k 0 (GetMsg i (cpool s1)) (world s1)")
    case (Finish u)
    obtain task cp where fr: "FreeCoroutine i (cpool s1) = (task, cp)" by fastforce
    from waiting_Free [OF s1(1) fr] have "\<not> waiting cp i" by simp
    moreover have st': "st' = (t, s1\<lparr>cpool := cp, world := (case task of None \<Rightarrow> u | Some x \<Rightarrow> released env x u)\<rparr>)"
      using run Finish fr by simp
    ultimately have "\<not> co_ok {} [] st'"
      using ids_okD(1) [OF co_ok_ids, of False "[]" "fst st'" "snd st'" i "node_id n"] n'(4) s1(2) by auto
    with st' n' show ?thesis by simp
  next
    case (YieldFor tmo k' u)
    obtain t1 tid where add: "AddTimer (malloc env t) (clock env u) tmo i False t = (t1, tid)"
      by (cases "AddTimer (malloc env t) (clock env u) tmo i False t")
    from AddTimer_parts [OF add] obtain m where
      t1: "t1 = t\<lparr>timer_set := emplace m (timer_set t)\<rparr>" and tid: "fst tid = malloc env t" by metis
    have "node_addr n \<in> node_addr ` set (timer_set t @ firing t)" using n'(1) by simp
    with ml tid have "fst tid \<noteq> node_addr n" unfolding legal_malloc_def by metis
    then have d: "tid \<noteq> node_id n" by (auto simp: node_id_def node_addr_def)
    have "st' = (t1, s1\<lparr>world := u, timer_ids := (timer_ids s1)(i \<mapsto> tid),
        cpool := upd_obj p (\<lambda>co. co\<lparr>co_ctx := Saved k'\<rparr>) (cpool s1)\<rparr>)"
      using run YieldFor add s1(3) by (simp add: Yield_save_def FindCoId_def Let_def)
    with n' d set_emplace(2) [of "timer_set t" m] show ?thesis
      by (auto simp: t1 co_inv_def timers_ok_def ids_ok_def)
  qed
qed

text \<open>
  C6: what the operations of \<open>CoTask\<close> keep.  \<open>AddTack\<close> (as long as ids are left), \<open>DoTack\<close>,
  \<open>ResumeOne\<close>, \<open>ResumeOneWithMsg\<close> and the tick keep the state well formed: the pool's ids are unique
  and its objects either free or active, no flag of an earlier time-out is left behind, a coroutine
  that waits has the id of a timer, and each pending timer that is not cancelled is that of one waiting
  coroutine.  That every waiting coroutine has such a timer is kept too if the allocator returns
  no address for which a cancellation is recorded, which it may
  (\<open>stale_cancel_loses_wake_up\<close>).  \<open>ResumeAll\<close>, which nothing in
  the repository calls, keeps only the pool well formed: it does not cancel the timer of the coroutine
  it resumes, which therefore stays pending, and the state is no longer well formed.
\<close>

theorem co_task_state_kept:
  assumes "co_ok {} [] st" "legal_malloc (malloc env)"
    and "results = [snd (AddTack task st), snd (DoTack env task st), snd (ResumeOne env i False st),
      snd (ResumeOneWithMsg env i msg st), TickTimeOut env now st]"
    and "length (objs (cpool (snd st))) < 2 ^ 32 - 2"
  shows "(\<forall>st' \<in> set results. co_ok {} [] st') \<and>
    (all_armed st \<and> no_stale_reuse (malloc env) \<longrightarrow> (\<forall>st' \<in> set results. all_armed st')) \<and>
    pool_ok (cpool (snd (snd (ResumeAll env co_id_list st)))) \<and>
    (\<forall>n st'. waiting (cpool (snd st)) i \<and> armed st i n \<and> snd (ResumeAll env [i] st) = st' \<longrightarrow>
       n \<in> set (timer_set (fst st')) \<and> node_id n \<notin> cancel_list (fst st') \<and> \<not> co_ok {} [] st')"
proof (intro conjI impI allI)
  have all: "\<forall>st' \<in> set results. co_inv S {} [] st'" if "co_inv S {} [] st" "allocates S (malloc env)" for S
    using AddTack_ok(1) [OF that(1) assms(4)] DoTack_ok [OF that(1) assms(4) that(2)]
      ResumeOne_ok [OF that(1) _ that(2)] ResumeOneWithMsg_ok [OF that] TickTimeOut_ok [OF that]
    by (cases "AddTack task st") (simp add: assms(3))
  show "\<forall>st' \<in> set results. co_ok {} [] st'" by (rule all [OF assms(1) weak_malloc [OF assms(2)]])
  show "\<forall>st' \<in> set results. all_armed st'" if "all_armed st \<and> no_stale_reuse (malloc env)"
    using all [of True] that assms(1,2) by (simp add: co_inv_armed allocates_def)
  show "pool_ok (cpool (snd (snd (ResumeAll env co_id_list st))))"
    by (rule pool_inv.ResumeAll_keeps [OF co_ok_pool [OF assms(1)]])
qed (use ResumeAll_leaves_timer [OF assms(1,2)] in blast)+

lemma co_task_state_kept_witness:
  "\<exists>st :: (unit, nat, string, int \<times> (int \<times> string option) list) co_state.
     st = snd (DoTack (demo_env careful_malloc) () (co_init (0, []))) \<and> co_ok {} [] st \<and> all_armed st"
proof -
  let ?env = "demo_env careful_malloc"
  let ?init = "co_init (0, []) :: (unit, nat, string, int \<times> (int \<times> string option) list) co_state"
  let ?results = "[snd (AddTack () ?init), snd (DoTack ?env () ?init), snd (ResumeOne ?env 0 False ?init),
      snd (ResumeOneWithMsg ?env 0 ''x'' ?init), TickTimeOut ?env 0 ?init]"
  have ml: "legal_malloc (malloc ?env)" "no_stale_reuse (malloc ?env)" by (simp_all add: demo_env_def careful_malloc_ok)
  have "length (objs (cpool (snd ?init))) < 2 ^ 32 - 2" by (simp add: co_init_def empty_pool_def)
  note kept = co_task_state_kept [OF co_ok_init ml(1) refl this]
  have a: "all_armed ?init" by (simp add: all_armed_def co_init_def waiting_def empty_pool_def)
  have "co_ok {} [] (snd (DoTack ?env () ?init))" by (rule kept [THEN conjunct1, THEN bspec]) simp
  moreover have "all_armed (snd (DoTack ?env () ?init))"
    by (rule kept [THEN conjunct2, THEN conjunct1, THEN mp, THEN bspec]) (use a ml(2) in simp_all)
  ultimately show ?thesis by blast
qed

text \<open>
  what a waiting coroutine learns when it is resumed.  \<open>CoYield::Yield\<close> returns -1 after a
  time-out and 0 after \<open>ResumeOneWithMsg\<close>, in which case \<open>GetMsg\<close> gives that message; after a
  time-out \<open>GetMsg\<close> still gives the message of an earlier resumption.  Its timer is cancelled before
  it runs.
\<close>

theorem resumed_coroutine_learns:
  assumes "co_ok {} [] st" "action_coroutine (cpool (snd st)) i = Some p"
    and "co_ctx (objs (cpool (snd st)) ! p) = Saved k"
  shows "\<exists>t s s'.
    ResumeOne env i True st = (0, run_body env 1 i k (-1) (t, s)) \<and>
    ResumeOneWithMsg env i msg st = (0, run_body env 1 i k 0 (t, s')) \<and>
    (\<forall>tid. timer_ids (snd st) i = Some tid \<longrightarrow> tid \<in> cancel_list t) \<and>
    timer_ids s i = None \<and> timer_ids s' i = None \<and>
    GetMsg i (cpool s) = GetMsg i (cpool (snd st)) \<and> GetMsg i (cpool s') = Some msg"
proof -
  obtain t s where st1: "CancelCoTimer i st = (t, s)" by (cases "CancelCoTimer i st")
  have eq: "cpool s = cpool (snd st)" "timer_ids s i = None"
    using st1 CancelCoTimer_rest [of i st] by auto
  have tid: "tid \<in> cancel_list t" if "timer_ids (snd st) i = Some tid" for tid
    using st1 that by (auto simp: CancelCoTimer_def CancelTimer_def)
  note pool = co_ok_pool [OF assms(1)]
  have p: "p < length (objs (cpool (snd st)))" using pool_act [OF pool assms(2)] by simp
  have id: "co_id (objs (cpool (snd st)) ! p) = i"
    using pool_act [OF pool assms(2)] pool_co_id [OF pool p] by simp
  have clear: "\<not> resume_by_time_out (objs (cpool (snd st)) ! p)"
    using assms(1) p by (simp add: co_inv_def flags_clear_def)
  let ?s = "s\<lparr>cpool := upd_obj p (\<lambda>co. co\<lparr>resume_by_time_out := False\<rparr>) (cpool s)\<rparr>"
  let ?s' = "s\<lparr>cpool := upd_obj p (\<lambda>co. co\<lparr>co_msg := Some msg, resume_by_time_out := False\<rparr>) (cpool s)\<rparr>"
  have "ResumeOne env i True st = (0, run_body env 1 i k (-1) (t, ?s))"
    using assms(2,3) p id
    by (simp add: ResumeOne_def CoResume_def Resume_enter_def FindCoId_def st1 eq switch_to_def Let_def
        objs_upd_obj Yield_return_def upd_obj_twice)
  moreover have "ResumeOneWithMsg env i msg st = (0, run_body env 1 i k 0 (t, ?s'))"
    using assms(2,3) p id clear
    by (simp add: ResumeOneWithMsg_def ResumeWithMsg_enter_def FindCoId_def st1 eq switch_to_def Let_def
        objs_upd_obj Yield_return_def upd_obj_twice)
  moreover have "GetMsg i (cpool ?s) = GetMsg i (cpool (snd st))" "GetMsg i (cpool ?s') = Some msg"
    using assms(2) p by (simp_all add: GetMsg_def FindCoId_def eq objs_upd_obj)
  moreover have "timer_ids ?s i = None" "timer_ids ?s' i = None" using eq by simp_all
  ultimately show ?thesis using tid by blast
qed

lemma resumed_coroutine_learns_witness:
  "\<exists>t s s'. ResumeOneWithMsg (demo_env careful_malloc) 1 ''pong''
       (snd (DoTack (demo_env careful_malloc) () (co_init (0, [])))) =
       (0, run_body (demo_env careful_malloc) 1 1 1 0 (t, s')) \<and>
     ResumeOne (demo_env careful_malloc) 1 True
       (snd (DoTack (demo_env careful_malloc) () (co_init (0, [])))) =
       (0, run_body (demo_env careful_malloc) 1 1 1 (-1) (t, s)) \<and> GetMsg 1 (cpool s') = Some ''pong''"
proof -
  let ?env = "demo_env careful_malloc"
  let ?st = "snd (DoTack ?env () (co_init (0, [])))"
  have ok: "co_ok {} [] ?st" by (rule demo_start [OF careful_malloc_ok(1)])
  have "action_coroutine (cpool (snd ?st)) 1 = Some 0" "co_ctx (objs (cpool (snd ?st)) ! 0) = Saved 1"
    by (simp_all add: demo_simps careful_malloc_def addrs_in_use_def)
  from resumed_coroutine_learns [OF ok this, of ?env "''pong''"] show ?thesis by blast
qed

text \<open>
  transactions that are alive at the same time have different ids, and none of them is 0 (the
  id of a message that starts a transaction): a batch of new coroutines gets ids that are distinct,
  were not in use, and can all be found, and every other id keeps its coroutine.
\<close>

theorem live_ids_distinct:
  assumes "pool_ok cp" "length ts \<le> id_room cp" "co_ids.new_all ts cp = (is, cp')"
  shows "pool_ok cp' \<and> distinct is \<and> 0 \<notin> set is \<and>
    (\<forall>i \<in> set is. FindCoId i cp = None \<and> FindCoId i cp' \<noteq> None) \<and>
    (\<forall>j. j \<notin> set is \<longrightarrow> FindCoId j cp' = FindCoId j cp)"
proof -
  note ids = co_ids.new_all_ids [OF assms]
  have "i \<noteq> 0" if "i \<in> set is" for i
  proof -
    from ids that obtain p where "action_coroutine cp' i = Some p" by (auto simp: FindCoId_def)
    with ids pool_act [of cp' i p] pool_small [of cp'] slot_id_neq_0 [of p] show ?thesis by auto
  qed
  with ids show ?thesis by blast
qed

lemma live_ids_distinct_witness:
  "\<exists>is cp'. co_ids.new_all [''a'', ''b'', ''c''] (empty_pool :: (string, nat, string) co_pool) = (is, cp') \<and>
     length is = 3 \<and> distinct is \<and> 0 \<notin> set is"
proof -
  obtain "is" cp' where n: "co_ids.new_all [''a'', ''b'', ''c''] (empty_pool :: (string, nat, string) co_pool) = (is, cp')"
    by (cases "co_ids.new_all [''a'', ''b'', ''c''] (empty_pool :: (string, nat, string) co_pool)")
  have "length is = 3" using n by (auto split: prod.splits)
  with n live_ids_distinct [OF pool_ok_empty _ n] show ?thesis by (simp add: id_room_def empty_pool_def)
qed

text \<open>
  the id of a coroutine that has finished is handed out again at once.  With no other object
  free, the next coroutine gets the same id and the same object, and \<open>GetMsg\<close> shows it the message its
  predecessor was resumed with.  A reply that arrives late for the first therefore finds, and
  resumes, the second.
\<close>

theorem finished_id_reused:
  assumes "pool_ok cp" "free_coroutine cp = []" "FindCoId i cp = Some p"
    and "FreeCoroutine i cp = (old, cp1)" "NewCoroutine task cp1 = (j, cp2)"
  shows "j = i \<and> FindCoId i cp2 = Some p \<and> GetMsg i cp2 = GetMsg i cp \<and>
    co_task (objs cp2 ! p) = Some task \<and> co_ctx (objs cp2 ! p) = Fresh"
proof -
  from assms(3) have act: "action_coroutine cp i = Some p" by (simp add: FindCoId_def)
  from pool_act [OF assms(1) act] pool_co_id [OF assms(1)] have p: "p < length (objs cp)" "co_id (objs cp ! p) = i"
    by auto
  have cp1: "cp1 = (upd_obj p (\<lambda>co. co\<lparr>co_task := None\<rparr>) cp)
      \<lparr>free_coroutine := [p], action_coroutine := (action_coroutine cp)(i := None)\<rparr>"
    using assms(2,4) act by (simp add: FreeCoroutine_def)
  have "refill cp1 = cp1" by (simp add: refill_def cp1)
  with assms(5) p act show ?thesis
    by (auto simp: NewCoroutine_def Let_def cp1 upd_obj_def FindCoId_def GetMsg_def)
qed

lemma finished_id_reused_witness:
  "\<exists>cp1 cp2 :: (string, nat, string) co_pool. \<exists>cp.
     NewCoroutine ''buy'' empty_pool = (1, cp) \<and> FreeCoroutine 1 cp = (Some ''buy'', cp1) \<and>
     NewCoroutine ''sell'' cp1 = (1, cp2)"
proof -
  obtain i and cp :: "(string, nat, string) co_pool" where 1: "NewCoroutine ''buy'' empty_pool = (i, cp)"
    by (cases "NewCoroutine ''buy'' (empty_pool :: (string, nat, string) co_pool)")
  then have i: "i = 1" and f: "free_coroutine cp = []" "FindCoId 1 cp = Some 0" and o: "co_task (objs cp ! 0) = Some ''buy''"
    by (auto simp: NewCoroutine_def refill_def GetCoId_def empty_pool_def new_object_def upd_obj_def Let_def FindCoId_def)
  have ok: "pool_ok cp" using NewCoroutine_ids(1) [OF pool_ok_empty _ 1] by (simp add: id_room_def empty_pool_def)
  obtain cp1 where 2: "FreeCoroutine 1 cp = (Some ''buy'', cp1)"
    using f o by (simp add: FreeCoroutine_def FindCoId_def)
  obtain j cp2 where 3: "NewCoroutine ''sell'' cp1 = (j, cp2)" by (cases "NewCoroutine ''sell'' cp1")
  from finished_id_reused [OF ok f 2 3] 1 2 3 i show ?thesis by blast
qed

text \<open>An allocator that reuses addresses as soon as they are free.\<close>

definition reusing_malloc :: "u32 timer \<Rightarrow> nat" where
  "reusing_malloc t = (if 1 \<in> set (addrs_in_use t) then Suc (sum_list (addrs_in_use t)) else 1)"

lemma reusing_malloc_legal: "legal_malloc reusing_malloc"
proof -
  have "reusing_malloc t \<notin> set (addrs_in_use t)" for t
    using sum_list_ge [of "reusing_malloc t" "addrs_in_use t"] by (auto simp: reusing_malloc_def split: if_splits)
  then show ?thesis unfolding legal_malloc_def addrs_in_use_def by (metis image_set)
qed

type_synonym demo_state = "(unit, nat, string, int \<times> (int \<times> string option) list) co_state"

abbreviation "hasty \<equiv> demo_env reusing_malloc"

definition lost_first :: demo_state where
  "lost_first = TickTimeOut hasty 100 (snd (DoTack hasty () (co_init (0, []))))"

definition lost_second :: demo_state where
  "lost_second = snd (DoTack hasty () (at_time 200 lost_first))"

lemmas hasty_simps = demo_simps reusing_malloc_def addrs_in_use_def waiting_def

abbreviation "demo_object task \<equiv>
  \<lparr>co_id = 1, co_task = task, co_ctx = Saved 1, co_msg = None, resume_by_time_out = False\<rparr>"

lemma lost_first_eq: "lost_first = (\<lparr>timer_set = [], cancel_list = {(1, 0)}, firing = []\<rparr>,
    \<lparr>cpool = \<lparr>objs = [demo_object None], free_coroutine = [0], action_coroutine = (\<lambda>_. None), inc_co_id = 1\<rparr>,
     timer_ids = (\<lambda>_. None), world = (0, [(-1, None)])\<rparr>)"
proof -
  have "snd (DoTack hasty () (co_init (0, []))) =
    (\<lparr>timer_set = [(100, 1, \<lparr>ti_task = 1, ti_interval = 100, ti_seq = 0, ti_repeat = False\<rparr>)],
      cancel_list = {}, firing = []\<rparr>,
     \<lparr>cpool = \<lparr>objs = [demo_object (Some ())], free_coroutine = [], action_coroutine = [1 \<mapsto> 0], inc_co_id = 1\<rparr>,
      timer_ids = [1 \<mapsto> (1, 0)], world = (0, [])\<rparr>)"
    by (simp add: hasty_simps)
  then show ?thesis by (simp add: lost_first_def) (simp add: hasty_simps)
qed

lemma lost_second_eq: "lost_second =
    (\<lparr>timer_set = [(300, 1, \<lparr>ti_task = 1, ti_interval = 100, ti_seq = 0, ti_repeat = False\<rparr>)],
      cancel_list = {(1, 0)}, firing = []\<rparr>,
     \<lparr>cpool = \<lparr>objs = [demo_object (Some ())], free_coroutine = [], action_coroutine = [1 \<mapsto> 0], inc_co_id = 1\<rparr>,
      timer_ids = [1 \<mapsto> (1, 0)], world = (200, [(-1, None)])\<rparr>)"
  by (simp add: lost_second_def lost_first_eq) (simp add: hasty_simps)

text \<open>Ticks at any times, the rest of the program doing what it likes in between.\<close>

definition ticks ::
  "('t, 'k, 'm, 'w) co_env \<Rightarrow> (int \<times> 'w) list \<Rightarrow> ('t, 'k, 'm, 'w) co_state \<Rightarrow> ('t, 'k, 'm, 'w) co_state" where
  "ticks env rounds st =
    fold (\<lambda>(now, w) st. TickTimeOut env now (fst st, (snd st)\<lparr>world := w\<rparr>)) rounds st"

lemma ticks_unarmed:
  assumes ml: "legal_malloc (malloc env)"
  shows "co_ok {} [] st \<Longrightarrow> \<forall>n. \<not> armed st i n \<Longrightarrow> co_view i (ticks env rounds st) = co_view i st"
proof (induction rounds arbitrary: st)
  case (Cons r rounds)
  obtain now w where r: "r = (now, w)" by (cases r)
  let ?st = "(fst st, (snd st)\<lparr>world := w\<rparr>)"
  have ok: "co_ok {} [] ?st" using Cons.prems(1) by (simp add: co_inv_def)
  have un: "\<forall>n. \<not> armed ?st i n" using Cons.prems(2) by (simp add: armed_def waits_on_def)
  have "co_view i (TickTimeOut env now ?st) = co_view i ?st"
    by (rule TickTimeOut_unarmed(1) [OF ok ml]) (use un in blast)
  moreover have "co_view i ?st = co_view i st" by (simp add: co_view_def)
  moreover have "co_view i (ticks env rounds (TickTimeOut env now ?st)) = co_view i (TickTimeOut env now ?st)"
    by (rule Cons.IH [OF TickTimeOut_weak [OF ok ml] TickTimeOut_unarmed(2) [OF ok ml un]])
  moreover have "ticks env (r # rounds) st = ticks env rounds (TickTimeOut env now ?st)" by (simp add: ticks_def r)
  ultimately show ?case by simp
qed (simp add: ticks_def)

text \<open>
  C39: how a wake-up is lost.  A timer's id is the address of its block and the second it was added in.
  When a coroutine is resumed, by its time-out too, \<open>CoTask::CancelTimer\<close> puts the id of its timer
  into \<open>cancel_list_\<close>, where nothing removes that of a timer that has already fired.  A coroutine whose timer
  got such an id (the address came back within the same second) is resumed by no later tick: its
  timer is dropped as cancelled, and it waits until a message comes.  In the witness a coroutine
  starts at 0 ms, times out at 100 ms and finishes; the next starts at 200 ms, to wait for 100 ms,
  and still waits after any number of ticks.
\<close>

theorem stale_cancel_loses_wake_up:
  assumes "co_ok {} [] st" "legal_malloc (malloc env)" "timer_ids (snd st) i = Some tid"
  shows "snd (AddTimer addr now iv i False (fst st)) = (addr, nat (c_div now 1000 mod 2 ^ 32)) \<and>
    tid \<in> cancel_list (fst (snd (ResumeOne env i time_out st))) \<and>
    (tid \<in> cancel_list (fst st) \<longrightarrow> co_view i (ticks env rounds st) = co_view i st)"
proof (intro conjI impI)
  show "snd (AddTimer addr now iv i False (fst st)) = (addr, nat (c_div now 1000 mod 2 ^ 32))" by (simp add: AddTimer_def Let_def)
  show "tid \<in> cancel_list (fst (snd (ResumeOne env i time_out st)))"
    using ranD(7) [OF ran_ResumeOne [OF co_ok_pool [OF assms(1)] assms(2)]] assms(3) by simp
  assume "tid \<in> cancel_list (fst st)"
  then have "\<forall>n. \<not> armed st i n" using assms(3) by (metis armed_def option.inject waits_on_def)
  then show "co_view i (ticks env rounds st) = co_view i st" by (rule ticks_unarmed [OF assms(2,1)])
qed

lemma stale_cancel_loses_wake_up_witness:
  "legal_malloc reusing_malloc \<and> waiting (cpool (snd lost_second)) 1 \<and>
   timer_ids (snd (ticks hasty [(300, (300, [])), (100000, (100000, []))] lost_second)) 1 = Some (1, 0)"
proof -
  have ml: "legal_malloc (malloc hasty)" using reusing_malloc_legal by (simp add: demo_env_def)
  have "co_ok {} [] (at_time 200 lost_first)"
    using TickTimeOut_weak [OF demo_start [OF reusing_malloc_legal] ml]
    by (simp add: lost_first_def at_time_def co_inv_def)
  then have ok: "co_ok {} [] lost_second" unfolding lost_second_def
    by (rule DoTack_ok [OF _ _ weak_malloc [OF ml]]) (simp add: lost_first_eq at_time_def)
  have tid: "timer_ids (snd lost_second) 1 = Some (1, 0)" "(1, 0) \<in> cancel_list (fst lost_second)"
    by (simp_all add: lost_second_eq)
  have "co_view 1 (ticks hasty [(300, (300, [])), (100000, (100000, []))] lost_second) = co_view 1 lost_second"
    by (rule stale_cancel_loses_wake_up [OF ok ml tid(1), THEN conjunct2, THEN conjunct2, THEN mp, OF tid(2)])
  moreover have "waiting (cpool (snd lost_second)) 1" by (simp add: lost_second_eq waiting_def)
  ultimately show ?thesis using tid(1) reusing_malloc_legal by (simp add: co_view_def)
qed

end
