(* ===== verification/Trans_Props.thy ===== *)
theory Trans_Props
  imports Trans_Mgr Co_Props
begin

text \<open>Properties of the transaction manager and of the object pool.\<close>

lemma set_pool_twice [simp]: "set_pool cmd p (set_pool cmd q w) = set_pool cmd p w"
  by (simp add: set_pool_def)

lemma body_start_tm_env: "body_start (tm_env start run clk ml) task i = start (snd task) i"
  by (simp add: tm_env_def)

lemma trans_map_set_pool [simp]: "trans_map (set_pool cmd p w) = (trans_map w)(cmd \<mapsto> p)"
  by (simp add: set_pool_def)

lemma register_fold:
  "pool_of w cmd = [] \<Longrightarrow> 0 < n \<Longrightarrow>
   fold (\<lambda>i w. set_pool cmd (pool_add (new i) (pool_of w cmd)) w) [0..<n] w = set_pool cmd (map new [0..<n]) w"
proof (induction n)
  case (Suc n)
  then show ?case by (cases "n = 0") (simp_all add: pool_add_def)
qed simp

text \<open>
  \<open>RegisterCmd\<close> puts \<open>count\<close> new objects into the pool of a command that has none, and
  refuses, changing nothing, when the command has a pool already; other commands keep theirs.  With a
  count that is not positive it says it registered the command although nothing was recorded, and
  the command can be registered again.
\<close>

theorem register_cmd_result:
  "RegisterCmd cmd cnt new w =
    (if trans_map w cmd \<noteq> None then (False, w)
     else (True, if 0 < cnt then set_pool cmd (map new [0..<nat cnt]) w else w)) \<and>
   (c \<noteq> cmd \<longrightarrow> trans_map (snd (RegisterCmd cmd cnt new w)) c = trans_map w c)"
proof (cases "trans_map w cmd")
  case None
  then have "pool_of w cmd = []" by (simp add: pool_of_def)
  with register_fold [OF this, of "nat cnt" new] None show ?thesis
    by (cases "0 < cnt") (simp_all add: RegisterCmd_def)
qed (simp add: RegisterCmd_def)

lemma register_cmd_result_witness:
  "trans_map (snd (RegisterCmd 8 1 (\<lambda>i. ''x'') (\<lparr>trans_map = [7 \<mapsto> [''a'']], app = ()\<rparr>))) 7 = Some [''a'']"
  using register_cmd_result [of 8 1 "\<lambda>i. ''x''" "\<lparr>trans_map = [7 \<mapsto> [''a'']], app = ()\<rparr>" 7] by simp

text \<open>
  C4: transaction objects are neither lost nor used twice.  Through messages and ticks, whatever the
  transactions do, each registered object is in the pool of its command or held by exactly one
  coroutine (\<open>stock_ok\<close> counts both against the registered objects); so if the registered objects
  are distinct, two coroutines never run the same one, and an object in the pool is in no coroutine.
\<close>

theorem trans_objects_conserved:
  assumes env: "env = tm_env start run clk ml" and ok: "stock_ok reg (snd st)"
    and len: "length (objs (cpool (snd st))) < 2 ^ 32 - 2"
    and st': "st' = snd (OnMsg env msg st) \<or> st' = TickTimeOutCo env now st"
    and distinct: "\<forall>cmd x. count (reg cmd) x \<le> 1"
  shows "stock_ok reg (snd st') \<and>
    (\<forall>cmd x. count (mset (pool_of (world (snd st')) cmd)) x +
       count (in_hand (tasks_of (cpool (snd st'))) cmd) x = count (reg cmd) x) \<and>
    (\<forall>cmd x. x \<in> set (pool_of (world (snd st')) cmd) \<longrightarrow> (cmd, x) \<notin># tasks_of (cpool (snd st')))"
proof -
  from st' stock_ok_OnMsg [OF env ok len] stock_ok_Tick [OF env ok] have ok': "stock_ok reg (snd st')" by auto
  then have total: "mset (pool_of (world (snd st')) cmd) + in_hand (tasks_of (cpool (snd st'))) cmd = reg cmd" for cmd
    by (simp add: stock_ok_def)
  have count: "count (mset (pool_of (world (snd st')) cmd)) x +
      count (in_hand (tasks_of (cpool (snd st'))) cmd) x = count (reg cmd) x" for cmd x
    using arg_cong [OF total [of cmd], of "\<lambda>m. count m x"] by simp
  have "(cmd, x) \<notin># tasks_of (cpool (snd st'))" if "x \<in> set (pool_of (world (snd st')) cmd)" for cmd x
  proof
    assume "(cmd, x) \<in># tasks_of (cpool (snd st'))"
    then have "x \<in># in_hand (tasks_of (cpool (snd st'))) cmd" by (force simp: in_hand_def)
    then have "0 < count (in_hand (tasks_of (cpool (snd st'))) cmd) x" by simp
    moreover have "0 < count (mset (pool_of (world (snd st')) cmd)) x" using that by simp
    moreover have "count (reg cmd) x \<le> 1" using distinct by simp
    ultimately show False using count [of cmd x] by linarith
  qed
  with ok' count show ?thesis by blast
qed

text \<open>A program to run: a transaction waits once for at most 5 s and writes down what it was told.\<close>

definition demo_start :: "string \<Rightarrow> u32 \<Rightarrow> string \<times> nat" where
  "demo_start x i = (x, 0)"

type_synonym demo_app = "int \<times> (string \<times> int \<times> string option) list"

definition demo_run :: "string \<times> nat \<Rightarrow> int \<Rightarrow> trans_msg option \<Rightarrow> demo_app \<Rightarrow> (string \<times> nat, demo_app) outcome" where
  "demo_run k ret msg a =
    (if snd k = 0 then YieldFor 5000 (fst k, 1) a
     else Finish (fst a, snd a @ [(fst k, ret, map_option m_data msg)]))"

definition demo_tm :: "(string, string \<times> nat, demo_app) tm_env" where
  "demo_tm = tm_env demo_start demo_run fst careful_malloc"

definition tm_init :: "(u32 \<Rightarrow> 'o list option) \<Rightarrow> 'w \<Rightarrow> ('o, 'k, 'w) tm_state" where
  "tm_init tm a = co_init \<lparr>trans_map = tm, app = a\<rparr>"

definition demo_msg :: "u32 \<Rightarrow> u32 \<Rightarrow> string \<Rightarrow> trans_msg" where
  "demo_msg cmd i d = \<lparr>m_cmd = cmd, m_co_id = i, m_data = d\<rparr>"

lemma stock_ok_init: "stock_ok (\<lambda>cmd. case tm cmd of None \<Rightarrow> {#} | Some pool \<Rightarrow> mset pool) (snd (tm_init tm a))"
  by (auto simp: stock_ok_def tm_init_def co_init_def pool_ok_empty idle_clear_def tasks_of_def
      pool_of_def split: option.split) (simp_all add: empty_pool_def)

lemma trans_objects_conserved_witness:
  "\<exists>st st' :: (string, string \<times> nat, demo_app) tm_state.
     st = tm_init [7 \<mapsto> [''a'']] (0, []) \<and> st' = snd (OnMsg demo_tm (demo_msg 7 0 ''go'') st) \<and>
     (\<forall>cmd x. x \<in> set (pool_of (world (snd st')) cmd) \<longrightarrow> (cmd, x) \<notin># tasks_of (cpool (snd st')))"
proof -
  let ?st = "tm_init [7 \<mapsto> [''a'']] (0, []) :: (string, string \<times> nat, demo_app) tm_state"
  have len: "length (objs (cpool (snd ?st))) < 2 ^ 32 - 2" by (simp add: tm_init_def co_init_def empty_pool_def)
  have d: "\<forall>cmd x. count (case [7 \<mapsto> [''a'']] cmd of None \<Rightarrow> {#} | Some pool \<Rightarrow> mset pool) x \<le> 1"
    by simp
  from trans_objects_conserved [OF demo_tm_def stock_ok_init len disjI1 [OF refl] d, of "demo_msg 7 0 ''go''"]
  show ?thesis by blast
qed

text \<open>A message for a coroutine that waits.\<close>

lemma OnMsg_live:
  assumes pool: "pool_ok (cpool (snd st))" and co: "m_co_id msg \<noteq> 0"
    and act: "action_coroutine (cpool (snd st)) (m_co_id msg) = Some p"
    and ctx: "co_ctx (objs (cpool (snd st)) ! p) = Saved k"
  shows "\<exists>t s. OnMsg env msg st =
      (0, run_body env 1 (m_co_id msg) k (if resume_by_time_out (objs (cpool (snd st)) ! p) then -1 else 0) (t, s)) \<and>
    GetMsg (m_co_id msg) (cpool s) = Some msg \<and> timer_ids s (m_co_id msg) = None \<and>
    set_option (timer_ids (snd st) (m_co_id msg)) \<subseteq> cancel_list t"
proof -
  let ?i = "m_co_id msg" and ?f = "resume_by_time_out (objs (cpool (snd st)) ! p)"
  obtain t s where st1: "CancelCoTimer ?i st = (t, s)" by (cases "CancelCoTimer ?i st")
  have eq: "cpool s = cpool (snd st)" "timer_ids s ?i = None" using st1 CancelCoTimer_rest [of ?i st] by auto
  have tid: "set_option (timer_ids (snd st) ?i) \<subseteq> cancel_list t"
    using st1 by (auto simp: CancelCoTimer_def CancelTimer_def split: option.splits)
  have p: "p < length (objs (cpool (snd st)))" and id: "co_id (objs (cpool (snd st)) ! p) = ?i"
    using pool_act [OF pool act] pool_co_id [OF pool, of p] by simp_all
  let ?s = "s\<lparr>cpool := upd_obj p (\<lambda>co. co\<lparr>co_msg := Some msg, resume_by_time_out := False\<rparr>) (cpool s)\<rparr>"
  have "CoIdExist ?i st" using act by (simp add: CoIdExist_def FindCoId_def)
  then have "OnMsg env msg st = (0, run_body env 1 ?i k (if ?f then -1 else 0) (t, ?s))"
    using act ctx p id co
    by (simp add: OnMsg_def ResumeOneWithMsg_def ResumeWithMsg_enter_def FindCoId_def st1 eq switch_to_def Let_def
        objs_upd_obj Yield_return_def upd_obj_twice del: run_body.simps)
  moreover have "GetMsg ?i (cpool ?s) = Some msg"
    using act p by (simp add: GetMsg_def FindCoId_def eq objs_upd_obj)
  ultimately show ?thesis using eq(2) tid by (intro exI [of _ t] exI [of _ ?s]) simp
qed

text \<open>
  C27: how \<open>OnMsg\<close> dispatches.  A message for a coroutine that is not alive is refused with -1 and
  changes nothing.  A message for one that waits cancels its timer and resumes it at once where it
  yielded, and it reads exactly this message (\<open>Yield\<close> returns 0 to it, as no flag of a time-out is
  set).  A message that starts a transaction is refused with -1 when no object of its command is free;
  otherwise the object handed out is the last of the pool, its transaction runs at once from its start and
  reads exactly this message.
\<close>

theorem on_msg_dispatch:
  assumes pool: "pool_ok (cpool (snd st))"
    and len: "length (objs (cpool (snd st))) < 2 ^ 32 - 2"
    and env: "env = tm_env start run clk ml"
  shows "(m_co_id msg \<noteq> 0 \<longrightarrow> \<not> CoIdExist (m_co_id msg) st \<longrightarrow> OnMsg env msg st = (-1, st)) \<and>
    (m_co_id msg = 0 \<longrightarrow> pool_of (world (snd st)) (m_cmd msg) = [] \<longrightarrow>
       fst (OnMsg env msg st) = -1 \<and> cpool (snd (snd (OnMsg env msg st))) = cpool (snd st)) \<and>
    (\<forall>p k. m_co_id msg \<noteq> 0 \<and> action_coroutine (cpool (snd st)) (m_co_id msg) = Some p \<and>
         co_ctx (objs (cpool (snd st)) ! p) = Saved k \<longrightarrow>
       (\<exists>t s. OnMsg env msg st =
            (0, run_body env 1 (m_co_id msg) k (if resume_by_time_out (objs (cpool (snd st)) ! p) then -1 else 0) (t, s)) \<and>
          GetMsg (m_co_id msg) (cpool s) = Some msg \<and> timer_ids s (m_co_id msg) = None \<and>
          set_option (timer_ids (snd st) (m_co_id msg)) \<subseteq> cancel_list t)) \<and>
    (m_co_id msg = 0 \<longrightarrow> pool_of (world (snd st)) (m_cmd msg) = pool @ [x] \<longrightarrow>
       (\<exists>i t s. i \<noteq> 0 \<and> \<not> CoIdExist i st \<and>
          OnMsg env msg st = (0, run_body env 1 i (start x i) 0 (t, s)) \<and>
          GetMsg i (cpool s) = Some msg \<and> pool_of (world s) (m_cmd msg) = pool))"
proof (intro conjI impI)
  show "\<forall>p k. m_co_id msg \<noteq> 0 \<and> action_coroutine (cpool (snd st)) (m_co_id msg) = Some p \<and>
         co_ctx (objs (cpool (snd st)) ! p) = Saved k \<longrightarrow>
       (\<exists>t s. OnMsg env msg st =
            (0, run_body env 1 (m_co_id msg) k (if resume_by_time_out (objs (cpool (snd st)) ! p) then -1 else 0) (t, s)) \<and>
          GetMsg (m_co_id msg) (cpool s) = Some msg \<and> timer_ids s (m_co_id msg) = None \<and>
          set_option (timer_ids (snd st) (m_co_id msg)) \<subseteq> cancel_list t)"
    using OnMsg_live [OF pool] by blast
next
  assume zero: "m_co_id msg = 0" and px: "pool_of (world (snd st)) (m_cmd msg) = pool @ [x]"
  from OnMsg_new [OF pool len zero px] obtain i t s where "i \<noteq> 0" "\<not> CoIdExist i st"
    "OnMsg env msg st = (0, run_body env 1 i (body_start env (m_cmd msg, x) i) 0 (t, s))"
    "GetMsg i (cpool s) = Some msg" "pool_of (world s) (m_cmd msg) = pool" by metis
  then show "\<exists>i t s. i \<noteq> 0 \<and> \<not> CoIdExist i st \<and>
          OnMsg env msg st = (0, run_body env 1 i (start x i) 0 (t, s)) \<and>
          GetMsg i (cpool s) = Some msg \<and> pool_of (world s) (m_cmd msg) = pool"
    by (metis body_start_tm_env env snd_conv)
qed (simp_all add: OnMsg_def Let_def pool_empty_def)

lemma on_msg_dispatch_witness:
  "\<exists>st :: (string, string \<times> nat, demo_app) tm_state. \<exists>i t s. st = tm_init [7 \<mapsto> [''a'', ''b'']] (0, []) \<and>
     OnMsg demo_tm (demo_msg 9 5 ''late'') st = (-1, st) \<and>
     OnMsg demo_tm (demo_msg 7 0 ''go'') st = (0, run_body demo_tm 1 i (''b'', 0) 0 (t, s)) \<and>
     GetMsg i (cpool s) = Some (demo_msg 7 0 ''go'') \<and> pool_of (world s) 7 = [''a'']"
proof -
  let ?st = "tm_init [7 \<mapsto> [''a'', ''b'']] (0, []) :: (string, string \<times> nat, demo_app) tm_state"
  have ok: "pool_ok (cpool (snd ?st))" by (simp add: tm_init_def co_init_def pool_ok_empty)
  have len: "length (objs (cpool (snd ?st))) < 2 ^ 32 - 2" by (simp add: tm_init_def co_init_def empty_pool_def)
  have no: "\<not> CoIdExist i ?st" for i by (simp add: tm_init_def co_init_def empty_pool_def CoIdExist_def FindCoId_def)
  have "pool_of (world (snd ?st)) 7 = [''a''] @ [''b'']" by (simp add: tm_init_def co_init_def pool_of_def)
  then show ?thesis
    using on_msg_dispatch [OF ok len demo_tm_def, of "demo_msg 9 5 ''late''"] no
      on_msg_dispatch [OF ok len demo_tm_def, of "demo_msg 7 0 ''go''" "[''a'']" "''b''"]
    by (fastforce simp: demo_msg_def demo_start_def)
qed

text \<open>
  a message that arrives before its command is registered blocks the registration.  \<open>OnMsg\<close>
  looks the pool up with \<open>trans_map_[cmd]\<close>, which records an empty pool; \<open>RegisterCmd\<close> then takes
  the command for registered, answers false and makes no objects, and every later message of the
  command is refused.
\<close>

theorem early_message_blocks_registration:
  assumes "trans_map (world (snd st)) cmd = None" "m_cmd msg = cmd" "m_co_id msg = 0"
    and "OnMsg env msg st = (r, st1)"
    and "RegisterCmd cmd cnt new (world (snd st1)) = (ok, w)" "st2 = (fst st1, (snd st1)\<lparr>world := w\<rparr>)"
  shows "r = -1 \<and> \<not> ok \<and> w = world (snd st1) \<and>
    (m_cmd msg2 = cmd \<longrightarrow> m_co_id msg2 = 0 \<longrightarrow> fst (OnMsg env msg2 st2) = -1)"
proof -
  have "pool_of (world (snd st)) cmd = []" using assms(1) by (simp add: pool_of_def)
  with assms(2-4) have 1: "r = -1" "st1 = (fst st, (snd st)\<lparr>world := set_pool cmd [] (world (snd st))\<rparr>)"
    by (auto simp: OnMsg_def Let_def pool_empty_def)
  then have "trans_map (world (snd st1)) cmd = Some []" by simp
  with assms(5) have 2: "\<not> ok" "w = world (snd st1)" by (simp_all add: RegisterCmd_def)
  with 1 have "pool_of (world (snd st2)) cmd = []" by (simp add: assms(6))
  with 1 2 show ?thesis by (simp add: OnMsg_def Let_def pool_empty_def)
qed

lemma early_message_blocks_registration_witness:
  "\<exists>st1 :: (string, string \<times> nat, demo_app) tm_state.
     OnMsg demo_tm (demo_msg 7 0 ''go'') (tm_init (\<lambda>_. None) (0, [])) = (-1, st1) \<and>
     fst (RegisterCmd 7 3 (\<lambda>i. ''x'') (world (snd st1))) = False"
proof -
  obtain r and st1 :: "(string, string \<times> nat, demo_app) tm_state"
    where o: "OnMsg demo_tm (demo_msg 7 0 ''go'') (tm_init (\<lambda>_. None) (0, [])) = (r, st1)"
    by (cases "OnMsg demo_tm (demo_msg 7 0 ''go'') (tm_init (\<lambda>_. None) (0, []))")
  obtain ok w where r: "RegisterCmd 7 3 (\<lambda>i. ''x'') (world (snd st1)) = (ok, w)"
    by (cases "RegisterCmd 7 3 (\<lambda>i. ''x'') (world (snd st1))")
  from early_message_blocks_registration [OF _ _ _ o r refl, of "demo_msg 7 0 ''x''"] o r show ?thesis
    by (simp add: tm_init_def co_init_def demo_msg_def)
qed

subsection \<open>A late reply\<close>

type_synonym demo_tm_state = "(string, string \<times> nat, demo_app) tm_state"

definition late_start :: demo_tm_state where
  "late_start = snd (OnMsg demo_tm (demo_msg 7 0 ''first'') (tm_init [7 \<mapsto> [''A''], 8 \<mapsto> [''B'']] (0, [])))"

definition late_timed_out :: demo_tm_state where
  "late_timed_out = TickTimeOutCo demo_tm 5000 late_start"

definition late_second :: demo_tm_state where
  "late_second = snd (OnMsg demo_tm (demo_msg 8 0 ''second'') late_timed_out)"

definition late_reply :: "int \<times> demo_tm_state" where
  "late_reply = OnMsg demo_tm (demo_msg 7 1 ''reply to A'') late_second"

lemmas late_simps = demo_simps tm_init_def OnMsg_def pool_of_def set_pool_def pool_empty_def
  pool_get_shared_def demo_tm_def tm_env_def demo_start_def demo_run_def demo_msg_def CoIdExist_def
  TickTimeOutCo_def give_back_def pool_deleter_def careful_malloc_def addrs_in_use_def

abbreviation "late_object task k d \<equiv> \<lparr>co_id = 1, co_task = task, co_ctx = Saved (k, Suc 0),
  co_msg = Some \<lparr>m_cmd = (if k = ''A'' then 7 else 8), m_co_id = 0, m_data = d\<rparr>, resume_by_time_out = False\<rparr>"

lemma late_start_eq: "late_start = (\<lparr>timer_set = [(5000, Suc 0, \<lparr>ti_task = 1, ti_interval = 5000, ti_seq = 0, ti_repeat = False\<rparr>)],
      cancel_list = {}, firing = []\<rparr>,
    \<lparr>cpool = \<lparr>objs = [late_object (Some (7, ''A'')) ''A'' ''first''], free_coroutine = [],
       action_coroutine = [1 \<mapsto> 0], inc_co_id = 1\<rparr>,
     timer_ids = [1 \<mapsto> (Suc 0, 0)], world = \<lparr>trans_map = [8 \<mapsto> [''B''], 7 \<mapsto> []], app = (0, [])\<rparr>\<rparr>)"
  by (simp add: late_start_def late_simps)

lemma late_timed_out_eq: "late_timed_out = (\<lparr>timer_set = [], cancel_list = {(Suc 0, 0)}, firing = []\<rparr>,
    \<lparr>cpool = \<lparr>objs = [late_object None ''A'' ''first''], free_coroutine = [0],
       action_coroutine = (\<lambda>_. None), inc_co_id = 1\<rparr>,
     timer_ids = (\<lambda>_. None),
     world = \<lparr>trans_map = [8 \<mapsto> [''B''], 7 \<mapsto> [''A'']], app = (0, [(''A'', -1, Some ''first'')])\<rparr>\<rparr>)"
  by (simp add: late_timed_out_def late_start_eq) (simp add: late_simps)

lemma late_second_parts:
  "\<exists>t ids tm. late_second = (t, \<lparr>cpool = \<lparr>objs = [late_object (Some (8, ''B'')) ''B'' ''second''], free_coroutine = [],
       action_coroutine = [1 \<mapsto> 0], inc_co_id = 1\<rparr>,
     timer_ids = ids, world = \<lparr>trans_map = tm, app = (0, [(''A'', -1, Some ''first'')])\<rparr>\<rparr>)"
  by (simp add: late_second_def late_timed_out_eq) (simp add: late_simps)

text \<open>
  a reply that comes after its transaction has timed out is delivered to another transaction.
  Transaction A (id 1) waits 5 s for a reply and gives up; B then starts, gets id 1 as well, and
  waits for a reply of its own; the reply to A arrives with id 1, and B is resumed with it as if it
  were its own.  Nothing compares the command of a message with the transaction that waits.
\<close>

theorem late_reply_misdelivered:
  "fst late_reply = 0 \<and>
   snd (app (world (snd (snd late_reply)))) = [(''A'', -1, Some ''first''), (''B'', 0, Some ''reply to A'')]"
proof -
  obtain t ids tm where e: "late_second = (t, \<lparr>cpool = \<lparr>objs = [late_object (Some (8, ''B'')) ''B'' ''second''],
       free_coroutine = [], action_coroutine = [1 \<mapsto> 0], inc_co_id = 1\<rparr>,
     timer_ids = ids, world = \<lparr>trans_map = tm, app = (0, [(''A'', -1, Some ''first'')])\<rparr>\<rparr>)"
    using late_second_parts by blast
  show ?thesis
    by (cases "ids 1") (simp_all add: late_reply_def e late_simps)
qed

text \<open>
  the object pool lends each object to one borrower at a time: after any sequence of
  \<open>get_shared\<close> and releases, objects that were distinct are lent at most once, are not in the pool
  while they are lent, and are together the objects the pool began with.
\<close>

theorem pool_lends_once:
  assumes "distinct pool" "fold trans_pool.lend es (pool, []) = (pool', lent)"
  shows "distinct lent \<and> set lent \<inter> set pool' = {} \<and> mset pool' + mset lent = mset pool"
proof -
  have one: "count (mset pool) x \<le> 1" for x
    using assms(1) by (simp add: distinct_count_atmost_1)
  from trans_pool.lent_once [OF one, where es = es] trans_pool.lend_all_total [of es "(pool, [])"] assms(2)
  show ?thesis by auto
qed

lemma pool_lends_once_witness:
  "fold trans_pool.lend [Borrow, Borrow, Bring_back ''c'', Borrow] ([''a'', ''b'', ''c''], []) = ([''a''], [''c'', ''b'']) \<and>
   set [''c'', ''b''] \<inter> set [''a''] = {}"
proof -
  have e: "fold trans_pool.lend [Borrow, Borrow, Bring_back ''c'', Borrow] ([''a'', ''b'', ''c''], []) = ([''a''], [''c'', ''b''])"
    by (simp add: pool_get_shared_def pool_deleter_def)
  from pool_lends_once [OF _ e] e show ?thesis by simp
qed

end
