(* ===== verification/C_Heap.thy ===== *)
theory C_Heap
  imports Prelude "HOL-Library.Multiset"
begin

text \<open>
  The heap of C, as far as ownership goes: the number of the next allocation and the list of the
  blocks that were freed; \<open>ok n\<close> tells whether the \<open>n\<close>-th allocation succeeds.
\<close>

record heap =
  next_block :: nat
  freed :: "nat list"

definition heap_alloc :: "(nat \<Rightarrow> bool) \<Rightarrow> heap \<Rightarrow> nat option \<times> heap" where
  "heap_alloc ok h =
    (if ok (next_block h) then Some (next_block h) else None, h\<lparr>next_block := Suc (next_block h)\<rparr>)"

definition free_block :: "nat \<Rightarrow> heap \<Rightarrow> heap" where
  "free_block b h = h\<lparr>freed := freed h @ [b]\<rparr>"

text \<open>\<open>realloc\<close>: on success the old block is gone, on failure it is still there.\<close>

definition heap_realloc :: "(nat \<Rightarrow> bool) \<Rightarrow> nat \<Rightarrow> heap \<Rightarrow> nat option \<times> heap" where
  "heap_realloc ok b h =
    (case heap_alloc ok h of (None, h1) \<Rightarrow> (None, h1) | (Some b1, h1) \<Rightarrow> (Some b1, free_block b h1))"

text \<open>
  \<open>balanced ok h h' R\<close>: of the blocks allocated between the heaps \<open>h\<close> and \<open>h'\<close>, those in \<open>R\<close> are
  still owned and each of the others was freed once.
\<close>

definition balanced :: "(nat \<Rightarrow> bool) \<Rightarrow> heap \<Rightarrow> heap \<Rightarrow> nat multiset \<Rightarrow> bool" where
  "balanced ok h h' R \<longleftrightarrow> next_block h \<le> next_block h' \<and>
     (\<exists>F. freed h' = freed h @ F \<and> mset F + R = mset (filter ok [next_block h..<next_block h']))"

lemma balanced_refl: "balanced ok h h {#}"
  by (simp add: balanced_def)

lemma balanced_trans:
  assumes "balanced ok h h1 R" "balanced ok h1 h2 S"
  shows "balanced ok h h2 (R + S)"
proof -
  from assms obtain F G where F: "freed h1 = freed h @ F" "mset F + R = mset (filter ok [next_block h..<next_block h1])"
    and G: "freed h2 = freed h1 @ G" "mset G + S = mset (filter ok [next_block h1..<next_block h2])"
    and le: "next_block h \<le> next_block h1" "next_block h1 \<le> next_block h2"
    by (auto simp: balanced_def)
  have "[next_block h..<next_block h2] = [next_block h..<next_block h1] @ [next_block h1..<next_block h2]"
    using upt_add_eq_append [OF le(1), of "next_block h2 - next_block h1"] le by simp
  then have "mset (filter ok [next_block h..<next_block h2]) = (mset F + R) + (mset G + S)"
    using F G by simp
  then have "mset (F @ G) + (R + S) = mset (filter ok [next_block h..<next_block h2])"
    by (simp add: ac_simps)
  moreover have "freed h2 = freed h @ (F @ G)" using F G by simp
  ultimately show ?thesis unfolding balanced_def using le by (meson order_trans)
qed

lemma balanced_alloc: "heap_alloc ok h = (Some b, h1) \<Longrightarrow> balanced ok h h1 {#b#}"
  "heap_alloc ok h = (None, h1) \<Longrightarrow> balanced ok h h1 {#}"
  by (auto simp: heap_alloc_def balanced_def simp del: mset_filter mset_upt split: if_splits)

lemma balanced_free_block: "balanced ok h h1 (add_mset b R) \<Longrightarrow> balanced ok h (free_block b h1) R"
  by (auto simp: balanced_def free_block_def)

lemma balanced_free_blocks:
  "balanced ok h h1 (mset bs + R) \<Longrightarrow> balanced ok h (fold free_block bs h1) R"
  by (induction bs arbitrary: h1) (auto intro: balanced_free_block)

lemma balanced_alloc_more:
  assumes "balanced ok h h1 R" "heap_alloc ok h1 = (x, h2)"
  shows "balanced ok h h2 (case x of None \<Rightarrow> R | Some b \<Rightarrow> add_mset b R)"
  using balanced_trans [OF assms(1)] balanced_alloc [of ok h1] assms(2) by (fastforce split: option.splits)

lemma balanced_realloc:
  assumes "balanced ok h h1 (add_mset b R)" "heap_realloc ok b h1 = (x, h2)"
  shows "balanced ok h h2 (case x of None \<Rightarrow> add_mset b R | Some c \<Rightarrow> add_mset c R)"
proof -
  obtain y h3 where y: "heap_alloc ok h1 = (y, h3)" by (cases "heap_alloc ok h1")
  from balanced_alloc_more [OF assms(1) y] assms(2) y show ?thesis
    by (auto simp: heap_realloc_def add_mset_commute split: option.splits intro: balanced_free_block)
qed

end
