(* ===== verification/Convert.thy ===== *)
theory Convert
  imports Reply C_Heap
begin

text \<open>
  Replies on their way between servers: \<open>ReplyToPb\<close> of \<open>src/app/redissvr/main.cpp\<close> writes a reply
  into the message \<open>redisReply\<close> of \<open>src/app/proto/redis_cmd.proto\<close>, \<open>PbToReply\<close> of
  \<open>src/app/common/convert_reply_help.h\<close> builds the C object again.

  The blocks of a reply lie on the heap of \<open>C_Heap\<close>.  \<open>PbToReply\<close> tests a local pointer \<open>r\<close> that it
  has not assigned when the reply is an integer, nil, or of no known type; \<open>junk b\<close> tells whether that
  indeterminate value is null for the reply in block \<open>b\<close>.
\<close>

datatype pb_reply = PbReply (pb_type: int) (pb_integer: nat) (pb_str: bytes) (pb_element: "pb_reply list")

definition default_pb :: pb_reply where
  "default_pb = PbReply 0 0 [] []"

subsection \<open>From the reply to the message\<close>

fun ReplyToPb :: "rreply \<Rightarrow> fault + pb_reply"
  and elements_to_pb :: "rreply option list \<Rightarrow> fault + pb_reply list" where
  "ReplyToPb (Reply b ty i s None) =
    Inr (PbReply ty (nat (i mod 2 ^ 64)) (case s of None \<Rightarrow> [] | Some (_, t) \<Rightarrow> t) [])"
| "ReplyToPb (Reply b ty i s (Some (eb, xs))) =
    rbind (if ty = REDIS_REPLY_ARRAY then elements_to_pb xs else Inr [])
      (\<lambda>es. Inr (PbReply ty (nat (i mod 2 ^ 64)) (case s of None \<Rightarrow> [] | Some (_, t) \<Rightarrow> t) es))"
| "elements_to_pb [] = Inr []"
| "elements_to_pb (None # xs) = Inl Undef"
| "elements_to_pb (Some x # xs) =
    rbind (ReplyToPb x) (\<lambda>e. rbind (elements_to_pb xs) (\<lambda>es. Inr (e # es)))"

subsection \<open>From the message to the reply\<close>

definition free_reply :: "rreply \<Rightarrow> heap \<Rightarrow> heap" where
  "free_reply r h = h\<lparr>freed := freed h @ freeReplyObject (Some r)\<rparr>"

definition createReplyObject :: "(nat \<Rightarrow> bool) \<Rightarrow> int \<Rightarrow> heap \<Rightarrow> rreply option \<times> heap" where
  "createReplyObject ok ty h =
    (case heap_alloc ok h of (None, h1) \<Rightarrow> (None, h1) | (Some b, h1) \<Rightarrow> (Some (Reply b ty 0 None None), h1))"

fun createStringObject :: "(nat \<Rightarrow> bool) \<Rightarrow> rreply \<Rightarrow> bytes \<Rightarrow> heap \<Rightarrow> rreply option \<times> rreply \<times> heap" where
  "createStringObject ok (Reply b ty i s e) str h =
    (case heap_alloc ok h of
       (None, h1) \<Rightarrow> (None, Reply b ty i s e, h1)
     | (Some sb, h1) \<Rightarrow> (let r = Reply b ty i (Some (sb, str)) e in (Some r, r, h1)))"

fun createIntegerObject :: "rreply \<Rightarrow> nat \<Rightarrow> rreply" where
  "createIntegerObject (Reply b ty i s e) v = Reply b ty (int64 (int v)) s e"

text \<open>The element vector comes from \<open>calloc\<close>: its entries are null.\<close>

fun createArrayObject :: "(nat \<Rightarrow> bool) \<Rightarrow> rreply \<Rightarrow> nat \<Rightarrow> heap \<Rightarrow> rreply option \<times> rreply \<times> heap" where
  "createArrayObject ok (Reply b ty i s e) n h =
    (if 0 < n then
       (case heap_alloc ok h of
          (None, h1) \<Rightarrow> (None, Reply b ty i s e, h1)
        | (Some eb, h1) \<Rightarrow> (let r = Reply b ty i s (Some (eb, replicate n None)) in (Some r, r, h1)))
     else (Some (Reply b ty i s e), Reply b ty i s e, h))"

fun set_elements :: "rreply list \<Rightarrow> rreply \<Rightarrow> rreply" where
  "set_elements xs (Reply b ty i s (Some (eb, old))) =
    Reply b ty i s (Some (eb, map Some xs @ drop (length xs) old))"
| "set_elements xs r = r"

text \<open>The end of \<open>PbToReply\<close>: the reply, or nothing after freeing it.\<close>

definition finish_reply :: "bool \<Rightarrow> rreply \<Rightarrow> heap \<Rightarrow> rreply option \<times> heap" where
  "finish_reply r_null reply h = (if r_null then (None, free_reply reply h) else (Some reply, h))"

fun PbToReply :: "(nat \<Rightarrow> bool) \<Rightarrow> (nat \<Rightarrow> bool) \<Rightarrow> pb_reply \<Rightarrow> heap \<Rightarrow> rreply option \<times> heap"
  and elements_to_reply :: "(nat \<Rightarrow> bool) \<Rightarrow> (nat \<Rightarrow> bool) \<Rightarrow> pb_reply list \<Rightarrow> heap \<Rightarrow> rreply list \<times> bool \<times> heap" where
  "PbToReply ok junk (PbReply ty i s es) h =
    (case createReplyObject ok ty h of
       (None, h1) \<Rightarrow> (None, h1)
     | (Some reply, h1) \<Rightarrow>
         if ty = REDIS_REPLY_ERROR \<or> ty = REDIS_REPLY_STATUS \<or> ty = REDIS_REPLY_STRING then
           (case createStringObject ok reply s h1 of (r, reply1, h2) \<Rightarrow> finish_reply (r = None) reply1 h2)
         else if ty = REDIS_REPLY_INTEGER then
           finish_reply (junk (rblock reply)) (createIntegerObject reply i) h1
         else if ty = REDIS_REPLY_ARRAY then
           (case createArrayObject ok reply (length es) h1 of
              (None, reply1, h2) \<Rightarrow> finish_reply True reply1 h2
            | (Some _, reply1, h2) \<Rightarrow>
                (case elements_to_reply ok junk es h2 of (xs, complete, h3) \<Rightarrow>
                   finish_reply (\<not> complete) (set_elements xs reply1) h3))
         else finish_reply (junk (rblock reply)) reply h1)"
| "elements_to_reply ok junk [] h = ([], True, h)"
| "elements_to_reply ok junk (e # es) h =
    (case PbToReply ok junk e h of
       (None, h1) \<Rightarrow> ([], False, h1)
     | (Some x, h1) \<Rightarrow> (case elements_to_reply ok junk es h1 of (xs, complete, h2) \<Rightarrow> (x # xs, complete, h2)))"

subsection \<open>Every block is accounted for\<close>

definition blocks_of :: "rreply option \<Rightarrow> nat multiset" where
  "blocks_of r = mset (freeReplyObject r)"

lemma balanced_free: "balanced ok h h1 (blocks_of (Some r)) \<Longrightarrow> balanced ok h (free_reply r h1) {#}"
  by (auto simp: balanced_def free_reply_def blocks_of_def)

lemma balanced_finish:
  "balanced ok h h1 (blocks_of (Some r)) \<Longrightarrow> finish_reply null r h1 = (res, h2) \<Longrightarrow> balanced ok h h2 (blocks_of res)"
  using balanced_free by (auto simp: finish_reply_def blocks_of_def split: if_splits)

lemma blocks_of_array: "blocks_of (Some (Reply b REDIS_REPLY_ARRAY i s (Some (eb, map Some xs @ replicate n None)))) =
    {#b#} + ({#eb#} + mset (concat (map (\<lambda>x. freeReplyObject (Some x)) xs)))"
proof -
  have "map (\<lambda>x. if x \<noteq> None then freeReplyObject x else []) (replicate n None) = replicate n []" by simp
  moreover have "concat (replicate n []) = []" by (induction n) simp_all
  ultimately show ?thesis by (simp add: blocks_of_def comp_def)
qed

lemma convert_balanced:
  "PbToReply ok junk pb h = (res, h') \<Longrightarrow> balanced ok h h' (blocks_of res)"
  "elements_to_reply ok junk es h = (xs, complete, h') \<Longrightarrow>
     balanced ok h h' (mset (concat (map (\<lambda>x. freeReplyObject (Some x)) xs))) \<and>
     length xs \<le> length es \<and> (complete \<longrightarrow> length xs = length es)"
proof (induction ok junk pb h and ok junk es h arbitrary: res h' and xs complete h'
    rule: PbToReply_elements_to_reply.induct)
  case (1 ok junk ty i s es h)
  show ?case
  proof (cases "heap_alloc ok h")
    case (Pair bo h1)
    show ?thesis
    proof (cases bo)
      case None
      with Pair 1(2) balanced_alloc(2) show ?thesis by (simp add: createReplyObject_def blocks_of_def)
    next
      case (Some b)
      with Pair have a: "heap_alloc ok h = (Some b, h1)" by simp
      note b1 = balanced_alloc(1) [OF a]
      have c: "createReplyObject ok ty h = (Some (Reply b ty 0 None None), h1)"
        by (simp add: createReplyObject_def a)
      consider (str) "ty = 6 \<or> ty = 5 \<or> ty = 1" | (int) "ty = 3" | (arr) "ty = 2"
        | (other) "ty \<noteq> 6" "ty \<noteq> 5" "ty \<noteq> 1" "ty \<noteq> 3" "ty \<noteq> 2" by blast
      then show ?thesis
      proof cases
        case str
        obtain sb h2 where a2: "heap_alloc ok h1 = (sb, h2)" by (cases "heap_alloc ok h1")
        show ?thesis
        proof (cases sb)
          case None
          with balanced_trans [OF b1 balanced_alloc(2)] a2 have "balanced ok h h2 {#b#}" by fastforce
          with str have "balanced ok h h2 (blocks_of (Some (Reply b ty 0 None None)))" by (auto simp: blocks_of_def)
          from balanced_finish [OF this] 1(2) str c a2 None show ?thesis by auto
        next
          case (Some x)
          have "balanced ok h h2 ({#b#} + {#x#})"
            by (rule balanced_trans [OF b1 balanced_alloc(1)]) (simp add: a2 Some)
          with str have "balanced ok h h2 (blocks_of (Some (Reply b ty 0 (Some (x, s)) None)))"
            by (auto simp: blocks_of_def add_mset_commute)
          from balanced_finish [OF this] 1(2) str c a2 Some show ?thesis by (auto simp: Let_def)
        qed
      next
        case int
        have "balanced ok h h1 (blocks_of (Some (Reply b ty (int64 (int i)) None None)))"
          using b1 int by (simp add: blocks_of_def)
        from balanced_finish [OF this] 1(2) int c show ?thesis by auto
      next
        case other
        have "balanced ok h h1 (blocks_of (Some (Reply b ty 0 None None)))"
          using b1 other by (simp add: blocks_of_def)
        from balanced_finish [OF this] 1(2) other c show ?thesis by auto
      next
        case arr
        show ?thesis
        proof (cases "es = []")
          case True
          have "balanced ok h h1 (blocks_of (Some (Reply b ty 0 None None)))"
            using b1 arr by (simp add: blocks_of_def)
          from balanced_finish [OF this] 1(2) arr c True show ?thesis by auto
        next
          case False
          obtain eb h2 where a2: "heap_alloc ok h1 = (eb, h2)" by (cases "heap_alloc ok h1")
          show ?thesis
          proof (cases eb)
            case None
            have "balanced ok h h2 ({#b#} + {#})"
              by (rule balanced_trans [OF b1 balanced_alloc(2)]) (simp add: a2 None)
            then have "balanced ok h h2 (blocks_of (Some (Reply b ty 0 None None)))"
              using arr by (simp add: blocks_of_def)
            from balanced_finish [OF this] 1(2) arr c a2 None False show ?thesis by auto
          next
            case (Some x)
            let ?r = "Reply b ty 0 None (Some (x, replicate (length es) None))"
            have ca: "createArrayObject ok (Reply b ty 0 None None) (length es) h1 = (Some ?r, ?r, h2)"
              using a2 Some False by (simp add: Let_def)
            obtain xs k h3 where es: "elements_to_reply ok junk es h2 = (xs, k, h3)"
              by (cases "elements_to_reply ok junk es h2")
            have "\<not> (ty = 6 \<or> ty = 5 \<or> ty = 1)" "ty \<noteq> 3" using arr by simp_all
            with 1(1) [OF c [symmetric] refl _ _ _ ca [symmetric] refl refl es] arr
            have ih: "balanced ok h2 h3 (mset (concat (map (\<lambda>x. freeReplyObject (Some x)) xs)))" "length xs \<le> length es"
              by simp_all
            have "balanced ok h h3 ({#b#} + ({#x#} + mset (concat (map (\<lambda>x. freeReplyObject (Some x)) xs))))"
              by (rule balanced_trans [OF b1 balanced_trans [OF balanced_alloc(1) ih(1)]]) (simp add: a2 Some)
            then have "balanced ok h h3 (blocks_of (Some (set_elements xs ?r)))"
              using arr blocks_of_array [of b 0 None x xs "length es - length xs"] by simp
            from balanced_finish [OF this] 1(2) arr c ca es show ?thesis by auto
          qed
        qed
      qed
    qed
  qed
next
  case (2 ok junk h)
  then show ?case by (simp add: balanced_refl)
next
  case (3 ok junk e es h)
  obtain x h1 where e: "PbToReply ok junk e h = (x, h1)" by (cases "PbToReply ok junk e h")
  note b1 = 3(1) [OF e]
  show ?case
  proof (cases x)
    case None
    with e b1 3(3) show ?thesis by (simp add: blocks_of_def)
  next
    case (Some y)
    obtain ys c h2 where es: "elements_to_reply ok junk es h1 = (ys, c, h2)"
      by (cases "elements_to_reply ok junk es h1")
    from 3(2) [OF e [symmetric] Some es] balanced_trans [OF b1] e es Some 3(3) show ?thesis
      by (auto simp: blocks_of_def)
  qed
qed

subsection \<open>There and back\<close>

text \<open>A reply as the client library builds it, and what is left of it without the block numbers.\<close>

fun built_reply :: "rreply \<Rightarrow> bool" where
  "built_reply (Reply b ty i s e) =
    (if ty = REDIS_REPLY_ERROR \<or> ty = REDIS_REPLY_STATUS \<or> ty = REDIS_REPLY_STRING
     then i = 0 \<and> s \<noteq> None \<and> e = None
     else if ty = REDIS_REPLY_INTEGER then - (2 ^ 63) \<le> i \<and> i < 2 ^ 63 \<and> s = None \<and> e = None
     else if ty = REDIS_REPLY_NIL then i = 0 \<and> s = None \<and> e = None
     else ty = REDIS_REPLY_ARRAY \<and> i = 0 \<and> s = None \<and>
       (case e of None \<Rightarrow> True
        | Some (_, xs) \<Rightarrow> xs \<noteq> [] \<and> list_all (\<lambda>x. case x of None \<Rightarrow> False | Some y \<Rightarrow> built_reply y) xs))"

fun unblocked :: "rreply \<Rightarrow> rreply" where
  "unblocked (Reply b ty i s e) = Reply 0 ty i (map_option (\<lambda>(_, t). (0, t)) s)
     (map_option (\<lambda>(_, xs). (0, map (map_option unblocked) xs)) e)"

lemma int64_back:
  assumes "- (2 ^ 63) \<le> i" "i < 2 ^ 63"
  shows "int64 (i mod 2 ^ 64) = i"
proof -
  have "int64 (i mod 2 ^ 64) = int64 i" unfolding int64_def by (simp only: mod_add_left_eq)
  with int64_id [OF assms] show ?thesis by simp
qed

text \<open>Without a failed allocation, and when the indeterminate pointer is not null.\<close>

lemma convert_back:
  "built_reply r \<Longrightarrow> \<exists>pb. ReplyToPb r = Inr pb \<and>
    (\<forall>h. \<exists>r' h'. PbToReply (\<lambda>_. True) (\<lambda>_. False) pb h = (Some r', h') \<and> unblocked r' = unblocked r)"
  "list_all (\<lambda>x. case x of None \<Rightarrow> False | Some y \<Rightarrow> built_reply y) xs \<Longrightarrow>
    \<exists>es. elements_to_pb xs = Inr es \<and> length es = length xs \<and>
    (\<forall>h. \<exists>ys h'. elements_to_reply (\<lambda>_. True) (\<lambda>_. False) es h = (ys, True, h') \<and> length ys = length xs \<and>
       map (map_option unblocked) (map Some ys) = map (map_option unblocked) xs)"
proof (induction r and xs rule: ReplyToPb_elements_to_pb.induct)
  case (1 b ty i s)
  then show ?case
    by (cases s) (auto simp: createReplyObject_def heap_alloc_def finish_reply_def Let_def int64_back [simplified] split: if_splits)
next
  case (2 b ty i s eb xs)
  then have ty: "ty = REDIS_REPLY_ARRAY" and ne: "xs \<noteq> []" and i: "i = 0" "s = None"
    and all: "list_all (\<lambda>x. case x of None \<Rightarrow> False | Some y \<Rightarrow> built_reply y) xs"
    by (auto split: if_splits)
  from 2(1) [OF ty all] obtain es where es: "elements_to_pb xs = Inr es" "length es = length xs"
    and rt: "\<And>h. \<exists>ys h'. elements_to_reply (\<lambda>_. True) (\<lambda>_. False) es h = (ys, True, h') \<and> length ys = length xs \<and>
       map (map_option unblocked) (map Some ys) = map (map_option unblocked) xs" by blast
  have "\<exists>r' h'. PbToReply (\<lambda>_. True) (\<lambda>_. False) (PbReply ty (nat (i mod 2 ^ 64)) [] es) h = (Some r', h') \<and>
      unblocked r' = unblocked (Reply b ty i s (Some (eb, xs)))" for h
  proof -
    from rt [of "h\<lparr>next_block := Suc (Suc (next_block h))\<rparr>"] obtain ys h' where
      "elements_to_reply (\<lambda>_. True) (\<lambda>_. False) es (h\<lparr>next_block := Suc (Suc (next_block h))\<rparr>) = (ys, True, h')"
      "length ys = length xs" "map (map_option unblocked) (map Some ys) = map (map_option unblocked) xs" by blast
    with ty i ne es show ?thesis
      by (auto simp: createReplyObject_def heap_alloc_def finish_reply_def Let_def comp_def)
  qed
  with es ty i show ?case by simp
next
  case (5 x xs)
  then obtain pb es where "ReplyToPb x = Inr pb" "elements_to_pb xs = Inr es" "length es = length xs"
    and 1: "\<And>h. \<exists>r' h'. PbToReply (\<lambda>_. True) (\<lambda>_. False) pb h = (Some r', h') \<and> unblocked r' = unblocked x"
    and 2: "\<And>h. \<exists>ys h'. elements_to_reply (\<lambda>_. True) (\<lambda>_. False) es h = (ys, True, h') \<and> length ys = length xs \<and>
       map (map_option unblocked) (map Some ys) = map (map_option unblocked) xs"
    by auto
  moreover have "\<exists>ys h'. elements_to_reply (\<lambda>_. True) (\<lambda>_. False) (pb # es) h = (ys, True, h') \<and>
      length ys = Suc (length xs) \<and> map (map_option unblocked) (map Some ys) = map (map_option unblocked) (Some x # xs)" for h
  proof -
    from 1 [of h] obtain r' h1 where r': "PbToReply (\<lambda>_. True) (\<lambda>_. False) pb h = (Some r', h1)" "unblocked r' = unblocked x"
      by blast
    from 2 [of h1] obtain ys h2 where "elements_to_reply (\<lambda>_. True) (\<lambda>_. False) es h1 = (ys, True, h2)"
      "length ys = length xs" "map (map_option unblocked) (map Some ys) = map (map_option unblocked) xs" by blast
    with r' show ?thesis by simp
  qed
  ultimately show ?case by simp
qed auto

end
