(* ===== verification/Svr_List.thy ===== *)
theory Svr_List
  imports Prelude "HOL-Library.Multiset"
begin

text \<open>
  The list of known servers, \<open>src/app/common/svr_list.h\<close> and \<open>svr_list.cpp\<close>, and the choice of a
  server of a type (\<open>SvrCommTrans::GetOneSvrByType\<close>).  A server id is \<open>type-rest\<close>.
\<close>

record svr_list =
  svr_by_type :: "bytes \<Rightarrow> bytes list option"
  svr_set :: "bytes set"

definition empty_svr_list :: svr_list where
  "empty_svr_list = \<lparr>svr_by_type = (\<lambda>_. None), svr_set = {}\<rparr>"

definition Clear_svr_list :: "svr_list \<Rightarrow> svr_list" where
  "Clear_svr_list l = l\<lparr>svr_by_type := (\<lambda>_. None), svr_set := {}\<rparr>"

definition GetType :: "bytes \<Rightarrow> bytes" where
  "GetType svr_id = (if CHR ''-'' \<in> set svr_id then takeWhile (\<lambda>c. c \<noteq> CHR ''-'') svr_id else [])"

definition GetSvrListByType :: "bytes \<Rightarrow> svr_list \<Rightarrow> bytes list option" where
  "GetSvrListByType ty l = svr_by_type l ty"

definition svrs_of :: "svr_list \<Rightarrow> bytes \<Rightarrow> bytes list" where
  "svrs_of l ty = (case svr_by_type l ty of None \<Rightarrow> [] | Some xs \<Rightarrow> xs)"

definition AddSvr :: "bytes \<Rightarrow> svr_list \<Rightarrow> svr_list" where
  "AddSvr svr_id l =
    (if svr_id \<in> svr_set l then l
     else let ty = GetType svr_id in
       if ty = [] then l
       else l\<lparr>svr_by_type := (svr_by_type l)(ty \<mapsto> svrs_of l ty @ [svr_id]),
              svr_set := insert svr_id (svr_set l)\<rparr>)"

definition RemoveSvr :: "bytes \<Rightarrow> svr_list \<Rightarrow> svr_list" where
  "RemoveSvr svr_id l =
    (if svr_id \<notin> svr_set l then l
     else case GetSvrListByType (GetType svr_id) l of None \<Rightarrow> l
       | Some xs \<Rightarrow> l\<lparr>svr_by_type := (svr_by_type l)(GetType svr_id \<mapsto> remove1 svr_id xs),
                       svr_set := svr_set l - {svr_id}\<rparr>)"

text \<open>\<open>rand()\<close> is the argument \<open>rnd\<close>.\<close>

definition RandOne :: "nat \<Rightarrow> nat \<Rightarrow> nat" where
  "RandOne rnd mx = rnd mod mx"

definition GetOneSvrByType :: "nat \<Rightarrow> bytes \<Rightarrow> svr_list \<Rightarrow> bytes" where
  "GetOneSvrByType rnd ty l =
    (case GetSvrListByType ty l of None \<Rightarrow> []
     | Some svrs \<Rightarrow> if svrs = [] then [] else svrs ! RandOne rnd (length svrs))"

subsection \<open>The invariant\<close>

text \<open>The set and the lists hold the same servers, each once, in the list of its type.\<close>

definition svrs_ok :: "svr_list \<Rightarrow> bool" where
  "svrs_ok l \<longleftrightarrow> (\<forall>ty. distinct (svrs_of l ty)) \<and>
     (\<forall>ty x. x \<in> set (svrs_of l ty) \<longleftrightarrow> x \<in> svr_set l \<and> GetType x = ty) \<and>
     (\<forall>x \<in> svr_set l. GetType x \<noteq> [])"

lemma svrs_ok_empty: "svrs_ok empty_svr_list" "svrs_ok (Clear_svr_list l)"
  by (simp_all add: svrs_ok_def empty_svr_list_def Clear_svr_list_def svrs_of_def)

lemma svr_set_AddSvr: "svr_set (AddSvr x l) = (if GetType x = [] then svr_set l else insert x (svr_set l))"
  by (auto simp: AddSvr_def Let_def)

lemma svrs_of_AddSvr: "svrs_of (AddSvr x l) ty =
    (if x \<notin> svr_set l \<and> GetType x \<noteq> [] \<and> ty = GetType x then svrs_of l ty @ [x] else svrs_of l ty)"
  by (simp add: AddSvr_def Let_def svrs_of_def)

lemma svrs_ok_AddSvr: "svrs_ok l \<Longrightarrow> svrs_ok (AddSvr x l)"
  by (auto simp: svrs_ok_def svrs_of_AddSvr svr_set_AddSvr)

lemma RemoveSvr_eq:
  assumes "svrs_ok l"
  shows "svr_set (RemoveSvr x l) = svr_set l - {x}"
    "svrs_of (RemoveSvr x l) ty = (if ty = GetType x then remove1 x (svrs_of l ty) else svrs_of l ty)"
proof -
  have in_list: "x \<in> set (svrs_of l (GetType x))" if "x \<in> svr_set l" using assms that by (simp add: svrs_ok_def)
  have out: "x \<notin> set (svrs_of l (GetType x))" if "x \<notin> svr_set l" using assms that by (simp add: svrs_ok_def)
  have "svr_set (RemoveSvr x l) = svr_set l - {x} \<and>
      svrs_of (RemoveSvr x l) ty = (if ty = GetType x then remove1 x (svrs_of l ty) else svrs_of l ty)"
  proof (cases "x \<in> svr_set l")
    case True
    with in_list obtain xs where xs: "svr_by_type l (GetType x) = Some xs"
      by (cases "svr_by_type l (GetType x)") (simp_all add: svrs_of_def)
    with True show ?thesis by (simp add: RemoveSvr_def GetSvrListByType_def svrs_of_def)
  next
    case False
    with out show ?thesis by (simp add: RemoveSvr_def remove1_idem)
  qed
  then show "svr_set (RemoveSvr x l) = svr_set l - {x}"
    "svrs_of (RemoveSvr x l) ty = (if ty = GetType x then remove1 x (svrs_of l ty) else svrs_of l ty)"
    by simp_all
qed

lemma svrs_ok_RemoveSvr: "svrs_ok l \<Longrightarrow> svrs_ok (RemoveSvr x l)"
proof -
  assume ok: "svrs_ok l"
  then have "set (remove1 x (svrs_of l ty)) = set (svrs_of l ty) - {x}" for ty
    by (simp add: svrs_ok_def)
  with ok show "svrs_ok (RemoveSvr x l)"
    unfolding svrs_ok_def [of "RemoveSvr x l"] RemoveSvr_eq [OF ok] by (auto simp: svrs_ok_def)
qed

lemma GetOneSvrByType_in:
  "svrs_of l ty \<noteq> [] \<Longrightarrow> GetOneSvrByType rnd ty l \<in> set (svrs_of l ty)"
  "svrs_of l ty = [] \<Longrightarrow> GetOneSvrByType rnd ty l = []"
  by (auto simp: GetOneSvrByType_def GetSvrListByType_def svrs_of_def RandOne_def split: option.splits)

subsection \<open>What a directory of servers promises\<close>

text \<open>
  The contract the readers of the list rely on: adding a server makes it a member if its id has a
  type, and a choice for the type of a member gives a member of that type.
\<close>

locale server_directory =
  fixes add :: "bytes \<Rightarrow> 's \<Rightarrow> 's" and members :: "'s \<Rightarrow> bytes set" and good :: "'s \<Rightarrow> bool"
    and pick :: "bytes \<Rightarrow> 's \<Rightarrow> bytes"
  assumes add_good: "good l \<Longrightarrow> good (add x l)"
    and add_members: "members (add x l) = (if GetType x = [] then members l else insert x (members l))"
    and pick_member: "good l \<Longrightarrow> x \<in> members l \<Longrightarrow>
      pick (GetType x) l \<in> members l \<and> GetType (pick (GetType x) l) = GetType x"
    and pick_none: "good l \<Longrightarrow> \<forall>x \<in> members l. GetType x \<noteq> ty \<Longrightarrow> pick ty l = []"
begin

lemma fold_good: "good l \<Longrightarrow> good (fold add xs l)"
  by (induction xs arbitrary: l) (simp_all add: add_good)

lemma fold_members: "members (fold add xs l) = members l \<union> {x \<in> set xs. GetType x \<noteq> []}"
  by (induction xs arbitrary: l) (auto simp: add_members)

lemma fold_found:
  assumes "good l" "members l = {}" "x \<in> set xs" "GetType x = ty" "ty \<noteq> []"
  shows "pick ty (fold add xs l) \<in> set xs \<and> GetType (pick ty (fold add xs l)) = ty"
  using pick_member [OF fold_good [OF assms(1)], of x xs] assms(2-5) by (auto simp: fold_members)

lemma fold_not_found: "good l \<Longrightarrow> members l = {} \<Longrightarrow> \<forall>x \<in> set xs. GetType x \<noteq> ty \<Longrightarrow> pick ty (fold add xs l) = []"
  by (rule pick_none) (auto simp: fold_good fold_members)

end

interpretation svr_dir: server_directory AddSvr svr_set svrs_ok "GetOneSvrByType rnd" for rnd
proof unfold_locales
  fix l x assume ok: "svrs_ok l" "x \<in> svr_set l"
  then have "x \<in> set (svrs_of l (GetType x))" by (simp add: svrs_ok_def)
  then have "GetOneSvrByType rnd (GetType x) l \<in> set (svrs_of l (GetType x))"
    by (intro GetOneSvrByType_in(1)) auto
  with ok(1) show "GetOneSvrByType rnd (GetType x) l \<in> svr_set l \<and> GetType (GetOneSvrByType rnd (GetType x) l) = GetType x"
    by (simp add: svrs_ok_def)
next
  fix l ty assume ok: "svrs_ok l" and no: "\<forall>x \<in> svr_set l. GetType x \<noteq> ty"
  have "set (svrs_of l ty) = {}"
  proof (rule equals0I)
    fix x assume "x \<in> set (svrs_of l ty)"
    with ok no show False by (auto simp: svrs_ok_def)
  qed
  then show "GetOneSvrByType rnd ty l = []" by (intro GetOneSvrByType_in(2)) simp
qed (simp_all add: svrs_ok_AddSvr svr_set_AddSvr)

end
