(* ===== verification/Rpc.thy ===== *)
theory Rpc
  imports Convert Svr_List Connection "HOL-Library.Word"
begin

text \<open>
  Messages between servers: \<open>src/app/common/svr_comm_trans.h\<close> and \<open>svr_comm_trans.cpp\<close>,
  \<open>mq_net.cpp\<close> (sending), \<open>redis_actuator.cpp\<close>, and the redis server's \<open>redis_client.cpp\<close>
  and \<open>main.cpp\<close>.

  The message types of protobuf are records; how they are written as bytes and read back is the
  argument \<open>codec\<close>.  What happens between a \<open>SendMsg\<close> and the return of \<open>Yield\<close> is the argument
  \<open>exch\<close>: it takes the head that was sent and gives what \<open>Yield\<close> returned and the message
  \<open>GetMsg\<close> shows.
\<close>

subsection \<open>Heads\<close>

record msg_head =
  h_cmd :: "32 word"
  src_co_id :: "32 word"
  dst_co_id :: "32 word"
  src_bus_id :: bytes
  dst_bus_id :: bytes
  h_msg :: bytes

definition new_head :: msg_head where
  "new_head = \<lparr>h_cmd = 0, src_co_id = 0, dst_co_id = 0, src_bus_id = [], dst_bus_id = [], h_msg = []\<rparr>"

definition send_msg :: "bytes \<Rightarrow> 32 word \<Rightarrow> bytes \<Rightarrow> 32 word \<Rightarrow> msg_head" where
  "send_msg dst_svr_id cmd msg co =
    new_head\<lparr>h_msg := msg, h_cmd := cmd, dst_co_id := co, dst_bus_id := dst_svr_id\<rparr>"

definition send_reply :: "msg_head \<Rightarrow> bytes \<Rightarrow> msg_head" where
  "send_reply src_msg msg = send_msg (src_bus_id src_msg) (h_cmd src_msg + 1) msg (src_co_id src_msg)"

definition send_by_type :: "nat \<Rightarrow> svr_list \<Rightarrow> bytes \<Rightarrow> 32 word \<Rightarrow> bytes \<Rightarrow> 32 word \<Rightarrow> msg_head" where
  "send_by_type rnd svrs ty cmd msg co = send_msg (GetOneSvrByType rnd ty svrs) cmd msg co"

definition request_head :: "32 word \<Rightarrow> bytes \<Rightarrow> bytes \<Rightarrow> 32 word \<Rightarrow> bytes \<Rightarrow> 32 word \<Rightarrow> msg_head" where
  "request_head co_id src_svr_id dst_svr_id cmd msg co =
    new_head\<lparr>h_msg := msg, h_cmd := cmd, src_co_id := co_id, dst_co_id := co,
             src_bus_id := src_svr_id, dst_bus_id := dst_svr_id\<rparr>"

text \<open>
  What \<open>RabbitMQNet::SendMsg\<close> publishes: nothing when it is not connected, a channel is not usable, or
  there is no destination; otherwise the head with the server's own id as its source.
\<close>

record mq_state =
  mq_connected :: bool
  send_usable :: bool
  recv_channel_succ :: bool
  mq_key :: bytes

definition mq_publish :: "mq_state \<Rightarrow> msg_head \<Rightarrow> msg_head option" where
  "mq_publish net msg =
    (if \<not> mq_connected net then None
     else if \<not> send_usable net \<or> \<not> recv_channel_succ net then None
     else if dst_bus_id msg = [] then None
     else Some (msg\<lparr>src_bus_id := mq_key net\<rparr>))"

subsection \<open>Remote calls\<close>

text \<open>A pointer to a message that is null is \<open>None\<close>.\<close>

type_synonym 'c exchange = "msg_head \<Rightarrow> 'c \<Rightarrow> (int \<times> msg_head option) \<times> 'c"

definition SendMsgRpc :: "(bytes \<Rightarrow> 'r option) \<Rightarrow> 'c exchange \<Rightarrow> msg_head \<Rightarrow> 'c \<Rightarrow> (fault + 'r) \<times> 'c" where
  "SendMsgRpc parse_rsp exch req st =
    (case exch req st of ((ret, ret_msg), st1) \<Rightarrow>
      (if ret \<noteq> 0 then Inl (Throw (StdException ''time out''))
       else case ret_msg of None \<Rightarrow> Inl (Throw (StdException ''nullptr msg''))
         | Some m \<Rightarrow> (case parse_rsp (h_msg m) of None \<Rightarrow> Inl (Throw (StdException ''parse pb failed''))
                       | Some rsp \<Rightarrow> Inr rsp), st1))"

subsection \<open>The redis server's side\<close>

record redis_cmd_req =
  cmd_argv :: "bytes list"
  formatted_cmd :: bytes

text \<open>The reply is optional in \<open>RedisCmdRsp\<close>; \<open>rsp.reply()\<close> of an absent one is the default message.\<close>

type_synonym redis_cmd_rsp = "pb_reply option"

text \<open>\<open>RedisCmd::Yield\<close> throws for a time-out, a null reply and an error reply.\<close>

definition RedisCmd_Yield :: "int \<Rightarrow> rreply option \<Rightarrow> fault + rreply" where
  "RedisCmd_Yield ret msg =
    (if ret \<noteq> 0 then Inl (Throw (StdException ''yield failed''))
     else case msg of None \<Rightarrow> Inl (Throw (StdException ''reply null''))
       | Some r \<Rightarrow>
           if rtype r = REDIS_REPLY_ERROR
           then Inl (case rstr r of None \<Rightarrow> Undef | Some (_, s) \<Rightarrow> Throw (StdException s))
           else Inr r)"

text \<open>
  \<open>redis_link\<close> is the connection to redis as the command sees it: whether it is connected, what
  the asynchronous call returns for a request, and what the coroutine is resumed with.
\<close>

record redis_link =
  link_up :: bool
  async_ret :: "request \<Rightarrow> int"
  answer :: "request \<Rightarrow> int \<times> rreply option"

definition RedisCmd_run :: "redis_link \<Rightarrow> request \<Rightarrow> fault + rreply option" where
  "RedisCmd_run link req =
    (if \<not> link_up link then Inr None
     else if async_ret link req \<noteq> 0 then Inr None
     else case answer link req of (ret, msg) \<Rightarrow>
       rbind (RedisCmd_Yield ret msg) (\<lambda>reply. if is_nil reply then Inr None else Inr (Some reply)))"

definition FormattedCmd :: "redis_link \<Rightarrow> bytes \<Rightarrow> fault + rreply option" where
  "FormattedCmd link cmd = RedisCmd_run link (ReqFormatted cmd)"

definition Cmd :: "redis_link \<Rightarrow> bytes list \<Rightarrow> fault + rreply option" where
  "Cmd link cmd_list = RedisCmd_run link (ReqArgv cmd_list)"

text \<open>
  \<open>TransRedisCmd::Task\<close>: the response it sends.  Its handler catches every exception.
\<close>

definition redis_task :: "redis_link \<Rightarrow> redis_cmd_req \<Rightarrow> fault + redis_cmd_rsp" where
  "redis_task link req =
    (case (if formatted_cmd req \<noteq> [] then FormattedCmd link (formatted_cmd req) else Cmd link (cmd_argv req)) of
       Inl (Throw e) \<Rightarrow> Inr None
     | Inl f \<Rightarrow> Inl f
     | Inr None \<Rightarrow> Inr None
     | Inr (Some reply) \<Rightarrow> rbind (ReplyToPb reply) (\<lambda>pb. Inr (Some pb)))"

subsection \<open>The client's side\<close>

text \<open>
  \<open>RedisActuator\<close>: the pending reply, the C heap and the rest of the world.  \<open>call_redissvr\<close> is
  \<open>SendMsgRpcByType<RedisCmdRsp>\<close> to a redis server.
\<close>

record 'c actuator =
  act_reply :: "rreply option"
  act_heap :: heap
  act_world :: 'c

definition call_redissvr ::
  "(redis_cmd_req \<Rightarrow> bytes) \<Rightarrow> (bytes \<Rightarrow> redis_cmd_rsp option) \<Rightarrow> 'c exchange \<Rightarrow> (redis_cmd_req \<Rightarrow> 'c \<Rightarrow> msg_head) \<Rightarrow>
   redis_cmd_req \<Rightarrow> 'c \<Rightarrow> (fault + redis_cmd_rsp) \<times> 'c" where
  "call_redissvr write_req read_rsp exch mk_head req c =
    SendMsgRpc read_rsp exch ((mk_head req c)\<lparr>h_msg := write_req req\<rparr>) c"

definition act_request ::
  "(nat \<Rightarrow> bool) \<Rightarrow> (nat \<Rightarrow> bool) \<Rightarrow> (redis_cmd_req \<Rightarrow> 'c \<Rightarrow> (fault + redis_cmd_rsp) \<times> 'c) \<Rightarrow>
   redis_cmd_req \<Rightarrow> 'c actuator \<Rightarrow> (fault + unit) \<times> 'c actuator" where
  "act_request ok junk rpc req a =
    (case rpc req (act_world a) of
       (Inl e, c) \<Rightarrow> (Inl e, a\<lparr>act_world := c\<rparr>)
     | (Inr rsp, c) \<Rightarrow>
         (case PbToReply ok junk (case rsp of None \<Rightarrow> default_pb | Some pb \<Rightarrow> pb) (act_heap a) of
            (r, h) \<Rightarrow> (Inr (), a\<lparr>act_world := c, act_heap := h, act_reply := r\<rparr>)))"

fun to_req :: "request \<Rightarrow> redis_cmd_req" where
  "to_req (ReqArgv argv) = \<lparr>cmd_argv = argv, formatted_cmd = []\<rparr>"
| "to_req (ReqFormatted cmd) = \<lparr>cmd_argv = [], formatted_cmd = cmd\<rparr>"

definition act_recv :: "'c actuator \<Rightarrow> rreply option \<times> 'c actuator" where
  "act_recv a = (act_reply a, a\<lparr>act_reply := None\<rparr>)"

end
