(* ===== verification/Rpc_Facts.thy ===== *)
theory Rpc_Facts
  imports Rpc Api_Inline
begin

text \<open>
  Parsers do not look at block numbers, and a call of the client class through the redis server
  (\<open>relay_ops\<close>).
\<close>

subsection \<open>Parsers do not see blocks\<close>

definition blind :: "parser \<Rightarrow> bool" where
  "blind p \<longleftrightarrow> (\<forall>r. p (unblocked r) = p r)"

lemma unblocked_parts [simp]:
  "rtype (unblocked r) = rtype r" "rint (unblocked r) = rint r"
  "rstr (unblocked r) = map_option (\<lambda>(_, t). (0, t)) (rstr r)"
  "relem (unblocked r) = map_option (\<lambda>(_, xs). (0, map (map_option unblocked) xs)) (relem r)"
  by (cases r; simp)+

lemma is_unblocked [simp]: "is_nil (unblocked r) = is_nil r" "is_array (unblocked r) = is_array r"
  "is_string (unblocked r) = is_string r" "is_status (unblocked r) = is_status r"
  "is_integer (unblocked r) = is_integer r" "elements (unblocked r) = elements r"
  by (simp_all add: is_type_defs elements_def split: option.split)

lemma blind_scalars: "parse_string (unblocked r) = parse_string r" "parse_longlong (unblocked r) = parse_longlong r"
  "parse_void (unblocked r) = parse_void r" "to_status (unblocked r) = to_status r"
  by (auto simp: parse_string_def parse_longlong_def parse_void_def to_status_def split: option.split)

lemma blind_array_from: "blind p \<Longrightarrow> to_array_from p (map (map_option unblocked) xs) = to_array_from p xs"
  by (induction p xs rule: to_array_from.induct) (simp_all add: blind_def split: sum.split)

lemma blind_flat_from: "blind p \<Longrightarrow> blind q \<Longrightarrow> to_flat_from p q (map (map_option unblocked) xs) = to_flat_from p q xs"
  by (induction p q xs rule: to_flat_from.induct) (auto simp: blind_def split: sum.split option.split)

lemma blind_plain: "blind p \<Longrightarrow> to_plain_array p (unblocked r) = to_plain_array p r"
  by (auto simp: to_plain_array_def blind_array_from split: option.split)

lemma blind_pair: "blind p \<Longrightarrow> blind q \<Longrightarrow> blind (parse_pair p q)"
  unfolding blind_def [of "parse_pair p q"]
  by (auto simp: parse_pair_def elements_def blind_def nth_map split: option.split)

lemma blind_tuple_from: "list_all blind ps \<Longrightarrow> parse_tuple_from ps (map (map_option unblocked) xs) = parse_tuple_from ps xs"
  by (induction ps xs rule: parse_tuple_from.induct) (simp_all add: blind_def)

lemma blind_tuple: "list_all blind ps \<Longrightarrow> blind (parse_tuple ps)"
  unfolding blind_def by (auto simp: parse_tuple_def blind_tuple_from [unfolded blind_def] split: option.split)

definition ty_blind :: "stod_fun \<Rightarrow> rty \<Rightarrow> bool" where
  "ty_blind sd t \<longleftrightarrow> blind (parse sd t) \<and>
     (case t of TPair u w \<Rightarrow> blind (parse sd u) \<and> blind (parse sd w) | _ \<Rightarrow> True)"

lemma blind_is_flat: "is_flat_array (unblocked r) = is_flat_array r"
  by (auto simp: is_flat_array_def split: option.split list.split)

lemma blind_array_output:
  assumes "blind p" "blind q" "blind pq"
  shows "array_output kv p q pq (unblocked r) = array_output kv p q pq r"
  using blind_flat_from [OF assms(1,2)] blind_plain [OF assms(3)]
  by (auto simp: array_output_def blind_is_flat to_flat_array_def split: option.split sum.split)

lemma to_array_blind: "ty_blind sd t \<Longrightarrow> to_array sd t (unblocked r) = to_array sd t r"
  by (cases t) (simp_all add: ty_blind_def blind_array_output blind_pair)

lemma ty_blind: "ty_blind sd t"
proof (induction t)
  case (TPair u w)
  then have "blind (parse sd u)" "blind (parse sd w)" by (simp_all add: ty_blind_def)
  moreover have "parse sd (TPair u w) = parse_pair (parse sd u) (parse sd w)" by (rule ext) simp
  ultimately show ?case by (simp add: ty_blind_def blind_pair)
next
  case (TTup ts)
  then have "list_all blind (map (parse sd) ts)" by (simp add: list_all_iff ty_blind_def)
  moreover have "parse sd (TTup ts) = parse_tuple (map (parse sd) ts)" by (rule ext) simp
  ultimately show ?case by (simp add: ty_blind_def blind_tuple)
next
  case (TOpt t)
  then show ?case by (simp add: ty_blind_def blind_def)
next
  case (TSeq t)
  with to_array_blind [OF this] show ?case by (simp add: ty_blind_def blind_def del: to_array.simps)
next
  case (TAssoc t)
  with to_array_blind [OF this] show ?case by (simp add: ty_blind_def blind_def del: to_array.simps)
qed (simp_all add: ty_blind_def blind_def blind_scalars parse_double_def parse_bool_def)

lemma parse_unblocked [simp]: "parse sd t (unblocked r) = parse sd t r"
  using ty_blind [of sd t] by (simp add: ty_blind_def blind_def)

lemma to_array_unblocked [simp]: "to_array sd t (unblocked r) = to_array sd t r"
  by (rule to_array_blind [OF ty_blind])

lemma unblocked_rewrite: "rewrite_georadius_reply (unblocked r) = unblocked (rewrite_georadius_reply r)"
  by (cases r) (auto simp: rewrite_georadius_reply_def is_type_defs)

lemma unblocked_set_int: "parse sd t (set_int_reply v (unblocked r)) = parse sd t (set_int_reply v r)"
  by (cases r) (metis parse_unblocked set_int_reply.simps unblocked.simps)

lemma blind_set_reply: "rbind (rewrite_set_reply (unblocked r)) (\<lambda>(r', _). parse sd TBool r') =
    rbind (rewrite_set_reply r) (\<lambda>(r', _). parse sd TBool r')"
  by (auto simp: rewrite_set_reply_def blind_scalars unblocked_set_int simp del: parse.simps split: option.split
      simp: rbind_assoc)

text \<open>The result of a call depends on the reply only through what it says.\<close>

lemma interpret_unblocked: "interpret_reply sd h (unblocked r) = interpret_reply sd h r"
proof (induction h)
  case SetResult
  then show ?case by (simp only: interpret_reply.simps blind_set_reply)
next
  case (ScanInto t)
  have "parse_scan_reply sd t (unblocked r) = parse_scan_reply sd t r"
  proof (cases "relem r")
    case (Some ex)
    obtain eb xs where ex: "ex = (eb, xs)" by fastforce
    show ?thesis
    proof (cases "length xs = 2")
      case True
      then have "map (map_option unblocked) xs ! 0 = map_option unblocked (xs ! 0)"
        "map (map_option unblocked) xs ! 1 = map_option unblocked (xs ! 1)" by simp_all
      then show ?thesis
        by (simp add: parse_scan_reply_def Let_def Some ex blind_scalars del: parse.simps to_array.simps split: option.split sum.split)
    qed (simp add: parse_scan_reply_def elements_def Some ex)
  qed (simp add: parse_scan_reply_def)
  then show ?case by simp
next
  case (XPendingInto t)
  have "parse_xpending_reply sd t (unblocked r) = parse_xpending_reply sd t r"
  proof (cases "relem r")
    case (Some ex)
    obtain eb xs where ex: "ex = (eb, xs)" by fastforce
    show ?thesis
    proof (cases "length xs = 4 \<and> None \<notin> set xs")
      case True
      have "the (map (map_option unblocked) xs ! k) = unblocked (the (xs ! k))" if "k < 4" for k
      proof -
        from True that have "xs ! k \<noteq> None" by (metis nth_mem)
        then show ?thesis using True that by (auto simp: nth_map)
      qed
      from this [of 0] this [of 1] this [of 2] this [of 3] show ?thesis
        by (auto simp: parse_xpending_reply_def Let_def Some ex blind_scalars
            simp del: parse.simps to_array.simps split: sum.split)
    qed (auto simp: parse_xpending_reply_def elements_def Some ex)
  qed (simp add: parse_xpending_reply_def)
  then show ?case by simp
qed (simp_all add: blind_scalars unblocked_rewrite del: parse.simps to_array.simps)

subsection \<open>A call through the redis server\<close>

text \<open>
  \<open>redissvr_exch\<close> puts the two sides together: the request is read and carried out by the redis
  server (\<open>TransRedisCmd\<close>, which does not look at the result of \<open>ParseFromString\<close>), whose reply
  resumes the caller.  If the redis server fails, or the request or the reply does not arrive in time
  (\<open>arrives\<close> is what the network does with a request), the caller times out.  \<open>codec_ok\<close> is what
  protobuf promises of messages whose strings are valid UTF-8.
\<close>

record codec =
  write_req :: "redis_cmd_req \<Rightarrow> bytes"
  read_req :: "bytes \<Rightarrow> redis_cmd_req"
  write_rsp :: "redis_cmd_rsp \<Rightarrow> bytes"
  read_rsp :: "bytes \<Rightarrow> redis_cmd_rsp option"

fun pb_strings :: "pb_reply \<Rightarrow> bytes set" where
  "pb_strings (PbReply ty i s es) = insert s (\<Union> (set (map pb_strings es)))"

definition codec_ok :: "(bytes \<Rightarrow> bool) \<Rightarrow> codec \<Rightarrow> bool" where
  "codec_ok valid cd \<longleftrightarrow>
     (\<forall>req. valid (formatted_cmd req) \<longrightarrow> list_all valid (cmd_argv req) \<longrightarrow> read_req cd (write_req cd req) = req) \<and>
     (\<forall>rsp. (\<forall>pb. rsp = Some pb \<longrightarrow> (\<forall>s \<in> pb_strings pb. valid s)) \<longrightarrow> read_rsp cd (write_rsp cd rsp) = Some rsp)"

definition redissvr_exch :: "(msg_head \<Rightarrow> bool) \<Rightarrow> codec \<Rightarrow> redis_link \<Rightarrow> 'c exchange" where
  "redissvr_exch arrives cd link req c =
    (if \<not> arrives req then ((-1, None), c)
     else case redis_task link (read_req cd (h_msg req)) of
       Inl f \<Rightarrow> ((-1, None), c)
     | Inr rsp \<Rightarrow> ((0, Some (send_reply req (write_rsp cd rsp))), c))"

definition relay_ops ::
  "(nat \<Rightarrow> bool) \<Rightarrow> (nat \<Rightarrow> bool) \<Rightarrow> (msg_head \<Rightarrow> bool) \<Rightarrow> codec \<Rightarrow> redis_link \<Rightarrow> (redis_cmd_req \<Rightarrow> 'c \<Rightarrow> msg_head) \<Rightarrow> 'c actuator conn_ops" where
  "relay_ops ok junk arrives cd link mk_head =
    \<lparr>do_request = (\<lambda>req. act_request ok junk
        (call_redissvr (write_req cd) (read_rsp cd) (redissvr_exch arrives cd link) mk_head) (to_req req)),
     do_recv = act_recv\<rparr>"

text \<open>What redis is asked is what the client asked.\<close>

definition utf8_request :: "(bytes \<Rightarrow> bool) \<Rightarrow> request \<Rightarrow> bool" where
  "utf8_request valid req = (case req of ReqFormatted cmd \<Rightarrow> valid cmd \<and> cmd \<noteq> [] | ReqArgv argv \<Rightarrow> valid [] \<and> list_all valid argv)"

lemma redis_task_run: "utf8_request valid req \<Longrightarrow>
    redis_task link (to_req req) =
      (case RedisCmd_run link req of
         Inl (Throw e) \<Rightarrow> Inr None | Inl f \<Rightarrow> Inl f | Inr None \<Rightarrow> Inr None
       | Inr (Some reply) \<Rightarrow> rbind (ReplyToPb reply) (\<lambda>pb. Inr (Some pb)))"
  by (cases req) (simp_all add: utf8_request_def redis_task_def Cmd_def FormattedCmd_def)

lemma relay_rpc:
  assumes "codec_ok valid cd" "utf8_request valid req" "redis_task link (to_req req) = Inr rsp"
    and "\<forall>pb. rsp = Some pb \<longrightarrow> (\<forall>s \<in> pb_strings pb. valid s)"
  shows "call_redissvr (write_req cd) (read_rsp cd) (redissvr_exch (\<lambda>_. True) cd link) mk_head (to_req req) c = (Inr rsp, c)"
proof -
  have "read_req cd (write_req cd (to_req req)) = to_req req"
    using assms(1,2) by (cases req) (simp_all add: codec_ok_def utf8_request_def)
  moreover have "read_rsp cd (write_rsp cd rsp) = Some rsp"
    using assms(1,4) by (simp add: codec_ok_def)
  ultimately show ?thesis
    using assms(3)
    by (simp add: call_redissvr_def SendMsgRpc_def redissvr_exch_def send_reply_def send_msg_def new_head_def)
qed

text \<open>The strings of a reply.\<close>

fun reply_strings :: "rreply \<Rightarrow> bytes set" where
  "reply_strings (Reply b ty i s e) =
    (case s of None \<Rightarrow> {[]} | Some (_, t) \<Rightarrow> {t}) \<union>
    (case e of None \<Rightarrow> {} | Some (_, xs) \<Rightarrow> \<Union> (set (map (\<lambda>x. case x of None \<Rightarrow> {} | Some r \<Rightarrow> reply_strings r) xs)))"

lemma pb_strings_ReplyToPb:
  "ReplyToPb r = Inr pb \<Longrightarrow> pb_strings pb \<subseteq> reply_strings r"
  "elements_to_pb xs = Inr es \<Longrightarrow>
     \<Union> (set (map pb_strings es)) \<subseteq> \<Union> (set (map (\<lambda>x. case x of None \<Rightarrow> {} | Some r \<Rightarrow> reply_strings r) xs))"
proof (induction r and xs arbitrary: pb and es rule: ReplyToPb_elements_to_pb.induct)
  case (1 b ty i s)
  then show ?case by (auto split: option.splits)
next
  case (2 b ty i s eb xs)
  then show ?case by (fastforce simp: rbind_Inr_iff split: option.splits if_splits)
next
  case (5 x xs)
  then show ?case by (fastforce simp: rbind_Inr_iff)
qed auto

end
