(* ===== verification/Rpc_Codec.thy ===== *)
theory Rpc_Codec
  imports Rpc_Facts
begin

text \<open>
  A codec for the messages of the redis server, built from the readers and writers of \<open>Resp\<close>: it
  shows that \<open>codec_ok\<close> can be met, and is what the witnesses run on.
\<close>

fun enc_pb :: "pb_reply \<Rightarrow> bytes" where
  "enc_pb (PbReply ty i s es) =
    num_line (nat ty) @ num_line (nat (- ty)) @ num_line i @ bulk s @ num_line (length es) @ concat (map enc_pb es)"

primrec read_many :: "(bytes \<Rightarrow> ('a \<times> bytes) option) \<Rightarrow> nat \<Rightarrow> bytes \<Rightarrow> ('a list \<times> bytes) option" where
  "read_many dec 0 s = Some ([], s)"
| "read_many dec (Suc n) s =
    (case dec s of None \<Rightarrow> None
     | Some (x, r) \<Rightarrow> (case read_many dec n r of None \<Rightarrow> None | Some (xs, q) \<Rightarrow> Some (x # xs, q)))"

lemma read_many_enc: "(\<And>x r. x \<in> set xs \<Longrightarrow> dec (wr x @ r) = Some (x, r)) \<Longrightarrow>
    read_many dec (length xs) (concat (map wr xs) @ r) = Some (xs, r)"
  by (induction xs) simp_all

fun dec_pb :: "nat \<Rightarrow> bytes \<Rightarrow> (pb_reply \<times> bytes) option" where
  "dec_pb 0 s = None"
| "dec_pb (Suc n) s =
    (case read_num s of None \<Rightarrow> None | Some (a, s1) \<Rightarrow>
    (case read_num s1 of None \<Rightarrow> None | Some (b, s2) \<Rightarrow>
    (case read_num s2 of None \<Rightarrow> None | Some (i, s3) \<Rightarrow>
    (case read_bulk s3 of None \<Rightarrow> None | Some (t, s4) \<Rightarrow>
    (case read_num s4 of None \<Rightarrow> None | Some (k, s5) \<Rightarrow>
    (case read_many (dec_pb n) k s5 of None \<Rightarrow> None
     | Some (es, r) \<Rightarrow> Some (PbReply (int a - int b) i t es, r)))))))"

lemma dec_pb_enc: "size pb < n \<Longrightarrow> dec_pb n (enc_pb pb @ r) = Some (pb, r)"
proof (induction n arbitrary: pb r)
  case (Suc n)
  obtain ty i s es where pb: "pb = PbReply ty i s es" by (cases pb)
  have "read_many (dec_pb n) (length es) (concat (map enc_pb es) @ r) = Some (es, r)"
  proof (rule read_many_enc)
    fix x r assume "x \<in> set es"
    then have "size x < size pb" using size_list_estimation' [of x es "size x" size] by (simp add: pb)
    with Suc show "dec_pb n (enc_pb x @ r) = Some (x, r)" by simp
  qed
  then show ?case by (simp add: pb num_codec.dec_enc bulk_codec.dec_enc)
qed simp

definition demo_codec :: codec where
  "demo_codec =
    \<lparr>write_req = (\<lambda>req. resp_encode (formatted_cmd req # cmd_argv req)),
     read_req = (\<lambda>s. case resp_decode s of
        Some (f # argv, _) \<Rightarrow> \<lparr>cmd_argv = argv, formatted_cmd = f\<rparr>
      | _ \<Rightarrow> \<lparr>cmd_argv = [], formatted_cmd = []\<rparr>),
     write_rsp = (\<lambda>rsp. case rsp of None \<Rightarrow> [] | Some pb \<Rightarrow> num_line (Suc (size pb)) @ enc_pb pb),
     read_rsp = (\<lambda>s. if s = [] then Some None else case read_num s of None \<Rightarrow> None
        | Some (n, r) \<Rightarrow> (case dec_pb n r of None \<Rightarrow> None | Some (pb, _) \<Rightarrow> Some (Some pb)))\<rparr>"

lemma demo_codec_ok: "codec_ok valid demo_codec"
proof -
  have "read_req demo_codec (write_req demo_codec req) = req" for req
    using resp_codec.dec_enc_all by (simp add: demo_codec_def)
  moreover have "read_rsp demo_codec (write_rsp demo_codec rsp) = Some rsp" for rsp
  proof (cases rsp)
    case (Some pb)
    then show ?thesis
      using num_codec.dec_enc [of "Suc (size pb)"] dec_pb_enc [of pb "Suc (size pb)" "[]"]
      by (simp add: demo_codec_def num_line_def)
  qed (simp add: demo_codec_def)
  ultimately show ?thesis by (simp add: codec_ok_def)
qed

end
