(* ===== verification/Rpc_Props.thy ===== *)
theory Rpc_Props
  imports Rpc_Codec
begin

text \<open>Properties of the messages between servers and of redis calls that go through them.\<close>

text \<open>
  a reply finds its request.  When a request that a transaction sends is published, and the
  server that handles it publishes its reply (\<open>SendMsg(src_msg, msg)\<close>), the reply goes to the
  server the request came from, to the coroutine that waits for it, with the next command number.
\<close>

theorem rpc_reply_routed:
  assumes "mq_publish net (request_head co self dst cmd payload d) = Some req"
    and "mq_publish net' (send_reply req rsp) = Some rep"
  shows "dst_bus_id rep = mq_key net \<and> dst_co_id rep = co \<and> h_cmd rep = cmd + 1 \<and> h_msg rep = rsp \<and>
    src_bus_id rep = mq_key net' \<and> dst_bus_id req = dst \<and> dst \<noteq> [] \<and> h_msg req = payload"
  using assms
  by (auto simp: mq_publish_def request_head_def send_reply_def send_msg_def new_head_def split: if_splits)

lemma rpc_reply_routed_witness:
  "\<exists>req rep. mq_publish \<lparr>mq_connected = True, send_usable = True, recv_channel_succ = True, mq_key = ''gate-1''\<rparr>
       (request_head 5 ''gate-1'' ''redissvr-1'' 65537 ''ping'' 0) = Some req \<and>
     mq_publish \<lparr>mq_connected = True, send_usable = True, recv_channel_succ = True, mq_key = ''redissvr-1''\<rparr>
       (send_reply req ''pong'') = Some rep \<and> dst_bus_id rep = ''gate-1'' \<and> dst_co_id rep = 5 \<and> h_cmd rep = 65538"
proof -
  let ?n = "\<lambda>k. \<lparr>mq_connected = True, send_usable = True, recv_channel_succ = True, mq_key = k\<rparr>"
  obtain req where q: "mq_publish (?n ''gate-1'') (request_head 5 ''gate-1'' ''redissvr-1'' 65537 ''ping'' 0) = Some req"
    by (simp add: mq_publish_def request_head_def)
  then obtain rep where p: "mq_publish (?n ''redissvr-1'') (send_reply req ''pong'') = Some rep"
    by (auto simp: mq_publish_def request_head_def send_reply_def send_msg_def)
  from rpc_reply_routed [OF q p] q p show ?thesis by auto
qed

text \<open>
  C34: the list of servers holds each known server once, under its own type, through every sequence
  of \<open>AddSvr\<close>, \<open>RemoveSvr\<close> and \<open>Clear\<close>; ids without a type are never added; the server chosen for a
  type is one of that type, and is the empty id (to which nothing is published) exactly when none
  is known.
\<close>

datatype svr_event = SvrAdd bytes | SvrRemove bytes | SvrClear

fun svr_step :: "svr_event \<Rightarrow> svr_list \<Rightarrow> svr_list" where
  "svr_step (SvrAdd x) l = AddSvr x l"
| "svr_step (SvrRemove x) l = RemoveSvr x l"
| "svr_step SvrClear l = Clear_svr_list l"

lemma svrs_ok_steps: "svrs_ok l \<Longrightarrow> svrs_ok (fold svr_step es l)"
proof (induction es arbitrary: l)
  case (Cons e es)
  then have "svrs_ok (svr_step e l)" by (cases e) (simp_all add: svrs_ok_AddSvr svrs_ok_RemoveSvr svrs_ok_empty)
  with Cons.IH show ?case by simp
qed simp

theorem server_of_type:
  "let l = fold svr_step es empty_svr_list; s = GetOneSvrByType rnd ty l in
   svrs_ok l \<and>
   (s = [] \<longleftrightarrow> (\<forall>x \<in> svr_set l. GetType x \<noteq> ty)) \<and>
   (s \<noteq> [] \<longrightarrow> s \<in> svr_set l \<and> GetType s = ty)"
proof -
  let ?l = "fold svr_step es empty_svr_list"
  have ok: "svrs_ok ?l" by (rule svrs_ok_steps [OF svrs_ok_empty(1)])
  have mem: "x \<in> set (svrs_of ?l ty) \<longleftrightarrow> x \<in> svr_set ?l \<and> GetType x = ty" for x
    using ok by (simp add: svrs_ok_def)
  have ne: "x \<noteq> []" if "x \<in> svr_set ?l" for x using ok that by (auto simp: svrs_ok_def GetType_def)
  show ?thesis
  proof (cases "svrs_of ?l ty = []")
    case True
    then have none: "\<forall>x \<in> svr_set ?l. GetType x \<noteq> ty" using mem by fastforce
    with GetOneSvrByType_in(2) [OF True, of rnd] ok show ?thesis by (simp add: Let_def)
  next
    case False
    let ?s = "GetOneSvrByType rnd ty ?l"
    have s: "?s \<in> svr_set ?l \<and> GetType ?s = ty" using GetOneSvrByType_in(1) [OF False, of rnd] mem by blast
    with ne [of ?s] ok show ?thesis by (auto simp: Let_def)
  qed
qed

lemma server_of_type_witness:
  "GetOneSvrByType 7 ''redissvr'' (fold svr_step [SvrAdd ''redissvr-a'', SvrAdd ''gate-b'', SvrAdd ''redissvr-c'',
     SvrRemove ''redissvr-a''] empty_svr_list) = ''redissvr-c''"
proof -
  define es where "es = [SvrAdd ''redissvr-a'', SvrAdd ''gate-b'', SvrAdd ''redissvr-c'', SvrRemove ''redissvr-a'']"
  define l where "l = fold svr_step es empty_svr_list"
  have set: "svr_set l = {''gate-b'', ''redissvr-c''}"
    unfolding l_def es_def
    by (simp add: svr_set_AddSvr RemoveSvr_eq svrs_ok_AddSvr svrs_ok_empty GetType_def) (auto simp: empty_svr_list_def)
  let ?s = "GetOneSvrByType 7 ''redissvr'' l"
  have th: "?s = [] \<longleftrightarrow> (\<forall>x \<in> svr_set l. GetType x \<noteq> ''redissvr'')"
    "?s \<noteq> [] \<Longrightarrow> ?s \<in> svr_set l \<and> GetType ?s = ''redissvr''"
    using server_of_type [of es 7 "''redissvr''"] unfolding Let_def l_def by blast+
  have ty: "GetType ''redissvr-c'' = ''redissvr''" "GetType ''gate-b'' = ''gate''" by (simp_all add: GetType_def)
  have "''redissvr-c'' \<in> svr_set l" by (simp only: set insert_iff simp_thms)
  with ty(1) th(1) have "?s \<noteq> []" by blast
  from th(2) [OF this] have "?s \<in> svr_set l" "GetType ?s \<noteq> ''gate''" by simp_all
  with ty(2) have "?s = ''redissvr-c''" unfolding set by (metis insertE singletonD)
  then show ?thesis by (simp add: l_def es_def)
qed

text \<open>
  C26: \<open>PbToReply\<close> leaks nothing and frees nothing twice, whichever allocations fail and whatever
  the indeterminate pointer holds: each block it allocated has been freed once, or is one of the
  blocks that \<open>freeReplyObject\<close> of the reply it returns will free once.
\<close>

theorem convert_no_leak:
  "case PbToReply ok junk pb h of (res, h') \<Rightarrow>
     \<exists>F. freed h' = freed h @ F \<and>
       mset F + mset (freeReplyObject res) = mset (filter ok [next_block h..<next_block h'])"
proof -
  obtain res h' where c: "PbToReply ok junk pb h = (res, h')" by (cases "PbToReply ok junk pb h")
  from convert_balanced(1) [OF c] show ?thesis by (simp add: c balanced_def blocks_of_def)
qed

text \<open>
  C30: a reply survives the way through the message: \<open>PbToReply\<close> of \<open>ReplyToPb\<close> is the reply, block
  numbers apart, for every reply the client library builds, nested arrays and negative integers
  included (when no allocation fails and the pointer \<open>PbToReply\<close> forgets to assign is not null).
\<close>

theorem convert_roundtrip:
  assumes "built_reply r"
  shows "\<exists>pb r' h'. ReplyToPb r = Inr pb \<and>
    PbToReply (\<lambda>_. True) (\<lambda>_. False) pb h = (Some r', h') \<and> unblocked r' = unblocked r"
  using convert_back(1) [OF assms] by blast

lemma convert_roundtrip_witness:
  "\<exists>pb r' h'. ReplyToPb (Reply 1 2 0 None (Some (2, [Some (Reply 3 3 (-5) None None), Some (Reply 4 1 0 (Some (5, ''x'')) None)]))) = Inr pb \<and>
    PbToReply (\<lambda>_. True) (\<lambda>_. False) pb \<lparr>next_block = 0, freed = []\<rparr> = (Some r', h') \<and>
    parse (\<lambda>_. Inl Undef) (TTup [TInt, TStr]) r' = Inr (RTup [RInt (-5), RStr ''x''])"
proof -
  let ?r = "Reply 1 2 0 None (Some (2, [Some (Reply 3 3 (-5) None None), Some (Reply 4 1 0 (Some (5, ''x'')) None)]))"
  have "built_reply ?r" by simp
  from convert_roundtrip [OF this] obtain pb r' h' where
    c: "ReplyToPb ?r = Inr pb" "PbToReply (\<lambda>_. True) (\<lambda>_. False) pb \<lparr>next_block = 0, freed = []\<rparr> = (Some r', h')"
    and u: "unblocked r' = unblocked ?r" by blast
  have "parse (\<lambda>_. Inl Undef) (TTup [TInt, TStr]) r' = parse (\<lambda>_. Inl Undef) (TTup [TInt, TStr]) ?r"
    by (metis parse_unblocked u)
  also have "\<dots> = Inr (RTup [RInt (-5), RStr ''x''])"
    by (simp add: parse_tuple_def is_array_def elements_def parse_longlong_def is_integer_def parse_string_def is_string_def)
  finally show ?thesis using c by blast
qed

subsection \<open>Calls of the client class through the redis server\<close>

lemma request_not_empty: "request_argv (ReqFormatted cmd) = Some argv \<Longrightarrow> cmd \<noteq> []"
  by (auto simp: resp_decode_def)

text \<open>One call, from what the redis server answers with.\<close>

lemma relay_call:
  assumes "codec_ok valid cd" "sends libc m argv"
    and valid: "valid []" "list_all valid argv"
    and "\<And>req. request_argv req = Some argv \<Longrightarrow> redis_task link (to_req req) = Inr rsp"
    and "\<forall>pb. rsp = Some pb \<longrightarrow> (\<forall>s \<in> pb_strings pb. valid s)"
    and wire: "\<And>cmd. request_argv (ReqFormatted cmd) = Some argv \<Longrightarrow> valid cmd"
    and "PbToReply ok junk (case rsp of None \<Rightarrow> default_pb | Some pb \<Rightarrow> pb) (act_heap a) = (Some r, hp)"
  shows "fst (run_call libc (\<lambda>_. True) sd (relay_ops ok junk (\<lambda>_. True) cd link mk) (m, how) a) = interpret_reply sd how r"
proof -
  from assms(2) obtain req where req: "rbind m (conn_send libc (\<lambda>_. True)) = Inr (Some req)"
    "request_argv req = Some argv"
    by (auto simp: sends_def split: sum.splits option.splits)
  have u: "utf8_request valid req"
    using req(2) valid wire request_not_empty by (cases req) (auto simp: utf8_request_def)
  from relay_rpc [where mk_head = mk and c = "act_world a", OF assms(1) u assms(5) [OF req(2)] assms(6)]
    assms(8) req(1) show ?thesis
    by (simp add: run_call_def redis_command_def relay_ops_def act_request_def act_recv_def)
qed

text \<open>One whose messages do not arrive.\<close>

lemma relay_lost:
  assumes "sends libc m argv"
  shows "fst (run_call libc (\<lambda>_. True) sd (relay_ops ok junk (\<lambda>_. False) cd link mk) (m, how) a) =
    (Inl (Throw (StdException ''time out'')), [])"
proof -
  from assms obtain req where "rbind m (conn_send libc (\<lambda>_. True)) = Inr (Some req)"
    by (auto simp: sends_def split: sum.splits option.splits)
  then show ?thesis
    by (simp add: run_call_def redis_command_def relay_ops_def act_request_def call_redissvr_def SendMsgRpc_def redissvr_exch_def)
qed

text \<open>
  C3: a call through the redis server gives what the same call gives on a direct connection.  The
  command is any of the client class (\<open>m\<close>, with any way of reading its reply); redis answers the
  request with a reply that is neither nil nor an error (\<open>relay_loses_nil\<close> is about those).  If the messages do not
  arrive in time the call throws instead.  (Strings are valid UTF-8, as protobuf requires of the
  \<open>string\<close> fields the messages use; the redis server is connected to redis; no allocation fails; the
  pointer that \<open>PbToReply\<close> forgets to assign is not null.)
\<close>

theorem relay_same_result:
  assumes "codec_ok valid cd" "sends libc m argv"
    and valid: "valid []" "list_all valid argv" "\<And>cmd. request_argv (ReqFormatted cmd) = Some argv \<Longrightarrow> valid cmd"
      "\<forall>s \<in> reply_strings r. valid s"
    and "link_up link" "\<And>req. async_ret link req = 0"
    and ans: "\<And>req. request_argv req = Some argv \<Longrightarrow> answer link req = (0, Some r)"
    and r: "built_reply r" "\<not> is_nil r" "\<not> is_error r"
  shows "fst (run_call libc (\<lambda>_. True) sd (relay_ops (\<lambda>_. True) (\<lambda>_. False) (\<lambda>_. arrives) cd link mk) (m, how) a) =
    (if arrives then interpret_reply sd how r else (Inl (Throw (StdException ''time out'')), []))"
proof -
  from convert_back(1) [OF r(1)] obtain pb r' hp where pb: "ReplyToPb r = Inr pb"
    "PbToReply (\<lambda>_. True) (\<lambda>_. False) pb (act_heap a) = (Some r', hp)" and u: "unblocked r' = unblocked r" by metis
  have strs: "\<forall>s \<in> pb_strings pb. valid s" using pb_strings_ReplyToPb(1) [OF pb(1)] valid(4) by blast
  have run: "RedisCmd_run link req = Inr (Some r)" if "request_argv req = Some argv" for req
    using ans [OF that] assms(7,8) r(2,3) by (simp add: RedisCmd_run_def RedisCmd_Yield_def is_error_def)
  have task: "redis_task link (to_req req) = Inr (Some pb)" if "request_argv req = Some argv" for req
  proof -
    have "utf8_request valid req" using that valid request_not_empty by (cases req) (auto simp: utf8_request_def)
    from redis_task_run [OF this, of link] run [OF that] pb(1) show ?thesis by simp
  qed
  have "fst (run_call libc (\<lambda>_. True) sd (relay_ops (\<lambda>_. True) (\<lambda>_. False) (\<lambda>_. True) cd link mk) (m, how) a) =
      interpret_reply sd how r'"
    by (rule relay_call [where valid = valid and rsp = "Some pb"]) (use assms(1,2) valid task strs pb in \<open>auto\<close>)
  also have "\<dots> = interpret_reply sd how r" by (metis interpret_unblocked u)
  finally show ?thesis using relay_lost [OF assms(2)] by (cases arrives) simp_all
qed

lemma fits_get: "length k \<le> 9 \<Longrightarrow> fits [''GET'', k]"
  by (simp add: fits_def resp_encode_def bulk_def dec_nat_small)

definition demo_link :: "rreply \<Rightarrow> redis_link" where
  "demo_link r = \<lparr>link_up = True, async_ret = (\<lambda>_. 0), answer = (\<lambda>_. (0, Some r))\<rparr>"

lemma relay_same_result_witness:
  "fst (run_call (\<lambda>_ _. []) (\<lambda>_. True) (\<lambda>_. Inl Undef)
     (relay_ops (\<lambda>_. True) (\<lambda>_. False) (\<lambda>_. True) demo_codec (demo_link (Reply 1 1 0 (Some (2, ''v'')) None)) (\<lambda>_ _. new_head))
     (redis_get ''k'') \<lparr>act_reply = None, act_heap = \<lparr>next_block = 0, freed = []\<rparr>, act_world = ()\<rparr>) =
   (Inr (RSome (RStr ''v'')), [])"
proof -
  have s: "sends (\<lambda>_ _. []) (cmd_get ''k'') [''GET'', ''k'']" by (rule sends_get [OF fits_get]) simp
  from relay_same_result [OF demo_codec_ok s, where valid = "\<lambda>_. True" and link = "demo_link (Reply 1 1 0 (Some (2, ''v'')) None)"
      and r = "Reply 1 1 0 (Some (2, ''v'')) None" and sd = "\<lambda>_. Inl Undef" and how = "ParseAs OptionalString"
      and mk = "\<lambda>_ _. new_head" and a = "\<lparr>act_reply = None, act_heap = \<lparr>next_block = 0, freed = []\<rparr>, act_world = ()\<rparr>"]
  show ?thesis
    by (simp add: demo_link_def redis_get_def is_nil_def is_error_def parse_string_def is_string_def list_all_iff)
qed

text \<open>Every way of reading a reply refuses the reply that an absent one is read as.\<close>

lemma empty_reply_refused: "\<exists>msg. interpret_reply sd how (Reply b 0 0 None None) = (Inl (Throw (ProtoError msg)), [])"
proof (induction how)
  have parse: "\<exists>msg. parse sd t (Reply b 0 0 None None) = Inl (Throw (ProtoError msg))" for t
    by (induction t) (simp_all add: reply_simps parse_void_def parse_string_def parse_longlong_def parse_double_def
        parse_bool_def parse_pair_def parse_tuple_def, auto)
  have array: "to_array sd t (Reply b 0 0 None None) = ([], Some (Throw (ProtoError ''Expect ARRAY reply'')))" for t
    by (cases t) (simp_all add: array_output_def is_array_def)
  {
    case (ParseAs t)
    with parse [of t] show ?case by (auto simp del: parse.simps)
  next
    case (ArrayInto t)
    show ?case by (simp add: array array_result_def del: to_array.simps)
  next
    case (NilOrArrayInto t)
    show ?case by (simp add: array array_result_def is_nil_def del: to_array.simps)
  next
    case GeoStoreResult
    with parse [of "TOpt TInt"] show ?case by (auto simp: rewrite_georadius_reply_def is_array_def simp del: parse.simps)
  }
qed (simp_all add: to_status_def is_status_def parse_scan_reply_def elements_def parse_xpending_reply_def
    is_array_def rewrite_set_reply_def is_nil_def parse_void_def del: parse.simps to_array.simps)

text \<open>
  C35: through the redis server the client cannot tell a missing key, an error and a redis server
  without a connection apart.  \<open>RedisCmd\<close> turns a nil reply into a null pointer and throws for an error
  reply, and \<open>TransRedisCmd\<close> then sends a response with no reply in it; the client reads the absent
  reply as a reply of type 0.  Whatever the method and its way of reading a reply, the call then throws a
  \<open>ProtoError\<close>, also where a nil reply is a value on a direct connection (an optional).  If the
  unassigned pointer of \<open>PbToReply\<close> happens to be null there is no reply at all instead: a named
  method dereferences null, a generic command fails its assertion.
\<close>

theorem relay_loses_nil:
  assumes "codec_ok valid cd" "sends libc m argv"
    and valid: "valid []" "list_all valid argv" "\<And>cmd. request_argv (ReqFormatted cmd) = Some argv \<Longrightarrow> valid cmd"
    and "\<not> link_up link \<or> (\<forall>req. async_ret link req = 0 \<and> answer link req = (0, Some r)) \<and>
      (is_nil r \<or> is_error r \<and> rstr r \<noteq> None)"
  shows "\<exists>msg. fst (run_call libc (\<lambda>_. True) sd (relay_ops (\<lambda>_. True) junk (\<lambda>_. True) cd link mk) (m, how) a) =
      (if junk (next_block (act_heap a)) then Inl (null_reply how) else Inl (Throw (ProtoError msg)), []) \<and>
    (is_nil r \<longrightarrow> interpret_reply sd (ParseAs (TOpt t)) r = (Inr RNone, []))"
proof -
  have run: "RedisCmd_run link req = Inr None \<or> (\<exists>e. RedisCmd_run link req = Inl (Throw e))" for req
    using assms(6) by (auto simp: RedisCmd_run_def RedisCmd_Yield_def is_error_def is_nil_def)
  have none: "redis_task link (to_req req) = Inr None" if "utf8_request valid req" for req
    using run [of req] redis_task_run [OF that, of link] by (elim disjE exE) simp_all
  have ok: "utf8_request valid req" if "request_argv req = Some argv" for req
    using that valid request_not_empty by (cases req) (auto simp: utf8_request_def)
  note task = none [OF ok]
  let ?b = "next_block (act_heap a)"
  let ?r = "Reply ?b 0 0 None None"
  let ?run = "fst (run_call libc (\<lambda>_. True) sd (relay_ops (\<lambda>_. True) junk (\<lambda>_. True) cd link mk) (m, how) a)"
  obtain msg where msg: "interpret_reply sd how ?r = (Inl (Throw (ProtoError msg)), [])"
    using empty_reply_refused by blast
  have pb: "PbToReply (\<lambda>_. True) junk default_pb (act_heap a) = finish_reply (junk ?b) ?r ((act_heap a)\<lparr>next_block := Suc ?b\<rparr>)"
    by (simp add: default_pb_def createReplyObject_def heap_alloc_def)
  have "?run = (if junk ?b then Inl (null_reply how) else Inl (Throw (ProtoError msg)), [])"
  proof (cases "junk ?b")
    case False
    have "?run = interpret_reply sd how ?r"
      by (rule relay_call [where valid = valid and rsp = None, OF assms(1,2)])
        (use valid task pb False in \<open>auto simp: finish_reply_def\<close>)
    with False msg show ?thesis by simp
  next
    case True
    from assms(2) obtain req where req: "rbind m (conn_send libc (\<lambda>_. True)) = Inr (Some req)"
      "request_argv req = Some argv"
      by (auto simp: sends_def split: sum.splits option.splits)
    from relay_rpc [where mk_head = mk and c = "act_world a", OF assms(1) ok [OF req(2)] task [OF req(2)]] pb True req(1)
    show ?thesis
      by (simp add: run_call_def redis_command_def relay_ops_def act_request_def act_recv_def finish_reply_def)
  qed
  then show ?thesis by (intro exI [of _ msg]) simp
qed

lemma relay_loses_nil_witness:
  "(\<exists>msg. fst (run_call (\<lambda>_ _. []) (\<lambda>_. True) (\<lambda>_. Inl Undef)
     (relay_ops (\<lambda>_. True) (\<lambda>_. False) (\<lambda>_. True) demo_codec (demo_link (Reply 1 4 0 None None)) (\<lambda>_ _. new_head))
     (redis_get ''k'') \<lparr>act_reply = None, act_heap = \<lparr>next_block = 0, freed = []\<rparr>, act_world = ()\<rparr>) =
   (Inl (Throw (ProtoError msg)), [])) \<and>
   interpret_reply (\<lambda>_. Inl Undef) (snd (redis_get ''k'')) (Reply 1 4 0 None None) = (Inr RNone, [])"
proof -
  have s: "sends (\<lambda>_ _. []) (cmd_get ''k'') [''GET'', ''k'']" by (rule sends_get [OF fits_get]) simp
  show ?thesis
    using relay_loses_nil [OF demo_codec_ok s, where valid = "\<lambda>_. True"
      and link = "demo_link (Reply 1 4 0 None None)" and r = "Reply 1 4 0 None None" and sd = "\<lambda>_. Inl Undef"
      and mk = "\<lambda>_ _. new_head" and junk = "\<lambda>_. False" and how = "ParseAs OptionalString" and t = TStr
      and a = "\<lparr>act_reply = None, act_heap = \<lparr>next_block = 0, freed = []\<rparr>, act_world = ()\<rparr>"]
    by (simp add: demo_link_def is_nil_def redis_get_def list_all_iff)
qed

end
