(* ===== verification/Client_State.thy ===== *)
theory Client_State
  imports Prelude
begin

text \<open>
  The connections a server keeps and how they are opened again: \<open>src/commlib/client_base.h\<close>, the
  redis connection of \<open>src/app/redissvr/redis_client.cpp\<close>, and the RabbitMQ connection of
  \<open>src/app/common/mq_net.cpp\<close>.

  \<open>ClientBase::state_\<close> has no initial value, so it is an integer: after construction it holds
  whatever the memory held.
\<close>

subsection \<open>ClientBase\<close>

definition kConnecting :: int where "kConnecting = 1"
definition kConnected :: int where "kConnected = 2"
definition kDisConnecting :: int where "kDisConnecting = 3"
definition kDisConnected :: int where "kDisConnected = 4"
definition kExpired :: int where "kExpired = 5"

lemmas client_state_defs = kConnecting_def kConnected_def kDisConnecting_def kDisConnected_def kExpired_def

definition NotNeedReconnect :: "int \<Rightarrow> bool" where
  "NotNeedReconnect state \<longleftrightarrow> state = kConnected \<or> state = kConnecting \<or> state = kDisConnecting"

subsection \<open>The redis connection\<close>

text \<open>
  A context is a number.  \<open>redisAsyncConnect\<close> returns null, a context with an error, or a context
  that is connecting.  \<open>live\<close> are the contexts the library has not freed, with whether they are
  connected: the library frees a context after it has reported a failed connect or a disconnect,
  and \<open>redisAsyncFree\<close> frees it at once.
\<close>

datatype async_connect = ConnectNull | ConnectErr nat | ConnectOk nat

record redis_client =
  rc_state :: int
  rc_context :: "nat option"
  live :: "nat \<Rightarrow> bool option"

definition redis_client_new :: "int \<Rightarrow> redis_client" where
  "redis_client_new junk = \<lparr>rc_state = junk, rc_context = None, live = (\<lambda>_. None)\<rparr>"

definition redis_Reconnect :: "async_connect \<Rightarrow> redis_client \<Rightarrow> redis_client" where
  "redis_Reconnect res c =
    (if NotNeedReconnect (rc_state c) then c
     else case res of
       ConnectNull \<Rightarrow> c\<lparr>rc_context := None\<rparr>
     | ConnectErr x \<Rightarrow> c\<lparr>rc_context := Some x\<rparr>
     | ConnectOk x \<Rightarrow> c\<lparr>rc_context := Some x, rc_state := kConnecting, live := (live c)(x \<mapsto> False)\<rparr>)"

definition redis_Init :: "async_connect \<Rightarrow> redis_client \<Rightarrow> redis_client" where
  "redis_Init res c = redis_Reconnect res c"

definition ConnectCallback :: "bool \<Rightarrow> redis_client \<Rightarrow> redis_client" where
  "ConnectCallback ok c = c\<lparr>rc_state := (if ok then kConnected else kDisConnected)\<rparr>"

definition DisconnectCallback :: "bool \<Rightarrow> redis_client \<Rightarrow> redis_client" where
  "DisconnectCallback ok c = c\<lparr>rc_state := kDisConnected\<rparr>"

text \<open>
  One step of the program around the client: the timer calls \<open>Reconnect\<close> (the context is not one in
  use), or the library reports on one of its contexts and frees it when the connection is over.
\<close>

inductive redis_step :: "redis_client \<Rightarrow> redis_client \<Rightarrow> bool" where
  tick: "(\<And>x. res = ConnectOk x \<Longrightarrow> live c x = None) \<Longrightarrow> redis_step c (redis_Reconnect res c)"
| connected: "live c x = Some False \<Longrightarrow>
    redis_step c (ConnectCallback True (c\<lparr>live := (live c)(x \<mapsto> True)\<rparr>))"
| refused: "live c x = Some False \<Longrightarrow>
    redis_step c ((ConnectCallback False c)\<lparr>live := (live c)(x := None)\<rparr>)"
| disconnected: "live c x = Some True \<Longrightarrow>
    redis_step c ((DisconnectCallback ok c)\<lparr>live := (live c)(x := None)\<rparr>)"

inductive redis_reachable :: "int \<Rightarrow> redis_client \<Rightarrow> bool" for junk where
  start: "redis_reachable junk (redis_client_new junk)"
| step: "redis_reachable junk c \<Longrightarrow> redis_step c c' \<Longrightarrow> redis_reachable junk c'"

inductive_cases redis_stepE: "redis_step c c'"

text \<open>
  At most one context is alive; it is the client's, and the state says whether it is connected.
\<close>

definition redis_client_ok :: "redis_client \<Rightarrow> bool" where
  "redis_client_ok c \<longleftrightarrow>
     (\<forall>x b. live c x = Some b \<longrightarrow> rc_context c = Some x \<and> rc_state c = (if b then kConnected else kConnecting)) \<and>
     (NotNeedReconnect (rc_state c) \<longrightarrow> (\<exists>x. rc_context c = Some x \<and> live c x \<noteq> None))"

lemma redis_client_okD:
  assumes "redis_client_ok c" "live c x = Some b"
  shows "rc_context c = Some x" "rc_state c = (if b then kConnected else kConnecting)"
  using assms by (simp_all add: redis_client_ok_def)

lemma redis_client_ok_in_use:
  assumes "redis_client_ok c" "NotNeedReconnect (rc_state c)"
  obtains x b where "rc_context c = Some x" "live c x = Some b"
  using assms unfolding redis_client_ok_def by (meson not_None_eq)

lemma redis_client_ok_idle:
  assumes "redis_client_ok c" "\<forall>x. live c x = None"
  shows "\<not> NotNeedReconnect (rc_state c)"
  using redis_client_ok_in_use [OF assms(1)] assms(2) by (metis option.discI)

lemma redis_client_ok_unique:
  assumes "redis_client_ok c" "live c x = Some b" "y \<noteq> x"
  shows "live c y = None"
  using assms redis_client_okD(1) by (metis option.exhaust option.inject)

lemma redis_client_ok_new: "\<not> NotNeedReconnect junk \<Longrightarrow> redis_client_ok (redis_client_new junk)"
  by (simp add: redis_client_ok_def redis_client_new_def)

lemma redis_client_ok_Reconnect:
  assumes "redis_client_ok c" "\<And>x. res = ConnectOk x \<Longrightarrow> live c x = None"
  shows "redis_client_ok (redis_Reconnect res c)"
proof (cases "NotNeedReconnect (rc_state c)")
  case True
  with assms(1) show ?thesis by (simp add: redis_Reconnect_def)
next
  case False
  have none: "live c x = None" for x
  proof (cases "live c x")
    case (Some b)
    with assms(1) have "rc_state c = (if b then kConnected else kConnecting)" by (auto simp: redis_client_ok_def)
    with False show ?thesis by (auto simp: NotNeedReconnect_def split: if_splits)
  qed simp
  with False show ?thesis
    by (cases res) (auto simp: redis_client_ok_def redis_Reconnect_def split: if_splits)
qed

lemma redis_client_ok_closed:
  fixes c :: redis_client
  assumes "redis_client_ok c" "live c x = Some b"
  shows "redis_client_ok (c\<lparr>rc_state := kDisConnected, live := (live c)(x := None)\<rparr>)"
proof -
  have "live c y = None" if "y \<noteq> x" for y
    using redis_client_ok_unique [OF assms that] .
  then show ?thesis by (simp add: redis_client_ok_def NotNeedReconnect_def client_state_defs)
qed

lemma redis_client_ok_step: "redis_step c c' \<Longrightarrow> redis_client_ok c \<Longrightarrow> redis_client_ok c'"
proof (induction rule: redis_step.induct)
  case (tick res c)
  then show ?case by (intro redis_client_ok_Reconnect)
next
  case (connected c x)
  have "live c y = None" if "y \<noteq> x" for y
    using redis_client_ok_unique [OF connected(2,1) that] .
  with redis_client_okD [OF connected(2,1)] show ?case
    by (auto simp: redis_client_ok_def ConnectCallback_def NotNeedReconnect_def)
next
  case (refused c x)
  then show ?case using redis_client_ok_closed [of c x False] by (simp add: ConnectCallback_def)
next
  case (disconnected c x ok)
  then show ?case using redis_client_ok_closed [of c x True] by (simp add: DisconnectCallback_def)
qed

lemma redis_reachable_ok: "redis_reachable junk c \<Longrightarrow> \<not> NotNeedReconnect junk \<Longrightarrow> redis_client_ok c"
  by (induction rule: redis_reachable.induct) (auto intro: redis_client_ok_new redis_client_ok_step)

subsection \<open>The RabbitMQ connection\<close>

text \<open>
  The channels report through callbacks: the exchange of the receiving channel is declared, the
  consumer is running and the exchange of the sending channel is declared.
\<close>

record mq_client =
  mq_st :: int
  mq_created :: bool
  send_channel_succ :: bool
  recv_channel_succ_flag :: bool

definition mq_Reconnect :: "mq_client \<Rightarrow> mq_client" where
  "mq_Reconnect m =
    (if NotNeedReconnect (mq_st m) then m
     else m\<lparr>mq_st := kConnecting, mq_created := True, send_channel_succ := False, recv_channel_succ_flag := False\<rparr>)"

datatype mq_event = MqConnected | MqClosed | MqError | MqRecvDeclared | MqSendDeclared

fun mq_callback :: "mq_event \<Rightarrow> mq_client \<Rightarrow> mq_client" where
  "mq_callback MqConnected m = m\<lparr>mq_st := kConnected\<rparr>"
| "mq_callback MqClosed m = m\<lparr>mq_st := kDisConnected\<rparr>"
| "mq_callback MqError m = m\<lparr>mq_st := kDisConnected\<rparr>"
| "mq_callback MqRecvDeclared m = m\<lparr>recv_channel_succ_flag := True\<rparr>"
| "mq_callback MqSendDeclared m = m\<lparr>send_channel_succ := True\<rparr>"

definition IsUsable :: "mq_client \<Rightarrow> bool" where
  "IsUsable m \<longleftrightarrow> send_channel_succ m \<and> recv_channel_succ_flag m"

subsection \<open>What holds of the redis connection\<close>

lemma NotNeedReconnect_simps [simp]:
  "NotNeedReconnect kConnected" "NotNeedReconnect kConnecting" "\<not> NotNeedReconnect kDisConnected"
  by (simp_all add: NotNeedReconnect_def client_state_defs)

lemma stuck_step: "redis_step c c' \<Longrightarrow> NotNeedReconnect (rc_state c) \<Longrightarrow> live c = (\<lambda>_. None) \<Longrightarrow> c' = c"
  by (auto elim!: redis_stepE simp: redis_Reconnect_def)

lemma stuck_forever: "redis_reachable junk c \<Longrightarrow> NotNeedReconnect junk \<Longrightarrow> c = redis_client_new junk"
proof (induction rule: redis_reachable.induct)
  case (step c c')
  then have "c = redis_client_new junk" by simp
  with step(2,4) show ?case using stuck_step [of c c'] by (simp add: redis_client_new_def)
qed simp

lemma context_live:
  assumes "redis_reachable junk c" "\<not> NotNeedReconnect junk"
  shows "(rc_state c = kConnected \<longrightarrow> (\<exists>x. rc_context c = Some x \<and> live c x = Some True)) \<and>
    (\<forall>x y. live c x \<noteq> None \<and> live c y \<noteq> None \<longrightarrow> x = y) \<and>
    ((\<forall>x. live c x = None) \<longrightarrow> (\<forall>x. live (redis_Reconnect (ConnectOk x) c) x = Some False \<and>
       rc_context (redis_Reconnect (ConnectOk x) c) = Some x))"
proof (intro conjI impI allI)
  have ok: "redis_client_ok c" by (rule redis_reachable_ok [OF assms])
  {
    assume st: "rc_state c = kConnected"
    then have "NotNeedReconnect (rc_state c)" by simp
    then obtain x b where x: "rc_context c = Some x" "live c x = Some b"
      using redis_client_ok_in_use [OF ok] by blast
    have b
    proof (rule ccontr)
      assume "\<not> b"
      with redis_client_okD(2) [OF ok x(2)] have "rc_state c = kConnecting" by simp
      with st show False unfolding client_state_defs by presburger
    qed
    with x show "\<exists>x. rc_context c = Some x \<and> live c x = Some True" by auto
  next
    fix x y assume l: "live c x \<noteq> None \<and> live c y \<noteq> None"
    then obtain b where "live c x = Some b" by blast
    with redis_client_ok_unique [OF ok] l show "x = y" by metis
  next
    fix x assume none: "\<forall>x. live c x = None"
    have "\<not> NotNeedReconnect (rc_state c)" by (rule redis_client_ok_idle [OF ok none])
    then show "live (redis_Reconnect (ConnectOk x) c) x = Some False" "rc_context (redis_Reconnect (ConnectOk x) c) = Some x"
      by (simp_all add: redis_Reconnect_def)
  }
qed

text \<open>
  C10: when a redis command uses a context that is alive.  \<open>RedisCmd\<close> tests whether the client says it
  is connected.  If the value the uninitialised \<open>state_\<close> happens to have at the start asks for a
  connection (it is none of connecting, connected and disconnecting), then in every state reachable by ticks
  and by reports of the library: a client that says so has a context that is alive and connected;
  no other context is alive, so none leaks; and while no context is alive the next tick opens one.
  If the value is one of the three, the client has no context in any reachable state and still says what
  it said at the start, so with the value of \<open>kConnected\<close> every command is given a null context.
\<close>

theorem context_live_when_connected:
  assumes "redis_reachable junk c"
  shows "if NotNeedReconnect junk
    then rc_context c = None \<and> (\<forall>x. live c x = None) \<and> (rc_state c = kConnected \<longleftrightarrow> junk = kConnected)
    else (rc_state c = kConnected \<longrightarrow> (\<exists>x. rc_context c = Some x \<and> live c x = Some True)) \<and>
      (\<forall>x y. live c x \<noteq> None \<and> live c y \<noteq> None \<longrightarrow> x = y) \<and>
      ((\<forall>x. live c x = None) \<longrightarrow> (\<forall>x. live (redis_Reconnect (ConnectOk x) c) x = Some False \<and>
         rc_context (redis_Reconnect (ConnectOk x) c) = Some x))"
proof (cases "NotNeedReconnect junk")
  case True
  with stuck_forever [OF assms] show ?thesis by (simp add: redis_client_new_def)
next
  case False
  with context_live [OF assms False] show ?thesis by (simp only: if_False)
qed

lemma context_live_when_connected_witness:
  "\<exists>c. redis_reachable 4 c \<and> rc_state c = kConnected \<and> (\<exists>x. rc_context c = Some x \<and> live c x = Some True)"
proof -
  let ?c0 = "redis_client_new 4"
  let ?c1 = "redis_Reconnect (ConnectOk 7) ?c0"
  let ?c2 = "ConnectCallback True (?c1\<lparr>live := (live ?c1)(7 \<mapsto> True)\<rparr>)"
  have n: "\<not> NotNeedReconnect 4" by (simp add: NotNeedReconnect_def client_state_defs)
  have "redis_step ?c0 ?c1" by (rule redis_step.tick) (simp add: redis_client_new_def)
  moreover have "redis_step ?c1 ?c2"
    by (rule redis_step.connected) (use n in \<open>simp add: redis_Reconnect_def redis_client_new_def\<close>)
  ultimately have r: "redis_reachable 4 ?c2" by (blast intro: redis_reachable.intros)
  moreover have "rc_state ?c2 = kConnected" by (simp add: ConnectCallback_def)
  ultimately show ?thesis using context_live_when_connected [OF r] n by auto
qed

text \<open>
  C15: the connection is found again.  From every reachable state, when the contexts that are alive
  have been reported as over, a tick on which \<open>redisAsyncConnect\<close> succeeds and the library's report
  that it is connected lead to the connected state with a live context.  When the uninitialised
  \<open>state_\<close> happens to read as connecting, connected or disconnecting, no step ever changes the
  client: it never connects, and the test of \<open>RedisCmd\<close> may pass with a null context.
\<close>

theorem client_reconnects:
  assumes "redis_reachable junk c"
  shows "(\<not> NotNeedReconnect junk \<and> (\<forall>x. live c x = None) \<longrightarrow>
      (\<forall>x. \<exists>c1 c2. redis_step c c1 \<and> redis_step c1 c2 \<and> rc_state c2 = kConnected \<and> rc_context c2 = Some x \<and>
         live c2 x = Some True)) \<and>
    (NotNeedReconnect junk \<longrightarrow> rc_context c = None \<and> rc_state c = junk)"
proof (intro conjI impI allI)
  fix x assume h: "\<not> NotNeedReconnect junk \<and> (\<forall>x. live c x = None)"
  let ?c1 = "redis_Reconnect (ConnectOk x) c"
  let ?c2 = "ConnectCallback True (?c1\<lparr>live := (live ?c1)(x \<mapsto> True)\<rparr>)"
  have ok: "redis_client_ok c" using redis_reachable_ok [OF assms] h by blast
  have need: "\<not> NotNeedReconnect (rc_state c)" using redis_client_ok_idle [OF ok] h by blast
  have "redis_step c ?c1" by (rule redis_step.tick) (use h in auto)
  moreover have "redis_step ?c1 ?c2" by (rule redis_step.connected) (use need in \<open>simp add: redis_Reconnect_def\<close>)
  moreover have "rc_state ?c2 = kConnected" "rc_context ?c2 = Some x" "live ?c2 x = Some True"
    using need by (simp_all add: ConnectCallback_def redis_Reconnect_def)
  ultimately show "\<exists>c1 c2. redis_step c c1 \<and> redis_step c1 c2 \<and> rc_state c2 = kConnected \<and> rc_context c2 = Some x \<and>
      live c2 x = Some True" by blast
qed (use stuck_forever [OF assms] in \<open>simp_all add: redis_client_new_def\<close>)

lemma client_reconnects_witness:
  "\<exists>c1 c2. redis_step (redis_client_new 4) c1 \<and> redis_step c1 c2 \<and> rc_state c2 = kConnected \<and> rc_context c2 = Some 3"
proof -
  have "\<not> NotNeedReconnect 4" by (simp add: NotNeedReconnect_def client_state_defs)
  with client_reconnects [OF redis_reachable.start, of 4] show ?thesis
    by (simp add: redis_client_new_def) blast
qed

end
