(* ===== verification/Zookeeper.thy ===== *)
theory Zookeeper
  imports Client_State Errors
begin

text \<open>
  The ZooKeeper session of a server, \<open>src/app/common/zookeeper_client.cpp\<close>: how it is opened, polled
  and opened again, and the commands on it.

  The ZooKeeper library is an argument: what \<open>zookeeper_init\<close> returns for each call, which file
  descriptor and which events it waits for, and which watcher calls \<open>zookeeper_process\<close> makes.  They
  may depend on the handle and on how often it has been polled.  \<open>zk_opened\<close> and \<open>zk_closed\<close> record
  the calls of \<open>zookeeper_init\<close> that gave a handle and those of \<open>zookeeper_close\<close>.
\<close>

subsection \<open>The library\<close>

datatype zk_session = ZOO_CONNECTED_STATE | ZOO_CONNECTING_STATE | ZOO_EXPIRED_SESSION_STATE | ZOO_OTHER_STATE int

datatype zk_event = SessionEvent zk_session | NodeEvent int int bytes

record zk_lib =
  lib_init :: "nat \<Rightarrow> nat option"
  lib_interest :: "nat \<Rightarrow> nat \<Rightarrow> int \<times> bool \<times> bool"
  lib_select :: "nat \<Rightarrow> nat \<Rightarrow> nat \<times> nat \<Rightarrow> (bool \<times> bool) option"
  lib_process :: "nat \<Rightarrow> nat \<Rightarrow> bool \<Rightarrow> bool \<Rightarrow> zk_event list"

record zk_client =
  zk_state :: int
  zkhandle :: "nat option"
  zk_watcher :: bool
  zk_seen :: "(int \<times> int \<times> bytes) list"
  zk_inits :: nat
  zk_polls :: nat
  zk_opened :: "nat list"
  zk_closed :: "nat list"

definition zk_new :: "int \<Rightarrow> zk_client" where
  "zk_new junk = \<lparr>zk_state = junk, zkhandle = None, zk_watcher = False, zk_seen = [], zk_inits = 0, zk_polls = 0,
     zk_opened = [], zk_closed = []\<rparr>"

subsection \<open>Events\<close>

text \<open>An empty \<open>std::function\<close> throws when it is called.\<close>

fun DefaultWatcher :: "zk_event \<Rightarrow> zk_client \<Rightarrow> fault + zk_client" where
  "DefaultWatcher (SessionEvent st) c =
    Inr (case st of
       ZOO_CONNECTED_STATE \<Rightarrow> c\<lparr>zk_state := kConnected\<rparr>
     | ZOO_CONNECTING_STATE \<Rightarrow> c\<lparr>zk_state := kConnecting\<rparr>
     | ZOO_EXPIRED_SESSION_STATE \<Rightarrow> c\<lparr>zk_state := kDisConnected\<rparr>
     | ZOO_OTHER_STATE _ \<Rightarrow> c)"
| "DefaultWatcher (NodeEvent ty st path) c =
    (if zk_watcher c then Inr (c\<lparr>zk_seen := zk_seen c @ [(ty, st, path)]\<rparr>)
     else Inl (Throw (StdException ''bad_function_call'')))"

fun deliver :: "zk_event list \<Rightarrow> zk_client \<Rightarrow> fault + zk_client" where
  "deliver [] c = Inr c"
| "deliver (e # es) c = rbind (DefaultWatcher e c) (deliver es)"

text \<open>
  One round of the event loop: the wait, what \<open>select\<close> leaves in the two sets (it leaves them alone
  when it fails), and what is processed.
\<close>

definition wait_time :: "nat \<Rightarrow> nat \<times> nat" where
  "wait_time time_out_ms = (time_out_ms div 1000, time_out_ms mod 1000)"

definition ready :: "int \<Rightarrow> bool \<Rightarrow> bool option \<Rightarrow> bool" where
  "ready fd wanted sel \<longleftrightarrow> fd \<noteq> -1 \<and> wanted \<and> (case sel of None \<Rightarrow> True | Some b \<Rightarrow> b)"

definition poll_events :: "zk_lib \<Rightarrow> nat \<Rightarrow> nat \<Rightarrow> nat \<Rightarrow> zk_event list" where
  "poll_events lib h k time_out_ms =
    (case lib_interest lib h k of (fd, rd, wr) \<Rightarrow>
       let sel = lib_select lib h k (wait_time time_out_ms) in
       lib_process lib h k (ready fd rd (map_option fst sel)) (ready fd wr (map_option snd sel)))"

definition EventLoopOnce :: "zk_lib \<Rightarrow> nat \<Rightarrow> zk_client \<Rightarrow> fault + zk_client" where
  "EventLoopOnce lib time_out_ms c =
    (case zkhandle c of None \<Rightarrow> Inr c
     | Some h \<Rightarrow> deliver (poll_events lib h (zk_polls c) time_out_ms) (c\<lparr>zk_polls := zk_polls c + 1\<rparr>))"

subsection \<open>Opening and closing\<close>

definition zk_open :: "zk_lib \<Rightarrow> zk_client \<Rightarrow> zk_client" where
  "zk_open lib c =
    (let r = lib_init lib (zk_inits c) in
     c\<lparr>zkhandle := r, zk_inits := zk_inits c + 1, zk_polls := 0,
       zk_opened := zk_opened c @ (case r of None \<Rightarrow> [] | Some h \<Rightarrow> [h])\<rparr>)"

definition zk_close :: "zk_client \<Rightarrow> zk_client" where
  "zk_close c = (case zkhandle c of None \<Rightarrow> c | Some h \<Rightarrow> c\<lparr>zk_closed := zk_closed c @ [h]\<rparr>)"

fun init_rounds :: "zk_lib \<Rightarrow> nat \<Rightarrow> zk_client \<Rightarrow> fault + bool \<times> zk_client" where
  "init_rounds lib 0 c = Inr (False, c)"
| "init_rounds lib (Suc n) c =
    rbind (EventLoopOnce lib 1000 c) (\<lambda>c.
      if zk_state c = kConnected then Inr (True, c)
      else if zk_state c = kDisConnected then Inr (False, c)
      else init_rounds lib n c)"

definition zk_Init :: "zk_lib \<Rightarrow> zk_client \<Rightarrow> fault + bool \<times> zk_client" where
  "zk_Init lib c = init_rounds lib 10 (zk_open lib c)"

definition SetWatcherHandler :: "zk_client \<Rightarrow> zk_client" where
  "SetWatcherHandler c = c\<lparr>zk_watcher := True\<rparr>"

definition zk_Reconnect :: "zk_lib \<Rightarrow> zk_client \<Rightarrow> zk_client" where
  "zk_Reconnect lib c =
    (if zkhandle c = None then c
     else if NotNeedReconnect (zk_state c) then c
     else zk_open lib (zk_close c))"

definition Check :: "zk_lib \<Rightarrow> zk_client \<Rightarrow> fault + zk_client" where
  "Check lib c = EventLoopOnce lib 0 (zk_Reconnect lib c)"

definition zk_destroy :: "zk_client \<Rightarrow> zk_client" where
  "zk_destroy c = zk_close c"

text \<open>The timer calls \<open>Check\<close> again and again.\<close>

fun checks :: "zk_lib \<Rightarrow> nat \<Rightarrow> zk_client \<Rightarrow> fault + zk_client" where
  "checks lib 0 c = Inr c"
| "checks lib (Suc n) c = rbind (Check lib c) (checks lib n)"

subsection \<open>The handles\<close>

definition current :: "zk_client \<Rightarrow> nat list" where
  "current c = (case zkhandle c of None \<Rightarrow> [] | Some h \<Rightarrow> [h])"

definition handles_ok :: "zk_client \<Rightarrow> bool" where
  "handles_ok c \<longleftrightarrow> zk_opened c = zk_closed c @ current c"

lemma deliver_keeps:
  "deliver es c = Inr c' \<Longrightarrow> zkhandle c' = zkhandle c \<and> zk_opened c' = zk_opened c \<and> zk_closed c' = zk_closed c \<and>
     zk_inits c' = zk_inits c \<and> zk_polls c' = zk_polls c \<and> zk_watcher c' = zk_watcher c"
proof (induction es arbitrary: c)
  case (Cons e es)
  then obtain d where d: "DefaultWatcher e c = Inr d" "deliver es d = Inr c'" by (auto simp: rbind_Inr_iff)
  then have "zkhandle d = zkhandle c \<and> zk_opened d = zk_opened c \<and> zk_closed d = zk_closed c \<and>
      zk_inits d = zk_inits c \<and> zk_polls d = zk_polls c \<and> zk_watcher d = zk_watcher c"
    by (cases e) (auto split: zk_session.splits if_splits)
  with Cons.IH [OF d(2)] show ?case by simp
qed simp

lemma EventLoopOnce_keeps:
  "EventLoopOnce lib t c = Inr c' \<Longrightarrow>
     zkhandle c' = zkhandle c \<and> zk_opened c' = zk_opened c \<and> zk_closed c' = zk_closed c \<and> zk_inits c' = zk_inits c"
  by (auto simp: EventLoopOnce_def split: option.splits dest!: deliver_keeps)

lemma handles_ok_EventLoopOnce: "EventLoopOnce lib t c = Inr c' \<Longrightarrow> handles_ok c \<Longrightarrow> handles_ok c'"
  by (simp add: handles_ok_def current_def EventLoopOnce_keeps)

lemma handles_ok_reopen: "handles_ok c \<Longrightarrow> handles_ok (zk_open lib (zk_close c))"
  by (auto simp: handles_ok_def current_def zk_open_def zk_close_def Let_def split: option.splits)

lemma handles_ok_Check: "Check lib c = Inr c' \<Longrightarrow> handles_ok c \<Longrightarrow> handles_ok c'"
  unfolding Check_def using handles_ok_EventLoopOnce handles_ok_reopen
  by (metis zk_Reconnect_def)

lemma handles_ok_checks: "checks lib n c = Inr c' \<Longrightarrow> handles_ok c \<Longrightarrow> handles_ok c'"
  by (induction n arbitrary: c) (auto simp: rbind_Inr_iff dest: handles_ok_Check)

lemma handles_ok_rounds: "init_rounds lib n c = Inr (b, c') \<Longrightarrow> handles_ok c \<Longrightarrow> handles_ok c'"
  by (induction n arbitrary: c) (auto simp: rbind_Inr_iff dest: handles_ok_EventLoopOnce split: if_splits)

lemma handles_ok_Init: "zk_Init lib (zk_new junk) = Inr (b, c) \<Longrightarrow> handles_ok c"
proof -
  have "zk_close (zk_new junk) = zk_new junk" by (simp add: zk_close_def zk_new_def)
  then have "handles_ok (zk_open lib (zk_new junk))"
    using handles_ok_reopen [of "zk_new junk" lib] by (simp add: handles_ok_def current_def zk_new_def)
  then show "zk_Init lib (zk_new junk) = Inr (b, c) \<Longrightarrow> handles_ok c" by (auto simp: zk_Init_def dest: handles_ok_rounds)
qed


subsection \<open>Polling with a watcher\<close>

lemma deliver_total: "zk_watcher c \<Longrightarrow> \<exists>d. deliver es c = Inr d"
proof (induction es arbitrary: c)
  case (Cons e es)
  then obtain d where d: "DefaultWatcher e c = Inr d" "zk_watcher d"
    by (cases e) (auto split: zk_session.splits)
  with Cons.IH show ?case by simp
qed simp

lemma Check_total: "zk_watcher c \<Longrightarrow> \<exists>d. Check lib c = Inr d \<and> zk_watcher d"
proof -
  assume "zk_watcher c"
  then have w: "zk_watcher (zk_Reconnect lib c)"
    by (simp add: zk_Reconnect_def zk_open_def zk_close_def Let_def split: option.split)
  then obtain d where "EventLoopOnce lib 0 (zk_Reconnect lib c) = Inr d" "zk_watcher d"
    using deliver_total deliver_keeps unfolding EventLoopOnce_def
    by (cases "zkhandle (zk_Reconnect lib c)") (simp, fastforce)
  then show ?thesis by (simp add: Check_def)
qed

lemma checks_total: "zk_watcher c \<Longrightarrow> \<exists>d. checks lib n c = Inr d"
proof (induction n arbitrary: c)
  case (Suc n)
  from Check_total [OF Suc.prems] obtain d where "Check lib c = Inr d" "zk_watcher d" by blast
  with Suc.IH show ?case by simp
qed simp

lemma init_rounds_result: "init_rounds lib n c = Inr (b, d) \<Longrightarrow> 0 < n \<Longrightarrow> b \<longleftrightarrow> zk_state d = kConnected"
proof (induction n arbitrary: c)
  case (Suc n)
  then obtain e where e: "EventLoopOnce lib 1000 c = Inr e" by (auto simp: rbind_Inr_iff)
  with Suc show ?case by (cases n) (auto simp: client_state_defs split: if_splits)
qed simp

definition quiet :: "zk_event \<Rightarrow> bool" where
  "quiet e \<longleftrightarrow> e \<noteq> SessionEvent ZOO_CONNECTED_STATE \<and> e \<noteq> SessionEvent ZOO_CONNECTING_STATE"

lemma deliver_quiet:
  "deliver es c = Inr d \<Longrightarrow> \<forall>e\<in>set es. quiet e \<Longrightarrow> \<not> NotNeedReconnect (zk_state c) \<Longrightarrow> \<not> NotNeedReconnect (zk_state d)"
proof (induction es arbitrary: c)
  case (Cons e es)
  then obtain x where x: "DefaultWatcher e c = Inr x" "deliver es x = Inr d" by (auto simp: rbind_Inr_iff)
  with Cons.prems have "\<not> NotNeedReconnect (zk_state x)"
    by (cases e) (auto simp: quiet_def split: zk_session.splits if_splits)
  with Cons x(2) show ?case by simp
qed simp

lemma Reconnect_opens:
  assumes "zkhandle c = Some h" "\<not> NotNeedReconnect (zk_state c)" "lib_init lib (zk_inits c) = Some h'"
  shows "Check lib c = deliver (poll_events lib h' 0 0)
    (c\<lparr>zkhandle := Some h', zk_inits := zk_inits c + 1, zk_polls := 1, zk_opened := zk_opened c @ [h'],
       zk_closed := zk_closed c @ [h]\<rparr>)"
  using assms by (cases c) (simp add: Check_def zk_Reconnect_def zk_open_def zk_close_def Let_def EventLoopOnce_def)

lemma quiet_Check:
  assumes "zkhandle c = Some h" "\<not> NotNeedReconnect (zk_state c)" "\<And>i. lib_init lib i \<noteq> None"
    and "\<And>h'. \<forall>e\<in>set (poll_events lib h' 0 0). quiet e" "Check lib c = Inr d"
  shows "zkhandle d \<noteq> None" "\<not> NotNeedReconnect (zk_state d)" "length (zk_opened d) = length (zk_opened c) + 1"
proof -
  obtain h' where h': "lib_init lib (zk_inits c) = Some h'" using assms(3) by blast
  note d = assms(5) [unfolded Reconnect_opens [OF assms(1,2) h']]
  show "\<not> NotNeedReconnect (zk_state d)" using deliver_quiet [OF d assms(4)] assms(2) by simp
  show "zkhandle d \<noteq> None" "length (zk_opened d) = length (zk_opened c) + 1" using deliver_keeps [OF d] by simp_all
qed

lemma quiet_checks:
  assumes "zkhandle c \<noteq> None" "\<not> NotNeedReconnect (zk_state c)" "\<And>i. lib_init lib i \<noteq> None"
    and "\<And>h'. \<forall>e\<in>set (poll_events lib h' 0 0). quiet e" "checks lib n c = Inr d"
  shows "\<not> NotNeedReconnect (zk_state d) \<and> length (zk_opened d) = length (zk_opened c) + n"
  using assms(1,2,5)
proof (induction n arbitrary: c)
  case (Suc n)
  then obtain h x where x: "zkhandle c = Some h" "Check lib c = Inr x" "checks lib n x = Inr d"
    by (auto simp: rbind_Inr_iff)
  from Suc.IH [OF _ _ x(3)] quiet_Check [OF x(1) Suc.prems(2) assms(3,4) x(2)] show ?case by simp
qed simp

lemma null_Check: "zkhandle c = None \<Longrightarrow> checks lib n c = Inr c"
  by (induction n) (simp_all add: Check_def zk_Reconnect_def EventLoopOnce_def)

text \<open>
  C20: no session handle leaks and none is closed twice.  Whatever the library does, after \<open>Init\<close>,
  \<open>SetWatcherHandler\<close> and any number of \<open>Check\<close>s, none of which can fail, the handles that were
  opened are those that were closed, in this order, followed by the current one, and the destructor
  closes that; \<open>Init\<close> gives true exactly when it leaves the client connected.
\<close>

theorem zk_handles_balanced:
  assumes "zk_Init lib (zk_new junk) = Inr (b, c)"
  shows "(b \<longleftrightarrow> zk_state c = kConnected) \<and>
    (\<exists>d. checks lib n (SetWatcherHandler c) = Inr d \<and> zk_opened d = zk_closed d @ current d \<and>
       zk_closed (zk_destroy d) = zk_opened d)"
proof -
  have "handles_ok (SetWatcherHandler c)"
    using handles_ok_Init [OF assms] by (simp add: handles_ok_def current_def SetWatcherHandler_def)
  moreover obtain d where d: "checks lib n (SetWatcherHandler c) = Inr d"
    using checks_total by (metis SetWatcherHandler_def zk_client.select_convs(3) zk_client.surjective zk_client.update_convs(3))
  ultimately have "handles_ok d" using handles_ok_checks by blast
  then have "zk_opened d = zk_closed d @ current d \<and> zk_closed (zk_destroy d) = zk_opened d"
    by (simp add: handles_ok_def current_def zk_destroy_def zk_close_def split: option.splits)
  with d init_rounds_result [of lib 10] assms show ?thesis by (auto simp: zk_Init_def)
qed

text \<open>A library that connects in the first poll of a handle and expires the session in the second.\<close>

definition demo_lib :: zk_lib where
  "demo_lib = \<lparr>lib_init = (\<lambda>i. Some i), lib_interest = (\<lambda>h k. (5, True, True)), lib_select = (\<lambda>h k t. Some (True, False)),
     lib_process = (\<lambda>h k r w. if k = 0 then [SessionEvent ZOO_CONNECTED_STATE]
       else if r \<and> \<not> w then [SessionEvent ZOO_EXPIRED_SESSION_STATE] else [])\<rparr>"

lemma zk_handles_balanced_witness:
  "\<exists>c d. zk_Init demo_lib (zk_new 0) = Inr (True, c) \<and> checks demo_lib 2 (SetWatcherHandler c) = Inr d \<and>
     zk_opened d = zk_closed d @ current d"
proof -
  let ?c = "zk_open demo_lib (zk_new 0)"
  have "EventLoopOnce demo_lib 1000 ?c = Inr (?c\<lparr>zk_state := kConnected, zk_polls := 1\<rparr>)"
    by (simp add: EventLoopOnce_def poll_events_def demo_lib_def zk_open_def zk_new_def)
  then have "init_rounds demo_lib (Suc n) ?c = Inr (True, ?c\<lparr>zk_state := kConnected, zk_polls := 1\<rparr>)" for n
    by simp
  moreover have "(10 :: nat) = Suc 9" by simp
  ultimately obtain c where "zk_Init demo_lib (zk_new 0) = Inr (True, c)" unfolding zk_Init_def by metis
  with zk_handles_balanced [OF this, of 2] show ?thesis by blast
qed

text \<open>
  C16: a lost session is found again only within one poll.  When the session is over, a \<open>Check\<close> opens
  a new handle and polls it once, without waiting.  If the library reports the connection in that
  poll, the client is connected.  If it reports neither that it is
  connected nor that it is connecting, the state still says disconnected, because
  \<open>Reconnect\<close> does not store the connecting state as the one of the redis client does, so the next
  \<open>Check\<close> closes the handle and opens another: with a library whose
  first poll never reports either, the client never connects again.  And when \<open>zookeeper_init\<close> fails once, nothing is ever
  tried again.
\<close>

theorem zk_reconnect_one_poll:
  assumes "zkhandle c = Some h" "\<not> NotNeedReconnect (zk_state c)" "zk_watcher c"
  shows "(\<forall>h'. lib_init lib (zk_inits c) = Some h' \<and> poll_events lib h' 0 0 = [SessionEvent ZOO_CONNECTED_STATE] \<longrightarrow>
      (\<exists>d. Check lib c = Inr d \<and> zk_state d = kConnected \<and> zkhandle d = Some h')) \<and>
    ((\<forall>i. lib_init lib i \<noteq> None) \<and> (\<forall>h'. \<forall>e\<in>set (poll_events lib h' 0 0). quiet e) \<longrightarrow>
      (\<forall>n. \<exists>d. checks lib n c = Inr d \<and> \<not> NotNeedReconnect (zk_state d) \<and>
         length (zk_opened d) = length (zk_opened c) + n)) \<and>
    (lib_init lib (zk_inits c) = None \<longrightarrow> (\<exists>d. zkhandle d = None \<and> (\<forall>n. checks lib (Suc n) c = Inr d)))"
proof (intro conjI impI allI)
  fix h' assume "lib_init lib (zk_inits c) = Some h' \<and> poll_events lib h' 0 0 = [SessionEvent ZOO_CONNECTED_STATE]"
  then show "\<exists>d. Check lib c = Inr d \<and> zk_state d = kConnected \<and> zkhandle d = Some h'"
    using Reconnect_opens [OF assms(1,2)] by simp
next
  fix n assume q: "(\<forall>i. lib_init lib i \<noteq> None) \<and> (\<forall>h'. \<forall>e\<in>set (poll_events lib h' 0 0). quiet e)"
  obtain d where d: "checks lib n c = Inr d" using checks_total [OF assms(3)] by blast
  from quiet_checks [OF _ assms(2) _ _ d] q d assms(1)
  show "\<exists>d. checks lib n c = Inr d \<and> \<not> NotNeedReconnect (zk_state d) \<and>
      length (zk_opened d) = length (zk_opened c) + n" by simp
next
  assume "lib_init lib (zk_inits c) = None"
  then have "Check lib c = Inr (zk_open lib (zk_close c))" "zkhandle (zk_open lib (zk_close c)) = None"
    using assms(1,2)
    by (simp_all add: Check_def zk_Reconnect_def EventLoopOnce_def zk_open_def zk_close_def Let_def)
  then show "\<exists>d. zkhandle d = None \<and> (\<forall>n. checks lib (Suc n) c = Inr d)" using null_Check by auto
qed

definition lost_client :: zk_client where
  "lost_client = (zk_new kDisConnected)\<lparr>zkhandle := Some 3, zk_watcher := True, zk_opened := [3]\<rparr>"

lemma zk_reconnect_one_poll_witness:
  "(\<exists>d. Check demo_lib lost_client = Inr d \<and> zk_state d = kConnected) \<and>
   (\<forall>n. \<exists>d. checks (demo_lib\<lparr>lib_process := (\<lambda>h k r w. [])\<rparr>) n lost_client = Inr d \<and>
      \<not> NotNeedReconnect (zk_state d) \<and> length (zk_opened d) = 1 + n)"
proof -
  have c: "zkhandle lost_client = Some 3" "\<not> NotNeedReconnect (zk_state lost_client)" "zk_watcher lost_client"
    "length (zk_opened lost_client) = 1"
    by (simp_all add: lost_client_def zk_new_def)
  show ?thesis
    using zk_reconnect_one_poll [OF c(1-3), of demo_lib]
      zk_reconnect_one_poll [OF c(1-3), of "demo_lib\<lparr>lib_process := (\<lambda>h k r w. [])\<rparr>"] c(4)
    by (simp add: demo_lib_def poll_events_def Let_def) blast
qed

end
