(* ===== verification/Discovery.thy ===== *)
theory Discovery
  imports Zookeeper Svr_List
begin

text \<open>
  How servers find each other: the ZooKeeper commands (\<open>ZooCmd\<close> in
  \<open>src/app/common/zookeeper_client.cpp\<close>), the id a server gives itself and reports
  (\<open>src/app/common/app_base.h\<close>, \<open>get_ip.h\<close>), and the list of servers that \<open>GetServers\<close> reads.

  The service is an argument: what the asynchronous calls return for a request, and then either the
  completion that is called, with its result code and value, or the value of \<open>Yield\<close> when none comes
  in time.  A node without data completes with a null value and the length -1.
\<close>

subsection \<open>Completions\<close>

definition ZOK :: int where "ZOK = 0"

definition DataCompletion :: "int \<Rightarrow> bytes option \<Rightarrow> fault + bytes option" where
  "DataCompletion rc val =
    (if rc = ZOK then (case val of None \<Rightarrow> Inl Undef | Some v \<Rightarrow> Inr (Some v)) else Inr None)"

definition SVDataCompletion :: "int \<Rightarrow> bytes list \<Rightarrow> fault + bytes list option" where
  "SVDataCompletion rc strings = Inr (if rc = ZOK then Some strings else None)"

definition SDataCompletion :: "int \<Rightarrow> bytes option \<Rightarrow> fault + bytes option" where
  "SDataCompletion rc val = Inr (if rc = ZOK then val else None)"

definition StatCompletion :: "int \<Rightarrow> int \<Rightarrow> fault + int option" where
  "StatCompletion rc version = Inr (if rc = ZOK then Some version else None)"

subsection \<open>Commands\<close>

datatype zoo_req =
    ZooAcreate bytes bytes bool
  | ZooAset bytes bytes int
  | ZooAget bytes
  | ZooAwget bytes
  | ZooAgetChildren bytes
  | ZooAwgetChildren bytes

datatype 'a zk_reply = Completes int 'a | YieldFails int

record zk_link =
  zl_state :: int
  zl_start :: "zoo_req \<Rightarrow> int"
  zl_data :: "zoo_req \<Rightarrow> bytes option zk_reply"
  zl_children :: "zoo_req \<Rightarrow> bytes list zk_reply"
  zl_name :: "zoo_req \<Rightarrow> bytes option zk_reply"
  zl_stat :: "zoo_req \<Rightarrow> int zk_reply"

definition c_str :: "bytes \<Rightarrow> bytes" where
  "c_str s = takeWhile (\<lambda>c. c \<noteq> nul) s"

text \<open>\<open>Yield\<close> and \<open>GetMsg\<close>.\<close>

fun co_wait :: "(int \<Rightarrow> 'a \<Rightarrow> fault + 'b option) \<Rightarrow> 'a zk_reply \<Rightarrow> fault + int \<times> 'b option" where
  "co_wait completion (Completes rc v) = rbind (completion rc v) (\<lambda>msg. Inr (0, msg))"
| "co_wait completion (YieldFails ret) = Inr (ret, None)"

definition ZooCmd_Create :: "zk_link \<Rightarrow> bytes \<Rightarrow> bytes \<Rightarrow> bool \<Rightarrow> fault + int" where
  "ZooCmd_Create link path val temp =
    (let req = ZooAcreate (c_str path) val temp in
     if zl_state link \<noteq> kConnected then Inr 0
     else if zl_start link req \<noteq> ZOK then Inr (-1)
     else rbind (co_wait SDataCompletion (zl_name link req)) (\<lambda>(ret, data).
       if ret \<noteq> 0 then Inr (-1) else if data = None then Inr (-1) else Inr 0))"

text \<open>The result is a \<open>bool\<close>: the -1 that is returned when the call is refused converts to true.\<close>

definition ZooCmd_Set :: "zk_link \<Rightarrow> bytes \<Rightarrow> bytes \<Rightarrow> fault + bool" where
  "ZooCmd_Set link path val =
    (let req = ZooAset (c_str path) val (-1) in
     if zl_state link \<noteq> kConnected then Inr False
     else if zl_start link req \<noteq> ZOK then Inr ((-1 :: int) \<noteq> 0)
     else rbind (co_wait StatCompletion (zl_stat link req)) (\<lambda>(ret, data).
       if ret \<noteq> 0 then Inr False else if data = None then Inr False else Inr True))"

definition fetch :: "zk_link \<Rightarrow> zoo_req \<Rightarrow> (fault + int \<times> 'a list option) \<Rightarrow> fault + 'a list" where
  "fetch link req m =
    (if zl_state link \<noteq> kConnected then Inr []
     else if zl_start link req \<noteq> ZOK then Inr []
     else rbind m (\<lambda>(ret, data). Inr (if ret = 0 then (case data of None \<Rightarrow> [] | Some d \<Rightarrow> d) else [])))"

definition ZooCmd_Get :: "zk_link \<Rightarrow> bytes \<Rightarrow> fault + bytes" where
  "ZooCmd_Get link path =
    (let req = ZooAget (c_str path) in fetch link req (co_wait DataCompletion (zl_data link req)))"

definition ZooCmd_WGet :: "zk_link \<Rightarrow> bytes \<Rightarrow> fault + bytes" where
  "ZooCmd_WGet link path =
    (let req = ZooAwget (c_str path) in fetch link req (co_wait DataCompletion (zl_data link req)))"

definition ZooCmd_GetChildren :: "zk_link \<Rightarrow> bytes \<Rightarrow> fault + bytes list" where
  "ZooCmd_GetChildren link path =
    (let req = ZooAgetChildren (c_str path) in fetch link req (co_wait SVDataCompletion (zl_children link req)))"

definition ZooCmd_WGetChildRen :: "zk_link \<Rightarrow> bytes \<Rightarrow> fault + bytes list" where
  "ZooCmd_WGetChildRen link path =
    (let req = ZooAwgetChildren (c_str path) in fetch link req (co_wait SVDataCompletion (zl_children link req)))"

subsection \<open>The server list\<close>

definition GetServers :: "zk_link \<Rightarrow> bytes \<Rightarrow> svr_list \<Rightarrow> fault + svr_list" where
  "GetServers link path l =
    rbind (ZooCmd_GetChildren link path) (\<lambda>root.
      let l1 = fold AddSvr root (Clear_svr_list l) in
      rbind (ZooCmd_WGetChildRen link ''/online_servers'') (\<lambda>_. Inr l1))"

text \<open>The watcher of the session; the number of the child event is the library's.\<close>

definition AppBase_Watcher :: "int \<Rightarrow> zk_link \<Rightarrow> int \<Rightarrow> bytes \<Rightarrow> svr_list \<Rightarrow> fault + svr_list" where
  "AppBase_Watcher ZOO_CHILD_EVENT link ty path l = (if ty = ZOO_CHILD_EVENT then GetServers link path l else Inr l)"

subsection \<open>The id of a server\<close>

definition kDiscoverySvr :: bytes where "kDiscoverySvr = ''discovery''"

text \<open>
  \<open>GetLocalIP\<close>: the loop over the interfaces goes to the next one only after the loopback address,
  so the first other address is read again and again.  \<open>None\<close> is a socket that cannot be opened; the
  result of \<open>ioctl\<close> is not tested, so when it fails the list is that of the 256 entries the uninitialised
  buffer has room for, whatever they hold.
\<close>

definition loopback :: bytes where "loopback = ''127.0.0.1''"

fun local_ips :: "nat \<Rightarrow> bytes list \<Rightarrow> bytes list" where
  "local_ips (Suc i) (ip # ips) = (if ip = loopback then local_ips i ips else ip # local_ips i (ip # ips))"
| "local_ips _ _ = []"

definition GetLocalIP :: "bytes list option \<Rightarrow> bytes list" where
  "GetLocalIP ifs = (case ifs of None \<Rightarrow> [] | Some ips \<Rightarrow> local_ips (length ips) ips)"

text \<open>With no address the program logs a fatal error and exits.\<close>

definition MakeSelfId :: "bytes list \<Rightarrow> bytes \<Rightarrow> bytes option" where
  "MakeSelfId ip_list cwd =
    (if ip_list = [] then None
     else Some (ip_list ! 0 @ ''-'' @ map (\<lambda>c. if c = CHR ''/'' then CHR 0x7C else c) cwd))"

definition self_id :: "bytes \<Rightarrow> bytes list \<Rightarrow> bytes \<Rightarrow> bytes option" where
  "self_id svr_type ip_list cwd =
    (case MakeSelfId ip_list cwd of None \<Rightarrow> None
     | Some s \<Rightarrow> Some (if svr_type = kDiscoverySvr then kDiscoverySvr else svr_type @ ''-'' @ s))"

definition report_self :: "zk_link \<Rightarrow> bytes \<Rightarrow> bytes \<Rightarrow> fault + int option" where
  "report_self link svr_type sid =
    (if svr_type = kDiscoverySvr then Inr None
     else rbind (ZooCmd_WGetChildRen link ''/online_servers'') (\<lambda>_.
       rbind (ZooCmd_Create link (''/online_servers/'' @ sid) [] True) (\<lambda>ret. Inr (Some ret))))"


subsection \<open>What the list holds\<close>

text \<open>What a command that reads a list comes to.\<close>

definition children_read :: "zk_link \<Rightarrow> zoo_req \<Rightarrow> bytes list" where
  "children_read link req =
    (if zl_state link = kConnected \<and> zl_start link req = ZOK
     then (case zl_children link req of Completes rc xs \<Rightarrow> if rc = ZOK then xs else [] | YieldFails _ \<Rightarrow> [])
     else [])"

lemma fetch_children: "fetch link req (co_wait SVDataCompletion (zl_children link req)) = Inr (children_read link req)"
  by (cases "zl_children link req") (simp_all add: fetch_def children_read_def SVDataCompletion_def)

lemma GetServers_eq:
  "GetServers link path l = Inr (fold AddSvr (children_read link (ZooAgetChildren (c_str path))) (Clear_svr_list l))"
  by (simp add: GetServers_def ZooCmd_GetChildren_def ZooCmd_WGetChildRen_def fetch_children Let_def)

lemma GetType_prefix: "CHR ''-'' \<notin> set ty \<Longrightarrow> GetType (ty @ ''-'' @ s) = ty"
  by (simp add: GetType_def takeWhile_append)

lemma local_ips_eq:
  "local_ips (n + length (takeWhile ((=) loopback) ips)) ips =
     (case dropWhile ((=) loopback) ips of [] \<Rightarrow> [] | ip # _ \<Rightarrow> replicate n ip)"
proof (induction ips arbitrary: n)
  case (Cons ip ips)
  have rep: "local_ips k (ip # ips) = replicate k ip" if "ip \<noteq> loopback" for k
    using that by (induction k) auto
  from Cons rep [of n] show ?case by auto
qed simp

lemma GetLocalIP_eq:
  "GetLocalIP (Some ips) = (case dropWhile ((=) loopback) ips of [] \<Rightarrow> []
     | ip # rest \<Rightarrow> replicate (length (ip # rest)) ip)"
proof -
  let ?n = "length (dropWhile ((=) loopback) ips)"
  have "length ips = ?n + length (takeWhile ((=) loopback) ips)"
    by (metis add.commute length_append takeWhile_dropWhile_id)
  with local_ips_eq [of ?n ips] show ?thesis
    by (cases "dropWhile ((=) loopback) ips") (simp_all add: GetLocalIP_def del: dropWhile_eq_Nil_conv)
qed

text \<open>
  C32: the results of the commands.  \<open>Create\<close> returns 0 when the node was created, but also when there
  is no connection and nothing was sent; \<open>Set\<close> returns true when the value was stored, but also when
  the library refused the call; \<open>Get\<close> of a node without data builds a string from a null pointer;
  and a read of the children that fails at any point looks like a node without children.
\<close>

theorem zoo_cmd_results:
  "(ZooCmd_Create link path v temp = Inr 0) =
     (zl_state link \<noteq> kConnected \<or>
      zl_start link (ZooAcreate (c_str path) v temp) = ZOK \<and>
      (\<exists>name. zl_name link (ZooAcreate (c_str path) v temp) = Completes ZOK (Some name))) \<and>
   (ZooCmd_Set link path v = Inr True) =
     (zl_state link = kConnected \<and>
      (zl_start link (ZooAset (c_str path) v (-1)) \<noteq> ZOK \<or>
       (\<exists>version. zl_stat link (ZooAset (c_str path) v (-1)) = Completes ZOK version))) \<and>
   (ZooCmd_Get link path = Inl Undef) =
     (zl_state link = kConnected \<and> zl_start link (ZooAget (c_str path)) = ZOK \<and>
      zl_data link (ZooAget (c_str path)) = Completes ZOK None) \<and>
   ZooCmd_GetChildren link path = Inr (children_read link (ZooAgetChildren (c_str path)))"
proof (intro conjI)
  show "(ZooCmd_Create link path v temp = Inr 0) =
     (zl_state link \<noteq> kConnected \<or>
      zl_start link (ZooAcreate (c_str path) v temp) = ZOK \<and>
      (\<exists>name. zl_name link (ZooAcreate (c_str path) v temp) = Completes ZOK (Some name)))"
    by (cases "zl_name link (ZooAcreate (c_str path) v temp)")
      (auto simp: ZooCmd_Create_def SDataCompletion_def Let_def)
  show "(ZooCmd_Set link path v = Inr True) =
     (zl_state link = kConnected \<and>
      (zl_start link (ZooAset (c_str path) v (-1)) \<noteq> ZOK \<or>
       (\<exists>version. zl_stat link (ZooAset (c_str path) v (-1)) = Completes ZOK version)))"
    by (cases "zl_stat link (ZooAset (c_str path) v (-1))") (auto simp: ZooCmd_Set_def StatCompletion_def Let_def)
  show "(ZooCmd_Get link path = Inl Undef) =
     (zl_state link = kConnected \<and> zl_start link (ZooAget (c_str path)) = ZOK \<and>
      zl_data link (ZooAget (c_str path)) = Completes ZOK None)"
    by (cases "zl_data link (ZooAget (c_str path))")
      (auto simp: ZooCmd_Get_def fetch_def DataCompletion_def Let_def split: option.splits)
  show "ZooCmd_GetChildren link path = Inr (children_read link (ZooAgetChildren (c_str path)))"
    by (simp add: ZooCmd_GetChildren_def fetch_children Let_def)
qed

lemma zoo_cmd_results_witness:
  "let link = \<lparr>zl_state = kDisConnected, zl_start = (\<lambda>_. -4), zl_data = (\<lambda>_. Completes ZOK None),
         zl_children = (\<lambda>_. YieldFails 1), zl_name = (\<lambda>_. YieldFails 1), zl_stat = (\<lambda>_. YieldFails 1)\<rparr> in
   ZooCmd_Create link ''/a'' [] True = Inr 0 \<and>
   ZooCmd_Set (link\<lparr>zl_state := kConnected\<rparr>) ''/a'' [] = Inr True \<and>
   ZooCmd_Get (link\<lparr>zl_state := kConnected, zl_start := (\<lambda>_. ZOK)\<rparr>) ''/a'' = Inl Undef"
proof -
  define link where "link = \<lparr>zl_state = kDisConnected, zl_start = (\<lambda>_. -4), zl_data = (\<lambda>_. Completes ZOK None),
    zl_children = (\<lambda>_. YieldFails 1), zl_name = (\<lambda>_. YieldFails 1), zl_stat = (\<lambda>_. YieldFails 1)\<rparr>"
  note z = zoo_cmd_results [of _ "''/a''" "[]" True]
  have "ZooCmd_Create link ''/a'' [] True = Inr 0"
    using z [of link] by (simp add: link_def client_state_defs)
  moreover have "ZooCmd_Set (link\<lparr>zl_state := kConnected\<rparr>) ''/a'' [] = Inr True"
    using z [of "link\<lparr>zl_state := kConnected\<rparr>"] by (simp add: link_def ZOK_def)
  moreover have "ZooCmd_Get (link\<lparr>zl_state := kConnected, zl_start := (\<lambda>_. ZOK)\<rparr>) ''/a'' = Inl Undef"
    using z [of "link\<lparr>zl_state := kConnected, zl_start := (\<lambda>_. ZOK)\<rparr>"] by (simp add: link_def)
  ultimately show ?thesis by (simp add: link_def Let_def)
qed


text \<open>
  C19: a server that reported itself is found.  If the read of the children succeeds and the id a
  server gave itself (from its type, the first address that is not the loopback one, and its
  working directory) is among them, then whatever list there was before, a server of that type is
  chosen from the children that were read, and the name of the node is one component of a path.  If
  the read fails, no server is known any more; a child that only the second read, which sets the
  watch, has seen is not in the list.
\<close>

theorem discovered_servers:
  assumes "self_id ty (GetLocalIP (Some ips)) cwd = Some sid" "ty \<noteq> kDiscoverySvr" "ty \<noteq> []" "CHR ''-'' \<notin> set ty"
    and "CHR ''/'' \<notin> set ty \<union> \<Union>(set ` set ips)"
  shows "CHR ''/'' \<notin> set sid \<and>
    (\<exists>ip rest. dropWhile ((=) loopback) ips = ip # rest \<and> take (length ty + length ip + 1) sid = ty @ ''-'' @ ip) \<and>
    (\<exists>l'. GetServers link path l = Inr l' \<and>
      (let root = children_read link (ZooAgetChildren (c_str path)) in
        svr_set l' = {x \<in> set root. GetType x \<noteq> []} \<and>
        (sid \<in> set root \<longrightarrow> GetOneSvrByType rnd ty l' \<in> set root \<and> GetType (GetOneSvrByType rnd ty l') = ty) \<and>
        (root = [] \<longrightarrow> GetOneSvrByType rnd ty l' = [])))"
proof -
  let ?root = "children_read link (ZooAgetChildren (c_str path))"
  let ?l = "fold AddSvr ?root (Clear_svr_list l)"
  obtain ip rest where ip: "dropWhile ((=) loopback) ips = ip # rest"
      "sid = ty @ ''-'' @ ip @ ''-'' @ map (\<lambda>c. if c = CHR ''/'' then CHR 0x7C else c) cwd"
    using assms(1,2) by (auto simp: self_id_def MakeSelfId_def GetLocalIP_eq split: list.splits if_splits)
  have "ip \<in> set ips" using ip(1) by (metis list.set_intros(1) set_dropWhileD)
  with assms(5) ip(2) have slash: "CHR ''/'' \<notin> set sid" by auto
  have ty: "GetType sid = ty" unfolding ip(2) by (rule GetType_prefix [OF assms(4)])
  have clear: "svrs_ok (Clear_svr_list l)" "svr_set (Clear_svr_list l) = {}"
    by (rule svrs_ok_empty) (simp add: Clear_svr_list_def)
  have set: "svr_set ?l = {x \<in> set ?root. GetType x \<noteq> []}" by (simp add: svr_dir.fold_members clear(2))
  note found = svr_dir.fold_found [OF clear _ ty assms(3), of ?root rnd]
  have none: "GetOneSvrByType rnd ty ?l = []" if "?root = []"
    using svr_dir.fold_not_found [OF clear, of ?root ty rnd] that by simp
  have pre: "take (length ty + length ip + 1) sid = ty @ ''-'' @ ip" by (simp add: ip(2))
  with ip(1) slash set found none show ?thesis unfolding GetServers_eq Let_def by blast
qed


lemma discovered_servers_witness:
  "let link = \<lparr>zl_state = kConnected, zl_start = (\<lambda>_. ZOK), zl_data = (\<lambda>_. YieldFails 1),
         zl_children = (\<lambda>_. Completes ZOK [''redissvr-10.0.0.7-|srv'', ''discovery'', ''gate-10.0.0.7-|srv'']),
         zl_name = (\<lambda>_. YieldFails 1), zl_stat = (\<lambda>_. YieldFails 1)\<rparr> in
   self_id ''redissvr'' (GetLocalIP (Some [loopback, ''10.0.0.7'', ''10.0.0.8''])) ''/srv'' = Some ''redissvr-10.0.0.7-|srv'' \<and>
   (\<exists>l'. GetServers link ''/online_servers'' empty_svr_list = Inr l' \<and>
      GetType (GetOneSvrByType 5 ''redissvr'' l') = ''redissvr'')"
proof -
  define link where "link = \<lparr>zl_state = kConnected, zl_start = (\<lambda>_. ZOK), zl_data = (\<lambda>_. YieldFails 1),
     zl_children = (\<lambda>_. Completes ZOK [''redissvr-10.0.0.7-|srv'', ''discovery'', ''gate-10.0.0.7-|srv'']),
     zl_name = (\<lambda>_. YieldFails 1), zl_stat = (\<lambda>_. YieldFails 1)\<rparr>"
  have "GetLocalIP (Some [loopback, ''10.0.0.7'', ''10.0.0.8'']) = [''10.0.0.7'', ''10.0.0.7'']"
    by (simp add: GetLocalIP_def loopback_def)
  then have sid: "self_id ''redissvr'' (GetLocalIP (Some [loopback, ''10.0.0.7'', ''10.0.0.8''])) ''/srv'' =
      Some ''redissvr-10.0.0.7-|srv''"
    by (simp add: self_id_def MakeSelfId_def kDiscoverySvr_def)
  have "children_read link req = [''redissvr-10.0.0.7-|srv'', ''discovery'', ''gate-10.0.0.7-|srv'']" for req
    by (simp add: children_read_def link_def)
  with discovered_servers [OF sid, of link "''/online_servers''" empty_svr_list 5]
  have "\<exists>l'. GetServers link ''/online_servers'' empty_svr_list = Inr l' \<and>
      GetType (GetOneSvrByType 5 ''redissvr'' l') = ''redissvr''"
    by (auto simp: kDiscoverySvr_def loopback_def Let_def)
  with sid show ?thesis unfolding Let_def link_def by blast
qed

end
