(* ===== verification/Consistent_Hash.thy ===== *)
theory Consistent_Hash
  imports Errors
begin

text \<open>
  The ring of \<open>src/commlib/consistent_hash.hpp\<close>.  The \<open>std::map\<close> is the list of its entries in the
  order of the keys; \<open>std::hash\<close> is the argument \<open>h\<close>.  A node has 16 points on the ring, the hashes
  of its name with a running number; the keys are negated, so that \<open>lower_bound\<close> finds the next
  point below a hash.
\<close>

unbundle bit_operations_syntax

type_synonym ring = "(int \<times> bytes) list"

subsection \<open>The map\<close>

fun map_set :: "int \<Rightarrow> bytes \<Rightarrow> ring \<Rightarrow> ring" where
  "map_set k v [] = [(k, v)]"
| "map_set k v ((k', v') # r) =
    (if k < k' then (k, v) # (k', v') # r else if k = k' then (k, v) # r else (k', v') # map_set k v r)"

definition map_erase :: "int \<Rightarrow> ring \<Rightarrow> ring" where
  "map_erase k r = [e\<leftarrow>r. fst e \<noteq> k]"

definition lower_bound :: "int \<Rightarrow> ring \<Rightarrow> ring" where
  "lower_bound k r = dropWhile (\<lambda>e. fst e < k) r"

subsection \<open>ConsistentHash\<close>

definition replacement_count :: nat where "replacement_count = 16"

definition kKeySize :: "32 word" where "kKeySize = 0"

definition Hash :: "(bytes \<Rightarrow> nat) \<Rightarrow> bytes \<Rightarrow> 32 word" where
  "Hash h s = word_of_nat (h s)"

definition masked :: "32 word \<Rightarrow> int" where
  "masked w = int (unat (w AND (kKeySize - 1)))"

definition node_code :: "(bytes \<Rightarrow> nat) \<Rightarrow> bytes \<Rightarrow> nat \<Rightarrow> int" where
  "node_code h node i = masked (Hash h (node @ ''_#'' @ dec_nat i))"

definition AddNode :: "(bytes \<Rightarrow> nat) \<Rightarrow> bytes \<Rightarrow> ring \<Rightarrow> ring" where
  "AddNode h node r = fold (\<lambda>i. map_set (- node_code h node i) node) [0..<replacement_count] r"

definition RemoveNode :: "(bytes \<Rightarrow> nat) \<Rightarrow> bytes \<Rightarrow> ring \<Rightarrow> ring" where
  "RemoveNode h node r = fold (\<lambda>i. map_erase (- node_code h node i)) [0..<replacement_count] r"

definition GetNode :: "(bytes \<Rightarrow> nat) \<Rightarrow> nat \<Rightarrow> ring \<Rightarrow> fault + bytes" where
  "GetNode h hash_code r =
    (if r = [] then Inl (Throw (StdException ''hash_list empty''))
     else case lower_bound (- masked (Hash h (dec_nat hash_code))) r of
       [] \<Rightarrow> Inr (snd (last r))
     | e # _ \<Rightarrow> Inr (snd e))"

subsection \<open>The entries of a ring\<close>

lemma set_map_set: "sorted_wrt (<) (map fst r) \<Longrightarrow> set (map_set k v r) = insert (k, v) {e \<in> set r. fst e \<noteq> k}"
proof (induction k v r rule: map_set.induct)
  case (2 k v k' v' r)
  have above: "\<And>e. e \<in> set r \<Longrightarrow> k' < fst e" using 2(2) by simp
  consider "k < k'" | "k = k'" | "k' < k" by linarith
  then show ?case
  proof cases
    case 1
    then have "\<And>e. e \<in> set r \<Longrightarrow> fst e \<noteq> k" using above by fastforce
    with 1 show ?thesis by auto
  next
    case 2
    then have "\<And>e. e \<in> set r \<Longrightarrow> fst e \<noteq> k" using above by fastforce
    with 2 show ?thesis by auto
  next
    case 3
    with "2.IH" "2.prems" show ?thesis by auto
  qed
qed simp

lemma sorted_map_set: "sorted_wrt (<) (map fst r) \<Longrightarrow> sorted_wrt (<) (map fst (map_set k v r))"
  by (induction k v r rule: map_set.induct) (auto simp: set_map_set)

lemma sorted_filter_fst: "sorted_wrt (<) (map fst r) \<Longrightarrow> sorted_wrt (<) (map fst (filter P r))"
  by (induction r) auto

text \<open>The points of a node, and the ring that holds the points of a set of nodes.\<close>

definition points :: "(bytes \<Rightarrow> nat) \<Rightarrow> bytes \<Rightarrow> int set" where
  "points h n = (\<lambda>i. - node_code h n i) ` {0..<replacement_count}"

definition ring_of :: "(bytes \<Rightarrow> nat) \<Rightarrow> bytes set \<Rightarrow> ring \<Rightarrow> bool" where
  "ring_of h N r \<longleftrightarrow> sorted_wrt (<) (map fst r) \<and> set r = (\<Union>n\<in>N. (\<lambda>k. (k, n)) ` points h n)"

definition no_clash :: "(bytes \<Rightarrow> nat) \<Rightarrow> bytes set \<Rightarrow> bool" where
  "no_clash h S \<longleftrightarrow> (\<forall>m\<in>S. \<forall>n\<in>S. m \<noteq> n \<longrightarrow> points h m \<inter> points h n = {})"

lemma fold_map_set:
  assumes "sorted_wrt (<) (map fst r)"
  shows "sorted_wrt (<) (map fst (fold (\<lambda>i. map_set (f i) v) js r)) \<and>
    set (fold (\<lambda>i. map_set (f i) v) js r) = {e \<in> set r. fst e \<notin> f ` set js} \<union> (\<lambda>k. (k, v)) ` f ` set js"
  using assms
proof (induction js arbitrary: r)
  case (Cons i js)
  note IH = Cons.IH [OF sorted_map_set [OF Cons.prems]]
  show ?case using IH by (auto simp: set_map_set [OF Cons.prems])
qed simp

lemma fold_map_erase: "fold (\<lambda>i. map_erase (f i)) js r = [e\<leftarrow>r. fst e \<notin> f ` set js]"
  by (induction js arbitrary: r) (auto simp: map_erase_def intro: filter_cong)

lemma points_not_empty: "points h n \<noteq> {}"
  by (simp add: points_def replacement_count_def)

lemma ring_of_AddNode:
  assumes "ring_of h N r" "no_clash h (insert n N)"
  shows "ring_of h (insert n N) (AddNode h n r)"
proof -
  have r: "sorted_wrt (<) (map fst r)" "set r = (\<Union>n\<in>N. (\<lambda>k. (k, n)) ` points h n)"
    using assms(1) by (simp_all add: ring_of_def)
  have "{e \<in> set r. fst e \<notin> points h n} = {e \<in> set r. snd e \<noteq> n}"
    using assms(2) r(2) unfolding no_clash_def by fastforce
  with fold_map_set [OF r(1), of "\<lambda>i. - node_code h n i" n "[0..<replacement_count]"] r(2)
  show ?thesis by (auto simp: ring_of_def AddNode_def points_def)
qed

lemma ring_of_RemoveNode:
  assumes "ring_of h N r" "no_clash h (insert n N)"
  shows "RemoveNode h n r = [e\<leftarrow>r. snd e \<noteq> n]" "ring_of h (N - {n}) (RemoveNode h n r)"
proof -
  have r: "sorted_wrt (<) (map fst r)" "set r = (\<Union>n\<in>N. (\<lambda>k. (k, n)) ` points h n)"
    using assms(1) by (simp_all add: ring_of_def)
  have "fst e \<notin> points h n \<longleftrightarrow> snd e \<noteq> n" if "e \<in> set r" for e
    using assms(2) r(2) that unfolding no_clash_def by fastforce
  then show eq: "RemoveNode h n r = [e\<leftarrow>r. snd e \<noteq> n]"
    by (auto simp: RemoveNode_def fold_map_erase points_def intro!: filter_cong)
  show "ring_of h (N - {n}) (RemoveNode h n r)"
    unfolding eq using r by (auto simp: ring_of_def sorted_filter_fst)
qed

lemma sorted_map_unique:
  fixes r r' :: ring
  assumes "sorted_wrt (<) (map fst r)" "sorted_wrt (<) (map fst r')" "set r = set r'"
  shows "r = r'"
proof -
  have d: "sorted (map fst r)" "distinct (map fst r)" "sorted (map fst r')" "distinct (map fst r')"
    using assms(1,2) by (simp_all add: strict_sorted_iff)
  then have "inj_on fst (set r \<union> set r')" using assms(3) by (simp add: distinct_map)
  then show ?thesis using d assms(3) by (rule map_sorted_distinct_set_unique)
qed

lemma ring_of_unique: "ring_of h N r \<Longrightarrow> ring_of h N r' \<Longrightarrow> r = r'"
  unfolding ring_of_def by (intro sorted_map_unique) simp_all

lemma ring_of_empty: "ring_of h N r \<Longrightarrow> r = [] \<longleftrightarrow> N = {}"
  using points_not_empty [of h] by (auto simp: ring_of_def)

subsection \<open>Which node a key has\<close>

text \<open>The entry that serves a point of the ring: the first at or above it, or else the last of all.\<close>

definition entry_of :: "int \<Rightarrow> ring \<Rightarrow> (int \<times> bytes) option" where
  "entry_of q r = (if r = [] then None else case lower_bound q r of [] \<Rightarrow> Some (last r) | e # _ \<Rightarrow> Some e)"

lemma entry_of_None: "entry_of q r = None \<longleftrightarrow> r = []"
  by (auto simp: entry_of_def split: list.split)

definition key_point :: "(bytes \<Rightarrow> nat) \<Rightarrow> nat \<Rightarrow> int" where
  "key_point h k = - masked (Hash h (dec_nat k))"

lemma GetNode_entry: "GetNode h k r = (case entry_of (key_point h k) r of
    None \<Rightarrow> Inl (Throw (StdException ''hash_list empty'')) | Some e \<Rightarrow> Inr (snd e))"
  by (simp add: GetNode_def entry_of_def key_point_def split: list.split)

definition chosen :: "int \<Rightarrow> ring \<Rightarrow> int \<times> bytes \<Rightarrow> bool" where
  "chosen q r e \<longleftrightarrow> e \<in> set r \<and>
     (if q \<le> fst e then \<forall>e'\<in>set r. q \<le> fst e' \<longrightarrow> fst e \<le> fst e' else \<forall>e'\<in>set r. fst e' \<le> fst e)"

lemma last_greatest: "sorted_wrt (<) (map fst r) \<Longrightarrow> e \<in> set r \<Longrightarrow> fst e \<le> (fst (last r) :: int)"
  by (induction r) (auto split: if_splits, metis last_in_set order_less_imp_le)

lemma entry_chosen:
  assumes "sorted_wrt (<) (map fst r)" "entry_of q r = Some e"
  shows "chosen q r e"
proof (cases "lower_bound q r")
  case Nil
  then have "\<forall>e'\<in>set r. fst e' < q" by (simp add: lower_bound_def dropWhile_eq_Nil_conv)
  moreover have "e = last r" "r \<noteq> []" using assms(2) Nil by (simp_all add: entry_of_def split: if_splits)
  ultimately show ?thesis using last_greatest [OF assms(1)] by (auto simp: chosen_def)
next
  case (Cons x xs)
  with assms(2) have x: "x = e" by (simp add: entry_of_def split: if_splits)
  have "r = takeWhile (\<lambda>e. fst e < q) r @ e # xs"
    using Cons takeWhile_dropWhile_id [of "\<lambda>e. fst e < q" r] by (simp add: lower_bound_def x)
  then obtain ts where r: "r = ts @ e # xs" "\<forall>e'\<in>set ts. fst e' < q" by (metis set_takeWhileD)
  have "q \<le> fst e" using Cons hd_dropWhile [of "\<lambda>e. fst e < q" r] by (simp add: lower_bound_def x)
  moreover have "fst e \<le> fst e'" if "e' \<in> set r" "q \<le> fst e'" for e'
    using assms(1) that r(2) unfolding r(1) by (auto simp: sorted_wrt_append)
  ultimately show ?thesis by (simp add: chosen_def r(1))
qed

lemma chosen_unique:
  assumes "sorted_wrt (<) (map fst r)" "chosen q r e" "chosen q r e'"
  shows "e = e'"
proof -
  from assms(2,3) have "fst e = fst e'" "e \<in> set r" "e' \<in> set r"
    by (auto simp: chosen_def split: if_splits intro: antisym)
  moreover have "inj_on fst (set r)" using assms(1) by (metis distinct_map strict_sorted_iff)
  ultimately show ?thesis by (metis inj_onD)
qed

lemma entry_iff: "sorted_wrt (<) (map fst r) \<Longrightarrow> entry_of q r = Some e \<longleftrightarrow> chosen q r e"
proof
  assume s: "sorted_wrt (<) (map fst r)" and c: "chosen q r e"
  then have "r \<noteq> []" by (auto simp: chosen_def)
  then obtain x where "entry_of q r = Some x" using entry_of_None [of q r] by (cases "entry_of q r") simp_all
  with chosen_unique [OF s c entry_chosen [OF s this]] show "entry_of q r = Some e" by simp
qed (rule entry_chosen)

text \<open>What a change does to the entries, and to the keys, of any ring.\<close>

lemma set_RemoveNode: "set (RemoveNode h n r) = {e \<in> set r. fst e \<notin> points h n}"
  by (simp add: RemoveNode_def fold_map_erase points_def)

lemma sorted_RemoveNode: "sorted_wrt (<) (map fst r) \<Longrightarrow> sorted_wrt (<) (map fst (RemoveNode h n r))"
  by (simp add: RemoveNode_def fold_map_erase sorted_filter_fst)

lemma AddNode_entries:
  assumes "sorted_wrt (<) (map fst r)"
  shows "sorted_wrt (<) (map fst (AddNode h n r))"
    "set (AddNode h n r) = {e \<in> set r. fst e \<notin> points h n} \<union> (\<lambda>p. (p, n)) ` points h n"
  using fold_map_set [OF assms, of "\<lambda>i. - node_code h n i" n "[0..<replacement_count]"]
  by (simp_all add: AddNode_def points_def)

lemma GetNode_removed:
  assumes s: "sorted_wrt (<) (map fst r)" and e: "entry_of (key_point h k) r = Some e" "fst e \<notin> points h n"
  shows "GetNode h k (RemoveNode h n r) = GetNode h k r"
proof -
  from entry_chosen [OF s e(1)] e(2) have "chosen (key_point h k) (RemoveNode h n r) e"
    by (auto simp: chosen_def set_RemoveNode split: if_splits)
  then have "entry_of (key_point h k) (RemoveNode h n r) = Some e" using entry_iff [OF sorted_RemoveNode [OF s]] by blast
  with e(1) show ?thesis by (simp add: GetNode_entry)
qed

lemma GetNode_added:
  assumes s: "sorted_wrt (<) (map fst r)"
  shows "GetNode h k (AddNode h n r) \<in> {GetNode h k r, Inr n}"
proof -
  let ?q = "key_point h k" and ?r = "AddNode h n r"
  note A = AddNode_entries [OF s, of h n]
  have "set ?r \<noteq> {}" using A(2) points_not_empty by simp
  then obtain e where e: "entry_of ?q ?r = Some e" using entry_of_None [of ?q ?r] by (cases "entry_of ?q ?r") simp_all
  note c = entry_chosen [OF A(1) e]
  show ?thesis
  proof (cases "fst e \<in> points h n")
    case True
    with c A(2) have "snd e = n" by (auto simp: chosen_def)
    with e show ?thesis by (simp add: GetNode_entry)
  next
    case False
    have key: "\<exists>e''\<in>set ?r. fst e'' = fst e'" if "e' \<in> set r" for e'
    proof (cases "fst e' \<in> points h n")
      case True
      then show ?thesis unfolding A(2) by (intro bexI [of _ "(fst e', n)"]) simp_all
    qed (use that A(2) in auto)
    have "e \<in> set r" using c A(2) False by (auto simp: chosen_def)
    with c key have "chosen ?q r e" unfolding chosen_def by (metis (full_types))
    then have "entry_of ?q r = Some e" using entry_iff [OF s] by blast
    with e show ?thesis by (simp add: GetNode_entry)
  qed
qed

lemma GetNode_member: "ring_of h N r \<Longrightarrow> N \<noteq> {} \<Longrightarrow> \<exists>m\<in>N. GetNode h k r = Inr m"
proof -
  assume a: "ring_of h N r" "N \<noteq> {}"
  then have ne: "r \<noteq> []" using ring_of_empty by blast
  have "snd e \<in> N" if "e \<in> set r" for e using a that by (auto simp: ring_of_def)
  moreover have "e \<in> set r" if "lower_bound k r = e # es" for e es k
    using that by (metis list.set_intros(1) lower_bound_def set_dropWhileD)
  ultimately show ?thesis using ne by (auto simp: GetNode_def split: list.splits)
qed

subsection \<open>Sequences of changes\<close>

datatype ring_op = Add bytes | Remove bytes

fun do_ring :: "(bytes \<Rightarrow> nat) \<Rightarrow> ring_op \<Rightarrow> ring \<Rightarrow> ring" where
  "do_ring h (Add n) r = AddNode h n r"
| "do_ring h (Remove n) r = RemoveNode h n r"

fun members :: "ring_op \<Rightarrow> bytes set \<Rightarrow> bytes set" where
  "members (Add n) N = insert n N"
| "members (Remove n) N = N - {n}"

fun op_node :: "ring_op \<Rightarrow> bytes" where
  "op_node (Add n) = n"
| "op_node (Remove n) = n"

lemma no_clash_mono: "no_clash h S \<Longrightarrow> N \<subseteq> S \<Longrightarrow> no_clash h N"
  by (auto simp: no_clash_def)

lemma ring_of_do:
  assumes "ring_of h N r" "no_clash h S" "insert (op_node c) N \<subseteq> S"
  shows "ring_of h (members c N) (do_ring h c r)"
proof -
  have "no_clash h (insert (op_node c) N)" using no_clash_mono assms(2,3) by blast
  with assms(1) show ?thesis by (cases c) (simp_all add: ring_of_AddNode ring_of_RemoveNode(2))
qed

lemma ring_of_ops:
  assumes "ring_of h N r" "no_clash h S" "op_node ` set cs \<union> N \<subseteq> S"
  shows "ring_of h (fold members cs N) (fold (do_ring h) cs r)"
  using assms
proof (induction cs arbitrary: N r)
  case (Cons c cs)
  have "members c N \<subseteq> insert (op_node c) N" by (cases c) auto
  with Cons.prems(3) have "op_node ` set cs \<union> members c N \<subseteq> S" by auto
  moreover have "ring_of h (members c N) (do_ring h c r)" using Cons.prems by (intro ring_of_do) auto
  ultimately show ?case using Cons.IH Cons.prems(2) by simp
qed simp

lemma ring_of_history:
  assumes "no_clash h S" "op_node ` set cs \<subseteq> S"
  shows "ring_of h (fold members cs {}) (fold (do_ring h) cs [])" "fold members cs {} \<subseteq> S"
proof -
  have "ring_of h {} []" by (simp add: ring_of_def)
  with assms show "ring_of h (fold members cs {}) (fold (do_ring h) cs [])" by (intro ring_of_ops) simp_all
  have "fold members cs N \<subseteq> op_node ` set cs \<union> N" for N
  proof (induction cs arbitrary: N)
    case (Cons c cs)
    have "members c N \<subseteq> insert (op_node c) N" by (cases c) auto
    with Cons [of "members c N"] show ?case by auto
  qed simp
  with assms(2) show "fold members cs {} \<subseteq> S" by blast
qed

definition ring_after :: "(bytes \<Rightarrow> nat) \<Rightarrow> ring_op list \<Rightarrow> ring" where
  "ring_after h cs = fold (do_ring h) cs []"

definition on_ring :: "ring_op list \<Rightarrow> bytes set" where
  "on_ring cs = fold members cs {}"

lemma sorted_history: "sorted_wrt (<) (map fst r) \<Longrightarrow> sorted_wrt (<) (map fst (fold (do_ring h) cs r))"
proof (induction cs arbitrary: r)
  case (Cons c cs)
  have "sorted_wrt (<) (map fst (do_ring h c r))"
    using Cons.prems by (cases c) (simp_all add: AddNode_entries(1) sorted_RemoveNode)
  with Cons.IH show ?case by simp
qed simp

lemma GetNode_RemoveNode:
  assumes "ring_of h N r" "no_clash h (insert n N)" "GetNode h k r \<noteq> Inr n"
  shows "GetNode h k (RemoveNode h n r) = GetNode h k r"
proof (cases "entry_of (key_point h k) r")
  case None
  then have "r = []" by (auto simp: entry_of_def split: if_splits list.splits)
  then have "RemoveNode h n r = r" by (simp add: RemoveNode_def fold_map_erase)
  then show ?thesis by simp
next
  case (Some e)
  have s: "sorted_wrt (<) (map fst r)" using assms(1) by (simp add: ring_of_def)
  have "e \<in> set r" using entry_chosen [OF s Some] by (simp add: chosen_def)
  then have "snd e \<in> N" "fst e \<in> points h (snd e)" using assms(1) by (auto simp: ring_of_def)
  moreover have "snd e \<noteq> n" using assms(3) Some by (simp add: GetNode_entry)
  ultimately have "fst e \<notin> points h n" using assms(2) unfolding no_clash_def by blast
  with GetNode_removed [OF s Some] show ?thesis .
qed

text \<open>
  C18: how far the ring is a consistent hash, after any additions and removals.  Whatever \<open>std::hash\<close>
  is: the call throws exactly when the ring is empty; adding a node moves keys to that node only; removing a
  node moves only keys that were served at one of its points, but it takes these points from whichever
  node holds them.  If no two of the nodes concerned share a point, moreover: a key is given to a
  node that is on the ring, removing a node moves no key of another node, and the ring depends only on
  which nodes are on it, so two servers that learned of them in different orders agree.
\<close>

theorem ring_consistent:
  assumes "r = ring_after h cs"
  shows "(GetNode h k r = Inl (Throw (StdException ''hash_list empty'')) \<longleftrightarrow> r = []) \<and>
    GetNode h k (AddNode h n r) \<in> {GetNode h k r, Inr n} \<and>
    (\<forall>e. entry_of (key_point h k) r = Some e \<and> fst e \<notin> points h n \<longrightarrow>
       GetNode h k (RemoveNode h n r) = GetNode h k r) \<and>
    set (RemoveNode h n r) = {e \<in> set r. fst e \<notin> points h n} \<and>
    (no_clash h (insert n (op_node ` set cs)) \<longrightarrow>
       (r = [] \<longleftrightarrow> on_ring cs = {}) \<and>
       (\<forall>m. GetNode h k r = Inr m \<longrightarrow> m \<in> on_ring cs) \<and>
       (GetNode h k r \<noteq> Inr n \<longrightarrow> GetNode h k (RemoveNode h n r) = GetNode h k r) \<and>
       (\<forall>cs'. op_node ` set cs' \<subseteq> insert n (op_node ` set cs) \<and> on_ring cs' = on_ring cs \<longrightarrow> ring_after h cs' = r))"
proof -
  have s: "sorted_wrt (<) (map fst r)" using sorted_history [of "[]" h cs] by (simp add: assms ring_after_def)
  note empty = entry_of_None [of _ r]
  show ?thesis
  proof (intro conjI impI allI)
    show "GetNode h k r = Inl (Throw (StdException ''hash_list empty'')) \<longleftrightarrow> r = []"
      using empty [of "key_point h k"] by (cases "entry_of (key_point h k) r") (simp_all add: GetNode_entry)
    assume n: "no_clash h (insert n (op_node ` set cs))"
    have R: "ring_of h (on_ring cs) r" "on_ring cs \<subseteq> insert n (op_node ` set cs)"
      using ring_of_history [OF n, of cs] by (simp_all add: assms ring_after_def on_ring_def subset_insertI)
    with no_clash_mono [OF n] have c: "no_clash h (insert n (on_ring cs))" by simp
    show e: "r = [] \<longleftrightarrow> on_ring cs = {}" by (rule ring_of_empty [OF R(1)])
    show "m \<in> on_ring cs" if "GetNode h k r = Inr m" for m
    proof -
      from that empty have "on_ring cs \<noteq> {}" using e by (auto simp: GetNode_entry)
      from GetNode_member [OF R(1) this, of k] that show ?thesis by auto
    qed
    show "GetNode h k (RemoveNode h n r) = GetNode h k r" if "GetNode h k r \<noteq> Inr n"
      by (rule GetNode_RemoveNode [OF R(1) c that])
    show "ring_after h cs' = r" if "op_node ` set cs' \<subseteq> insert n (op_node ` set cs) \<and> on_ring cs' = on_ring cs" for cs'
      using ring_of_history(1) [OF n conjunct1 [OF that]] that R(1) ring_of_unique by (auto simp: ring_after_def on_ring_def)
  qed (use GetNode_added [OF s] GetNode_removed [OF s] set_RemoveNode in blast)+
qed

text \<open>A hash without clashes on names of one character.\<close>

definition demo_hash :: "bytes \<Rightarrow> nat" where
  "demo_hash s = 100 * of_char (hd s) + undec (drop 3 s)"

lemma demo_code:
  assumes "of_char c = (m :: nat)" "m < 256" "i < 16"
  shows "node_code demo_hash [c] i = int (100 * m + i)"
proof -
  have "unat (word_of_nat (100 * m + i) :: 32 word) = 100 * m + i"
    using assms(2,3) by (simp only: unat_of_nat) simp
  then show ?thesis
    using assms(1) by (simp add: node_code_def masked_def kKeySize_def Hash_def demo_hash_def)
qed

lemma demo_points:
  assumes "of_char c = (m :: nat)" "m < 256"
  shows "points demo_hash [c] = (\<lambda>i. - int (100 * m + i)) ` {0..<16}"
  using demo_code [OF assms] by (simp add: points_def replacement_count_def)

lemma ring_consistent_witness:
  "ring_after demo_hash [Add ''a'', Add ''b'', Remove ''a''] = ring_after demo_hash [Add ''b''] \<and>
   GetNode demo_hash 7 (ring_after demo_hash [Add ''a'']) = Inr ''a'' \<and>
   GetNode demo_hash 7 (AddNode demo_hash ''b'' (ring_after demo_hash [Add ''a''])) \<in> {Inr ''a'', Inr ''b''}"
proof -
  have n: "no_clash demo_hash {''a'', ''b''}" "no_clash demo_hash {''b'', ''a''}"
    by (auto simp: no_clash_def demo_points [of "CHR ''a''" 97] demo_points [of "CHR ''b''" 98])
  have n': "no_clash demo_hash (insert ''a'' (op_node ` set [Add ''b'']))" "no_clash demo_hash (insert ''b'' (op_node ` set [Add ''a'']))"
    using n by simp_all
  note A = ring_consistent [OF refl, of demo_hash 7 "[Add ''a'']" "''b''"]
  note B' = ring_consistent [OF refl, THEN conjunct2, THEN conjunct2, THEN conjunct2, THEN conjunct2, THEN mp, OF n'(1), of 7]
    and A' = A [THEN conjunct2, THEN conjunct2, THEN conjunct2, THEN conjunct2, THEN mp, OF n'(2)]
  have "op_node ` set [Add ''a'', Add ''b'', Remove ''a''] \<subseteq> insert ''a'' (op_node ` set [Add ''b''])"
    "on_ring [Add ''a'', Add ''b'', Remove ''a''] = on_ring [Add ''b'']" by (auto simp: on_ring_def)
  then have "ring_after demo_hash [Add ''a'', Add ''b'', Remove ''a''] = ring_after demo_hash [Add ''b'']"
    using B' [THEN conjunct2, THEN conjunct2, THEN conjunct2] by blast
  moreover have "ring_after demo_hash [Add ''a''] \<noteq> []" using A' [THEN conjunct1] by (simp add: on_ring_def)
  then obtain m where m: "GetNode demo_hash 7 (ring_after demo_hash [Add ''a'']) = Inr m"
    using entry_of_None [of "key_point demo_hash 7" "ring_after demo_hash [Add ''a'']"]
    by (cases "entry_of (key_point demo_hash 7) (ring_after demo_hash [Add ''a''])") (simp_all add: GetNode_entry)
  have "m \<in> on_ring [Add ''a'']" using A' [THEN conjunct2, THEN conjunct1] m by blast
  then have "m = ''a''" by (simp add: on_ring_def)
  moreover have "GetNode demo_hash 7 (AddNode demo_hash ''b'' (ring_after demo_hash [Add ''a'']))
      \<in> {GetNode demo_hash 7 (ring_after demo_hash [Add ''a'']), Inr ''b''}" using A by blast
  ultimately show ?thesis using m by simp
qed

end
