(* ===== verification/Sds.thy ===== *)
theory Sds
  imports Prelude "HOL-Library.Word"
begin

text \<open>
  The dynamic strings of \<open>src/commlib/redis/sds.h\<close> and \<open>sds.cpp\<close>.

  A string is its header, with its fields at their widths, and the memory that follows it up to the
  end of the allocation (\<open>buf\<close>).  A \<open>char *\<close> argument is the list of the bytes that can be read from
  it.  Every read and write is checked: one beyond the memory is the fault \<open>OutOfBounds\<close>, a failed
  \<open>assert\<close> is \<open>AssertFail\<close>, using a null string is \<open>NullPtr\<close>.  A function that returns NULL returns
  \<open>Inr None\<close>.  The allocator is an argument: which sizes it grants, and what fresh memory holds.
  Strings are values: a caller never uses a pointer it has passed to a function that may reallocate,
  as the comments of the source demand.
\<close>

datatype sds_fault = NullPtr | OutOfBounds | AssertFail | NoArgument

record allocator =
  grants :: "nat \<Rightarrow> bool"
  garbage :: "nat \<Rightarrow> char"

subsection \<open>Memory\<close>

definition fresh :: "allocator \<Rightarrow> nat \<Rightarrow> bytes" where
  "fresh A n = map (garbage A) [0..<n]"

definition resize :: "allocator \<Rightarrow> bytes \<Rightarrow> nat \<Rightarrow> bytes" where
  "resize A b n = take n b @ map (garbage A) [length b..<n]"

definition poke :: "nat \<Rightarrow> bytes \<Rightarrow> bytes \<Rightarrow> sds_fault + bytes" where
  "poke i xs b = (if i + length xs \<le> length b then Inr (take i b @ xs @ drop (i + length xs) b) else Inl OutOfBounds)"

definition peek :: "nat \<Rightarrow> nat \<Rightarrow> bytes \<Rightarrow> sds_fault + bytes" where
  "peek i n b = (if i + n \<le> length b then Inr (take n (drop i b)) else Inl OutOfBounds)"

definition c_string :: "bytes \<Rightarrow> sds_fault + bytes" where
  "c_string p = (if nul \<in> set p then Inr (takeWhile (\<lambda>c. c \<noteq> nul) p) else Inl OutOfBounds)"

subsection \<open>Headers\<close>

text \<open>Type 5 has the length in the upper five bits of its flags; the others have two fields.\<close>

datatype sdshdr =
    sdshdr5 "8 word"
  | sdshdr8 "8 word" "8 word"
  | sdshdr16 "16 word" "16 word"
  | sdshdr32 "32 word" "32 word"
  | sdshdr64 "64 word" "64 word"

record sds =
  hdr :: sdshdr
  buf :: bytes

definition SDS_MAX_PREALLOC :: nat where "SDS_MAX_PREALLOC = 1024 * 1024"

fun hdr_type :: "sdshdr \<Rightarrow> nat" where
  "hdr_type (sdshdr5 f) = 0"
| "hdr_type (sdshdr8 l a) = 1"
| "hdr_type (sdshdr16 l a) = 2"
| "hdr_type (sdshdr32 l a) = 3"
| "hdr_type (sdshdr64 l a) = 4"

definition sdsHdrSize :: "nat \<Rightarrow> nat" where
  "sdsHdrSize ty = (if ty = 0 then 1 else if ty = 1 then 3 else if ty = 2 then 5 else if ty = 3 then 9
     else if ty = 4 then 17 else 0)"

definition sdsReqType :: "nat \<Rightarrow> nat" where
  "sdsReqType string_size =
    (if string_size < 32 then 0 else if string_size < 0xff then 1 else if string_size < 0xffff then 2
     else if string_size < 0xffffffff then 3 else 4)"

fun hdr_len :: "sdshdr \<Rightarrow> nat" where
  "hdr_len (sdshdr5 f) = unat (drop_bit 3 f)"
| "hdr_len (sdshdr8 l a) = unat l"
| "hdr_len (sdshdr16 l a) = unat l"
| "hdr_len (sdshdr32 l a) = unat l"
| "hdr_len (sdshdr64 l a) = unat l"

definition sdslen :: "sds \<Rightarrow> nat" where
  "sdslen s = hdr_len (hdr s)"

text \<open>The difference of two 8 or 16 bit fields is an \<open>int\<close>, then converted to \<open>size_t\<close>.\<close>

fun hdr_avail :: "sdshdr \<Rightarrow> nat" where
  "hdr_avail (sdshdr5 f) = 0"
| "hdr_avail (sdshdr8 l a) = nat ((int (unat a) - int (unat l)) mod 2 ^ 64)"
| "hdr_avail (sdshdr16 l a) = nat ((int (unat a) - int (unat l)) mod 2 ^ 64)"
| "hdr_avail (sdshdr32 l a) = unat (a - l)"
| "hdr_avail (sdshdr64 l a) = unat (a - l)"

definition sdsavail :: "sds \<Rightarrow> nat" where
  "sdsavail s = hdr_avail (hdr s)"

fun hdr_setlen :: "nat \<Rightarrow> sdshdr \<Rightarrow> sdshdr" where
  "hdr_setlen n (sdshdr5 f) = sdshdr5 (push_bit 3 (word_of_nat n))"
| "hdr_setlen n (sdshdr8 l a) = sdshdr8 (word_of_nat n) a"
| "hdr_setlen n (sdshdr16 l a) = sdshdr16 (word_of_nat n) a"
| "hdr_setlen n (sdshdr32 l a) = sdshdr32 (word_of_nat n) a"
| "hdr_setlen n (sdshdr64 l a) = sdshdr64 (word_of_nat n) a"

definition sdssetlen :: "nat \<Rightarrow> sds \<Rightarrow> sds" where
  "sdssetlen n s = s\<lparr>hdr := hdr_setlen n (hdr s)\<rparr>"

fun hdr_inclen :: "nat \<Rightarrow> sdshdr \<Rightarrow> sdshdr" where
  "hdr_inclen n (sdshdr5 f) = sdshdr5 (push_bit 3 (drop_bit 3 f + word_of_nat n))"
| "hdr_inclen n (sdshdr8 l a) = sdshdr8 (l + word_of_nat n) a"
| "hdr_inclen n (sdshdr16 l a) = sdshdr16 (l + word_of_nat n) a"
| "hdr_inclen n (sdshdr32 l a) = sdshdr32 (l + word_of_nat n) a"
| "hdr_inclen n (sdshdr64 l a) = sdshdr64 (l + word_of_nat n) a"

definition sdsinclen :: "nat \<Rightarrow> sds \<Rightarrow> sds" where
  "sdsinclen n s = s\<lparr>hdr := hdr_inclen n (hdr s)\<rparr>"

fun hdr_alloc :: "sdshdr \<Rightarrow> nat" where
  "hdr_alloc (sdshdr5 f) = unat (drop_bit 3 f)"
| "hdr_alloc (sdshdr8 l a) = unat a"
| "hdr_alloc (sdshdr16 l a) = unat a"
| "hdr_alloc (sdshdr32 l a) = unat a"
| "hdr_alloc (sdshdr64 l a) = unat a"

definition sdsalloc :: "sds \<Rightarrow> nat" where
  "sdsalloc s = hdr_alloc (hdr s)"

fun hdr_setalloc :: "nat \<Rightarrow> sdshdr \<Rightarrow> sdshdr" where
  "hdr_setalloc n (sdshdr5 f) = sdshdr5 f"
| "hdr_setalloc n (sdshdr8 l a) = sdshdr8 l (word_of_nat n)"
| "hdr_setalloc n (sdshdr16 l a) = sdshdr16 l (word_of_nat n)"
| "hdr_setalloc n (sdshdr32 l a) = sdshdr32 l (word_of_nat n)"
| "hdr_setalloc n (sdshdr64 l a) = sdshdr64 l (word_of_nat n)"

definition sdssetalloc :: "nat \<Rightarrow> sds \<Rightarrow> sds" where
  "sdssetalloc n s = s\<lparr>hdr := hdr_setalloc n (hdr s)\<rparr>"

text \<open>A header of a type in new memory, before its fields are set.\<close>

definition new_hdr :: "nat \<Rightarrow> sdshdr" where
  "new_hdr ty = (if ty = 0 then sdshdr5 0 else if ty = 1 then sdshdr8 0 0 else if ty = 2 then sdshdr16 0 0
     else if ty = 3 then sdshdr32 0 0 else sdshdr64 0 0)"

subsection \<open>Creation\<close>

definition append_type :: "nat \<Rightarrow> nat" where
  "append_type ty = (if ty = 0 then 1 else ty)"

definition sdsnewlen :: "allocator \<Rightarrow> bytes option \<Rightarrow> nat \<Rightarrow> sds_fault + sds option" where
  "sdsnewlen A init initlen =
    (let ty = (if sdsReqType initlen = 0 \<and> initlen = 0 then 1 else sdsReqType initlen);
         hdrlen = sdsHdrSize ty; total = size_t_of (hdrlen + initlen + 1) in
     if \<not> grants A total then Inr None
     else if total < hdrlen then Inl OutOfBounds
     else let h = hdr_setalloc initlen (hdr_setlen initlen (new_hdr ty)) in
       rbind (case init of
           None \<Rightarrow> Inr (replicate (total - hdrlen) nul)
         | Some p \<Rightarrow> if initlen = 0 then Inr (fresh A (total - hdrlen))
                     else rbind (peek 0 initlen p) (\<lambda>xs. poke 0 xs (fresh A (total - hdrlen))))
         (\<lambda>b. rbind (poke initlen [nul] b) (\<lambda>b. Inr (Some \<lparr>hdr = h, buf = b\<rparr>))))"

definition sdsempty :: "allocator \<Rightarrow> sds_fault + sds option" where
  "sdsempty A = sdsnewlen A (Some [nul]) 0"

definition sdsnew :: "allocator \<Rightarrow> bytes option \<Rightarrow> sds_fault + sds option" where
  "sdsnew A init =
    (case init of None \<Rightarrow> sdsnewlen A None 0
     | Some p \<Rightarrow> rbind (c_string p) (\<lambda>t. sdsnewlen A init (length t)))"

definition sdsdup :: "allocator \<Rightarrow> sds \<Rightarrow> sds_fault + sds option" where
  "sdsdup A s = sdsnewlen A (Some (buf s)) (sdslen s)"

subsection \<open>Length and space\<close>

definition sdsupdatelen :: "sds \<Rightarrow> sds_fault + sds" where
  "sdsupdatelen s = rbind (c_string (buf s)) (\<lambda>t. Inr (sdssetlen (nat (int32 (int (length t)) mod 2 ^ 64)) s))"

definition sdsclear :: "sds \<Rightarrow> sds_fault + sds" where
  "sdsclear s = rbind (poke 0 [nul] (buf s)) (\<lambda>b. Inr (sdssetlen 0 (s\<lparr>buf := b\<rparr>)))"

text \<open>The block of a string becomes one with a header of type \<open>ty\<close> and room for \<open>n\<close> bytes.\<close>

definition reblock :: "allocator \<Rightarrow> nat \<Rightarrow> nat \<Rightarrow> sds \<Rightarrow> sds_fault + sds option" where
  "reblock A ty n s =
    (let hdrlen = sdsHdrSize ty; total = size_t_of (hdrlen + n + 1); len = sdslen s in
     if \<not> grants A total then Inr None
     else if total < hdrlen then Inl OutOfBounds
     else rbind
       (if hdr_type (hdr s) = ty then Inr (s\<lparr>buf := resize A (buf s) (total - hdrlen)\<rparr>)
        else rbind (peek 0 (len + 1) (buf s)) (\<lambda>xs. rbind (poke 0 xs (fresh A (total - hdrlen)))
          (\<lambda>b. Inr (sdssetlen len \<lparr>hdr = new_hdr ty, buf = b\<rparr>))))
       (\<lambda>s1. Inr (Some (sdssetalloc n s1))))"

definition grown_size :: "nat \<Rightarrow> nat" where
  "grown_size newlen = (if newlen < SDS_MAX_PREALLOC then newlen * 2 else size_t_of (newlen + SDS_MAX_PREALLOC))"

definition sdsMakeRoomFor :: "allocator \<Rightarrow> nat \<Rightarrow> sds \<Rightarrow> sds_fault + sds option" where
  "sdsMakeRoomFor A addlen s =
    (if addlen \<le> sdsavail s then Inr (Some s)
     else let newlen = grown_size (size_t_of (sdslen s + addlen)) in
       reblock A (append_type (sdsReqType newlen)) newlen s)"

definition sdsRemoveFreeSpace :: "allocator \<Rightarrow> sds \<Rightarrow> sds_fault + sds option" where
  "sdsRemoveFreeSpace A s = reblock A (sdsReqType (sdslen s)) (sdslen s) s"

definition sdsAllocSize :: "sds \<Rightarrow> nat" where
  "sdsAllocSize s = size_t_of (sdsHdrSize (hdr_type (hdr s)) + sdsalloc s + 1)"

text \<open>
  \<open>incr\<close> is an \<open>int\<close>; \<open>(unsigned int)(-incr)\<close> is its absolute value for every negative \<open>int\<close>.
  The check of type 5 refuses 0 and knows nothing of the room there is.  \<open>sdsIncrLen\<close> converts its
  argument to \<open>int\<close>: a count of \<open>2 ^ 31\<close> bytes arrives as a negative number.
\<close>

fun incr_ok :: "int \<Rightarrow> sdshdr \<Rightarrow> bool" where
  "incr_ok incr (sdshdr5 f) \<longleftrightarrow>
     0 < incr \<and> int (unat (drop_bit 3 f)) + incr < 32 \<or> incr < 0 \<and> - incr \<le> int (unat (drop_bit 3 f))"
| "incr_ok incr (sdshdr8 l a) \<longleftrightarrow>
     0 \<le> incr \<and> incr \<le> int (unat a) - int (unat l) \<or> incr < 0 \<and> - incr \<le> int (unat l)"
| "incr_ok incr (sdshdr16 l a) \<longleftrightarrow>
     0 \<le> incr \<and> incr \<le> int (unat a) - int (unat l) \<or> incr < 0 \<and> - incr \<le> int (unat l)"
| "incr_ok incr (sdshdr32 l a) \<longleftrightarrow>
     0 \<le> incr \<and> incr \<le> int (unat (a - l)) \<or> incr < 0 \<and> - incr \<le> int (unat l)"
| "incr_ok incr (sdshdr64 l a) \<longleftrightarrow>
     0 \<le> incr \<and> incr \<le> int (unat (a - l)) \<or> incr < 0 \<and> - incr \<le> int (unat l)"

definition sdsIncrLen :: "int \<Rightarrow> sds \<Rightarrow> sds_fault + sds" where
  "sdsIncrLen n s =
    (let incr = int32 n in
     if \<not> incr_ok incr (hdr s) then Inl AssertFail
     else let s1 = sdssetlen (nat (int (sdslen s) + incr)) s in
       rbind (poke (sdslen s1) [nul] (buf s)) (\<lambda>b. Inr (s1\<lparr>buf := b\<rparr>)))"

subsection \<open>Appending and copying\<close>

text \<open>A call on a string that may be null.\<close>

definition on_sds :: "(sds \<Rightarrow> sds_fault + 'a) \<Rightarrow> sds option \<Rightarrow> sds_fault + 'a" where
  "on_sds f s = (case s of None \<Rightarrow> Inl NullPtr | Some s \<Rightarrow> f s)"

text \<open>What is done after a call that returns NULL when there is no memory: return NULL too.\<close>

definition if_room :: "sds_fault + sds option \<Rightarrow> (sds \<Rightarrow> sds_fault + sds) \<Rightarrow> sds_fault + sds option" where
  "if_room m f = rbind m (\<lambda>r. case r of None \<Rightarrow> Inr None | Some s \<Rightarrow> rbind (f s) (\<lambda>s. Inr (Some s)))"

definition sdsgrowzero :: "allocator \<Rightarrow> nat \<Rightarrow> sds \<Rightarrow> sds_fault + sds option" where
  "sdsgrowzero A len s =
    (let curlen = sdslen s in
     if len \<le> curlen then Inr (Some s)
     else if_room (sdsMakeRoomFor A (len - curlen) s) (\<lambda>s.
       rbind (poke curlen (replicate (len - curlen + 1) nul) (buf s)) (\<lambda>b. Inr (sdssetlen len (s\<lparr>buf := b\<rparr>)))))"

definition sdscatlen :: "allocator \<Rightarrow> bytes \<Rightarrow> nat \<Rightarrow> sds \<Rightarrow> sds_fault + sds option" where
  "sdscatlen A t len s =
    (let curlen = sdslen s in
     if_room (sdsMakeRoomFor A len s) (\<lambda>s.
       rbind (peek 0 len t) (\<lambda>xs. rbind (poke curlen xs (buf s)) (\<lambda>b.
         rbind (poke (size_t_of (curlen + len)) [nul] b) (\<lambda>b.
           Inr (sdssetlen (size_t_of (curlen + len)) (s\<lparr>buf := b\<rparr>)))))))"

definition sdscat :: "allocator \<Rightarrow> bytes \<Rightarrow> sds \<Rightarrow> sds_fault + sds option" where
  "sdscat A t s = rbind (c_string t) (\<lambda>u. sdscatlen A t (length u) s)"

definition sdscatsds :: "allocator \<Rightarrow> sds \<Rightarrow> sds \<Rightarrow> sds_fault + sds option" where
  "sdscatsds A t s = sdscatlen A (buf t) (sdslen t) s"

definition sdscpylen :: "allocator \<Rightarrow> bytes \<Rightarrow> nat \<Rightarrow> sds \<Rightarrow> sds_fault + sds option" where
  "sdscpylen A t len s =
    if_room (if sdsalloc s < len then sdsMakeRoomFor A (len - sdslen s) s else Inr (Some s)) (\<lambda>s.
      rbind (peek 0 len t) (\<lambda>xs. rbind (poke 0 xs (buf s)) (\<lambda>b. rbind (poke len [nul] b) (\<lambda>b.
        Inr (sdssetlen len (s\<lparr>buf := b\<rparr>))))))"

definition sdscpy :: "allocator \<Rightarrow> bytes \<Rightarrow> sds \<Rightarrow> sds_fault + sds option" where
  "sdscpy A t s = rbind (c_string t) (\<lambda>u. sdscpylen A t (length u) s)"

subsection \<open>Memory and header facts\<close>

lemma length_fresh [simp]: "length (fresh A n) = n"
  by (simp add: fresh_def)

lemma length_resize [simp]: "length (resize A b n) = n"
  by (simp add: resize_def)

lemma take_resize: "k \<le> n \<Longrightarrow> k \<le> length b \<Longrightarrow> take k (resize A b n) = take k b"
  by (simp add: resize_def)

lemma nth_resize: "k < n \<Longrightarrow> k < length b \<Longrightarrow> resize A b n ! k = b ! k"
  by (simp add: resize_def nth_append)

lemma poke_ok: "i + length xs \<le> length b \<Longrightarrow> poke i xs b = Inr (take i b @ xs @ drop (i + length xs) b)"
  by (simp add: poke_def)

lemma peek_ok: "i + n \<le> length b \<Longrightarrow> peek i n b = Inr (take n (drop i b))"
  by (simp add: peek_def)

definition cap :: "nat \<Rightarrow> nat" where
  "cap ty = (if ty = 0 then 32 else if ty = 1 then 2 ^ 8 else if ty = 2 then 2 ^ 16 else if ty = 3 then 2 ^ 32 else 2 ^ 64)"

lemma unat_drop3: "unat (drop_bit 3 (f :: 8 word)) = unat f div 8"
  by (simp add: drop_bit_eq_div unat_div_distrib)

lemma unat_drop3_push3:
  assumes "n < 32"
  shows "unat (drop_bit 3 (push_bit 3 (word_of_nat n :: 8 word))) = n"
proof -
  have "push_bit 3 (word_of_nat n :: 8 word) = word_of_nat (n * 8)" by (simp add: push_bit_eq_mult)
  moreover have "unat (word_of_nat (n * 8) :: 8 word) = n * 8" using assms by (subst unat_of_nat) simp
  ultimately show ?thesis by (simp add: unat_drop3)
qed

lemma diff_to_size_t: "m \<le> n \<Longrightarrow> n < 2 ^ 64 \<Longrightarrow> nat ((int n - int m) mod 2 ^ 64) = n - m"
  by (simp add: nat_diff_distrib)

lemma hdr_len_setlen [simp]: "n < cap (hdr_type h) \<Longrightarrow> hdr_len (hdr_setlen n h) = n"
  by (cases h) (simp_all add: cap_def unat_drop3_push3 unat_of_nat)

lemma hdr_type_set [simp]: "hdr_type (hdr_setlen n h) = hdr_type h" "hdr_type (hdr_setalloc n h) = hdr_type h"
  by (cases h; simp)+

lemma hdr_len_setalloc [simp]: "hdr_len (hdr_setalloc n h) = hdr_len h"
  by (cases h) simp_all

lemma hdr_alloc_setlen: "hdr_alloc (hdr_setlen n h) = (if hdr_type h = 0 then hdr_len (hdr_setlen n h) else hdr_alloc h)"
  by (cases h) simp_all

lemma hdr_alloc_setalloc: "n < cap (hdr_type h) \<Longrightarrow>
    hdr_alloc (hdr_setalloc n h) = (if hdr_type h = 0 then hdr_len h else n)"
  by (cases h) (simp_all add: cap_def unat_of_nat)

lemma hdr_alloc_type5: "hdr_type h = 0 \<Longrightarrow> hdr_alloc h = hdr_len h"
  by (cases h) simp_all

lemma hdr_type_new [simp]: "ty \<le> 4 \<Longrightarrow> hdr_type (new_hdr ty) = ty"
  by (auto simp: new_hdr_def)

lemma hdr_type_le [simp]: "hdr_type h \<le> 4"
  by (cases h) simp_all

lemma unat_lt_exp: "unat (w :: 'a::len word) < 2 ^ LENGTH('a)"
  by (rule unsigned_less)

lemma hdr_alloc_cap: "hdr_alloc h < cap (hdr_type h)"
proof (cases h)
  case (sdshdr5 f)
  have "unat f < 256" using unat_lt_exp [of f] by simp
  then show ?thesis by (simp add: sdshdr5 cap_def drop_bit_eq_div unat_div_distrib)
next
  case (sdshdr8 l a)
  then show ?thesis using unat_lt_exp [of a] by (simp add: cap_def)
next
  case (sdshdr16 l a)
  then show ?thesis using unat_lt_exp [of a] by (simp add: cap_def)
next
  case (sdshdr32 l a)
  then show ?thesis using unat_lt_exp [of a] by (simp add: cap_def)
next
  case (sdshdr64 l a)
  then show ?thesis using unat_lt_exp [of a] by (simp add: cap_def)
qed

lemma hdr_avail_eq: "hdr_len h \<le> hdr_alloc h \<Longrightarrow> hdr_avail h = hdr_alloc h - hdr_len h"
proof (cases h)
  case (sdshdr8 l a)
  assume "hdr_len h \<le> hdr_alloc h"
  with sdshdr8 have "unat l \<le> unat a" "unat a < 2 ^ 64" using unat_lt_exp [of a] by simp_all
  then show ?thesis unfolding sdshdr8 hdr_avail.simps hdr_alloc.simps hdr_len.simps by (rule diff_to_size_t)
next
  case (sdshdr16 l a)
  assume "hdr_len h \<le> hdr_alloc h"
  with sdshdr16 have "unat l \<le> unat a" "unat a < 2 ^ 64" using unat_lt_exp [of a] by simp_all
  then show ?thesis unfolding sdshdr16 hdr_avail.simps hdr_alloc.simps hdr_len.simps by (rule diff_to_size_t)
qed (auto simp: unat_sub word_le_nat_alt)

lemma ReqType_cap: "n < 2 ^ 64 \<Longrightarrow> n < cap (sdsReqType n)"
  by (simp add: sdsReqType_def cap_def)

lemma ReqType_le [simp]: "sdsReqType n \<le> 4"
  by (simp add: sdsReqType_def)

lemma append_type_cap: "n < cap ty \<Longrightarrow> n < cap (append_type ty)"
  by (auto simp: append_type_def cap_def)

lemma append_type_le [simp]: "ty \<le> 4 \<Longrightarrow> append_type ty \<le> 4" "append_type ty \<noteq> 0"
  by (auto simp: append_type_def)

lemma HdrSize_le: "sdsHdrSize ty \<le> 17"
  by (simp add: sdsHdrSize_def)

subsection \<open>The invariant\<close>

text \<open>
  A string is well formed when its length fits the space it records, that space and a terminator
  lie within the allocation, and the byte after the content is the terminator.
\<close>

definition sds_ok :: "sds \<Rightarrow> bool" where
  "sds_ok s \<longleftrightarrow> sdslen s \<le> sdsalloc s \<and> sdsalloc s < length (buf s) \<and> buf s ! sdslen s = nul"

text \<open>The same without the terminator, as it is while a string is being written.\<close>

definition sds_fit :: "sds \<Rightarrow> bool" where
  "sds_fit s \<longleftrightarrow> sdslen s \<le> sdsalloc s \<and> sdsalloc s < length (buf s)"

lemma sds_ok_iff: "sds_ok s \<longleftrightarrow> sds_fit s \<and> buf s ! sdslen s = nul"
  by (auto simp: sds_ok_def sds_fit_def)

definition content :: "sds \<Rightarrow> bytes" where
  "content s = take (sdslen s) (buf s)"

text \<open>
  \<open>yields A m xs\<close>: the call \<open>m\<close> does not fault; it gives a well-formed string with content \<open>xs\<close>, or
  NULL, and that only if the allocator refuses some size.
\<close>

definition yields :: "allocator \<Rightarrow> sds_fault + sds option \<Rightarrow> bytes \<Rightarrow> bool" where
  "yields A m xs \<longleftrightarrow>
     (\<exists>r. m = Inr r \<and> (\<forall>s. r = Some s \<longrightarrow> sds_ok s \<and> content s = xs) \<and> ((\<forall>n. grants A n) \<longrightarrow> r \<noteq> None))"

definition gives :: "sds_fault + sds \<Rightarrow> bytes \<Rightarrow> bool" where
  "gives m xs \<longleftrightarrow> (\<exists>s. m = Inr s \<and> sds_ok s \<and> content s = xs)"

lemma yields_None: "m = Inr None \<Longrightarrow> \<not> (\<forall>n. grants A n) \<Longrightarrow> yields A m xs"
  by (simp add: yields_def)

lemma yields_Some: "m = Inr (Some s) \<Longrightarrow> sds_ok s \<Longrightarrow> content s = xs \<Longrightarrow> yields A m xs"
  by (simp add: yields_def)

lemma yieldsE:
  assumes "yields A m xs"
  obtains (null) "m = Inr None" "\<not> (\<forall>n. grants A n)" | (string) s where "m = Inr (Some s)" "sds_ok s" "content s = xs"
  using assms unfolding yields_def by (metis option.exhaust)

lemma length_content: "sds_ok s \<Longrightarrow> length (content s) = sdslen s"
  by (simp add: content_def sds_ok_def)

lemma sds_ok_bound: "sds_ok s \<Longrightarrow> sdslen s < 2 ^ 64"
  using hdr_alloc_cap [of "hdr s"] by (auto simp: sds_ok_def sdsalloc_def cap_def split: if_splits)

lemma avail_eq: "sds_fit s \<Longrightarrow> sdsavail s = sdsalloc s - sdslen s"
  by (simp add: sds_fit_def sdsavail_def sdsalloc_def sdslen_def hdr_avail_eq)

text \<open>New memory and a new length within the recorded space.\<close>

lemma content_set:
  assumes "n \<le> sdsalloc s" "sdsalloc s < length b" "b ! n = nul"
  shows "sds_ok (sdssetlen n (s\<lparr>buf := b\<rparr>)) \<and> content (sdssetlen n (s\<lparr>buf := b\<rparr>)) = take n b"
proof -
  have n: "hdr_len (hdr_setlen n (hdr s)) = n"
    using assms(1) hdr_alloc_cap [of "hdr s"] by (intro hdr_len_setlen) (simp add: sdsalloc_def)
  with assms show ?thesis
    by (auto simp: sds_ok_def content_def sdssetlen_def sdslen_def sdsalloc_def hdr_alloc_setlen hdr_alloc_type5)
qed

lemmas sds_ok_set = content_set [THEN conjunct1]
lemmas content_setlen = content_set [THEN conjunct2]

subsection \<open>Space\<close>

lemma reblock_fit:
  assumes ok: "sds_fit s" and ty: "ty \<le> 4" and n: "sdslen s \<le> n" "n < cap ty" "n + 18 < 2 ^ 64"
    and five: "ty = 0 \<longrightarrow> n = sdslen s"
  shows "reblock A ty n s = Inr None \<and> \<not> grants A (sdsHdrSize ty + n + 1) \<or>
    (\<exists>s'. reblock A ty n s = Inr (Some s') \<and> sds_fit s' \<and> content s' = content s \<and> sdslen s' = sdslen s \<and>
       buf s' ! sdslen s = buf s ! sdslen s \<and> sdsalloc s' = n)"
proof -
  let ?total = "sdsHdrSize ty + n + 1" and ?len = "sdslen s"
  have total: "size_t_of ?total = ?total" using n(3) HdrSize_le [of ty] by simp
  have len: "?len < length (buf s)" using ok by (simp add: sds_fit_def)
  show ?thesis
  proof (cases "grants A ?total")
    case False
    then show ?thesis by (simp add: reblock_def Let_def total del: One_nat_def)
  next
    case granted: True
    show ?thesis
    proof (cases "hdr_type (hdr s) = ty")
      case True
      let ?s = "sdssetalloc n (s\<lparr>buf := resize A (buf s) (n + 1)\<rparr>)"
      have r: "reblock A ty n s = Inr (Some ?s)"
        using granted by (simp add: reblock_def Let_def total True del: One_nat_def)
      have l: "sdslen ?s = ?len" by (simp add: sdslen_def sdssetalloc_def)
      have a: "sdsalloc ?s = n"
        using hdr_alloc_setalloc [of n "hdr s"] n True five
        by (auto simp: sdsalloc_def sdssetalloc_def sdslen_def)
      have b: "buf ?s = resize A (buf s) (n + 1)" by (simp add: sdssetalloc_def)
      have "sds_fit ?s" "buf ?s ! ?len = buf s ! ?len" using l a b len n(1) by (simp_all add: sds_fit_def nth_resize)
      moreover have "content ?s = content s" using l b len n(1) by (simp add: content_def take_resize)
      ultimately show ?thesis using r a l by blast
    next
      case False
      let ?b = "take (?len + 1) (buf s) @ drop (?len + 1) (fresh A (n + 1))"
      let ?s = "sdssetalloc n (sdssetlen ?len \<lparr>hdr = new_hdr ty, buf = ?b\<rparr>)"
      have r: "reblock A ty n s = Inr (Some ?s)"
        using granted len n(1) False
        by (simp add: reblock_def Let_def total peek_ok poke_ok min_absorb2 del: One_nat_def)
      have h: "hdr_type (hdr_setlen ?len (new_hdr ty)) = ty" using ty by simp
      have cap: "?len < cap ty" using n by simp
      have l: "sdslen ?s = ?len" using cap ty by (simp add: sdslen_def sdssetalloc_def sdssetlen_def)
      have a: "sdsalloc ?s = n"
        using hdr_alloc_setalloc [of n "hdr_setlen ?len (new_hdr ty)"] n h five cap ty
        by (auto simp: sdsalloc_def sdssetalloc_def sdssetlen_def)
      have b: "buf ?s = ?b" by (simp add: sdssetalloc_def sdssetlen_def)
      have "length ?b = n + 1" using len n(1) by simp
      moreover have "?b ! ?len = buf s ! ?len" using len by (simp add: nth_append)
      ultimately have "sds_fit ?s" "buf ?s ! ?len = buf s ! ?len" using l a b n(1) by (simp_all add: sds_fit_def)
      moreover have "content ?s = content s" using l b len by (simp add: content_def)
      ultimately show ?thesis using r a l by blast
    qed
  qed
qed

lemma MakeRoomFor_fit:
  assumes ok: "sds_fit s" and small: "sdslen s + n < 2 ^ 62"
  shows "sdsMakeRoomFor A n s = Inr None \<and> \<not> (\<forall>n. grants A n) \<or>
    (\<exists>s'. sdsMakeRoomFor A n s = Inr (Some s') \<and> sds_fit s' \<and> content s' = content s \<and> sdslen s' = sdslen s \<and>
       buf s' ! sdslen s = buf s ! sdslen s \<and> sdslen s + n \<le> sdsalloc s')"
proof (cases "n \<le> sdsavail s")
  case True
  with ok show ?thesis by (auto simp: sdsMakeRoomFor_def avail_eq sds_fit_def)
next
  case False
  let ?n = "grown_size (size_t_of (sdslen s + n))"
  have n: "sdslen s + n \<le> ?n" "?n < 2 ^ 63 + 2 ^ 21"
    using small by (auto simp: grown_size_def SDS_MAX_PREALLOC_def)
  have "sdslen s \<le> ?n" using n(1) by simp
  moreover have "?n < cap (append_type (sdsReqType ?n))" using n(2) by (intro append_type_cap ReqType_cap) simp
  moreover have "?n + 18 < 2 ^ 64" using n(2) by simp
  moreover have "append_type (sdsReqType ?n) \<le> 4" by simp
  ultimately have "reblock A (append_type (sdsReqType ?n)) ?n s = Inr None \<and> \<not> (\<forall>n. grants A n) \<or>
      (\<exists>s'. reblock A (append_type (sdsReqType ?n)) ?n s = Inr (Some s') \<and> sds_fit s' \<and> content s' = content s \<and>
        sdslen s' = sdslen s \<and> buf s' ! sdslen s = buf s ! sdslen s \<and> sdsalloc s' = ?n)"
    using reblock_fit [OF ok, of "append_type (sdsReqType ?n)" ?n A] append_type_le(2) by blast
  with False n(1) show ?thesis unfolding sdsMakeRoomFor_def Let_def by force
qed

lemma MakeRoomFor_cases:
  assumes ok: "sds_ok s" and small: "sdslen s + n < 2 ^ 62"
  shows "sdsMakeRoomFor A n s = Inr None \<and> \<not> (\<forall>n. grants A n) \<or>
    (\<exists>s'. sdsMakeRoomFor A n s = Inr (Some s') \<and> sds_ok s' \<and> content s' = content s \<and> sdslen s' = sdslen s \<and>
       sdslen s + n \<le> sdsalloc s')"
  using MakeRoomFor_fit [of s n A] assms by (auto simp: sds_ok_iff)

lemma MakeRoomFor_yields:
  "sds_ok s \<Longrightarrow> sdslen s + n < 2 ^ 62 \<Longrightarrow> yields A (sdsMakeRoomFor A n s) (content s)"
  using MakeRoomFor_cases [of s n A] by (auto simp: yields_def)

lemma RemoveFreeSpace_yields:
  assumes "sds_ok s" "sdslen s < 2 ^ 62"
  shows "yields A (sdsRemoveFreeSpace A s) (content s)"
proof -
  have "sdslen s < cap (sdsReqType (sdslen s))" using assms(2) by (intro ReqType_cap) simp
  with reblock_fit [of s "sdsReqType (sdslen s)" "sdslen s" A] assms
  show ?thesis by (auto simp: yields_def sdsRemoveFreeSpace_def sds_ok_iff)
qed

subsection \<open>Creation\<close>

lemma newlen_hdr:
  assumes "n < 2 ^ 64" "ty = (if sdsReqType n = 0 \<and> n = 0 then 1 else sdsReqType n)"
  shows "hdr_len (hdr_setalloc n (hdr_setlen n (new_hdr ty))) = n" "hdr_alloc (hdr_setalloc n (hdr_setlen n (new_hdr ty))) = n"
proof -
  have ty: "ty \<le> 4" "n < cap ty" using assms ReqType_cap [of n] by (auto simp: cap_def)
  then have l: "hdr_len (hdr_setlen n (new_hdr ty)) = n" by simp
  then show "hdr_len (hdr_setalloc n (hdr_setlen n (new_hdr ty))) = n" by simp
  show "hdr_alloc (hdr_setalloc n (hdr_setlen n (new_hdr ty))) = n"
    using hdr_alloc_setalloc [of n "hdr_setlen n (new_hdr ty)"] ty l by auto
qed

definition initial :: "bytes option \<Rightarrow> nat \<Rightarrow> bytes" where
  "initial p n = (case p of None \<Rightarrow> replicate n nul | Some b \<Rightarrow> take n b)"

lemma sdsnewlen_yields:
  assumes "n < 2 ^ 62" "\<forall>b. p = Some b \<longrightarrow> n \<le> length b"
  shows "yields A (sdsnewlen A p n) (initial p n)"
proof -
  let ?ty = "if sdsReqType n = 0 \<and> n = 0 then 1 else sdsReqType n"
  let ?h = "hdr_setalloc n (hdr_setlen n (new_hdr ?ty))"
  have n64: "n < 2 ^ 64" using assms(1) by simp
  have total: "size_t_of (sdsHdrSize ?ty + n + 1) = sdsHdrSize ?ty + n + 1"
    using assms(1) HdrSize_le [of ?ty] by simp
  show ?thesis
  proof (cases "grants A (sdsHdrSize ?ty + n + 1)")
    case False
    then show ?thesis unfolding sdsnewlen_def Let_def total by (intro yields_None) auto
  next
    case True
    define b where "b = initial p n @ [nul]"
    have r: "sdsnewlen A p n = Inr (Some \<lparr>hdr = ?h, buf = b\<rparr>)"
      using True assms(2) unfolding sdsnewlen_def Let_def total b_def initial_def
      by (cases p; cases "n = 0") (simp_all add: peek_ok poke_ok replicate_app_Cons_same min_absorb2 del: One_nat_def)
    have l: "length (initial p n) = n" using assms(2) by (cases p) (simp_all add: initial_def)
    have "sds_ok \<lparr>hdr = ?h, buf = b\<rparr>" "content \<lparr>hdr = ?h, buf = b\<rparr> = initial p n"
      using newlen_hdr [OF n64 refl] l
      by (simp_all add: sds_ok_def content_def sdslen_def sdsalloc_def b_def nth_append)
    with r show ?thesis by (rule yields_Some)
  qed
qed

lemma sdsempty_yields: "yields A (sdsempty A) []"
  using sdsnewlen_yields [of 0 "Some [nul]" A] by (simp add: sdsempty_def initial_def)

lemma sdsdup_yields: "sds_ok s \<Longrightarrow> sdslen s < 2 ^ 62 \<Longrightarrow> yields A (sdsdup A s) (content s)"
  using sdsnewlen_yields [of "sdslen s" "Some (buf s)" A]
  by (simp add: sdsdup_def initial_def content_def sds_ok_def)

lemma c_string_append: "nul \<notin> set t \<Longrightarrow> c_string (t @ nul # rest) = Inr t"
  by (auto simp: c_string_def takeWhile_tail)

lemma sdsnew_yields: "nul \<notin> set t \<Longrightarrow> length t < 2 ^ 62 \<Longrightarrow> yields A (sdsnew A (Some (t @ nul # rest))) t"
  using sdsnewlen_yields [of "length t" "Some (t @ nul # rest)" A] by (simp add: sdsnew_def c_string_append initial_def)

subsection \<open>Writing into a string\<close>

text \<open>A call that first makes room and then writes.\<close>

lemma if_room_yields:
  assumes "sds_ok s" "sdslen s + n < 2 ^ 62"
    and "\<And>s'. sds_ok s' \<Longrightarrow> content s' = content s \<Longrightarrow> sdslen s' = sdslen s \<Longrightarrow> sdslen s + n \<le> sdsalloc s' \<Longrightarrow> gives (f s') xs"
  shows "yields A (if_room (sdsMakeRoomFor A n s) f) xs"
  using MakeRoomFor_cases [OF assms(1,2), of A]
proof
  assume "sdsMakeRoomFor A n s = Inr None \<and> \<not> (\<forall>n. grants A n)"
  then show ?thesis by (intro yields_None) (simp_all add: if_room_def)
next
  assume "\<exists>s'. sdsMakeRoomFor A n s = Inr (Some s') \<and> sds_ok s' \<and> content s' = content s \<and> sdslen s' = sdslen s \<and>
       sdslen s + n \<le> sdsalloc s'"
  then obtain s' where s': "sdsMakeRoomFor A n s = Inr (Some s')" "sds_ok s'" "content s' = content s"
    "sdslen s' = sdslen s" "sdslen s + n \<le> sdsalloc s'" by blast
  from assms(3) [OF s'(2-5)] obtain s2 where "f s' = Inr s2" "sds_ok s2" "content s2 = xs" by (auto simp: gives_def)
  with s'(1) show ?thesis by (intro yields_Some) (simp_all add: if_room_def)
qed

lemma gives_setlen:
  assumes "n \<le> sdsalloc s" "sdsalloc s < length b" "b ! n = nul" "take n b = xs"
  shows "gives (Inr (sdssetlen n (s\<lparr>buf := b\<rparr>))) xs"
  using content_set [OF assms(1-3)] assms(4) by (simp add: gives_def)

lemma take_content: "sds_ok s \<Longrightarrow> take (sdslen s) (buf s) = content s"
  by (simp add: content_def)

lemma catlen_yields:
  assumes "sds_ok s" "n \<le> length t" "sdslen s + n < 2 ^ 62"
  shows "yields A (sdscatlen A t n s) (content s @ take n t)"
  unfolding sdscatlen_def Let_def
proof (rule if_room_yields [OF assms(1,3)])
  fix s' assume s': "sds_ok s'" "content s' = content s" "sdslen s' = sdslen s" "sdslen s + n \<le> sdsalloc s'"
  let ?l = "sdslen s"
  let ?b = "take ?l (buf s') @ take n t @ nul # drop (?l + n + 1) (buf s')"
  have len: "?l + n < length (buf s')" using s' by (simp add: sds_ok_def)
  have sz: "size_t_of (?l + n) = ?l + n" using assms(3) by simp
  have p1: "poke ?l (take n t) (buf s') = Inr (take ?l (buf s') @ take n t @ drop (?l + n) (buf s'))"
    using len assms(2) by (simp add: poke_ok min_absorb2)
  have "poke (?l + n) [nul] (take ?l (buf s') @ take n t @ drop (?l + n) (buf s')) = Inr ?b"
    using len assms(2) by (simp add: poke_ok min_absorb2 add.commute)
  moreover have "gives (Inr (sdssetlen (?l + n) (s'\<lparr>buf := ?b\<rparr>))) (content s @ take n t)"
  proof (rule gives_setlen)
    have la: "length (take ?l (buf s')) = ?l" using len by simp
    have lb: "length (take n t) = n" using assms(2) by simp
    show "?b ! (?l + n) = nul" using la lb by (simp add: nth_append)
    have "take ?l (buf s') = content s" using s'(2,3) by (simp add: content_def [of s'])
    with la lb show "take (?l + n) ?b = content s @ take n t" by simp
    show "sdsalloc s' < length ?b" using len assms(2) s'(1) by (simp add: sds_ok_def min_absorb2) linarith
  qed (use s' in simp)
  ultimately show "gives (rbind (peek 0 n t) (\<lambda>xs. rbind (poke ?l xs (buf s')) (\<lambda>b.
         rbind (poke (size_t_of (?l + n)) [nul] b) (\<lambda>b.
           Inr (sdssetlen (size_t_of (?l + n)) (s'\<lparr>buf := b\<rparr>)))))) (content s @ take n t)"
    using assms(2) p1 sz by (simp add: peek_ok)
qed

lemma catlen_all:
  "sds_ok s \<Longrightarrow> sdslen s + length t < 2 ^ 62 \<Longrightarrow> yields A (sdscatlen A t (length t) s) (content s @ t)"
  using catlen_yields [of s "length t" t A] by simp

lemma sdscat_yields:
  "sds_ok s \<Longrightarrow> nul \<notin> set t \<Longrightarrow> sdslen s + length t < 2 ^ 62 \<Longrightarrow> yields A (sdscat A (t @ nul # rest) s) (content s @ t)"
  using catlen_yields [of s "length t" "t @ nul # rest" A] by (simp add: sdscat_def c_string_append)

lemma sdscatsds_yields:
  "sds_ok s \<Longrightarrow> sds_ok t \<Longrightarrow> sdslen s + sdslen t < 2 ^ 62 \<Longrightarrow> yields A (sdscatsds A t s) (content s @ content t)"
  using catlen_yields [of s "sdslen t" "buf t" A] by (simp add: sdscatsds_def sds_ok_def content_def [of t])

lemma growzero_yields:
  assumes "sds_ok s" "n < 2 ^ 62"
  shows "yields A (sdsgrowzero A n s) (content s @ replicate (n - sdslen s) nul)"
proof (cases "n \<le> sdslen s")
  case True
  with assms(1) show ?thesis by (auto simp: sdsgrowzero_def yields_def)
next
  case False
  let ?l = "sdslen s"
  let ?xs = "content s @ replicate (n - ?l) nul"
  have "yields A (if_room (sdsMakeRoomFor A (n - ?l) s) (\<lambda>s.
       rbind (poke ?l (replicate (n - ?l + 1) nul) (buf s)) (\<lambda>b. Inr (sdssetlen n (s\<lparr>buf := b\<rparr>))))) ?xs"
  proof (rule if_room_yields [OF assms(1)])
    fix s' assume s': "sds_ok s'" "content s' = content s" "sdslen s' = ?l" "?l + (n - ?l) \<le> sdsalloc s'"
    let ?b = "take ?l (buf s') @ replicate (n - ?l + 1) nul @ drop (n + 1) (buf s')"
    have len: "n < length (buf s')" using s' False by (simp add: sds_ok_def)
    have c: "take ?l (buf s') = content s" using s'(2,3) by (simp add: content_def [of s'])
    have l: "length (content s) = ?l" by (rule length_content [OF assms(1)])
    have "poke ?l (replicate (n - ?l + 1) nul) (buf s') = Inr ?b"
      using len False by (simp add: poke_ok)
    moreover have "gives (Inr (sdssetlen n (s'\<lparr>buf := ?b\<rparr>))) ?xs"
    proof (rule gives_setlen)
      show "n \<le> sdsalloc s'" using s'(4) False by simp
      show "sdsalloc s' < length ?b" using len s'(1) False by (simp add: sds_ok_def) linarith
      have "n - Suc ?l < n - ?l" using False by simp
      then show "?b ! n = nul" using c l False by (simp add: nth_append)
      have "take (n - ?l) (replicate (n - ?l + 1) nul @ drop (n + 1) (buf s')) = replicate (n - ?l) nul"
        by (simp only: take_append take_replicate length_replicate) simp
      then show "take n ?b = ?xs" using c l False by (simp only: take_append) simp
    qed
    ultimately show "gives (rbind (poke ?l (replicate (n - ?l + 1) nul) (buf s'))
      (\<lambda>b. Inr (sdssetlen n (s'\<lparr>buf := b\<rparr>)))) ?xs" by simp
  qed (use assms False in simp)
  with False show ?thesis by (simp add: sdsgrowzero_def Let_def)
qed

lemma cpylen_gives:
  assumes "sds_ok s'" "n \<le> length t" "n \<le> sdsalloc s'"
  shows "gives (rbind (peek 0 n t) (\<lambda>xs. rbind (poke 0 xs (buf s')) (\<lambda>b. rbind (poke n [nul] b) (\<lambda>b.
        Inr (sdssetlen n (s'\<lparr>buf := b\<rparr>)))))) (take n t)"
proof -
  let ?b = "take n t @ nul # drop (n + 1) (buf s')"
  have len: "n < length (buf s')" using assms by (simp add: sds_ok_def)
  have lt: "length (take n t) = n" using assms(2) by simp
  have "poke 0 (take n t) (buf s') = Inr (take n t @ drop n (buf s'))" using len lt by (simp add: poke_ok)
  moreover have "poke n [nul] (take n t @ drop n (buf s')) = Inr ?b" using len lt by (simp add: poke_ok)
  moreover have "gives (Inr (sdssetlen n (s'\<lparr>buf := ?b\<rparr>))) (take n t)"
    using len lt assms by (intro gives_setlen) (auto simp: sds_ok_def nth_append)
  ultimately show ?thesis using assms(2) by (simp add: peek_ok)
qed

lemma cpylen_yields:
  assumes "sds_ok s" "n \<le> length t" "n < 2 ^ 61"  "sdslen s < 2 ^ 61"
  shows "yields A (sdscpylen A t n s) (take n t)"
proof (cases "sdsalloc s < n")
  case True
  then have "sdslen s \<le> n" using assms(1) by (simp add: sds_ok_def)
  then show ?thesis unfolding sdscpylen_def if_P [OF True]
    using assms by (intro if_room_yields cpylen_gives) simp_all
next
  case False
  with cpylen_gives [of s n t] assms show ?thesis
    by (auto simp: sdscpylen_def if_room_def yields_def gives_def)
qed

lemma sdscpy_yields:
  "sds_ok s \<Longrightarrow> nul \<notin> set t \<Longrightarrow> length t < 2 ^ 61 \<Longrightarrow> sdslen s < 2 ^ 61 \<Longrightarrow> yields A (sdscpy A (t @ nul # rest) s) t"
  using cpylen_yields [of s "length t" "t @ nul # rest" A] by (simp add: sdscpy_def c_string_append)

lemma sdsclear_gives: "sds_ok s \<Longrightarrow> gives (sdsclear s) []"
proof -
  assume ok: "sds_ok s"
  then have "0 < length (buf s)" by (auto simp: sds_ok_def)
  then have "poke 0 [nul] (buf s) = Inr (nul # drop 1 (buf s))" by (simp add: poke_def Suc_le_eq)
  moreover have "gives (Inr (sdssetlen 0 (s\<lparr>buf := nul # drop 1 (buf s)\<rparr>))) []"
    using ok by (intro gives_setlen) (auto simp: sds_ok_def)
  ultimately show ?thesis by (simp add: sdsclear_def)
qed

text \<open>
  The scheme of the comment above \<open>sdsIncrLen\<close>: make room, write behind the end, then move the end.
\<close>

definition write_end :: "bytes \<Rightarrow> sds \<Rightarrow> sds_fault + sds" where
  "write_end xs s = rbind (poke (sdslen s) xs (buf s)) (\<lambda>b. sdsIncrLen (int (length xs)) (s\<lparr>buf := b\<rparr>))"

lemma room_uint:
  assumes "unat l + n \<le> unat a"
  shows "int n \<le> uint a - uint l"
proof -
  from assms have "int (unat l + n) \<le> int (unat a)" by (simp only: of_nat_le_iff)
  then show ?thesis by simp
qed

lemma IncrLen_gives:
  assumes "sds_ok s'" "hdr_type (hdr s') \<noteq> 0" "sdslen s' + length xs \<le> sdsalloc s'" "length xs < 2 ^ 31"
  shows "gives (write_end xs s') (content s' @ xs)"
proof -
  let ?l = "sdslen s'" and ?n = "length xs"
  let ?b = "take ?l (buf s') @ xs @ drop (?l + ?n) (buf s')"
  let ?c = "take ?l (buf s') @ xs @ nul # drop (?l + ?n + 1) (buf s')"
  have len: "?l + ?n < length (buf s')" using assms by (simp add: sds_ok_def)
  have ok: "incr_ok (int ?n) (hdr s')"
  proof -
    have "hdr_len (hdr s') \<le> hdr_alloc (hdr s')" using assms(1) by (simp add: sds_ok_def sdslen_def sdsalloc_def)
    with assms(2,3) show ?thesis
      by (cases "hdr s'") (auto simp: sdslen_def sdsalloc_def unat_sub word_le_nat_alt dest: room_uint)
  qed
  have l: "hdr_len (hdr_setlen (?l + ?n) (hdr s')) = ?l + ?n"
    using assms(3) hdr_alloc_cap [of "hdr s'"] by (intro hdr_len_setlen) (simp add: sdsalloc_def)
  have p: "poke ?l xs (buf s') = Inr ?b" "poke (?l + ?n) [nul] ?b = Inr ?c"
    using len by (simp_all add: poke_ok add.commute)
  have n: "nat (int ?l + int ?n) = ?l + ?n" "int32 (int ?n) = int ?n"
    using assms(4) int32_id [of "int ?n"] by simp_all
  have "write_end xs s' = Inr (sdssetlen (?l + ?n) (s'\<lparr>buf := ?c\<rparr>))"
    using p ok l n by (simp add: write_end_def sdsIncrLen_def sdssetlen_def sdslen_def)
  moreover have "gives (Inr (sdssetlen (?l + ?n) (s'\<lparr>buf := ?c\<rparr>))) (content s' @ xs)"
  proof (rule gives_setlen)
    have la: "length (take ?l (buf s')) = ?l" using len by simp
    then show "?c ! (?l + ?n) = nul" by (simp add: nth_append)
    from la show "take (?l + ?n) ?c = content s' @ xs" by (simp add: content_def)
    show "sdsalloc s' < length ?c" using len assms(1) by (simp add: sds_ok_def) linarith
  qed (rule assms(3))
  ultimately show ?thesis by simp
qed

end
