(* ===== verification/Sds_Edit.thy ===== *)
theory Sds_Edit
  imports Sds
begin

text \<open>
  The functions of \<open>src/commlib/redis/sds.cpp\<close> that change a string in place, compare strings, and
  write numbers and formatted text.  Pointers into a string are indices.  The character functions of
  the C library are those of the C locale.
\<close>

subsection \<open>Numbers\<close>

definition SDS_LLSTR_SIZE :: nat where "SDS_LLSTR_SIZE = 21"

text \<open>The digits the loop writes upwards, and the loop that swaps them round.\<close>

fun rev_digits :: "nat \<Rightarrow> bytes" where
  "rev_digits v = digit_char (v mod 10) # (if v div 10 = 0 then [] else rev_digits (v div 10))"

declare rev_digits.simps [simp del]

function swap_loop :: "nat \<Rightarrow> nat \<Rightarrow> bytes \<Rightarrow> bytes" where
  "swap_loop i j b = (if i < j then swap_loop (i + 1) (j - 1) (b[i := b ! j, j := b ! i]) else b)"
  by pat_completeness auto
termination by (relation "measure (\<lambda>(i, j, b). j - i)") auto

declare swap_loop.simps [simp del]

text \<open>
  The negation of the smallest value is a signed overflow, undefined in the language.  It is taken to
  wrap round, as the machine does and as the self test of the file expects; read as an unsigned
  number the result is then the magnitude.
\<close>

definition sdsll2str :: "bytes \<Rightarrow> int \<Rightarrow> sds_fault + nat \<times> bytes" where
  "sdsll2str s v =
    (let ds = rev_digits (nat ((if v < 0 then - v else v) mod 2 ^ 64)) @ (if v < 0 then ''-'' else []); l = length ds in
     rbind (poke 0 (ds @ [nul]) s) (\<lambda>b. Inr (l, swap_loop 0 (l - 1) b)))"

definition sdsull2str :: "bytes \<Rightarrow> nat \<Rightarrow> sds_fault + nat \<times> bytes" where
  "sdsull2str s v =
    (let ds = rev_digits v; l = length ds in rbind (poke 0 (ds @ [nul]) s) (\<lambda>b. Inr (l, swap_loop 0 (l - 1) b)))"

definition sdsfromlonglong :: "allocator \<Rightarrow> int \<Rightarrow> sds_fault + sds option" where
  "sdsfromlonglong A v = rbind (sdsll2str (fresh A SDS_LLSTR_SIZE) v) (\<lambda>(len, b). sdsnewlen A (Some b) len)"

lemma rev_rev_digits: "rev (rev_digits v) = dec_nat v"
proof (induction v rule: rev_digits.induct)
  case (1 v)
  show ?case
  proof (cases "v < 10")
    case True
    then show ?thesis by (subst rev_digits.simps) (simp add: dec_nat_small)
  next
    case False
    then have "v div 10 \<noteq> 0" by linarith
    with 1 False show ?thesis by (subst rev_digits.simps) (simp add: dec_nat_step)
  qed
qed

lemma swap_loop_rev:
  "length xs = k \<Longrightarrow> i + k = Suc j \<Longrightarrow> i = length p \<Longrightarrow> swap_loop i j (p @ xs @ q) = p @ rev xs @ q"
proof (induction k arbitrary: i j p xs q rule: less_induct)
  case (less k)
  show ?case
  proof (cases "i < j")
    case False
    then have "k \<le> 1" using less.prems(2) by linarith
    then have "rev xs = xs" using less.prems(1) by (cases xs; cases "tl xs") auto
    with False show ?thesis by (simp add: swap_loop.simps)
  next
    case True
    then have "2 \<le> length xs" using less.prems by linarith
    then obtain x ys where xs: "xs = x # ys" "ys \<noteq> []" by (cases xs; cases "tl xs") auto
    define m where "m = butlast ys"
    define y where "y = last ys"
    have ys: "ys = m @ [y]" by (simp add: m_def y_def xs)
    have k: "k = length m + 2" using less.prems(1) by (simp add: xs ys)
    let ?b = "p @ xs @ q"
    have j: "j = Suc (length p + length m)" using less.prems k by simp
    have bj: "?b ! j = y" by (simp add: j xs ys nth_append)
    have bi: "?b ! i = x" by (simp add: less.prems(3) xs)
    have upd: "?b[i := y, j := x] = (p @ [y]) @ m @ (x # q)"
      by (simp add: j xs ys less.prems(3) list_update_append)
    have "swap_loop (i + 1) (j - 1) ((p @ [y]) @ m @ (x # q)) = (p @ [y]) @ rev m @ (x # q)"
      by (rule less.IH [of "length m"]) (simp_all add: k j less.prems(3))
    with True upd bi bj show ?thesis by (subst swap_loop.simps) (simp add: xs ys)
  qed
qed

lemma swap_digits:
  assumes "length ds + 1 \<le> length b" "ds \<noteq> []"
  shows "rbind (poke 0 (ds @ [nul]) b) (\<lambda>b. Inr (length ds, swap_loop 0 (length ds - 1) b)) =
    Inr (length ds, rev ds @ nul # drop (length ds + 1) b)"
proof -
  have "swap_loop 0 (length ds - 1) ([] @ ds @ nul # drop (length ds + 1) b) = [] @ rev ds @ nul # drop (length ds + 1) b"
    using assms(2) by (intro swap_loop_rev [where k = "length ds"]) (simp_all add: Suc_diff_1)
  with assms(1) show ?thesis by (simp add: poke_ok)
qed

lemma length_dec_nat_le:
  "n < 10 ^ Suc k \<Longrightarrow> length (dec_nat n) \<le> Suc k"
proof (induction n arbitrary: k rule: dec_nat.induct)
  case (1 n)
  show ?case
  proof (cases "n < 10")
    case True
    then show ?thesis by (simp add: dec_nat_small)
  next
    case False
    with 1(2) obtain j where k: "k = Suc j" by (cases k) auto
    with 1(2) have "n div 10 < 10 ^ Suc j" by simp
    from 1(1) [OF False this] False k show ?thesis by (simp add: length_dec_nat_step)
  qed
qed

lemma length_dec_int: "- (2 ^ 63) \<le> v \<Longrightarrow> v < 2 ^ 63 \<Longrightarrow> length (dec_int v) \<le> 20"
proof -
  assume v: "- (2 ^ 63) \<le> v" "v < 2 ^ 63"
  have "nat \<bar>v\<bar> < 10 ^ Suc 18" using v by (auto simp: nat_less_iff)
  then have "length (dec_nat (nat \<bar>v\<bar>)) \<le> Suc 18" by (rule length_dec_nat_le)
  then show ?thesis by (cases "v < 0") (simp_all add: dec_int_def)
qed

lemma sdsll2str_dec:
  assumes "- (2 ^ 63) \<le> v" "v < 2 ^ 63" "length b = SDS_LLSTR_SIZE"
  shows "sdsll2str b v = Inr (length (dec_int v), dec_int v @ nul # drop (length (dec_int v) + 1) b)"
proof -
  let ?m = "nat ((if v < 0 then - v else v) mod 2 ^ 64)"
  let ?ds = "rev_digits ?m @ (if v < 0 then ''-'' else [])"
  have "(if v < 0 then - v else v) mod 2 ^ 64 = (if v < 0 then - v else v)" using assms by auto
  then have m: "?m = nat (if v < 0 then - v else v)" by (simp only:)
  have r: "rev ?ds = dec_int v" unfolding m by (simp add: rev_rev_digits dec_int_def)
  then have l: "length ?ds = length (dec_int v)" by (metis length_rev)
  have "length ?ds + 1 \<le> length b" using length_dec_int [OF assms(1,2)] l assms(3) by (simp add: SDS_LLSTR_SIZE_def)
  moreover have "?ds \<noteq> []" using l dec_int_not_Nil [of v] by (metis length_0_conv)
  ultimately show ?thesis using swap_digits [of ?ds b] unfolding sdsll2str_def Let_def r l by simp
qed

lemma sdsull2str_dec:
  assumes "v < 2 ^ 64" "length b = SDS_LLSTR_SIZE"
  shows "sdsull2str b v = Inr (length (dec_nat v), dec_nat v @ nul # drop (length (dec_nat v) + 1) b)"
proof -
  have r: "rev (rev_digits v) = dec_nat v" by (rule rev_rev_digits)
  then have l: "length (rev_digits v) = length (dec_nat v)" by (metis length_rev)
  have "length (dec_nat v) \<le> Suc 19" using assms(1) by (intro length_dec_nat_le) simp
  then have "length (rev_digits v) + 1 \<le> length b" using l assms(2) by (simp add: SDS_LLSTR_SIZE_def)
  moreover have "rev_digits v \<noteq> []" using l by (metis dec_nat_not_Nil length_0_conv)
  ultimately show ?thesis using swap_digits [of "rev_digits v" b] unfolding sdsull2str_def Let_def r l by simp
qed

lemma fromlonglong_yields:
  assumes "- (2 ^ 63) \<le> v" "v < 2 ^ 63"
  shows "yields A (sdsfromlonglong A v) (dec_int v)"
proof -
  let ?n = "length (dec_int v)"
  have "sdsll2str (fresh A SDS_LLSTR_SIZE) v = Inr (?n, dec_int v @ nul # drop (?n + 1) (fresh A SDS_LLSTR_SIZE))"
    using assms by (intro sdsll2str_dec) simp_all
  moreover have "?n < 2 ^ 62" using length_dec_int [OF assms] by simp
  ultimately show ?thesis
    using sdsnewlen_yields [of ?n "Some (dec_int v @ nul # drop (?n + 1) (fresh A SDS_LLSTR_SIZE))" A]
    by (simp add: sdsfromlonglong_def initial_def)
qed

subsection \<open>Trimming and ranges\<close>

text \<open>
  \<open>strchr\<close> stops at the character or at the terminator, which it finds too: a NUL byte counts as one
  of the set.  In an array without a terminator it reads past the end.
\<close>

fun strchr_in :: "bytes \<Rightarrow> char \<Rightarrow> sds_fault + bool" where
  "strchr_in [] c = Inl OutOfBounds"
| "strchr_in (x # xs) c = (if x = c then Inr True else if x = nul then Inr False else strchr_in xs c)"

function trim_sp :: "bytes \<Rightarrow> bytes \<Rightarrow> nat \<Rightarrow> int \<Rightarrow> sds_fault + nat" where
  "trim_sp b cset sp fin =
    (if int sp \<le> fin
     then (case strchr_in cset (b ! sp) of Inl e \<Rightarrow> Inl e
           | Inr found \<Rightarrow> if found then trim_sp b cset (sp + 1) fin else Inr sp)
     else Inr sp)"
  by pat_completeness auto
termination by (relation "measure (\<lambda>(b, cset, sp, fin). nat (fin + 1 - int sp))") auto

function trim_ep :: "bytes \<Rightarrow> bytes \<Rightarrow> nat \<Rightarrow> int \<Rightarrow> sds_fault + int" where
  "trim_ep b cset sp ep =
    (if int sp < ep
     then (case strchr_in cset (b ! nat ep) of Inl e \<Rightarrow> Inl e
           | Inr found \<Rightarrow> if found then trim_ep b cset sp (ep - 1) else Inr ep)
     else Inr ep)"
  by pat_completeness auto
termination by (relation "measure (\<lambda>(b, cset, sp, ep). nat (ep - int sp))") auto

declare trim_sp.simps [simp del] trim_ep.simps [simp del]

text \<open>The characters of a terminated set, and the two loops over it.\<close>

definition in_cset :: "bytes \<Rightarrow> char \<Rightarrow> bool" where
  "in_cset cset c \<longleftrightarrow> c = nul \<or> c \<in> set (takeWhile (\<lambda>x. x \<noteq> nul) cset)"

function skip_sp :: "bytes \<Rightarrow> bytes \<Rightarrow> nat \<Rightarrow> int \<Rightarrow> nat" where
  "skip_sp b cset sp fin = (if int sp \<le> fin \<and> in_cset cset (b ! sp) then skip_sp b cset (sp + 1) fin else sp)"
  by pat_completeness auto
termination by (relation "measure (\<lambda>(b, cset, sp, fin). nat (fin + 1 - int sp))") auto

function skip_ep :: "bytes \<Rightarrow> bytes \<Rightarrow> nat \<Rightarrow> int \<Rightarrow> int" where
  "skip_ep b cset sp ep = (if int sp < ep \<and> in_cset cset (b ! nat ep) then skip_ep b cset sp (ep - 1) else ep)"
  by pat_completeness auto
termination by (relation "measure (\<lambda>(b, cset, sp, ep). nat (ep - int sp))") auto

declare skip_sp.simps [simp del] skip_ep.simps [simp del]

lemma strchr_in_eq: "nul \<in> set cset \<Longrightarrow> strchr_in cset c = Inr (in_cset cset c)"
  by (induction cset) (auto simp: in_cset_def)

lemma trim_sp_skip: "nul \<in> set cset \<Longrightarrow> trim_sp b cset sp fin = Inr (skip_sp b cset sp fin)"
  by (induction b cset sp fin rule: skip_sp.induct)
    (subst trim_sp.simps, subst skip_sp.simps, simp add: strchr_in_eq)

lemma trim_ep_skip: "nul \<in> set cset \<Longrightarrow> trim_ep b cset sp ep = Inr (skip_ep b cset sp ep)"
  by (induction b cset sp ep rule: skip_ep.induct)
    (subst trim_ep.simps, subst skip_ep.simps, simp add: strchr_in_eq)

definition keep_part :: "nat \<Rightarrow> nat \<Rightarrow> sds \<Rightarrow> sds_fault + sds" where
  "keep_part start n s =
    rbind (if start \<noteq> 0 then rbind (peek start n (buf s)) (\<lambda>xs. poke 0 xs (buf s)) else Inr (buf s)) (\<lambda>b.
    rbind (poke n [nul] b) (\<lambda>b. Inr (sdssetlen n (s\<lparr>buf := b\<rparr>))))"

definition sdstrim :: "bytes \<Rightarrow> sds \<Rightarrow> sds_fault + sds" where
  "sdstrim cset s =
    (let fin = int (sdslen s) - 1 in
     rbind (trim_sp (buf s) cset 0 fin) (\<lambda>sp. rbind (trim_ep (buf s) cset sp fin) (\<lambda>ep.
       keep_part sp (if ep < int sp then 0 else nat (ep - int sp) + 1) s)))"

text \<open>
  The indices are \<open>int\<close>, the length is \<open>size_t\<close>; \<open>(end - start) + 1\<close> may leave the range of \<open>int\<close>
  (the result is then only tested against 0).
\<close>

definition range_index :: "nat \<Rightarrow> int \<Rightarrow> int" where
  "range_index len i = (if i < 0 then (let j = int32 (int len + i) in if j < 0 then 0 else j) else i)"

definition range_size :: "int \<Rightarrow> int \<Rightarrow> nat" where
  "range_size i j = (if j < i then 0 else nat (int32 (j - i + 1) mod 2 ^ 64))"

definition sdsrange :: "int \<Rightarrow> int \<Rightarrow> sds \<Rightarrow> sds_fault + sds" where
  "sdsrange start fin s =
    (let len = sdslen s in
     if len = 0 then Inr s
     else let st = range_index len start; en = range_index len fin; newlen = range_size st en in
       if newlen = 0 then keep_part 0 0 s
       else if int32 (int len) \<le> st then keep_part 0 0 s
       else if int32 (int len) \<le> en then
         (let n = range_size st (int32 (int len - 1)) in if n = 0 then keep_part 0 0 s else keep_part (nat st) n s)
       else keep_part (nat st) newlen s)"

subsection \<open>Characters\<close>

definition c_tolower :: "char \<Rightarrow> char" where
  "c_tolower c = (let n = of_char c :: nat in if 65 \<le> n \<and> n \<le> 90 then char_of (n + 32) else c)"

definition c_toupper :: "char \<Rightarrow> char" where
  "c_toupper c = (let n = of_char c :: nat in if 97 \<le> n \<and> n \<le> 122 then char_of (n - 32) else c)"

definition map_prefix :: "nat \<Rightarrow> (char \<Rightarrow> char) \<Rightarrow> sds \<Rightarrow> sds" where
  "map_prefix n f s = s\<lparr>buf := map f (take n (buf s)) @ drop n (buf s)\<rparr>"

definition sdstolower :: "sds \<Rightarrow> sds" where
  "sdstolower s = map_prefix (nat (int32 (int (sdslen s)))) c_tolower s"

definition sdstoupper :: "sds \<Rightarrow> sds" where
  "sdstoupper s = map_prefix (nat (int32 (int (sdslen s)))) c_toupper s"

text \<open>
  The inner loop looks at up to \<open>setlen\<close> characters of \<open>from\<close> and takes the one at the same place of
  \<open>to\<close>; nothing keeps it inside the two arrays.
\<close>

fun map_char :: "bytes \<Rightarrow> bytes \<Rightarrow> nat \<Rightarrow> char \<Rightarrow> sds_fault + char" where
  "map_char frm to 0 c = Inr c"
| "map_char [] to (Suc n) c = Inl OutOfBounds"
| "map_char (x # frm) to (Suc n) c =
    (if c = x then (case to of [] \<Rightarrow> Inl OutOfBounds | y # _ \<Rightarrow> Inr y) else map_char frm (tl to) n c)"

fun map_chars :: "bytes \<Rightarrow> bytes \<Rightarrow> nat \<Rightarrow> bytes \<Rightarrow> sds_fault + bytes" where
  "map_chars frm to setlen [] = Inr []"
| "map_chars frm to setlen (c # cs) =
    rbind (map_char frm to setlen c) (\<lambda>d. rbind (map_chars frm to setlen cs) (\<lambda>ds. Inr (d # ds)))"

definition sdsmapchars :: "bytes \<Rightarrow> bytes \<Rightarrow> nat \<Rightarrow> sds \<Rightarrow> sds_fault + sds" where
  "sdsmapchars frm to setlen s =
    rbind (map_chars frm to setlen (take (sdslen s) (buf s))) (\<lambda>xs. Inr (s\<lparr>buf := xs @ drop (sdslen s) (buf s)\<rparr>))"

subsection \<open>Comparison\<close>

fun memcmp :: "bytes \<Rightarrow> bytes \<Rightarrow> int" where
  "memcmp (x # xs) (y # ys) = (if x = y then memcmp xs ys else int (of_char x) - int (of_char y))"
| "memcmp xs ys = 0"

definition sdscmp :: "sds \<Rightarrow> sds \<Rightarrow> int" where
  "sdscmp s1 s2 =
    (let l1 = sdslen s1; l2 = sdslen s2; minlen = (if l1 < l2 then l1 else l2);
         cmp = memcmp (take minlen (buf s1)) (take minlen (buf s2)) in
     if cmp = 0 then int32 (int l1 - int l2) else cmp)"

subsection \<open>What the edits do to the content\<close>

lemma keep_part_gives:
  assumes ok: "sds_ok s" and n: "start + n \<le> sdslen s"
  shows "gives (keep_part start n s) (take n (drop start (content s)))"
proof -
  let ?b = "if start \<noteq> 0 then take n (drop start (buf s)) @ drop n (buf s) else buf s"
  let ?c = "take n ?b @ nul # drop (n + 1) ?b"
  have len: "sdslen s < length (buf s)" using ok by (simp add: sds_ok_def)
  have t: "take n (drop start (content s)) = take n ?b" using len n by (simp add: content_def drop_take)
  have "poke 0 (take n (drop start (buf s))) (buf s) = Inr (take n (drop start (buf s)) @ drop n (buf s))"
    using len n by (simp add: poke_ok min_absorb2)
  then have "(if start \<noteq> 0 then rbind (peek start n (buf s)) (\<lambda>xs. poke 0 xs (buf s)) else Inr (buf s)) = Inr ?b"
    using len n by (simp add: peek_ok)
  moreover have "poke n [nul] ?b = Inr ?c" using len n by (simp add: poke_ok)
  moreover have "gives (Inr (sdssetlen n (s\<lparr>buf := ?c\<rparr>))) (take n (drop start (content s)))"
    unfolding t
  proof (rule gives_setlen)
    have lb: "length ?b = length (buf s)" using len n by simp
    then have ln: "length (take n ?b) = n" using len n by simp
    then show "?c ! n = nul" by (simp add: nth_append del: take_append)
    from ln show "take n ?c = take n ?b" by (simp only: take_append) simp
    have "length ?c = length (buf s)" using lb ln len n by (simp only: length_append length_Cons length_drop)
    then show "sdsalloc s < length ?c" using ok by (simp add: sds_ok_def)
  qed (use ok n in \<open>simp add: sds_ok_def\<close>)
  ultimately show ?thesis unfolding keep_part_def by (simp only: rbind.simps)
qed

lemma take_dropWhile_rev: "take (length (dropWhile P (rev xs))) xs = rev (dropWhile P (rev xs))"
proof -
  have "xs = rev (dropWhile P (rev xs)) @ rev (takeWhile P (rev xs))"
    by (metis rev_append rev_rev_ident takeWhile_dropWhile_id)
  then show ?thesis by (metis append_eq_conv_conj length_rev)
qed

lemma skip_sp_eq:
  assumes "sp \<le> n" "n \<le> length b"
  shows "skip_sp b cset sp (int n - 1) = sp + length (takeWhile (in_cset cset) (drop sp (take n b)))"
  using assms
proof (induction "n - sp" arbitrary: sp)
  case 0
  then show ?case by (simp add: skip_sp.simps)
next
  case (Suc k)
  then have lt: "sp < n" by simp
  then have d: "drop sp (take n b) = b ! sp # drop (Suc sp) (take n b)"
    using Suc.prems by (subst Cons_nth_drop_Suc [symmetric]) simp_all
  have IH: "skip_sp b cset (Suc sp) (int n - 1) = Suc sp + length (takeWhile (in_cset cset) (drop (Suc sp) (take n b)))"
    using Suc.hyps(1) [of "Suc sp"] Suc.hyps(2) Suc.prems lt by simp
  show ?case using lt IH by (subst skip_sp.simps) (simp add: d)
qed

lemma skip_ep_eq:
  assumes "sp \<le> e" "e < length b" "\<not> in_cset cset (b ! sp)"
  shows "skip_ep b cset sp (int e) = int sp + int (length (dropWhile (in_cset cset) (rev (take (e + 1 - sp) (drop sp b))))) - 1"
  using assms
proof (induction "e - sp" arbitrary: e)
  case 0
  then have e: "e = sp" by simp
  then have "take (e + 1 - sp) (drop sp b) = [b ! sp]"
    using 0 by (simp add: take_Suc hd_drop_conv_nth)
  with 0 e show ?case by (simp add: skip_ep.simps)
next
  case (Suc k)
  then obtain j where j: "e = Suc j" "sp \<le> j" by (cases e) auto
  define T where "T = take (j + 1 - sp) (drop sp b)"
  have "take (e + 1 - sp) (drop sp b) = T @ [b ! e]"
    using j Suc.prems by (simp add: T_def take_Suc_conv_app_nth Suc_diff_le)
  then have seg: "rev (take (e + 1 - sp) (drop sp b)) = b ! e # rev T" by simp
  have IH: "skip_ep b cset sp (int j) = int sp + int (length (dropWhile (in_cset cset) (rev T))) - 1"
    unfolding T_def using Suc.hyps(1) [of j] Suc.hyps(2) Suc.prems j by simp
  have step: "skip_ep b cset sp (int e) = (if in_cset cset (b ! e) then skip_ep b cset sp (int j) else int e)"
    using j by (subst skip_ep.simps) (simp add: nat_add_distrib)
  have "length T = j + 1 - sp" using Suc.prems j by (simp add: T_def)
  with j show ?case unfolding seg step IH by simp
qed

definition trim_text :: "bytes \<Rightarrow> bytes \<Rightarrow> bytes" where
  "trim_text cset xs = rev (dropWhile (in_cset cset) (rev (dropWhile (in_cset cset) xs)))"

lemma sdstrim_gives:
  assumes ok: "sds_ok s" and cset: "nul \<in> set cset"
  shows "gives (sdstrim cset s) (trim_text cset (content s))"
proof -
  let ?n = "sdslen s" and ?P = "in_cset cset" and ?xs = "content s"
  have len: "?n < length (buf s)" using ok by (simp add: sds_ok_def)
  define sp where "sp = length (takeWhile ?P ?xs)"
  have sp: "skip_sp (buf s) cset 0 (int ?n - 1) = sp"
    using skip_sp_eq [of 0 ?n "buf s" cset] len by (simp add: sp_def content_def)
  have lx: "length ?xs = ?n" by (rule length_content [OF ok])
  then have spn: "sp \<le> ?n" unfolding sp_def using length_takeWhile_le [of ?P ?xs] by simp
  have rest: "dropWhile ?P ?xs = drop sp ?xs" by (simp add: sp_def dropWhile_eq_drop)
  let ?ep = "skip_ep (buf s) cset sp (int ?n - 1)"
  let ?len = "if ?ep < int sp then 0 else nat (?ep - int sp) + 1"
  have sdstrim: "sdstrim cset s = keep_part sp ?len s"
    by (simp only: sdstrim_def Let_def trim_sp_skip [OF cset] trim_ep_skip [OF cset] sp rbind.simps)
  show ?thesis
  proof (cases "sp = ?n")
    case True
    then have "?ep = int ?n - 1" by (subst skip_ep.simps) simp
    then have l: "?len = 0" using True by simp
    have dw: "dropWhile ?P ?xs = []" unfolding rest using True lx by simp
    have "trim_text cset ?xs = []" by (simp only: trim_text_def dw rev.simps dropWhile.simps)
    then show ?thesis unfolding sdstrim l using keep_part_gives [OF ok, of sp 0] True by simp
  next
    case False
    then have lt: "sp < ?n" using spn by simp
    then have "?P (?xs ! sp) = False"
      using nth_length_takeWhile [of ?P ?xs] lx by (simp add: sp_def)
    then have not: "\<not> ?P (buf s ! sp)" using lt by (simp add: content_def)
    have seg: "take (?n - 1 + 1 - sp) (drop sp (buf s)) = drop sp ?xs" using lt by (simp add: content_def drop_take)
    define m where "m = length (dropWhile ?P (rev (drop sp ?xs)))"
    have "int ?n - 1 = int (?n - 1)" using lt by simp
    then have ep: "?ep = int sp + int m - 1"
      using skip_ep_eq [of sp "?n - 1" "buf s" cset] lt len not seg by (simp add: m_def)
    have "?P (hd (drop sp ?xs)) = False" "drop sp ?xs \<noteq> []"
      using \<open>?P (?xs ! sp) = False\<close> lt lx by (simp_all add: hd_drop_conv_nth)
    then have "m \<noteq> 0" by (auto simp: m_def dropWhile_eq_Nil_conv)
    then have l: "?len = m" using ep by auto
    have "m \<le> length (drop sp ?xs)" unfolding m_def using length_dropWhile_le [of ?P "rev (drop sp ?xs)"] by simp
    then have "sp + m \<le> ?n" using lx spn by simp
    from keep_part_gives [OF ok this] have "gives (keep_part sp m s) (take m (drop sp ?xs))" .
    moreover have "take m (drop sp ?xs) = trim_text cset ?xs"
      unfolding m_def take_dropWhile_rev trim_text_def rest ..
    ultimately show ?thesis unfolding sdstrim l by simp
  qed
qed

definition range_text :: "int \<Rightarrow> int \<Rightarrow> bytes \<Rightarrow> bytes" where
  "range_text start fin xs =
    (let n = int (length xs); a = (if start < 0 then max 0 (n + start) else start);
         e = min (n - 1) (if fin < 0 then max 0 (n + fin) else fin) in
     take (nat (e + 1 - a)) (drop (nat a) xs))"

lemma range_index_eq:
  assumes "n < 2 ^ 31" "- (2 ^ 31) \<le> i"
  shows "range_index n i = (if i < 0 then max 0 (int n + i) else i)"
proof -
  have "int n < 2 ^ 31" using assms(1) by simp
  then have "int32 (int n + i) = int n + i" if "i < 0" using that assms(2) by (intro int32_id) linarith+
  then show ?thesis by (simp add: range_index_def Let_def)
qed

lemma range_size_eq:
  assumes "0 \<le> i" "j < 2 ^ 31"
  shows "range_size i j = (if j < i then 0 else if j - i + 1 = 2 ^ 31 then 2 ^ 64 - 2 ^ 31 else nat (j - i + 1))"
proof -
  consider "j < i" | "j - i + 1 = 2 ^ 31" | "i \<le> j" "j - i + 1 < 2 ^ 31" using assms by linarith
  then show ?thesis
  proof cases
    case 2
    then show ?thesis using assms by (simp add: range_size_def int32_def)
  next
    case 3
    then have "int32 (j - i + 1) = j - i + 1" by (intro int32_id) simp_all
    moreover have "(j - i + 1) mod 2 ^ 64 = j - i + 1" using 3 by (intro mod_pos_pos_trivial) simp_all
    ultimately show ?thesis using 3 unfolding range_size_def by simp
  qed (simp add: range_size_def)
qed

lemma sdsrange_gives:
  assumes ok: "sds_ok s" and n: "sdslen s < 2 ^ 31"
    and start: "- (2 ^ 31) \<le> start" "start < 2 ^ 31" and fin: "- (2 ^ 31) \<le> fin" "fin < 2 ^ 31"
  shows "gives (sdsrange start fin s) (range_text start fin (content s))"
proof (cases "sdslen s = 0")
  case True
  then have "content s = []" by (simp add: content_def)
  with True ok show ?thesis by (simp add: sdsrange_def gives_def range_text_def Let_def)
next
  case False
  let ?n = "int (sdslen s)" and ?xs = "content s"
  define a where "a = range_index (sdslen s) start"
  define e where "e = range_index (sdslen s) fin"
  have nn: "?n < 2 ^ 31" "0 < ?n" using n False by simp_all
  have a: "a = (if start < 0 then max 0 (?n + start) else start)" and e: "e = (if fin < 0 then max 0 (?n + fin) else fin)"
    unfolding a_def e_def using n start fin by (simp_all add: range_index_eq)
  have bnd: "0 \<le> a" "a < 2 ^ 31" "0 \<le> e" "e < 2 ^ 31" using a e start fin nn by auto
  have lx: "length ?xs = sdslen s" by (rule length_content [OF ok])
  have tx: "range_text start fin ?xs = take (nat (min (?n - 1) e + 1 - a)) (drop (nat a) ?xs)"
    by (simp only: range_text_def Let_def lx a e)
  have i: "int32 ?n = ?n" "int32 (?n - 1) = ?n - 1" using nn by (simp_all add: int32_id)
  have none: "gives (keep_part 0 0 s) []" using keep_part_gives [OF ok, of 0 0] by simp
  have some: "gives (keep_part (nat a) (nat (m + 1 - a)) s) (take (nat (m + 1 - a)) (drop (nat a) ?xs))"
    if "a \<le> m" "m < ?n" for m
    using that bnd nn by (intro keep_part_gives [OF ok]) linarith
  have r: "sdsrange start fin s =
      (if range_size a e = 0 then keep_part 0 0 s else if ?n \<le> a then keep_part 0 0 s
       else if ?n \<le> e then (let k = range_size a (?n - 1) in if k = 0 then keep_part 0 0 s else keep_part (nat a) k s)
       else keep_part (nat a) (range_size a e) s)"
    using False by (simp only: sdsrange_def Let_def i a_def e_def if_False)
  have z: "range_size a e = 0 \<longleftrightarrow> e < a" using bnd by (auto simp: range_size_eq)
  consider "e < a" | "a \<le> e" "?n \<le> a" | "a \<le> e" "a < ?n" "?n \<le> e" | "a \<le> e" "e < ?n" by linarith
  then show ?thesis
  proof cases
    case 1
    then have "range_text start fin ?xs = []" unfolding tx by simp
    with 1 none show ?thesis by (simp add: r z)
  next
    case 2
    then have "range_text start fin ?xs = []" unfolding tx by simp
    with 2 none show ?thesis by (simp add: r z)
  next
    case 3
    then have k: "range_size a (?n - 1) = nat (?n - 1 + 1 - a)" using bnd nn by (auto simp: range_size_eq)
    have "sdsrange start fin s = keep_part (nat a) (nat (?n - 1 + 1 - a)) s" unfolding r Let_def k using 3 z by simp
    moreover have "range_text start fin ?xs = take (nat (?n - 1 + 1 - a)) (drop (nat a) ?xs)" unfolding tx using 3 by (simp add: min_def)
    ultimately show ?thesis using some [of "?n - 1"] 3 by (simp only: )
  next
    case 4
    then have "range_size a e = nat (e + 1 - a)" using bnd nn by (auto simp: range_size_eq)
    then have "sdsrange start fin s = keep_part (nat a) (nat (e + 1 - a)) s" unfolding r using 4 z by simp
    moreover have "range_text start fin ?xs = take (nat (e + 1 - a)) (drop (nat a) ?xs)" unfolding tx using 4 by (simp add: min_absorb2)
    ultimately show ?thesis using some [of e] 4 by (simp only: )
  qed
qed

lemma map_prefix_ok:
  assumes "sds_ok s"
  shows "sds_ok (map_prefix (sdslen s) f s) \<and> content (map_prefix (sdslen s) f s) = map f (content s)"
  using assms by (auto simp: map_prefix_def sds_ok_def content_def sdslen_def sdsalloc_def nth_append take_map)

text \<open>The character that takes the place of another: that of the first pair with it.\<close>

fun subst_char :: "(char \<times> char) list \<Rightarrow> char \<Rightarrow> char" where
  "subst_char [] c = c"
| "subst_char ((x, y) # ps) c = (if c = x then y else subst_char ps c)"

lemma map_char_subst:
  "n \<le> length frm \<Longrightarrow> n \<le> length to \<Longrightarrow>
    map_char frm to n c = Inr (subst_char (zip (take n frm) (take n to)) c)"
proof (induction n arbitrary: frm to)
  case (Suc n)
  then obtain x xs y ys where "frm = x # xs" "to = y # ys" by (cases frm; cases to) auto
  with Suc show ?case by simp
qed simp

lemma map_chars_subst:
  "n \<le> length frm \<Longrightarrow> n \<le> length to \<Longrightarrow>
    map_chars frm to n cs = Inr (map (subst_char (zip (take n frm) (take n to))) cs)"
  by (induction cs) (simp_all add: map_char_subst)

lemma sdsmapchars_gives:
  assumes "sds_ok s" "n \<le> length frm" "n \<le> length to"
  shows "gives (sdsmapchars frm to n s) (map (subst_char (zip (take n frm) (take n to))) (content s))"
  using map_prefix_ok [OF assms(1)] by (simp add: gives_def sdsmapchars_def map_chars_subst [OF assms(2,3)] map_prefix_def)

lemma char_maps:
  assumes "sds_ok s" "sdslen s < 2 ^ 31"
  shows "gives (Inr (sdstolower s)) (map c_tolower (content s))" "gives (Inr (sdstoupper s)) (map c_toupper (content s))"
proof -
  have "int32 (int (sdslen s)) = int (sdslen s)" using assms(2) by (intro int32_id) simp_all
  then show "gives (Inr (sdstolower s)) (map c_tolower (content s))" "gives (Inr (sdstoupper s)) (map c_toupper (content s))"
    using map_prefix_ok [OF assms(1)] by (simp_all add: gives_def sdstolower_def sdstoupper_def)
qed

subsection \<open>The order\<close>

definition byte_order :: "(char \<times> char) set" where
  "byte_order = {(x, y). (of_char x :: nat) < of_char y}"

lemma memcmp_lexord:
  "(memcmp xs ys < 0 \<or> memcmp xs ys = 0 \<and> length xs < length ys \<longleftrightarrow> (xs, ys) \<in> lexord byte_order) \<and>
   (memcmp xs ys = 0 \<and> length xs = length ys \<longleftrightarrow> xs = ys)"
proof (induction xs arbitrary: ys)
  case Nil
  then show ?case by (cases ys) auto
next
  case (Cons x xs)
  have "(of_char x :: nat) \<noteq> of_char y" if "x \<noteq> y" for y using that by simp
  with Cons show ?case by (cases ys; cases "x = hd ys") (auto simp: byte_order_def)
qed

lemma memcmp_take: "memcmp (take (length ys) xs) (take (length xs) ys) = memcmp xs ys"
  by (induction xs ys rule: memcmp.induct) auto

lemma sdscmp_order:
  assumes "sds_ok s" "sds_ok t" "sdslen s < 2 ^ 31" "sdslen t < 2 ^ 31"
  shows "(sdscmp s t < 0 \<longleftrightarrow> (content s, content t) \<in> lexord byte_order) \<and> (sdscmp s t = 0 \<longleftrightarrow> content s = content t)"
proof -
  let ?xs = "content s" and ?ys = "content t"
  have l: "length ?xs = sdslen s" "length ?ys = sdslen t" using assms by (simp_all add: length_content)
  let ?m = "if sdslen s < sdslen t then sdslen s else sdslen t"
  have "take ?m (buf s) = take (length ?ys) ?xs" "take ?m (buf t) = take (length ?xs) ?ys"
    using l by (simp_all add: content_def min_def)
  then have c: "memcmp (take ?m (buf s)) (take ?m (buf t)) = memcmp ?xs ?ys" by (simp only: memcmp_take)
  have "int32 (int (sdslen s) - int (sdslen t)) = int (length ?xs) - int (length ?ys)"
    unfolding l using assms(3,4) by (intro int32_id) simp_all
  then have "sdscmp s t = (if memcmp ?xs ?ys = 0 then int (length ?xs) - int (length ?ys) else memcmp ?xs ?ys)"
    unfolding sdscmp_def Let_def c by simp
  then show ?thesis using memcmp_lexord [of ?xs ?ys] by (auto split: if_splits)
qed

end
