(* ===== verification/Sds_Format.thy ===== *)
theory Sds_Format
  imports Sds_Edit
begin

text \<open>
  The two formatters of \<open>src/commlib/redis/sds.cpp\<close>: \<open>sdscatvprintf\<close>, which lets \<open>vsnprintf\<close> fill
  buffers of growing size, and \<open>sdscatfmt\<close>, which has its own small set of conversions.
\<close>

subsection \<open>sdscatvprintf\<close>

text \<open>
  \<open>vsnprintf\<close> writes as much of the text \<open>out\<close> as the buffer holds, and a terminator.  Calls that fail
  (a text longer than \<open>INT_MAX\<close>, an encoding error), of which the source does not look at the result, are
  not modelled.  The loop may
  run for ever as far as its code is concerned (\<open>None\<close>); \<open>Some (Inr None)\<close> is the NULL it returns.
\<close>

definition vsnprintf :: "bytes \<Rightarrow> bytes \<Rightarrow> bytes" where
  "vsnprintf out b = (let t = take (length b - 1) out @ [nul] in take (length b) (t @ drop (length t) b))"

definition printf_try :: "bytes \<Rightarrow> bytes \<Rightarrow> bytes" where
  "printf_try out b = vsnprintf out (b[length b - 2 := nul])"

partial_function (option) printf_loop :: "allocator \<Rightarrow> bytes \<Rightarrow> bytes \<Rightarrow> bytes option option" where
  "printf_loop A out b =
    (if printf_try out b ! (length b - 2) \<noteq> nul then
       (if grants A (size_t_of (length b * 2)) then printf_loop A out (fresh A (size_t_of (length b * 2))) else Some None)
     else Some (Some (printf_try out b)))"

definition STATIC_BUF :: nat where "STATIC_BUF = 1024"

definition printf_buffer :: "allocator \<Rightarrow> nat \<Rightarrow> bytes option" where
  "printf_buffer A fmt_len =
    (let buflen = size_t_of (fmt_len * 2) in
     if STATIC_BUF < buflen then (if grants A buflen then Some (fresh A buflen) else None) else Some (fresh A STATIC_BUF))"

text \<open>\<open>libc fmt ap\<close> is the text \<open>printf\<close> writes.\<close>

definition sdscatvprintf ::
  "allocator \<Rightarrow> (bytes \<Rightarrow> 'a \<Rightarrow> bytes) \<Rightarrow> bytes \<Rightarrow> 'a \<Rightarrow> sds \<Rightarrow> (sds_fault + sds option) option" where
  "sdscatvprintf A libc fmt ap s =
    (case c_string fmt of Inl e \<Rightarrow> Some (Inl e)
     | Inr f \<Rightarrow>
       (case printf_buffer A (length f) of None \<Rightarrow> Some (Inr None)
        | Some b \<Rightarrow>
          (case printf_loop A (libc f ap) b of None \<Rightarrow> None
           | Some None \<Rightarrow> Some (Inr None)
           | Some (Some b1) \<Rightarrow> Some (sdscat A b1 s))))"

definition sdscatprintf ::
  "allocator \<Rightarrow> (bytes \<Rightarrow> 'a \<Rightarrow> bytes) \<Rightarrow> bytes \<Rightarrow> 'a \<Rightarrow> sds \<Rightarrow> (sds_fault + sds option) option" where
  "sdscatprintf A libc fmt ap s = sdscatvprintf A libc fmt ap s"

lemma length_printf_try: "2 \<le> length b \<Longrightarrow> length (printf_try out b) = length b"
  by (simp add: printf_try_def vsnprintf_def Let_def)

lemma take_beyond:
  assumes "xs = w @ y # rest" "length w < n"
  shows "\<exists>j. take n xs = w @ y # take j rest"
proof -
  obtain j where "n = length w + Suc j" using assms(2) by (metis add_Suc_right less_iff_Suc_add)
  then show ?thesis using assms(1) by auto
qed

lemma printf_try_eq:
  assumes "2 \<le> length b"
  shows "printf_try out b = take (length b - 1) out @ nul # drop (Suc (min (length out) (length b - 1))) (b[length b - 2 := nul])"
proof (cases "length out \<le> length b - 1")
  case True
  then have "length out < length b" using assms by simp
  with True show ?thesis by (simp add: printf_try_def vsnprintf_def Let_def)
next
  case False
  with assms show ?thesis by (simp add: printf_try_def vsnprintf_def Let_def)
qed

text \<open>A try is complete when the text, up to a NUL byte in it, lies below the last two bytes.\<close>

lemma printf_try_text:
  assumes b: "2 \<le> length b" and fin: "printf_try out b ! (length b - 2) = nul"
  shows "\<exists>rest. printf_try out b = takeWhile (\<lambda>c. c \<noteq> nul) out @ nul # rest"
proof -
  let ?n = "length b"
  let ?t = "take (?n - 1) out @ [nul]"
  let ?w = "takeWhile (\<lambda>c. c \<noteq> nul) out"
  have tr: "printf_try out b = ?t @ drop (length ?t) (b[?n - 2 := nul])"
    using printf_try_eq [OF b] by simp
  have out: "out = ?w @ dropWhile (\<lambda>c. c \<noteq> nul) out" by simp
  show ?thesis
  proof (cases "length ?w < ?n - 1")
    case True
    show ?thesis
    proof (cases "?w = out")
      case True': True
      with True have "take (?n - 1) out = ?w" by (metis less_imp_le_nat take_all)
      then show ?thesis unfolding tr by simp
    next
      case False
      then obtain rest where rest: "dropWhile (\<lambda>c. c \<noteq> nul) out = nul # rest"
        by (cases "dropWhile (\<lambda>c. c \<noteq> nul) out") (use out in \<open>auto simp: dropWhile_eq_Cons_conv\<close>)
      then have "out = ?w @ nul # rest" using out by simp
      from take_beyond [OF this True] obtain j where "take (?n - 1) out = ?w @ nul # take j rest" ..
      then show ?thesis unfolding tr by simp
    qed
  next
    case False
    then have "?n - 2 < length ?w" "?n - 2 < ?n - 1" using b by simp_all
    moreover from this have "?n - 2 < length out" using length_takeWhile_le [of "\<lambda>c. c \<noteq> nul" out] by linarith
    ultimately have "printf_try out b ! (?n - 2) = ?w ! (?n - 2)"
      unfolding tr by (simp add: nth_append takeWhile_nth)
    moreover have "?w ! (?n - 2) \<noteq> nul" using \<open>?n - 2 < length ?w\<close> nth_mem set_takeWhileD by fastforce
    ultimately show ?thesis using fin by simp
  qed
qed

text \<open>The loop ends: the buffer doubles until it is larger than the text.\<close>

lemma printf_loop_ends:
  assumes "2 \<le> length b" "length b < 2 ^ 62" "length out < 2 ^ 60"
  shows "\<exists>r. printf_loop A out b = Some r \<and> (\<forall>b1. r = Some b1 \<longrightarrow> (\<exists>rest. b1 = takeWhile (\<lambda>c. c \<noteq> nul) out @ nul # rest)) \<and>
    ((\<forall>n. grants A n) \<longrightarrow> r \<noteq> None)"
  using assms
proof (induction "length out + 2 - length b" arbitrary: b rule: less_induct)
  case less
  show ?case
  proof (cases "printf_try out b ! (length b - 2) = nul")
    case True
    with printf_try_text [OF less.prems(1) True] show ?thesis by (subst printf_loop.simps) simp
  next
    case False
    have long: "length b - 2 < length out"
    proof (rule ccontr)
      assume "\<not> length b - 2 < length out"
      then have short: "length out \<le> length b - 2" by simp
      then have tr: "printf_try out b = out @ nul # drop (Suc (length out)) (b[length b - 2 := nul])"
        using printf_try_eq [OF less.prems(1), of out] by (simp add: min_def)
      show False
      proof (cases "length out = length b - 2")
        case True
        with tr False show False by (simp add: nth_append)
      next
        case shorter: False
        then obtain k where k: "length b - 2 = Suc (length out + k)" using short
          by (metis le_neq_implies_less less_iff_Suc_add)
        have "printf_try out b ! (length b - 2) = b[length b - 2 := nul] ! (length b - 2)"
        proof -
          have "Suc (length out) \<le> length b" using k by simp
          then have "drop (Suc (length out)) (b[Suc (length out + k) := nul]) ! k = b[Suc (length out + k) := nul] ! Suc (length out + k)"
            by simp
          then show ?thesis unfolding tr k by (simp add: nth_append)
        qed
        with False less.prems(1) show False by simp
      qed
    qed
    let ?m = "length b * 2"
    have m: "size_t_of ?m = ?m" using less.prems(2) by simp
    show ?thesis
    proof (cases "grants A ?m")
      case True
      have "length b < 2 ^ 61" using long less.prems(3) by simp
      then have "\<exists>r. printf_loop A out (fresh A ?m) = Some r \<and>
          (\<forall>b1. r = Some b1 \<longrightarrow> (\<exists>rest. b1 = takeWhile (\<lambda>c. c \<noteq> nul) out @ nul # rest)) \<and> ((\<forall>n. grants A n) \<longrightarrow> r \<noteq> None)"
        using less.prems long by (intro less.hyps) simp_all
      with False True m show ?thesis by (subst printf_loop.simps) simp
    next
      case no: False
      with False m show ?thesis by (subst printf_loop.simps) auto
    qed
  qed
qed

lemma c_string_takeWhile: "c_string (takeWhile (\<lambda>c. c \<noteq> nul) t @ nul # rest) = Inr (takeWhile (\<lambda>c. c \<noteq> nul) t)"
  by (rule c_string_append) (auto dest: set_takeWhileD)

lemma sdscatvprintf_yields:
  assumes ok: "sds_ok s" and fmt: "nul \<in> set fmt" "length fmt < 2 ^ 60" and out: "length (libc (takeWhile (\<lambda>c. c \<noteq> nul) fmt) ap) < 2 ^ 60"
    and s: "sdslen s < 2 ^ 60"
  shows "\<exists>m. sdscatvprintf A libc fmt ap s = Some m \<and>
    yields A m (content s @ takeWhile (\<lambda>c. c \<noteq> nul) (libc (takeWhile (\<lambda>c. c \<noteq> nul) fmt) ap))"
proof -
  let ?f = "takeWhile (\<lambda>c. c \<noteq> nul) fmt"
  let ?out = "libc ?f ap"
  let ?w = "takeWhile (\<lambda>c. c \<noteq> nul) ?out"
  have f: "c_string fmt = Inr ?f" using fmt(1) by (simp add: c_string_def)
  have lf: "length ?f < 2 ^ 60" using fmt(2) length_takeWhile_le [of "\<lambda>c. c \<noteq> nul" fmt] by linarith
  then have sz: "size_t_of (length ?f * 2) = length ?f * 2" by simp
  show ?thesis
  proof (cases "printf_buffer A (length ?f)")
    case None
    then have "\<not> (\<forall>n. grants A n)" by (auto simp: printf_buffer_def Let_def split: if_splits)
    with None f show ?thesis by (simp add: sdscatvprintf_def yields_def)
  next
    case (Some b)
    then have b: "2 \<le> length b" "length b < 2 ^ 62"
      using lf sz by (auto simp: printf_buffer_def Let_def STATIC_BUF_def split: if_splits)
    from printf_loop_ends [OF b out, of A] obtain r where r: "printf_loop A ?out b = Some r"
      "\<forall>b1. r = Some b1 \<longrightarrow> (\<exists>rest. b1 = ?w @ nul # rest)" "(\<forall>n. grants A n) \<longrightarrow> r \<noteq> None" by blast
    show ?thesis
    proof (cases r)
      case None
      with r Some f show ?thesis by (simp add: sdscatvprintf_def yields_def)
    next
      case (Some b1)
      with r(2) obtain rest where "b1 = ?w @ nul # rest" by blast
      moreover have "yields A (sdscat A (?w @ nul # rest) s) (content s @ ?w)"
      proof (rule sdscat_yields [OF ok])
        show "nul \<notin> set ?w" by (auto dest: set_takeWhileD)
        have "length ?w \<le> length ?out" by (rule length_takeWhile_le)
        with s out show "sdslen s + length ?w < 2 ^ 62" by simp
      qed
      ultimately show ?thesis using r(1) Some \<open>printf_buffer A (length ?f) = Some b\<close> f by (simp add: sdscatvprintf_def)
    qed
  qed
qed

subsection \<open>sdscatfmt\<close>

text \<open>
  A variadic argument: a C string, a string of this library, and the four integer types.  Taking
  one that is not there, or of another type, is undefined: \<open>NoArgument\<close>.
\<close>

datatype fmt_arg = FmtS bytes | FmtSds sds | FmtInt int | FmtLL int | FmtUInt nat | FmtULL nat

text \<open>The text of a number, from the local buffer.\<close>

definition ll_text :: "allocator \<Rightarrow> int \<Rightarrow> sds_fault + bytes" where
  "ll_text A v = rbind (sdsll2str (fresh A SDS_LLSTR_SIZE) v) (\<lambda>(l, b). peek 0 l b)"

definition ull_text :: "allocator \<Rightarrow> nat \<Rightarrow> sds_fault + bytes" where
  "ull_text A v = rbind (sdsull2str (fresh A SDS_LLSTR_SIZE) v) (\<lambda>(l, b). peek 0 l b)"

text \<open>What a conversion inserts, and the arguments that are left; \<open>None\<close> for a character that is no conversion.\<close>

fun conv_text :: "allocator \<Rightarrow> char \<Rightarrow> fmt_arg list \<Rightarrow> (sds_fault + bytes \<times> fmt_arg list) option" where
  "conv_text A c args =
    (if c = CHR ''s'' then Some (case args of FmtS p # r \<Rightarrow> rbind (c_string p) (\<lambda>t. Inr (t, r)) | _ \<Rightarrow> Inl NoArgument)
     else if c = CHR ''S'' then Some (case args of FmtSds t # r \<Rightarrow> rbind (peek 0 (sdslen t) (buf t)) (\<lambda>t. Inr (t, r)) | _ \<Rightarrow> Inl NoArgument)
     else if c = CHR ''i'' then Some (case args of FmtInt v # r \<Rightarrow> rbind (ll_text A v) (\<lambda>t. Inr (t, r)) | _ \<Rightarrow> Inl NoArgument)
     else if c = CHR ''I'' then Some (case args of FmtLL v # r \<Rightarrow> rbind (ll_text A v) (\<lambda>t. Inr (t, r)) | _ \<Rightarrow> Inl NoArgument)
     else if c = CHR ''u'' then Some (case args of FmtUInt v # r \<Rightarrow> rbind (ull_text A v) (\<lambda>t. Inr (t, r)) | _ \<Rightarrow> Inl NoArgument)
     else if c = CHR ''U'' then Some (case args of FmtULL v # r \<Rightarrow> rbind (ull_text A v) (\<lambda>t. Inr (t, r)) | _ \<Rightarrow> Inl NoArgument)
     else None)"

text \<open>The position \<open>i\<close> is an \<open>int\<close>.  The result of \<open>sdsMakeRoomFor\<close> is used without a test for NULL.\<close>

definition room_for :: "allocator \<Rightarrow> nat \<Rightarrow> sds \<Rightarrow> sds_fault + sds" where
  "room_for A n s = rbind (sdsMakeRoomFor A n s) (on_sds Inr)"

definition put_at :: "int \<Rightarrow> bytes \<Rightarrow> sds \<Rightarrow> sds_fault + sds" where
  "put_at i xs s = rbind (if i < 0 then Inl OutOfBounds else poke (nat i) xs (buf s))
     (\<lambda>b. Inr (sdsinclen (length xs) (s\<lparr>buf := b\<rparr>)))"

definition put_text :: "allocator \<Rightarrow> int \<Rightarrow> bytes \<Rightarrow> sds \<Rightarrow> sds_fault + sds" where
  "put_text A i xs s = rbind (if sdsavail s < length xs then room_for A (length xs) s else Inr s) (put_at i xs)"

definition conv_step :: "allocator \<Rightarrow> char \<Rightarrow> fmt_arg list \<Rightarrow> int \<Rightarrow> sds \<Rightarrow> sds_fault + (fmt_arg list \<times> int \<times> sds)" where
  "conv_step A c args i s =
    (case conv_text A c args of
       Some m \<Rightarrow> rbind m (\<lambda>(t, args2). rbind (put_text A i t s) (\<lambda>s2. Inr (args2, int32 (i + int (length t)), s2)))
     | None \<Rightarrow> rbind (put_at i [c] s) (\<lambda>s2. Inr (args, int32 (i + 1), s2)))"

text \<open>
  The loop over the format.  After \<open>%\<close> the pointer moves on whatever the next character is, so a
  format that ends with a single \<open>%\<close> is read beyond its terminator.
\<close>

fun fmt_loop :: "allocator \<Rightarrow> bytes \<Rightarrow> fmt_arg list \<Rightarrow> int \<Rightarrow> sds \<Rightarrow> sds_fault + int \<times> sds" where
  "fmt_loop A [] args i s = Inl OutOfBounds"
| "fmt_loop A (c # f) args i s =
    (if c = nul then Inr (i, s)
     else rbind (if sdsavail s = 0 then room_for A 1 s else Inr s) (\<lambda>s1.
       if c = CHR ''%'' then
         (case f of [] \<Rightarrow> Inl OutOfBounds
          | next # f2 \<Rightarrow> rbind (conv_step A next args i s1) (\<lambda>(args2, i2, s2). fmt_loop A f2 args2 i2 s2))
       else rbind (put_at i [c] s1) (\<lambda>s2. fmt_loop A f args (int32 (i + 1)) s2)))"

definition sdscatfmt :: "allocator \<Rightarrow> bytes \<Rightarrow> fmt_arg list \<Rightarrow> sds \<Rightarrow> sds_fault + sds" where
  "sdscatfmt A fmt args s =
    rbind (fmt_loop A fmt args (int32 (int (sdslen s))) s) (\<lambda>(i, s).
      rbind (if i < 0 then Inl OutOfBounds else poke (nat i) [nul] (buf s)) (\<lambda>b. Inr (s\<lparr>buf := b\<rparr>)))"

subsection \<open>What sdscatfmt appends\<close>

text \<open>The text of one conversion, and of a whole format; \<open>None\<close> where an argument is missing.\<close>

definition arg_text :: "char \<Rightarrow> fmt_arg list \<Rightarrow> (bytes \<times> fmt_arg list) option" where
  "arg_text c args =
    (case args of
       FmtS p # r \<Rightarrow> if c = CHR ''s'' \<and> nul \<in> set p then Some (takeWhile (\<lambda>x. x \<noteq> nul) p, r) else None
     | FmtSds t # r \<Rightarrow> if c = CHR ''S'' \<and> sds_ok t then Some (content t, r) else None
     | FmtInt v # r \<Rightarrow> if c = CHR ''i'' \<and> - (2 ^ 31) \<le> v \<and> v < 2 ^ 31 then Some (dec_int v, r) else None
     | FmtLL v # r \<Rightarrow> if c = CHR ''I'' \<and> - (2 ^ 63) \<le> v \<and> v < 2 ^ 63 then Some (dec_int v, r) else None
     | FmtUInt v # r \<Rightarrow> if c = CHR ''u'' \<and> v < 2 ^ 32 then Some (dec_nat v, r) else None
     | FmtULL v # r \<Rightarrow> if c = CHR ''U'' \<and> v < 2 ^ 64 then Some (dec_nat v, r) else None
     | [] \<Rightarrow> None)"

definition is_conv :: "char \<Rightarrow> bool" where
  "is_conv c \<longleftrightarrow> c \<in> set ''sSiIuU''"

fun fmt_text :: "bytes \<Rightarrow> fmt_arg list \<Rightarrow> (bytes \<times> fmt_arg list) option" where
  "fmt_text [] args = Some ([], args)"
| "fmt_text (c # f) args =
    (if c = CHR ''%'' then
       (case f of [] \<Rightarrow> None
        | next # f2 \<Rightarrow>
          (case (if is_conv next then arg_text next args else Some ([next], args)) of None \<Rightarrow> None
           | Some (t, args2) \<Rightarrow> (case fmt_text f2 args2 of None \<Rightarrow> None | Some (u, args3) \<Rightarrow> Some (t @ u, args3))))
     else (case fmt_text f args of None \<Rightarrow> None | Some (u, args2) \<Rightarrow> Some (c # u, args2)))"

lemma hdr_inclen_eq: "hdr_inclen n h = hdr_setlen (hdr_len h + n) h"
  by (cases h) simp_all

lemma put_at_fit:
  assumes "sds_fit s" "sdslen s + length xs \<le> sdsalloc s"
  shows "\<exists>s'. put_at (int (sdslen s)) xs s = Inr s' \<and> sds_fit s' \<and> content s' = content s @ xs \<and> sdslen s' = sdslen s + length xs"
proof -
  let ?n = "sdslen s + length xs"
  let ?b = "take (sdslen s) (buf s) @ xs @ drop ?n (buf s)"
  let ?s = "sdsinclen (length xs) (s\<lparr>buf := ?b\<rparr>)"
  have len: "?n < length (buf s)" using assms by (simp add: sds_fit_def)
  have p: "put_at (int (sdslen s)) xs s = Inr ?s" using len by (simp add: put_at_def poke_ok)
  have h: "hdr ?s = hdr_setlen ?n (hdr s)" by (simp add: sdsinclen_def hdr_inclen_eq sdslen_def)
  have b: "buf ?s = ?b" by (simp add: sdsinclen_def)
  have "?n < cap (hdr_type (hdr s))" using assms(2) hdr_alloc_cap [of "hdr s"] by (simp add: sdsalloc_def)
  then have hl: "hdr_len (hdr_setlen ?n (hdr s)) = ?n" by (rule hdr_len_setlen)
  then have l: "sdslen ?s = ?n" unfolding sdslen_def [of ?s] h .
  have a: "sdsalloc ?s = (if hdr_type (hdr s) = 0 then ?n else sdsalloc s)"
    unfolding sdsalloc_def [of ?s] h hdr_alloc_setlen hl by (simp add: sdsalloc_def)
  have lb: "length ?b = length (buf s)" using len by simp
  have "sds_fit ?s" using l a assms lb len unfolding sds_fit_def b by auto
  moreover have "content ?s = content s @ xs" using len unfolding content_def [of ?s] l b by (simp add: content_def)
  ultimately show ?thesis using p l by blast
qed

lemma room_fit:
  assumes "sds_fit s" "sdslen s + n < 2 ^ 62" "\<forall>n. grants A n"
  shows "\<exists>s'. room_for A n s = Inr s' \<and> sds_fit s' \<and> content s' = content s \<and> sdslen s' = sdslen s \<and> sdslen s + n \<le> sdsalloc s'"
  using MakeRoomFor_fit [OF assms(1,2), of A] assms(3) by (auto simp: room_for_def on_sds_def)

lemma put_text_fit:
  assumes "sds_fit s" "sdslen s + length xs < 2 ^ 62" "\<forall>n. grants A n"
  shows "\<exists>s'. put_text A (int (sdslen s)) xs s = Inr s' \<and> sds_fit s' \<and> content s' = content s @ xs \<and> sdslen s' = sdslen s + length xs"
proof (cases "sdsavail s < length xs")
  case True
  from room_fit [OF assms] obtain s1 where s1: "room_for A (length xs) s = Inr s1" "sds_fit s1" "content s1 = content s"
    "sdslen s1 = sdslen s" "sdslen s + length xs \<le> sdsalloc s1" by blast
  from put_at_fit [OF s1(2), of xs] s1(3-5) True s1(1) show ?thesis by (simp add: put_text_def)
next
  case False
  have "sdslen s \<le> sdsalloc s" using assms(1) by (simp add: sds_fit_def)
  with False have "sdslen s + length xs \<le> sdsalloc s" unfolding avail_eq [OF assms(1)] by linarith
  from put_at_fit [OF assms(1) this] False show ?thesis by (simp add: put_text_def)
qed

lemma ll_text_dec: "- (2 ^ 63) \<le> v \<Longrightarrow> v < 2 ^ 63 \<Longrightarrow> ll_text A v = Inr (dec_int v)"
  by (simp add: ll_text_def sdsll2str_dec peek_ok)

lemma ull_text_dec: "v < 2 ^ 64 \<Longrightarrow> ull_text A v = Inr (dec_nat v)"
  by (simp add: ull_text_def sdsull2str_dec peek_ok)

lemma conv_text_arg:
  assumes "is_conv c" "arg_text c args = Some (t, r)"
  shows "conv_text A c args = Some (Inr (t, r))"
proof (cases args)
  case (Cons x xs)
  with assms show ?thesis
    by (cases x) (auto simp: arg_text_def ll_text_dec ull_text_dec c_string_def peek_ok sds_ok_def content_def split: if_splits)
qed (use assms in \<open>simp add: arg_text_def\<close>)

lemma conv_text_none: "\<not> is_conv c \<Longrightarrow> conv_text A c args = None"
  by (simp add: is_conv_def)

lemma int32_small: "m < 2 ^ 31 \<Longrightarrow> int32 (int m) = int m"
  by (rule int32_id) simp_all

lemma room_one:
  assumes "sds_fit s" "sdslen s < 2 ^ 31" "\<forall>n. grants A n"
  shows "\<exists>s1. (if sdsavail s = 0 then room_for A 1 s else Inr s) = Inr s1 \<and> sds_fit s1 \<and> content s1 = content s \<and>
    sdslen s1 = sdslen s \<and> sdslen s + 1 \<le> sdsalloc s1"
proof (cases "sdsavail s = 0")
  case True
  then show ?thesis using room_fit [of s 1 A] assms by simp
next
  case False
  then have "sdslen s + 1 \<le> sdsalloc s" using assms(1) by (simp add: avail_eq)
  with False assms(1) show ?thesis by auto
qed

lemma fmt_loop_text:
  assumes "fmt_text f args = Some (t, args')" "sds_fit s" "nul \<notin> set f" "sdslen s + length t < 2 ^ 31" "\<forall>n. grants A n"
  shows "\<exists>s'. fmt_loop A (f @ g) args (int (sdslen s)) s = fmt_loop A g args' (int (sdslen s')) s' \<and>
    sds_fit s' \<and> content s' = content s @ t \<and> sdslen s' = sdslen s + length t"
  using assms
proof (induction f args arbitrary: t s rule: fmt_text.induct)
  case (1 args)
  then show ?case by auto
next
  case (2 c f args)
  note fit = 2(4) and small = 2(6) and mem = 2(7)
  from small have "sdslen s < 2 ^ 31" by simp
  from room_one [OF fit this mem] obtain s1 where s1: "(if sdsavail s = 0 then room_for A 1 s else Inr s) = Inr s1"
    "sds_fit s1" "content s1 = content s" "sdslen s1 = sdslen s" "sdslen s + 1 \<le> sdsalloc s1" by blast
  have c: "c \<noteq> nul" "nul \<notin> set f" using 2(5) by auto
  show ?case
  proof (cases "c = CHR ''%''")
    case False
    from 2(3) False obtain u where u: "fmt_text f args = Some (u, args')" "t = c # u" by (auto split: option.splits)
    from put_at_fit [OF s1(2), of "[c]"] s1(3-5) obtain s2 where s2: "put_at (int (sdslen s)) [c] s1 = Inr s2" "sds_fit s2"
      "content s2 = content s @ [c]" "sdslen s2 = sdslen s + 1" by auto
    have i: "int32 (int (sdslen s) + 1) = int (sdslen s2)" using int32_small [of "sdslen s2"] small s2(4) u(2) by (simp add: add.commute)
    from 2(2) [OF False u(1) s2(2) c(2) _ mem] small s2(4) u(2) obtain s' where
      "fmt_loop A (f @ g) args (int (sdslen s2)) s2 = fmt_loop A g args' (int (sdslen s')) s'" "sds_fit s'"
      "content s' = content s2 @ u" "sdslen s' = sdslen s2 + length u" by auto
    moreover have "fmt_loop A ((c # f) @ g) args (int (sdslen s)) s = fmt_loop A (f @ g) args (int (sdslen s2)) s2"
      using s1(1) s2(1) i c(1) False by (simp del: One_nat_def)
    ultimately show ?thesis using s2(3,4) u(2) by (intro exI [of _ s']) simp
  next
    case True
    with 2(3) obtain d f2 where f: "f = d # f2" by (auto split: list.splits)
    from 2(3) True f obtain w args2 u where w: "(if is_conv d then arg_text d args else Some ([d], args)) = Some (w, args2)"
      and u: "fmt_text f2 args2 = Some (u, args')" and t: "t = w @ u"
      by (auto split: option.splits if_splits)
    have d: "d \<noteq> nul" "nul \<notin> set f2" using c(2) f by auto
    have lw: "sdslen s1 + length w < 2 ^ 62" using small t s1(4) by simp
    have "\<exists>s2. conv_step A d args (int (sdslen s)) s1 = Inr (args2, int (sdslen s2), s2) \<and> sds_fit s2 \<and>
        content s2 = content s @ w \<and> sdslen s2 = sdslen s + length w"
    proof (cases "is_conv d")
      case conv: True
      with w conv_text_arg [of d args w args2 A] have ct: "conv_text A d args = Some (Inr (w, args2))" by simp
      from put_text_fit [OF s1(2) lw mem] s1(3,4) obtain s2 where s2: "put_text A (int (sdslen s)) w s1 = Inr s2" "sds_fit s2"
        "content s2 = content s @ w" "sdslen s2 = sdslen s + length w" by auto
      have "int32 (int (sdslen s) + int (length w)) = int (sdslen s2)" using int32_small [of "sdslen s2"] small t s2(4) by simp
      with s2 ct show ?thesis by (simp add: conv_step_def del: conv_text.simps)
    next
      case no: False
      with w have w': "w = [d]" "args2 = args" by auto
      from put_at_fit [OF s1(2), of "[d]"] s1(3-5) obtain s2 where s2: "put_at (int (sdslen s)) [d] s1 = Inr s2" "sds_fit s2"
        "content s2 = content s @ [d]" "sdslen s2 = sdslen s + 1" by auto
      have "int32 (int (sdslen s) + 1) = int (sdslen s2)" using int32_small [of "sdslen s2"] small t w' s2(4) by (simp add: add.commute)
      with s2 w' conv_text_none [OF no, of A args] show ?thesis by (simp add: conv_step_def del: conv_text.simps)
    qed
    then obtain s2 where s2: "conv_step A d args (int (sdslen s)) s1 = Inr (args2, int (sdslen s2), s2)" "sds_fit s2"
      "content s2 = content s @ w" "sdslen s2 = sdslen s + length w" by blast
    have "sdslen s2 + length u < 2 ^ 31" using small t s2(4) by simp
    from 2(1) [OF True f w [symmetric, THEN sym] refl u s2(2) d(2) this mem] obtain s' where
      "fmt_loop A (f2 @ g) args2 (int (sdslen s2)) s2 = fmt_loop A g args' (int (sdslen s')) s'" "sds_fit s'"
      "content s' = content s2 @ u" "sdslen s' = sdslen s2 + length u" by auto
    moreover have "fmt_loop A ((c # f) @ g) args (int (sdslen s)) s = fmt_loop A (f2 @ g) args2 (int (sdslen s2)) s2"
      using s1(1) s2(1) c(1) True f by (simp del: One_nat_def)
    ultimately show ?thesis using s2(3,4) t by (intro exI [of _ s']) simp
  qed
qed

lemma sdscatfmt_text:
  assumes "fmt_text f args = Some (t, args')" "sds_ok s" "nul \<notin> set f" "sdslen s + length t < 2 ^ 31" "\<forall>n. grants A n"
  shows "gives (sdscatfmt A (f @ nul # rest) args s) (content s @ t)"
proof -
  have fit: "sds_fit s" using assms(2) by (simp add: sds_ok_iff)
  from fmt_loop_text [OF assms(1) fit assms(3-5), of "nul # rest"] obtain s' where s':
    "fmt_loop A (f @ nul # rest) args (int (sdslen s)) s = Inr (int (sdslen s'), s')" "sds_fit s'" "content s' = content s @ t"
    "sdslen s' = sdslen s + length t" by auto
  let ?b = "take (sdslen s') (buf s') @ nul # drop (Suc (sdslen s')) (buf s')"
  let ?s = "s'\<lparr>buf := ?b\<rparr>"
  have len: "sdslen s' < length (buf s')" using s'(2) by (simp add: sds_fit_def)
  have "int32 (int (sdslen s)) = int (sdslen s)" using assms(4) by (intro int32_small) simp
  then have "sdscatfmt A (f @ nul # rest) args s = Inr ?s" using s'(1) len by (simp add: sdscatfmt_def poke_def Suc_le_eq)
  moreover have l: "sdslen ?s = sdslen s'" "sdsalloc ?s = sdsalloc s'" by (simp_all add: sdslen_def sdsalloc_def)
  have "length ?b = length (buf s')" "?b ! sdslen s' = nul" using len by (simp_all add: nth_append)
  then have "sds_ok ?s" using s'(2) unfolding sds_ok_def sds_fit_def l by simp
  moreover have "content ?s = content s'" using len unfolding content_def l by simp
  ultimately show ?thesis using s'(3) by (simp add: gives_def)
qed

text \<open>A single \<open>%\<close> at the end: the terminator is copied, and the loop reads the byte behind it.\<close>

lemma sdscatfmt_trailing:
  assumes "fmt_text f args = Some (t, args')" "sds_ok s" "nul \<notin> set f" "sdslen s + length t + 1 < 2 ^ 31" "\<forall>n. grants A n"
  shows "sdscatfmt A (f @ [CHR ''%'', nul]) args s = Inl OutOfBounds"
proof -
  have fit: "sds_fit s" using assms(2) by (simp add: sds_ok_iff)
  have "sdslen s + length t < 2 ^ 31" using assms(4) by simp
  from fmt_loop_text [OF assms(1) fit assms(3) this assms(5), of "[CHR ''%'', nul]"] obtain s' where s':
    "fmt_loop A (f @ [CHR ''%'', nul]) args (int (sdslen s)) s = fmt_loop A [CHR ''%'', nul] args' (int (sdslen s')) s'"
    "sds_fit s'" "sdslen s' = sdslen s + length t" by auto
  have "sdslen s' < 2 ^ 31" using s'(3) assms(4) by simp
  from room_one [OF s'(2) this assms(5)] obtain s1 where s1: "(if sdsavail s' = 0 then room_for A 1 s' else Inr s') = Inr s1"
    "sds_fit s1" "sdslen s1 = sdslen s'" "sdslen s' + 1 \<le> sdsalloc s1" by auto
  from put_at_fit [OF s1(2), of "[nul]"] s1(3,4) obtain s2 where "put_at (int (sdslen s')) [nul] s1 = Inr s2" by auto
  then have "conv_step A nul args' (int (sdslen s')) s1 = Inr (args', int32 (int (sdslen s') + 1), s2)"
    using conv_text_none [of nul A args'] by (simp add: conv_step_def is_conv_def del: conv_text.simps)
  then have "fmt_loop A [CHR ''%'', nul] args' (int (sdslen s')) s' = Inl OutOfBounds" using s1(1) by (simp del: One_nat_def)
  moreover have "int32 (int (sdslen s)) = int (sdslen s)" using assms(4) by (intro int32_small) simp
  ultimately show ?thesis using s'(1) by (simp add: sdscatfmt_def)
qed

end
