(* ===== verification/Sds_Split.thy ===== *)
theory Sds_Split
  imports Sds_Format
begin

text \<open>
  The functions of \<open>src/commlib/redis/sds.cpp\<close> that split and join: \<open>sdssplitlen\<close>, \<open>sdsjoin\<close>,
  \<open>sdsjoinsds\<close>, and the quoted form of a string, which \<open>sdscatrepr\<close> writes and \<open>sdssplitargs\<close> reads.
  A result of \<open>None\<close> inside \<open>Inr\<close> is the NULL pointer.
\<close>

subsection \<open>sdssplitlen\<close>

text \<open>
  \<open>toks\<close> are the elements stored so far, \<open>slots\<close> the size of the array they are stored in.
\<close>

definition store_token :: "'t list \<Rightarrow> nat \<Rightarrow> 't \<Rightarrow> sds_fault + 't list" where
  "store_token toks slots t = (if length toks < slots then Inr (toks @ [t]) else Inl OutOfBounds)"

definition sep_at :: "bytes \<Rightarrow> bytes \<Rightarrow> nat \<Rightarrow> nat \<Rightarrow> sds_fault + bool" where
  "sep_at s sep seplen j =
    rbind (peek j 1 s) (\<lambda>c. rbind (peek 0 1 sep) (\<lambda>d.
      if seplen = 1 \<and> c = d then Inr True
      else rbind (peek j seplen s) (\<lambda>x. rbind (peek 0 seplen sep) (\<lambda>y. Inr (memcmp x y = 0)))))"

text \<open>
  The number of slots is an \<open>int\<close> in the source: the doubling is exact up to 5 * 2 ^ 28 slots, which is
  10 GiB of pointers.
\<close>

definition slots_for :: "nat \<Rightarrow> nat \<Rightarrow> nat" where
  "slots_for slots elements = (if slots < elements + 2 then slots * 2 else slots)"

definition next_token :: "allocator \<Rightarrow> bytes \<Rightarrow> nat \<Rightarrow> nat \<Rightarrow> sds list \<Rightarrow> nat \<Rightarrow> sds_fault + sds list option" where
  "next_token A s start n toks slots =
    rbind (sdsnewlen A (Some (drop start s)) n) (\<lambda>t. case t of None \<Rightarrow> Inr None
      | Some t \<Rightarrow> rbind (store_token toks slots t) (\<lambda>ts. Inr (Some ts)))"

function split_loop ::
  "allocator \<Rightarrow> bytes \<Rightarrow> nat \<Rightarrow> bytes \<Rightarrow> nat \<Rightarrow> sds list \<Rightarrow> nat \<Rightarrow> nat \<Rightarrow> nat \<Rightarrow> sds_fault + sds list option" where
  "split_loop A s len sep seplen toks slots start j =
    (if j < len - (seplen - 1) then
       (if slots < length toks + 2 \<and> \<not> grants A (8 * slots_for slots (length toks)) then Inr None
        else rbind (sep_at s sep seplen j) (\<lambda>found.
          if found then
            rbind (next_token A s start (j - start) toks (slots_for slots (length toks))) (\<lambda>ts. case ts of None \<Rightarrow> Inr None
              | Some ts \<Rightarrow> split_loop A s len sep seplen ts (slots_for slots (length toks)) (j + seplen) (Suc (j + (seplen - 1))))
          else split_loop A s len sep seplen toks (slots_for slots (length toks)) start (j + 1)))
     else next_token A s start (len - start) toks slots)"
  by pat_completeness auto
termination by (relation "measure (\<lambda>(A, s, len, sep, seplen, toks, slots, start, j). len - j)") auto

declare split_loop.simps [simp del]

definition sdssplitlen :: "allocator \<Rightarrow> bytes \<Rightarrow> int \<Rightarrow> bytes \<Rightarrow> int \<Rightarrow> sds_fault + sds list option" where
  "sdssplitlen A s len sep seplen =
    (if seplen < 1 \<or> len < 0 then Inr None
     else if \<not> grants A (8 * 5) then Inr None
     else if len = 0 then Inr (Some [])
     else split_loop A s (nat len) sep (nat seplen) [] 5 0 0)"

text \<open>The reference: cut at each occurrence of the separator, from the left.\<close>

function split_on :: "bytes \<Rightarrow> bytes \<Rightarrow> bytes \<Rightarrow> bytes list" where
  "split_on sep cur xs =
    (if xs = [] then [cur]
     else if sep \<noteq> [] \<and> take (length sep) xs = sep then cur # split_on sep [] (drop (length sep) xs)
     else split_on sep (cur @ [hd xs]) (tl xs))"
  by pat_completeness auto
termination by (relation "measure (\<lambda>(sep, cur, xs). length xs)") auto

declare split_on.simps [simp del]

fun intersperse :: "bytes \<Rightarrow> bytes list \<Rightarrow> bytes" where
  "intersperse sep [] = []"
| "intersperse sep [x] = x"
| "intersperse sep (x # y # ys) = x @ sep @ intersperse sep (y # ys)"

lemma split_on_ne: "split_on sep cur xs \<noteq> []"
proof (induction sep cur xs rule: split_on.induct)
  case (1 sep cur xs)
  then show ?case by (subst split_on.simps) auto
qed

lemma intersperse_split: "intersperse sep (split_on sep cur xs) = cur @ xs"
proof (induction sep cur xs rule: split_on.induct)
  case (1 sep cur xs)
  show ?case
  proof (cases "xs = []")
    case True
    then show ?thesis by (simp add: split_on.simps)
  next
    case ne: False
    show ?thesis
    proof (cases "sep \<noteq> [] \<and> take (length sep) xs = sep")
      case True
      then have xs: "xs = sep @ drop (length sep) xs" by (metis append_take_drop_id)
      have "split_on sep cur xs = cur # split_on sep [] (drop (length sep) xs)"
        using ne True by (subst split_on.simps) simp
      moreover obtain y ys where y: "split_on sep [] (drop (length sep) xs) = y # ys"
        using split_on_ne by (meson neq_Nil_conv)
      ultimately have "intersperse sep (split_on sep cur xs) = cur @ sep @ intersperse sep (split_on sep [] (drop (length sep) xs))"
        by simp
      also have "\<dots> = cur @ xs" using 1(1) [OF ne True] xs by (metis append_Nil)
      finally show ?thesis .
    next
      case False
      then have "split_on sep cur xs = split_on sep (cur @ [hd xs]) (tl xs)" using ne by (subst split_on.simps) auto
      with 1(2) [OF ne False] ne show ?thesis by simp
    qed
  qed
qed

lemma memcmp_eq: "length xs = length ys \<Longrightarrow> memcmp xs ys = 0 \<longleftrightarrow> xs = ys"
  using memcmp_lexord [of xs ys] by blast

lemma sep_at_eq:
  assumes "j + seplen \<le> length s" "seplen \<le> length sep" "0 < seplen"
  shows "sep_at s sep seplen j = Inr (take seplen (drop j s) = take seplen sep)"
proof -
  have "take 1 (drop j s) = take 1 sep \<Longrightarrow> seplen = 1 \<Longrightarrow> take seplen (drop j s) = take seplen sep" by simp
  with assms show ?thesis by (auto simp: sep_at_def peek_ok memcmp_eq)
qed

text \<open>What the tokens hold.\<close>

definition tokens :: "sds list \<Rightarrow> bytes list \<Rightarrow> bool" where
  "tokens ts xss \<longleftrightarrow> list_all2 (\<lambda>t xs. sds_ok t \<and> content t = xs) ts xss"

definition gives_tokens :: "allocator \<Rightarrow> sds_fault + sds list option \<Rightarrow> bytes list \<Rightarrow> bool" where
  "gives_tokens A m xss \<longleftrightarrow>
     (\<exists>r. m = Inr r \<and> (\<forall>ts. r = Some ts \<longrightarrow> tokens ts xss) \<and> ((\<forall>n. grants A n) \<longrightarrow> r \<noteq> None))"

lemma next_token_gives:
  assumes "n < 2 ^ 62" "start + n \<le> length s" "length toks < slots" "tokens toks xss"
  shows "gives_tokens A (next_token A s start n toks slots) (xss @ [take n (drop start s)])"
proof -
  have "\<forall>b. Some (drop start s) = Some b \<longrightarrow> n \<le> length b" using assms(2) by simp
  from sdsnewlen_yields [OF assms(1) this, of A]
  have y: "yields A (sdsnewlen A (Some (drop start s)) n) (take n (drop start s))" by (simp add: initial_def)
  then show ?thesis
  proof (cases rule: yieldsE)
    case null
    then show ?thesis by (simp add: next_token_def gives_tokens_def)
  next
    case (string t)
    with assms(3,4) show ?thesis
      by (simp add: next_token_def gives_tokens_def store_token_def tokens_def list_all2_appendI)
  qed
qed

lemma split_on_short: "length xs < length sep \<Longrightarrow> split_on sep cur xs = [cur @ xs]"
proof (induction sep cur xs rule: split_on.induct)
  case (1 sep cur xs)
  show ?case
  proof (cases "xs = []")
    case True
    then show ?thesis by (simp add: split_on.simps)
  next
    case ne: False
    have no: "\<not> (sep \<noteq> [] \<and> take (length sep) xs = sep)" using 1(3) by auto
    then have "split_on sep cur xs = split_on sep (cur @ [hd xs]) (tl xs)" using ne by (subst split_on.simps) auto
    with 1(2) [OF ne no] 1(3) ne show ?thesis by simp
  qed
qed

definition seg :: "bytes \<Rightarrow> nat \<Rightarrow> nat \<Rightarrow> bytes" where
  "seg xs i j = take (j - i) (drop i xs)"

lemma seg_same [simp]: "seg xs i i = []"
  by (simp add: seg_def)

lemma seg_Suc: "i \<le> j \<Longrightarrow> j < length xs \<Longrightarrow> seg xs i (Suc j) = seg xs i j @ [xs ! j]"
  by (simp add: seg_def Suc_diff_le take_Suc_conv_app_nth)

lemma seg_rest: "i \<le> j \<Longrightarrow> seg xs i j @ drop j xs = drop i xs"
  by (simp add: seg_def) (metis append_take_drop_id drop_drop le_add_diff_inverse2)

lemma split_loop_gives:
  assumes len: "len \<le> length s" "length s < 2 ^ 31" and sep: "0 < seplen" "seplen \<le> length sep"
  shows "start \<le> j \<Longrightarrow> j \<le> len \<Longrightarrow> tokens toks xss \<Longrightarrow> length toks < slots \<Longrightarrow> 3 \<le> slots \<Longrightarrow>
    gives_tokens A (split_loop A s len sep seplen toks slots start j)
      (xss @ split_on (take seplen sep) (seg (take len s) start j) (drop j (take len s)))"
proof (induction "len - j" arbitrary: j start toks slots xss rule: less_induct)
  case less
  note start = less.prems(1) and j = less.prems(2) and toks = less.prems(3) and slots = less.prems(4,5)
  let ?xs = "take len s" and ?sep = "take seplen sep" and ?slots = "slots_for slots (length toks)"
  have lsep: "length ?sep = seplen" using sep by simp
  have lx: "length ?xs = len" using len by simp
  have slots': "length toks + 1 < ?slots" "3 \<le> ?slots" using slots by (auto simp: slots_for_def)
  show ?case
  proof (cases "j < len - (seplen - 1)")
    case False
    then have "length (drop j ?xs) < length ?sep" using lx lsep sep(1) j by simp
    then have "split_on ?sep (seg ?xs start j) (drop j ?xs) = [drop start ?xs]"
      using split_on_short seg_rest [OF start] by simp
    also have "drop start ?xs = take (len - start) (drop start s)" by (simp add: drop_take)
    finally have r: "split_on ?sep (seg ?xs start j) (drop j ?xs) = [take (len - start) (drop start s)]" .
    have "split_loop A s len sep seplen toks slots start j = next_token A s start (len - start) toks slots"
      using False by (subst split_loop.simps) simp
    then show ?thesis unfolding r using next_token_gives [OF _ _ slots(1) toks, of "len - start" start s A] start j len by simp
  next
    case True
    then have jl: "j + seplen \<le> len" "j < len" using sep(1) by simp_all
    have at: "sep_at s sep seplen j = Inr (take seplen (drop j s) = ?sep)" using jl len sep by (intro sep_at_eq) simp_all
    have tk: "take (length ?sep) (drop j ?xs) = take seplen (drop j s)" using jl len lsep by (simp add: drop_take min_def)
    have ne: "drop j ?xs \<noteq> []" "?sep \<noteq> []" using jl lx lsep sep(1) by auto
    show ?thesis
    proof (cases "slots < length toks + 2 \<and> \<not> grants A (8 * ?slots)")
      case no_mem: True
      then have "split_loop A s len sep seplen toks slots start j = Inr None"
        using True by (subst split_loop.simps) simp
      then show ?thesis using no_mem by (auto simp: gives_tokens_def)
    next
      case mem: False
      show ?thesis
      proof (cases "take seplen (drop j s) = ?sep")
        case found: True
        have ref: "split_on ?sep (seg ?xs start j) (drop j ?xs) = seg ?xs start j # split_on ?sep [] (drop (j + seplen) ?xs)"
          using ne found tk lsep by (subst split_on.simps) (simp add: add.commute)
        have sg: "seg ?xs start j = take (j - start) (drop start s)" using jl by (simp add: seg_def drop_take min_def)
        have nt: "gives_tokens A (next_token A s start (j - start) toks ?slots) (xss @ [seg ?xs start j])"
          unfolding sg using next_token_gives [OF _ _ _ toks, of "j - start" start s ?slots A] start j len slots'(1) by simp
        then obtain r where r: "next_token A s start (j - start) toks ?slots = Inr r"
          "\<forall>ts. r = Some ts \<longrightarrow> tokens ts (xss @ [seg ?xs start j])" "(\<forall>n. grants A n) \<longrightarrow> r \<noteq> None"
          by (auto simp: gives_tokens_def)
        have step: "split_loop A s len sep seplen toks slots start j =
            (case r of None \<Rightarrow> Inr None | Some ts \<Rightarrow> split_loop A s len sep seplen ts ?slots (j + seplen) (j + seplen))"
          using True mem at found r(1) sep(1) by (subst split_loop.simps) auto
        show ?thesis
        proof (cases r)
          case None
          with step r(3) show ?thesis by (simp add: gives_tokens_def)
        next
          case (Some ts)
          with r(2) have ts: "tokens ts (xss @ [seg ?xs start j])" by simp
          have "length ts = length toks + 1" using ts toks by (auto simp: tokens_def dest!: list_all2_lengthD)
          then have lt: "length ts < ?slots" using slots'(1) by simp
          have "gives_tokens A (split_loop A s len sep seplen ts ?slots (j + seplen) (j + seplen))
              ((xss @ [seg ?xs start j]) @ split_on ?sep (seg ?xs (j + seplen) (j + seplen)) (drop (j + seplen) ?xs))"
            using jl sep(1) by (intro less.hyps ts lt slots'(2)) simp_all
          with step Some ref show ?thesis by simp
        qed
      next
        case no: False
        have ref: "split_on ?sep (seg ?xs start j) (drop j ?xs) = split_on ?sep (seg ?xs start (Suc j)) (drop (Suc j) ?xs)"
          using ne no tk lx jl start by (subst split_on.simps) (simp add: seg_Suc hd_drop_conv_nth drop_Suc tl_drop)
        have step: "split_loop A s len sep seplen toks slots start j = split_loop A s len sep seplen toks ?slots start (Suc j)"
          using True mem at no by (subst split_loop.simps) auto
        have "gives_tokens A (split_loop A s len sep seplen toks ?slots start (Suc j))
            (xss @ split_on ?sep (seg ?xs start (Suc j)) (drop (Suc j) ?xs))"
          using jl start slots' by (intro less.hyps toks) simp_all
        then show ?thesis unfolding step ref .
      qed
    qed
  qed
qed

lemma sdssplitlen_gives:
  assumes "0 < len" "nat len \<le> length s" "length s < 2 ^ 31" "0 < seplen" "nat seplen \<le> length sep"
  shows "gives_tokens A (sdssplitlen A s len sep seplen) (split_on (take (nat seplen) sep) [] (take (nat len) s))"
proof (cases "grants A (8 * 5)")
  case True
  have "gives_tokens A (split_loop A s (nat len) sep (nat seplen) [] 5 0 0)
      ([] @ split_on (take (nat seplen) sep) (seg (take (nat len) s) 0 0) (drop 0 (take (nat len) s)))"
    using assms by (intro split_loop_gives) (simp_all add: tokens_def)
  with True assms show ?thesis by (simp add: sdssplitlen_def)
next
  case False
  with assms show ?thesis by (auto simp: sdssplitlen_def gives_tokens_def)
qed

subsection \<open>Joining\<close>

text \<open>The result of each call is passed on without a test for NULL.\<close>

fun join_loop ::
  "('a \<Rightarrow> sds \<Rightarrow> sds_fault + sds option) \<Rightarrow> (sds \<Rightarrow> sds_fault + sds option) \<Rightarrow> 'a list \<Rightarrow> sds option \<Rightarrow> sds_fault + sds option" where
  "join_loop cat sep [] join = Inr join"
| "join_loop cat sep [x] join = on_sds (cat x) join"
| "join_loop cat sep (x # y # ys) join =
    rbind (on_sds (cat x) join) (\<lambda>join. rbind (on_sds sep join) (\<lambda>join. join_loop cat sep (y # ys) join))"

definition sdsjoin :: "allocator \<Rightarrow> bytes list \<Rightarrow> bytes \<Rightarrow> sds_fault + sds option" where
  "sdsjoin A argv sep = rbind (sdsempty A) (join_loop (sdscat A) (sdscat A sep) argv)"

definition sdsjoinsds :: "allocator \<Rightarrow> sds list \<Rightarrow> bytes \<Rightarrow> nat \<Rightarrow> sds_fault + sds option" where
  "sdsjoinsds A argv sep seplen = rbind (sdsempty A) (join_loop (sdscatsds A) (sdscatlen A sep seplen) argv)"

lemma yields_granted:
  assumes "yields A m xs" "\<forall>n. grants A n"
  obtains s where "m = Inr (Some s)" "sds_ok s" "content s = xs" "sdslen s = length xs"
  using assms length_content by (cases rule: yieldsE) auto

lemma join_loop_yields:
  assumes g: "\<forall>n. grants A n" and cap: "N < 2 ^ 62"
    and cat: "\<And>x s. x \<in> set argv \<Longrightarrow> sds_ok s \<Longrightarrow> sdslen s + length (f x) \<le> N \<Longrightarrow> yields A (cat x s) (content s @ f x)"
    and sep: "\<And>s. sds_ok s \<Longrightarrow> sdslen s + length u \<le> N \<Longrightarrow> yields A (sep s) (content s @ u)"
  shows "sds_ok s \<Longrightarrow> sdslen s + length (intersperse u (map f argv)) \<le> N \<Longrightarrow>
    yields A (join_loop cat sep argv (Some s)) (content s @ intersperse u (map f argv))"
  using cat
proof (induction argv arbitrary: s rule: induct_list012)
  case 1
  then show ?case by (simp add: yields_def)
next
  case (2 x)
  then show ?case by (simp add: on_sds_def)
next
  case (3 x y zs)
  have "yields A (cat x s) (content s @ f x)" using 3(3,4) by (intro 3(5)) simp_all
  then obtain s1 where s1: "cat x s = Inr (Some s1)" "sds_ok s1" "content s1 = content s @ f x" "sdslen s1 = sdslen s + length (f x)"
    using g length_content [OF 3(3)] by (elim yields_granted) simp_all
  have "yields A (sep s1) (content s1 @ u)" using s1 3(4) by (intro sep) simp_all
  then obtain s2 where s2: "sep s1 = Inr (Some s2)" "sds_ok s2" "content s2 = content s1 @ u" "sdslen s2 = sdslen s1 + length u"
    using g length_content [OF s1(2)] by (elim yields_granted) simp_all
  have "yields A (join_loop cat sep (y # zs) (Some s2)) (content s2 @ intersperse u (map f (y # zs)))"
  proof (rule 3(2) [OF s2(2)])
    show "sdslen s2 + length (intersperse u (map f (y # zs))) \<le> N" using 3(4) s1(4) s2(4) by simp
    show "yields A (cat x s) (content s @ f x)" if "x \<in> set (y # zs)" "sds_ok s" "sdslen s + length (f x) \<le> N" for x s
      using that by (intro 3(5)) auto
  qed
  with s1 s2 show ?case by (simp add: on_sds_def)
qed

lemma sdsjoinsds_yields:
  assumes "\<forall>n. grants A n" "tokens ts xss" "n \<le> length sep" "length (intersperse (take n sep) xss) < 2 ^ 62"
  shows "yields A (sdsjoinsds A ts sep n) (intersperse (take n sep) xss)"
proof -
  let ?u = "take n sep"
  obtain s where s: "sdsempty A = Inr (Some s)" "sds_ok s" "content s = []" "sdslen s = 0"
    by (rule yields_granted [OF sdsempty_yields assms(1)]) simp
  have ts: "map content ts = xss" "\<forall>t \<in> set ts. sds_ok t"
    using assms(2) by (auto simp: tokens_def list_all2_conv_all_nth in_set_conv_nth intro!: nth_equalityI)
  have "yields A (join_loop (sdscatsds A) (sdscatlen A sep n) ts (Some s)) (content s @ intersperse ?u (map content ts))"
  proof (rule join_loop_yields [OF assms(1), where N = "length (intersperse ?u xss)"])
    show "yields A (sdscatsds A x r) (content r @ content x)"
      if "x \<in> set ts" "sds_ok r" "sdslen r + length (content x) \<le> length (intersperse ?u xss)" for x r
      using that ts(2) assms(4) length_content [of x] by (intro sdscatsds_yields) auto
    show "yields A (sdscatlen A sep n r) (content r @ ?u)"
      if "sds_ok r" "sdslen r + length ?u \<le> length (intersperse ?u xss)" for r
      using that assms(3,4) by (intro catlen_yields) simp_all
  qed (use s ts assms in simp_all)
  with s ts show ?thesis by (simp add: sdsjoinsds_def)
qed

subsection \<open>The quoted form\<close>

text \<open>The three formats \<open>sdscatrepr\<close> passes to \<open>sdscatprintf\<close>: \<open>%c\<close> and \<open>%02x\<close> of a character.\<close>

definition hex_char :: "nat \<Rightarrow> char" where
  "hex_char n = (if n < 10 then char_of (48 + n) else char_of (87 + n))"

definition hex2 :: "char \<Rightarrow> bytes" where
  "hex2 c = [hex_char (of_char c div 16), hex_char (of_char c mod 16)]"

fun printf_char :: "bytes \<Rightarrow> char \<Rightarrow> bytes" where
  "printf_char [] c = []"
| "printf_char (x # f) c =
    (if x = CHR ''%'' then
       (if take 1 f = ''c'' then c # printf_char (drop 1 f) c
        else if take 3 f = ''02x'' then hex2 c @ printf_char (drop 3 f) c
        else x # printf_char f c)
     else x # printf_char f c)"

definition isprint :: "char \<Rightarrow> bool" where
  "isprint c \<longleftrightarrow> 32 \<le> (of_char c :: nat) \<and> (of_char c :: nat) < 127"

definition isspace :: "char \<Rightarrow> bool" where
  "isspace c \<longleftrightarrow> c = CHR '' '' \<or> 9 \<le> (of_char c :: nat) \<and> (of_char c :: nat) \<le> 13"

abbreviation dquote :: char where "dquote \<equiv> CHR 0x22"
abbreviation bslash :: char where "bslash \<equiv> CHR 0x5C"
abbreviation squote :: char where "squote \<equiv> CHR 0x27"
abbreviation tab :: char where "tab \<equiv> CHR 0x09"
abbreviation bel :: char where "bel \<equiv> CHR 0x07"
abbreviation bs :: char where "bs \<equiv> CHR 0x08"

text \<open>A call that may not return, followed by another.\<close>

definition and_then ::
  "(sds_fault + sds option) option \<Rightarrow> (sds option \<Rightarrow> (sds_fault + sds option) option) \<Rightarrow> (sds_fault + sds option) option" where
  "and_then m f = (case m of None \<Rightarrow> None | Some (Inl e) \<Rightarrow> Some (Inl e) | Some (Inr s) \<Rightarrow> f s)"

definition lit_cat :: "allocator \<Rightarrow> bytes \<Rightarrow> sds option \<Rightarrow> (sds_fault + sds option) option" where
  "lit_cat A t s = Some (on_sds (sdscatlen A (t @ [nul]) (length t)) s)"

definition printf_cat :: "allocator \<Rightarrow> bytes \<Rightarrow> char \<Rightarrow> sds option \<Rightarrow> (sds_fault + sds option) option" where
  "printf_cat A fmt c s =
    (case s of None \<Rightarrow> Some (Inl NullPtr) | Some s \<Rightarrow> sdscatprintf A printf_char (fmt @ [nul]) c s)"

definition repr_step :: "allocator \<Rightarrow> char \<Rightarrow> sds option \<Rightarrow> (sds_fault + sds option) option" where
  "repr_step A c s =
    (if c = bslash \<or> c = dquote then printf_cat A [bslash, CHR ''%'', CHR ''c''] c s
     else if c = lf then lit_cat A [bslash, CHR ''n''] s
     else if c = cr then lit_cat A [bslash, CHR ''r''] s
     else if c = tab then lit_cat A [bslash, CHR ''t''] s
     else if c = bel then lit_cat A [bslash, CHR ''a''] s
     else if c = bs then lit_cat A [bslash, CHR ''b''] s
     else if isprint c then printf_cat A ''%c'' c s
     else printf_cat A ([bslash, CHR ''x''] @ ''%02x'') c s)"

fun repr_loop :: "allocator \<Rightarrow> bytes \<Rightarrow> nat \<Rightarrow> sds option \<Rightarrow> (sds_fault + sds option) option" where
  "repr_loop A p 0 s = Some (Inr s)"
| "repr_loop A [] (Suc n) s = Some (Inl OutOfBounds)"
| "repr_loop A (c # p) (Suc n) s = and_then (repr_step A c s) (repr_loop A p n)"

definition sdscatrepr :: "allocator \<Rightarrow> bytes \<Rightarrow> nat \<Rightarrow> sds \<Rightarrow> (sds_fault + sds option) option" where
  "sdscatrepr A p len s =
    and_then (lit_cat A [dquote] (Some s)) (\<lambda>s. and_then (repr_loop A p len s) (lit_cat A [dquote]))"

text \<open>The text it appends.\<close>

definition repr_char :: "char \<Rightarrow> bytes" where
  "repr_char c =
    (if c = bslash \<or> c = dquote then [bslash, c] else if c = lf then [bslash, CHR ''n''] else if c = cr then [bslash, CHR ''r'']
     else if c = tab then [bslash, CHR ''t''] else if c = bel then [bslash, CHR ''a''] else if c = bs then [bslash, CHR ''b'']
     else if isprint c then [c] else [bslash, CHR ''x''] @ hex2 c)"

definition repr_text :: "bytes \<Rightarrow> bytes" where
  "repr_text xs = dquote # concat (map repr_char xs) @ [dquote]"

definition returns :: "allocator \<Rightarrow> (sds_fault + sds option) option \<Rightarrow> bytes \<Rightarrow> bool" where
  "returns A m xs \<longleftrightarrow> (\<exists>r. m = Some r \<and> yields A r xs)"

lemma of_char_lt: "(of_char (c :: char) :: nat) < 256"
  by (metis mod_less_divisor of_char_mod_256 zero_less_numeral)

definition is_hex_digit :: "char \<Rightarrow> bool" where
  "is_hex_digit c \<longleftrightarrow> (let n = of_char c :: nat in 48 \<le> n \<and> n \<le> 57 \<or> 97 \<le> n \<and> n \<le> 102 \<or> 65 \<le> n \<and> n \<le> 70)"

definition hex_digit_to_int :: "char \<Rightarrow> nat" where
  "hex_digit_to_int c =
    (let n = of_char c :: nat in
     if 48 \<le> n \<and> n \<le> 57 then n - 48 else if 97 \<le> n \<and> n \<le> 102 then n - 87
     else if 65 \<le> n \<and> n \<le> 70 then n - 55 else 0)"

lemma hex_char_facts:
  assumes "n < 16"
  shows "hex_char n \<noteq> nul" "is_hex_digit (hex_char n)" "hex_digit_to_int (hex_char n) = n"
proof -
  have "list_all (\<lambda>n. hex_char n \<noteq> nul \<and> is_hex_digit (hex_char n) \<and> hex_digit_to_int (hex_char n) = n) [0..<16]"
    by code_simp
  then have "\<forall>n < 16. hex_char n \<noteq> nul \<and> is_hex_digit (hex_char n) \<and> hex_digit_to_int (hex_char n) = n"
    by (simp add: list_all_iff atLeast0LessThan)
  with assms show "hex_char n \<noteq> nul" "is_hex_digit (hex_char n)" "hex_digit_to_int (hex_char n) = n" by blast+
qed

lemma hex2_not_nul: "nul \<notin> set (hex2 c)"
proof -
  have "(of_char c :: nat) div 16 < 16" "(of_char c :: nat) mod 16 < 16" using of_char_lt [of c] by linarith+
  from this [THEN hex_char_facts(1)] show ?thesis by (auto simp: hex2_def)
qed

lemma returns_if:
  "(P \<Longrightarrow> returns A x (w @ u)) \<Longrightarrow> (\<not> P \<Longrightarrow> returns A y (w @ v)) \<Longrightarrow>
   returns A (if P then x else y) (w @ (if P then u else v))"
  by simp

lemma returns_granted:
  assumes "returns A m xs" "\<forall>n. grants A n"
  obtains s where "m = Some (Inr (Some s))" "sds_ok s" "content s = xs" "sdslen s = length xs"
  using assms unfolding returns_def by (metis yields_granted)

lemma lit_cat_returns: "sds_ok s \<Longrightarrow> sdslen s + length t < 2 ^ 62 \<Longrightarrow> returns A (lit_cat A t (Some s)) (content s @ t)"
  using catlen_yields [of s "length t" "t @ [nul]" A] by (simp add: lit_cat_def returns_def on_sds_def)

lemma printf_cat_returns:
  assumes "sds_ok s" "nul \<notin> set fmt" "length fmt < 2 ^ 59" "nul \<notin> set (printf_char fmt c)" "length (printf_char fmt c) < 2 ^ 60"
    "sdslen s < 2 ^ 60"
  shows "returns A (printf_cat A fmt c (Some s)) (content s @ printf_char fmt c)"
proof -
  have f: "takeWhile (\<lambda>c. c \<noteq> nul) (fmt @ [nul]) = fmt" using assms(2) by (auto simp: takeWhile_tail)
  have t: "takeWhile (\<lambda>c. c \<noteq> nul) (printf_char fmt c) = printf_char fmt c" using assms(4) by (auto simp: takeWhile_eq_all_conv)
  from sdscatvprintf_yields [OF assms(1), of "fmt @ [nul]" printf_char c A] assms f t
  show ?thesis by (simp add: printf_cat_def returns_def sdscatprintf_def)
qed

lemma repr_step_returns:
  assumes "sds_ok s" "sdslen s < 2 ^ 60"
  shows "returns A (repr_step A c (Some s)) (content s @ repr_char c)"
proof -
  have lit: "returns A (lit_cat A t (Some s)) (content s @ t)" if "length t < 10" for t
    using that assms by (intro lit_cat_returns) simp_all
  have pr: "returns A (printf_cat A fmt c (Some s)) (content s @ t)"
    if "printf_char fmt c = t" "nul \<notin> set fmt" "length fmt < 10" "nul \<notin> set t" "length t < 10" for fmt t
    using that assms printf_cat_returns [of s fmt c A] by simp
  have p: "c \<noteq> nul" if "isprint c" using that by (auto simp: isprint_def)
  have h: "length (hex2 c) = 2" by (simp add: hex2_def)
  show ?thesis
    unfolding repr_step_def repr_char_def
    by (intro returns_if lit pr) (use p h hex2_not_nul [of c] in auto)
qed

lemma repr_loop_returns:
  assumes "\<forall>n. grants A n"
  shows "n \<le> length p \<Longrightarrow> sds_ok s \<Longrightarrow> sdslen s + 4 * n < 2 ^ 60 \<Longrightarrow>
    returns A (repr_loop A p n (Some s)) (content s @ concat (map repr_char (take n p)))"
proof (induction n arbitrary: p s)
  case 0
  then show ?case by (simp add: returns_def yields_def)
next
  case (Suc n)
  then obtain c q where p: "p = c # q" by (cases p) auto
  have "returns A (repr_step A c (Some s)) (content s @ repr_char c)" using Suc.prems by (intro repr_step_returns) simp_all
  then obtain s1 where s1: "repr_step A c (Some s) = Some (Inr (Some s1))" "sds_ok s1" "content s1 = content s @ repr_char c"
    "sdslen s1 = length (content s @ repr_char c)" using assms by (rule returns_granted)
  have "length (repr_char c) \<le> 4" by (simp add: repr_char_def hex2_def)
  then have "sdslen s1 + 4 * n < 2 ^ 60" using s1(4) Suc.prems length_content [OF Suc.prems(2)] by simp
  from Suc.IH [of q s1] this s1 Suc.prems p show ?case by (simp add: and_then_def)
qed

lemma sdscatrepr_returns:
  assumes "\<forall>n. grants A n" "n \<le> length p" "sds_ok s" "sdslen s + 4 * n + 2 < 2 ^ 60"
  shows "returns A (sdscatrepr A p n s) (content s @ repr_text (take n p))"
proof -
  have "returns A (lit_cat A [dquote] (Some s)) (content s @ [dquote])" using assms by (intro lit_cat_returns) simp_all
  then obtain s1 where s1: "lit_cat A [dquote] (Some s) = Some (Inr (Some s1))" "sds_ok s1" "content s1 = content s @ [dquote]"
    "sdslen s1 = length (content s @ [dquote])" using assms(1) by (rule returns_granted)
  have l1: "sdslen s1 = sdslen s + 1" using s1(4) length_content [OF assms(3)] by simp
  have "returns A (repr_loop A p n (Some s1)) (content s1 @ concat (map repr_char (take n p)))"
    using assms s1(2) l1 by (intro repr_loop_returns) simp_all
  then obtain s2 where s2: "repr_loop A p n (Some s1) = Some (Inr (Some s2))" "sds_ok s2"
    "content s2 = content s1 @ concat (map repr_char (take n p))" "sdslen s2 = length (content s1 @ concat (map repr_char (take n p)))"
    using assms(1) by (rule returns_granted)
  have "length (concat (map repr_char xs)) \<le> 4 * length xs" for xs
    by (induction xs) (auto simp: repr_char_def hex2_def)
  from this [of "take n p"] have "sdslen s2 + 1 < 2 ^ 62"
    using s2(4) s1(4) l1 assms(2,4) length_content [OF s1(2)] by simp
  then have "returns A (lit_cat A [dquote] (Some s2)) (content s2 @ [dquote])" using s2(2) by (intro lit_cat_returns) simp_all
  with s1 s2 show ?thesis by (simp add: sdscatrepr_def and_then_def repr_text_def)
qed

end
