(* ===== verification/Sds_Args.thy ===== *)
theory Sds_Args
  imports Sds_Split
begin

text \<open>
  \<open>sdssplitargs\<close> of \<open>src/commlib/redis/sds.cpp\<close>: a line is cut into arguments, plain or in double or
  single quotes.  The line is the C string without its terminator; a look-ahead of the code stops at
  the terminator.
\<close>

declare rbind.simps [simp]

lemma rbind_cong [fundef_cong]: "m = m' \<Longrightarrow> (\<And>x. m' = Inr x \<Longrightarrow> f x = g x) \<Longrightarrow> rbind m f = rbind m' g"
  by (cases m') auto

datatype quote_mode = NoQ | InQ | InSq

definition unescape :: "char \<Rightarrow> char" where
  "unescape c = (if c = CHR ''n'' then lf else if c = CHR ''r'' then cr else if c = CHR ''t'' then tab
     else if c = CHR ''b'' then bs else if c = CHR ''a'' then bel else c)"

definition hex_escape :: "bytes \<Rightarrow> bool" where
  "hex_escape r \<longleftrightarrow> 3 \<le> length r \<and> r ! 0 = CHR ''x'' \<and> is_hex_digit (r ! 1) \<and> is_hex_digit (r ! 2)"

definition hex_byte :: "bytes \<Rightarrow> char" where
  "hex_byte r = char_of (hex_digit_to_int (r ! 1) * 16 + hex_digit_to_int (r ! 2))"

definition ends_quote :: "bytes \<Rightarrow> bool" where
  "ends_quote r \<longleftrightarrow> r = [] \<or> isspace (hd r)"

definition add_byte :: "allocator \<Rightarrow> char \<Rightarrow> sds option \<Rightarrow> sds_fault + sds option" where
  "add_byte A c cur = on_sds (sdscatlen A [c] 1) cur"

text \<open>
  One argument: from the place \<open>p\<close> to its end.  \<open>Inr None\<close> is the jump to \<open>err\<close>; otherwise the
  argument and the rest of the line.
\<close>

function token_loop :: "allocator \<Rightarrow> quote_mode \<Rightarrow> bytes \<Rightarrow> sds option \<Rightarrow> sds_fault + (sds option \<times> bytes) option" where
  "token_loop A InQ p cur =
    (case p of [] \<Rightarrow> Inr None
     | c # r \<Rightarrow>
       if c = bslash \<and> hex_escape r then rbind (add_byte A (hex_byte r) cur) (\<lambda>cur. token_loop A InQ (drop 3 r) cur)
       else if c = bslash \<and> r \<noteq> [] then rbind (add_byte A (unescape (hd r)) cur) (\<lambda>cur. token_loop A InQ (tl r) cur)
       else if c = dquote then (if ends_quote r then Inr (Some (cur, r)) else Inr None)
       else rbind (add_byte A c cur) (\<lambda>cur. token_loop A InQ r cur))"
| "token_loop A InSq p cur =
    (case p of [] \<Rightarrow> Inr None
     | c # r \<Rightarrow>
       if c = bslash \<and> r \<noteq> [] \<and> hd r = squote then rbind (add_byte A squote cur) (\<lambda>cur. token_loop A InSq (tl r) cur)
       else if c = squote then (if ends_quote r then Inr (Some (cur, r)) else Inr None)
       else rbind (add_byte A c cur) (\<lambda>cur. token_loop A InSq r cur))"
| "token_loop A NoQ p cur =
    (case p of [] \<Rightarrow> Inr (Some (cur, []))
     | c # r \<Rightarrow>
       if c = CHR '' '' \<or> c = lf \<or> c = cr \<or> c = tab then Inr (Some (cur, r))
       else if c = dquote then token_loop A InQ r cur
       else if c = squote then token_loop A InSq r cur
       else rbind (add_byte A c cur) (\<lambda>cur. token_loop A NoQ r cur))"
  by pat_completeness auto
termination by (relation "measure (\<lambda>(A, m, p, cur). length p)") auto

declare token_loop.simps [simp del]

lemma token_loop_rest: "token_loop A m p cur = Inr (Some (cur', r)) \<Longrightarrow> length r \<le> length p - 1"
proof (induction A m p cur rule: token_loop.induct)
  case (1 A p cur)
  show ?case
    using 1(4) by (subst (asm) token_loop.simps) (fastforce simp: rbind_Inr_iff split: list.splits if_splits dest: 1(1-3))
next
  case (2 A p cur)
  show ?case
    using 2(3) by (subst (asm) token_loop.simps) (fastforce simp: rbind_Inr_iff split: list.splits if_splits dest: 2(1-2))
next
  case (3 A p cur)
  show ?case
    using 3(4) by (subst (asm) token_loop.simps) (fastforce simp: rbind_Inr_iff split: list.splits if_splits dest: 3(1-3))
qed

text \<open>
  The arguments of a line.  The growth of the vector is not tested either: a failed \<open>realloc\<close> is a
  null vector, which is then written to.
\<close>

function args_loop :: "allocator \<Rightarrow> bytes \<Rightarrow> sds option list \<Rightarrow> sds_fault + sds option list option" where
  "args_loop A p vec =
    (let q = dropWhile isspace p in
     if q \<noteq> [] then
       rbind (sdsempty A) (\<lambda>cur. rbind (token_loop A NoQ q cur) (\<lambda>res. case res of None \<Rightarrow> Inr None
         | Some (cur, rest) \<Rightarrow>
             if grants A (8 * (length vec + 1)) then args_loop A rest (vec @ [cur]) else Inl NullPtr))
     else if vec = [] then (if grants A 8 then Inr (Some []) else Inr None)
     else Inr (Some vec))"
  by pat_completeness auto
termination
proof (relation "measure (\<lambda>(A, p, vec). length p)", simp, clarify)
  fix A p vec q cur0 cur rest and vec2 :: "sds option list"
  assume "dropWhile isspace p \<noteq> []" "token_loop A NoQ (dropWhile isspace p) cur0 = Inr (Some (cur, rest))"
  then have "length rest < length (dropWhile isspace p)" using token_loop_rest by (metis Suc_pred' le_imp_less_Suc length_greater_0_conv)
  also have "\<dots> \<le> length p" by (rule length_dropWhile_le)
  finally show "((A, rest, vec @ [cur]), A, p, vec) \<in> measure (\<lambda>(A, p, vec). length p)" by simp
qed

declare args_loop.simps [simp del]

definition sdssplitargs :: "allocator \<Rightarrow> bytes \<Rightarrow> sds_fault + sds option list option" where
  "sdssplitargs A line = rbind (c_string line) (\<lambda>p. args_loop A p [])"

subsection \<open>Reading back what sdscatrepr wrote\<close>

lemma hex_byte_hex2: "hex_byte (CHR ''x'' # hex2 c @ p) = c" "hex_escape (CHR ''x'' # hex2 c @ p)"
proof -
  have d: "(of_char c :: nat) div 16 < 16" "(of_char c :: nat) mod 16 < 16" using of_char_lt [of c] by linarith+
  have "(of_char c :: nat) div 16 * 16 + of_char c mod 16 = of_char c" by simp
  then show "hex_byte (CHR ''x'' # hex2 c @ p) = c"
    using d by (simp add: hex_byte_def hex2_def hex_char_facts(3))
  show "hex_escape (CHR ''x'' # hex2 c @ p)"
    using d by (simp add: hex_escape_def hex2_def hex_char_facts(2) numeral_2_eq_2)
qed

lemma not_hex_escape: "c \<noteq> CHR ''x'' \<Longrightarrow> \<not> hex_escape (c # p)"
  by (simp add: hex_escape_def)

lemma unescape_other: "c = bslash \<or> c = dquote \<Longrightarrow> unescape c = c"
  by (auto simp: unescape_def)

lemma token_repr_char:
  "token_loop A InQ (repr_char c @ p) cur = rbind (add_byte A c cur) (\<lambda>cur. token_loop A InQ p cur)"
proof -
  have esc: "token_loop A InQ (bslash # d # p) cur = rbind (add_byte A (unescape d) cur) (\<lambda>cur. token_loop A InQ p cur)"
    if "d \<noteq> CHR ''x''" for d
    using that by (subst token_loop.simps(1)) (simp add: not_hex_escape)
  have plain: "token_loop A InQ (c # p) cur = rbind (add_byte A c cur) (\<lambda>cur. token_loop A InQ p cur)"
    if "c \<noteq> bslash" "c \<noteq> dquote"
    using that by (subst token_loop.simps(1)) simp
  have hex: "token_loop A InQ (bslash # CHR ''x'' # hex2 c @ p) cur = rbind (add_byte A c cur) (\<lambda>cur. token_loop A InQ p cur)"
    by (subst token_loop.simps(1)) (simp add: hex_byte_hex2, simp add: hex2_def)
  consider "c = bslash \<or> c = dquote" | "c = lf" | "c = cr" | "c = tab" | "c = bel" | "c = bs"
    | "c \<notin> {bslash, dquote, lf, cr, tab, bel, bs}" by blast
  then show ?thesis
  proof cases
    case 1
    with esc [of c] unescape_other [OF 1] show ?thesis by (auto simp: repr_char_def)
  next
    case 7
    with plain hex show ?thesis by (simp add: repr_char_def)
  qed (simp_all add: repr_char_def esc unescape_def)
qed

lemma add_byte_yields: "sds_ok s \<Longrightarrow> sdslen s + 1 < 2 ^ 62 \<Longrightarrow> yields A (add_byte A c (Some s)) (content s @ [c])"
  using catlen_yields [of s 1 "[c]" A] by (simp add: add_byte_def on_sds_def)

lemma token_quoted:
  assumes "\<forall>n. grants A n" "ends_quote r"
  shows "sds_ok s \<Longrightarrow> sdslen s + length xs < 2 ^ 62 \<Longrightarrow>
    \<exists>s'. token_loop A InQ (concat (map repr_char xs) @ dquote # r) (Some s) = Inr (Some (Some s', r)) \<and>
      sds_ok s' \<and> content s' = content s @ xs"
proof (induction xs arbitrary: s)
  case Nil
  then show ?case using assms(2) by (subst token_loop.simps(1)) simp
next
  case (Cons c xs)
  have "yields A (add_byte A c (Some s)) (content s @ [c])" using Cons.prems by (intro add_byte_yields) simp_all
  then obtain s1 where s1: "add_byte A c (Some s) = Inr (Some s1)" "sds_ok s1" "content s1 = content s @ [c]"
    "sdslen s1 = length (content s @ [c])" using assms(1) by (rule yields_granted)
  then have "sdslen s1 + length xs < 2 ^ 62" using Cons.prems length_content by simp
  from Cons.IH [OF s1(2) this] s1(1,3) show ?case by (simp add: token_repr_char)
qed

fun quoted_line :: "bytes list \<Rightarrow> bytes" where
  "quoted_line [] = []"
| "quoted_line (x # xs) = repr_text x @ (if xs = [] then [] else CHR '' '' # quoted_line xs)"

definition arguments :: "sds option list \<Rightarrow> bytes list \<Rightarrow> bool" where
  "arguments vec xss \<longleftrightarrow> list_all2 (\<lambda>a xs. \<exists>s. a = Some s \<and> sds_ok s \<and> content s = xs) vec xss"

lemma args_loop_quoted:
  assumes g: "\<forall>n. grants A n"
  shows "\<forall>x \<in> set xss. length x < 2 ^ 61 \<Longrightarrow> arguments vec yss \<Longrightarrow> xss \<noteq> [] \<or> vec \<noteq> [] \<Longrightarrow> b = [] \<or> b = '' '' \<Longrightarrow>
    \<exists>vec'. args_loop A (b @ quoted_line xss) vec = Inr (Some vec') \<and> arguments vec' (yss @ xss)"
proof (induction xss arbitrary: vec yss b)
  case Nil
  have "dropWhile isspace b = []" using Nil(4) by (auto simp: isspace_def)
  with Nil show ?case by (subst args_loop.simps) (simp add: Let_def)
next
  case (Cons x xs)
  let ?r = "if xs = [] then [] else CHR '' '' # quoted_line xs"
  have q: "dropWhile isspace (b @ quoted_line (x # xs)) = dquote # concat (map repr_char x) @ dquote # ?r"
    using Cons(5) by (auto simp: repr_text_def isspace_def)
  obtain s0 where s0: "sdsempty A = Inr (Some s0)" "sds_ok s0" "content s0 = []" "sdslen s0 = 0"
    by (rule yields_granted [OF sdsempty_yields g]) simp
  have "ends_quote ?r" by (simp add: ends_quote_def isspace_def)
  from token_quoted [OF g this s0(2), of x] s0(3,4) Cons(2) obtain s' where s':
    "token_loop A InQ (concat (map repr_char x) @ dquote # ?r) (Some s0) = Inr (Some (Some s', ?r))" "sds_ok s'" "content s' = x"
    by auto
  have t: "token_loop A NoQ (dquote # concat (map repr_char x) @ dquote # ?r) (Some s0) = Inr (Some (Some s', ?r))"
    using s'(1) by (subst token_loop.simps(3)) simp
  have step: "args_loop A (b @ quoted_line (x # xs)) vec = args_loop A ?r (vec @ [Some s'])"
    using g s0(1) t by (subst args_loop.simps) (simp only: q Let_def, simp)
  have vec: "arguments (vec @ [Some s']) (yss @ [x])"
    using Cons(3) s' by (auto simp: arguments_def intro!: list_all2_appendI)
  have "\<exists>b'. ?r = b' @ quoted_line xs \<and> (b' = [] \<or> b' = '' '')" by (cases xs) auto
  then obtain b' where b': "?r = b' @ quoted_line xs" "b' = [] \<or> b' = '' ''" by blast
  from Cons(1) [OF _ vec _ b'(2)] Cons(2) show ?case unfolding step b'(1) by simp
qed

lemma repr_text_no_nul: "nul \<notin> set (repr_text xs)"
proof -
  have "nul \<notin> set (repr_char c)" for c
    using hex2_not_nul [of c] by (auto simp: repr_char_def isprint_def)
  then show ?thesis by (auto simp: repr_text_def)
qed

lemma quoted_line_no_nul: "nul \<notin> set (quoted_line xss)"
  using repr_text_no_nul by (induction xss) auto

lemma sdssplitargs_quoted:
  assumes "\<forall>n. grants A n" "\<forall>x \<in> set xss. length x < 2 ^ 61"
  shows "\<exists>vec. sdssplitargs A (quoted_line xss @ nul # rest) = Inr (Some vec) \<and> arguments vec xss"
proof (cases "xss = []")
  case True
  have "args_loop A [] [] = Inr (Some [])" using assms(1) by (subst args_loop.simps) simp
  with True show ?thesis by (simp add: sdssplitargs_def arguments_def c_string_def)
next
  case False
  from args_loop_quoted [OF assms, of "[]" "[]" "[]"] False show ?thesis
    by (simp add: sdssplitargs_def arguments_def c_string_append [OF quoted_line_no_nul])
qed

subsection \<open>No line makes it fault\<close>

definition growing :: "sds option \<Rightarrow> nat \<Rightarrow> bool" where
  "growing cur k \<longleftrightarrow> (\<exists>s. cur = Some s \<and> sds_ok s \<and> sdslen s + k < 2 ^ 62)"

lemma growing_mono: "growing cur k \<Longrightarrow> k' \<le> k \<Longrightarrow> growing cur k'"
  by (force simp: growing_def)

lemma growing_drop: "growing cur n \<Longrightarrow> growing cur (n - k)"
  by (erule growing_mono) simp

lemma byte_goes_on:
  assumes "\<forall>n. grants A n" "growing cur (Suc k)" "\<And>x. add_byte A c cur = Inr x \<Longrightarrow> growing x k \<Longrightarrow> \<exists>res. K x = Inr res"
  shows "\<exists>res. rbind (add_byte A c cur) K = Inr res"
proof -
  obtain s where s: "cur = Some s" "sds_ok s" "sdslen s + Suc k < 2 ^ 62" using assms(2) by (auto simp: growing_def)
  then have "yields A (add_byte A c (Some s)) (content s @ [c])" by (intro add_byte_yields) simp_all
  then obtain s1 where s1: "add_byte A c (Some s) = Inr (Some s1)" "sds_ok s1" "sdslen s1 = length (content s @ [c])"
    using assms(1) by (rule yields_granted)
  have "length (content s) = sdslen s" using length_content s(2) by simp
  with s1 s(3) have "growing (Some s1) k" by (simp add: growing_def)
  with assms(3) s(1) s1(1) show ?thesis by simp
qed

lemma token_total: "\<forall>n. grants A n \<Longrightarrow> growing cur (length p) \<Longrightarrow> \<exists>res. token_loop A m p cur = Inr res"
proof (induction A m p cur rule: token_loop.induct)
  case (1 A p cur)
  show ?case
  proof (cases p)
    case (Cons c r)
    with 1(5) have g: "growing cur (Suc (length r))" by simp
    show ?thesis
      using 1(1-3) [OF Cons] 1(4) Cons
      by (subst token_loop.simps(1)) (auto intro!: byte_goes_on [OF 1(4) g] intro: growing_drop)
  qed (simp add: token_loop.simps)
next
  case (2 A p cur)
  show ?case
  proof (cases p)
    case (Cons c r)
    with 2(4) have g: "growing cur (Suc (length r))" by simp
    show ?thesis
      using 2(1,2) [OF Cons] 2(3) Cons
      by (subst token_loop.simps(2)) (auto intro!: byte_goes_on [OF 2(3) g] intro: growing_drop)
  qed (simp add: token_loop.simps)
next
  case (3 A p cur)
  show ?case
  proof (cases p)
    case (Cons c r)
    with 3(5) have g: "growing cur (Suc (length r))" by simp
    then have g': "growing cur (length r)" by (rule growing_mono) simp
    show ?thesis
      using 3(1-3) [OF Cons] 3(4) Cons g'
      by (subst token_loop.simps(3)) (auto intro!: byte_goes_on [OF 3(4) g] intro: growing_drop)
  qed (simp add: token_loop.simps)
qed

lemma args_total: "\<forall>n. grants A n \<Longrightarrow> length p < 2 ^ 62 \<Longrightarrow> \<exists>res. args_loop A p vec = Inr res"
proof (induction A p vec rule: args_loop.induct)
  case (1 A p vec)
  show ?case
  proof (cases "dropWhile isspace p = []")
    case True
    with 1 show ?thesis by (subst args_loop.simps) (simp add: Let_def)
  next
    case False
    let ?q = "dropWhile isspace p"
    obtain s0 where s0: "sdsempty A = Inr (Some s0)" "sds_ok s0" "sdslen s0 = 0"
      by (rule yields_granted [OF sdsempty_yields 1(2)]) simp
    with 1(3) length_dropWhile_le [of isspace p] have "growing (Some s0) (length ?q)" by (simp add: growing_def)
    from token_total [OF 1(2) this] obtain res where t: "token_loop A NoQ ?q (Some s0) = Inr res" by blast
    show ?thesis
    proof (cases res)
      case None
      with False s0(1) t show ?thesis by (subst args_loop.simps) (simp add: Let_def)
    next
      case (Some x)
      obtain cur rest where x: "x = (cur, rest)" by (cases x)
      have "length rest < 2 ^ 62"
        using token_loop_rest [of A NoQ ?q "Some s0" cur rest] t Some x 1(3) length_dropWhile_le [of isspace p] by simp
      with 1(1) [OF refl False s0(1) t Some x [symmetric]] 1(2) False s0(1) t Some x show ?thesis
        by (subst args_loop.simps) (simp add: Let_def)
    qed
  qed
qed

end
