(* ===== verification/Sds_Props.thy ===== *)
theory Sds_Props
  imports Sds_Args
begin

text \<open>
  The properties of the dynamic strings: what every operation does to the content, and that none of
  them reads or writes outside its allocation; numbers, formats, comparison, splitting and quoting.
\<close>

subsection \<open>Sequences of operations\<close>

text \<open>\<open>OpRead\<close> is the scheme of the comment above \<open>sdsIncrLen\<close>: room, a write behind the end, a new end.\<close>

datatype sds_op =
    OpCatLen bytes | OpCatSds sds | OpCpy bytes | OpGrowZero nat | OpClear | OpTrim bytes | OpRange int int
  | OpLower | OpUpper | OpMapChars bytes bytes nat | OpMakeRoom nat | OpRemoveFree | OpDup | OpRead bytes

definition in_place :: "sds_fault + sds \<Rightarrow> sds_fault + sds option" where
  "in_place m = rbind m (\<lambda>s. Inr (Some s))"

fun do_op :: "allocator \<Rightarrow> sds_op \<Rightarrow> sds \<Rightarrow> sds_fault + sds option" where
  "do_op A (OpCatLen t) s = sdscatlen A t (length t) s"
| "do_op A (OpCatSds t) s = sdscatsds A t s"
| "do_op A (OpCpy t) s = sdscpylen A t (length t) s"
| "do_op A (OpGrowZero n) s = sdsgrowzero A n s"
| "do_op A OpClear s = in_place (sdsclear s)"
| "do_op A (OpTrim cset) s = in_place (sdstrim cset s)"
| "do_op A (OpRange i j) s = in_place (sdsrange i j s)"
| "do_op A OpLower s = Inr (Some (sdstolower s))"
| "do_op A OpUpper s = Inr (Some (sdstoupper s))"
| "do_op A (OpMapChars frm to n) s = in_place (sdsmapchars frm to n s)"
| "do_op A (OpMakeRoom n) s = sdsMakeRoomFor A n s"
| "do_op A OpRemoveFree s = sdsRemoveFreeSpace A s"
| "do_op A OpDup s = sdsdup A s"
| "do_op A (OpRead t) s = if_room (sdsMakeRoomFor A (length t) s) (write_end t)"

fun text_op :: "sds_op \<Rightarrow> bytes \<Rightarrow> bytes" where
  "text_op (OpCatLen t) xs = xs @ t"
| "text_op (OpCatSds t) xs = xs @ content t"
| "text_op (OpCpy t) xs = t"
| "text_op (OpGrowZero n) xs = xs @ replicate (n - length xs) nul"
| "text_op OpClear xs = []"
| "text_op (OpTrim cset) xs = trim_text cset xs"
| "text_op (OpRange i j) xs = range_text i j xs"
| "text_op OpLower xs = map c_tolower xs"
| "text_op OpUpper xs = map c_toupper xs"
| "text_op (OpMapChars frm to n) xs = map (subst_char (zip (take n frm) (take n to))) xs"
| "text_op (OpRead t) xs = xs @ t"
| "text_op _ xs = xs"

text \<open>
  The arguments are of their C types, and no size comes near \<open>SIZE_MAX\<close>.  The set of
  characters of a trim is a terminated string, the arrays of \<open>sdsmapchars\<close> have the \<open>setlen\<close>
  characters it is called with, and what is read at once is counted in an \<open>int\<close>.
\<close>

fun op_fits :: "sds_op \<Rightarrow> bool" where
  "op_fits (OpCatLen t) \<longleftrightarrow> length t < 2 ^ 60"
| "op_fits (OpCatSds t) \<longleftrightarrow> sds_ok t \<and> sdslen t < 2 ^ 60"
| "op_fits (OpCpy t) \<longleftrightarrow> length t < 2 ^ 60"
| "op_fits (OpGrowZero n) \<longleftrightarrow> n < 2 ^ 60"
| "op_fits (OpRange i j) \<longleftrightarrow> - (2 ^ 31) \<le> i \<and> i < 2 ^ 31 \<and> - (2 ^ 31) \<le> j \<and> j < 2 ^ 31"
| "op_fits (OpMakeRoom n) \<longleftrightarrow> n < 2 ^ 60"
| "op_fits (OpTrim cset) \<longleftrightarrow> nul \<in> set cset"
| "op_fits (OpMapChars frm to n) \<longleftrightarrow> n \<le> length frm \<and> n \<le> length to"
| "op_fits (OpRead t) \<longleftrightarrow> t \<noteq> [] \<and> length t < 2 ^ 31"
| "op_fits _ \<longleftrightarrow> True"

fun do_ops :: "allocator \<Rightarrow> sds_op list \<Rightarrow> sds \<Rightarrow> sds_fault + sds option" where
  "do_ops A [] s = Inr (Some s)"
| "do_ops A (op # ops) s = rbind (do_op A op s) (\<lambda>r. case r of None \<Rightarrow> Inr None | Some s \<Rightarrow> do_ops A ops s)"

fun ops_fit :: "sds_op list \<Rightarrow> bytes \<Rightarrow> bool" where
  "ops_fit [] xs \<longleftrightarrow> True"
| "ops_fit (op # ops) xs \<longleftrightarrow> length xs < 2 ^ 31 \<and> op_fits op \<and> ops_fit ops (text_op op xs)"

lemma in_place_yields: "gives m xs \<Longrightarrow> yields A (in_place m) xs"
  by (auto simp: gives_def yields_def in_place_def)

lemma do_op_yields:
  assumes ok: "sds_ok s" and small: "sdslen s < 2 ^ 31" and fits: "op_fits op"
  shows "yields A (do_op A op s) (text_op op (content s))"
proof (cases op)
  case (OpRead t)
  have "yields A (if_room (sdsMakeRoomFor A (length t) s) (write_end t)) (content s @ t)"
  proof (rule if_room_yields [OF ok])
    fix s' assume s': "sds_ok s'" "content s' = content s" "sdslen s' = sdslen s" "sdslen s + length t \<le> sdsalloc s'"
    have "hdr_type (hdr s') \<noteq> 0"
    proof
      assume "hdr_type (hdr s') = 0"
      then have "sdsalloc s' = sdslen s'" by (simp add: sdsalloc_def sdslen_def hdr_alloc_type5)
      with s' fits OpRead show False by (cases t) simp_all
    qed
    from IncrLen_gives [OF s'(1) this, of t] s' fits OpRead show "gives (write_end t s') (content s @ t)" by simp
  qed (use small fits OpRead in simp)
  with OpRead show ?thesis by simp
next
  case (OpGrowZero n)
  with growzero_yields [OF ok, of n A] fits show ?thesis by (simp add: length_content [OF ok])
next
  case (OpCatSds t)
  with sdscatsds_yields [OF ok, of t A] fits small show ?thesis by simp
next
  case (OpCpy t)
  with cpylen_yields [OF ok, of "length t" t A] fits small show ?thesis by simp
next
  case (OpRange i j)
  with sdsrange_gives [OF ok small, of i j] fits show ?thesis by (simp add: in_place_yields)
qed (use ok small fits char_maps [OF ok small] in
    \<open>simp_all add: catlen_all sdsclear_gives sdstrim_gives sdsmapchars_gives in_place_yields
      MakeRoomFor_yields RemoveFreeSpace_yields sdsdup_yields, (auto simp: gives_def yields_def)?\<close>)

text \<open>
  C8: a string of this library stands for a list of bytes.  Any sequence of operations (appending,
  copying, growing, clearing, trimming, taking a range, changing characters, making and removing
  room, duplicating, and reading into the free space with \<open>sdsIncrLen\<close>) on strings shorter than
  2 GiB, with arguments as \<open>op_fits\<close> asks (a terminated set of characters, arrays as long as
  the call says, a read counted in an \<open>int\<close>), keeps the header, the allocation and the terminator
  consistent, never touches memory outside the string's allocation or the arguments' arrays, never
  fails an assertion, and has on the content the effect of the plain list functions; it stops with
  NULL only when the allocator refuses.  The header changes its type with the size on the way.
\<close>

theorem sds_ops_refine:
  assumes "sds_ok s" "ops_fit ops (content s)"
  shows "yields A (do_ops A ops s) (fold text_op ops (content s))"
  using assms
proof (induction ops arbitrary: s)
  case Nil
  then show ?case by (simp add: yields_def)
next
  case (Cons op ops)
  have "yields A (do_op A op s) (text_op op (content s))"
    using Cons.prems length_content by (intro do_op_yields) simp_all
  then show ?case
  proof (cases rule: yieldsE)
    case null
    then show ?thesis by (intro yields_None) simp_all
  next
    case (string s')
    with Cons.IH [of s'] Cons.prems show ?thesis by simp
  qed
qed

definition all_memory :: allocator where
  "all_memory = \<lparr>grants = (\<lambda>_. True), garbage = (\<lambda>_. CHR ''?'')\<rparr>"

definition small_sds :: "bytes \<Rightarrow> sds" where
  "small_sds xs = \<lparr>hdr = sdshdr8 (word_of_nat (length xs)) (word_of_nat (length xs)), buf = xs @ [nul]\<rparr>"

lemma small_sds_ok: "length xs < 256 \<Longrightarrow> sds_ok (small_sds xs) \<and> content (small_sds xs) = xs"
  by (simp add: sds_ok_def content_def small_sds_def sdslen_def sdsalloc_def unat_of_nat nth_append)

lemma sds_ops_refine_witness:
  "yields all_memory (do_ops all_memory [OpCatLen ''  World '', OpTrim ('' '' @ [nul]), OpRange 1 (- 2), OpUpper,
        OpMapChars ''Lx'' ''7y'' 2, OpGrowZero 11, OpRead ''ab'']
      (small_sds ''Hello''))
    (''E77O  WOR7'' @ [nul] @ ''ab'')"
proof -
  let ?ops = "[OpCatLen ''  World '', OpTrim ('' '' @ [nul]), OpRange 1 (- 2), OpUpper,
    OpMapChars ''Lx'' ''7y'' 2, OpGrowZero 11, OpRead ''ab'']"
  have h: "sds_ok (small_sds ''Hello'')" "content (small_sds ''Hello'') = ''Hello''"
    using small_sds_ok [of "''Hello''"] by simp_all
  have t: "trim_text [CHR '' '', nul] ''Hello  World '' = ''Hello  World''" by (simp add: trim_text_def in_cset_def)
  have r: "range_text 1 (- 2) ''Hello  World'' = ''ello  Worl''" by (simp add: range_text_def)
  have u: "map c_toupper ''ello  Worl'' = ''ELLO  WORL''" by (simp add: c_toupper_def char_of_def bit_0)
  have m: "map (subst_char [(CHR ''L'', CHR ''7''), (CHR ''x'', CHR ''y'')]) ''ELLO  WORL'' = ''E77O  WOR7''" by simp
  have f: "ops_fit ?ops (content (small_sds ''Hello''))" unfolding h(2) by (simp add: t r u m del: list.map)
  have e: "fold text_op ?ops ''Hello'' = ''E77O  WOR7'' @ [nul] @ ''ab''" by (simp add: t r u m del: list.map)
  show ?thesis using sds_ops_refine [OF h(1) f, of all_memory] unfolding h(2) e .
qed

text \<open>
  C31: \<open>sdsll2str\<close> writes the decimal text of every \<open>long long\<close>, the smallest one included, and its
  terminator into the 21 bytes of its buffer; \<open>sdsfromlonglong\<close> is a string with that text.
\<close>

theorem number_fits_buffer:
  assumes "- (2 ^ 63) \<le> v" "v < 2 ^ 63" "length b = SDS_LLSTR_SIZE"
  shows "sdsll2str b v = Inr (length (dec_int v), dec_int v @ nul # drop (length (dec_int v) + 1) b) \<and>
    length (dec_int v) < SDS_LLSTR_SIZE \<and> yields A (sdsfromlonglong A v) (dec_int v)"
  using sdsll2str_dec [OF assms] length_dec_int [OF assms(1,2)] fromlonglong_yields [OF assms(1,2)]
  by (simp add: SDS_LLSTR_SIZE_def)

lemma number_fits_buffer_witness:
  "sdsll2str (replicate 21 CHR ''?'') (- (2 ^ 63)) = Inr (20, ''-9223372036854775808'' @ [nul])"
proof -
  have d: "dec_int (- (2 ^ 63)) = ''-9223372036854775808''"
    by (simp add: dec_int_def dec_nat.simps digit_char_def char_of_def bit_0)
  show ?thesis
    using number_fits_buffer [of "- (2 ^ 63)" "replicate 21 CHR ''?''"] unfolding d by (simp add: SDS_LLSTR_SIZE_def)
qed

text \<open>
  C23: the \<open>while (1)\<close> of \<open>sdscatvprintf\<close> ends for every format and whatever \<open>vsnprintf\<close> has to
  write: the buffer doubles until the text lies below its last two bytes.  What is appended is the
  text up to its first NUL byte, or the result is NULL when a buffer cannot be had.
\<close>

theorem printf_terminates:
  assumes "sds_ok s" "nul \<in> set fmt" "length fmt < 2 ^ 60" "length (libc (takeWhile (\<lambda>c. c \<noteq> nul) fmt) ap) < 2 ^ 60"
    and "sdslen s < 2 ^ 60"
  shows "\<exists>m. sdscatprintf A libc fmt ap s = Some m \<and>
    yields A m (content s @ takeWhile (\<lambda>c. c \<noteq> nul) (libc (takeWhile (\<lambda>c. c \<noteq> nul) fmt) ap))"
  unfolding sdscatprintf_def by (rule sdscatvprintf_yields) (use assms in simp_all)

definition x_text :: "nat \<Rightarrow> bytes" where
  "x_text n = replicate n CHR ''x''"

lemma x_text_facts: "length (x_text n) = n" "takeWhile (\<lambda>c. c \<noteq> nul) (x_text n) = x_text n"
  by (simp_all add: x_text_def takeWhile_eq_all_conv)

lemma printf_terminates_witness:
  "\<exists>m. sdscatprintf all_memory (\<lambda>fmt n. x_text n) (''%*s'' @ [nul]) 5000 (small_sds ''a'') = Some m \<and>
    yields all_memory m (''a'' @ x_text 5000)"
proof -
  have h: "sds_ok (small_sds ''a'')" "content (small_sds ''a'') = ''a''" using small_sds_ok [of "''a''"] by simp_all
  have "sdslen (small_sds ''a'') < 2 ^ 60" using length_content [OF h(1)] h(2) by simp
  then show ?thesis
    using printf_terminates [OF h(1), of "''%*s'' @ [nul]" "\<lambda>fmt n. x_text n" 5000 all_memory] h(2)
    by (simp add: x_text_facts)
qed

text \<open>
  \<open>sdscatfmt\<close> appends what its format says (C strings, strings of this library, signed and
  unsigned numbers of both widths, and every other character itself), with a terminator behind it;
  but a format that ends with a single \<open>%\<close> makes it read the byte behind the format's terminator.
\<close>

theorem catfmt_appends:
  assumes "fmt_text f args = Some (t, args')" "sds_ok s" "nul \<notin> set f" "sdslen s + length t + 1 < 2 ^ 31" "\<forall>n. grants A n"
  shows "gives (sdscatfmt A (f @ [nul]) args s) (content s @ t) \<and> sdscatfmt A (f @ [CHR ''%'', nul]) args s = Inl OutOfBounds"
  using sdscatfmt_text [OF assms(1-3) _ assms(5), of "[]"] sdscatfmt_trailing [OF assms] assms(4) by simp

lemma catfmt_appends_witness:
  "gives (sdscatfmt all_memory (''Hello %s World %I,%i%%'' @ [nul]) [FmtS (''Hi!'' @ [nul]), FmtLL (- 25), FmtInt 7] (small_sds ''--''))
    ''--Hello Hi! World -25,7%''"
proof -
  have h: "sds_ok (small_sds ''--'')" "content (small_sds ''--'') = ''--''" using small_sds_ok [of "''--''"] by simp_all
  have "sdslen (small_sds ''--'') = 2" using length_content [OF h(1)] h(2) by simp
  moreover have "fmt_text ''Hello %s World %I,%i%%'' [FmtS (''Hi!'' @ [nul]), FmtLL (- 25), FmtInt 7] =
      Some (''Hello Hi! World -25,7%'', [])"
    by (simp add: is_conv_def arg_text_def dec_int_def dec_nat.simps digit_char_def char_of_def bit_0)
  ultimately show ?thesis
    using catfmt_appends [of "''Hello %s World %I,%i%%''" "[FmtS (''Hi!'' @ [nul]), FmtLL (- 25), FmtInt 7]" _ _ "small_sds ''--''" all_memory] h
    by (simp add: all_memory_def)
qed

text \<open>
  \<open>sdscmp\<close> is the order of the contents as unsigned bytes, with a prefix before the longer
  string, for strings below 2 GiB; beyond, the difference of the lengths does not fit its \<open>int\<close>
  result, and the empty string compares greater than one of \<open>2 ^ 31 + 1\<close> zero bytes.
\<close>

theorem sdscmp_is_order:
  assumes "sds_ok s" "sds_ok t"
  shows "(sdslen s < 2 ^ 31 \<and> sdslen t < 2 ^ 31 \<longrightarrow>
      (sdscmp s t < 0 \<longleftrightarrow> (content s, content t) \<in> lexord byte_order) \<and> (sdscmp s t = 0 \<longleftrightarrow> content s = content t)) \<and>
    (content s = [] \<and> sdslen t = 2 ^ 31 + 1 \<longrightarrow> (content s, content t) \<in> lexord byte_order \<and> 0 < sdscmp s t)"
proof (intro conjI impI)
  show "sdscmp s t < 0 \<longleftrightarrow> (content s, content t) \<in> lexord byte_order" "sdscmp s t = 0 \<longleftrightarrow> content s = content t"
    if "sdslen s < 2 ^ 31 \<and> sdslen t < 2 ^ 31"
    using sdscmp_order [OF assms] that by blast+
  assume big: "content s = [] \<and> sdslen t = 2 ^ 31 + 1"
  then have l: "sdslen s = 0" using length_content [OF assms(1)] by simp
  have "content t \<noteq> []" using length_content [OF assms(2)] big by auto
  then show "(content s, content t) \<in> lexord byte_order" using big by (cases "content t") auto
  show "0 < sdscmp s t" using big l by (simp add: sdscmp_def Let_def int32_def)
qed

lemma sdscmp_is_order_witness:
  "sdscmp (small_sds ''abc'') (small_sds ''abd'') < 0 \<and> sdscmp (small_sds ''ab'') (small_sds ''ab'') = 0"
proof -
  have h: "sds_ok (small_sds xs)" "content (small_sds xs) = xs" "sdslen (small_sds xs) < 2 ^ 31" if "length xs < 256" for xs
    using small_sds_ok [OF that] length_content [of "small_sds xs"] that by auto
  have "(''abc'', ''abd'') \<in> lexord byte_order" by (simp add: byte_order_def)
  with sdscmp_is_order [OF h(1) h(1), of "''abc''" "''abd''"] sdscmp_is_order [OF h(1) h(1), of "''ab''" "''ab''"]
    h(2,3) [of "''abc''"] h(2,3) [of "''abd''"] h(2,3) [of "''ab''"]
  show ?thesis by simp
qed

text \<open>
  C22: \<open>sdssplitlen\<close> cuts a string at each occurrence of the separator, from the left, as the plain
  recursive definition does, with room in its array for every element; joining the pieces with
  \<open>sdsjoinsds\<close> and the same separator gives the string back.  A string of length 0 gives no
  elements but not NULL; a separator of length 0 gives NULL.  This is when the allocations succeed (what
  happens when one fails is \<open>split_owns_result\<close>) and for fewer elements than the counter of slots, an
  \<open>int\<close> that doubles, can count (see \<open>slots_for\<close>).
\<close>

theorem split_and_join:
  assumes "0 < len" "nat len \<le> length s" "length s < 2 ^ 31" "0 < seplen" "nat seplen \<le> length sep" "\<forall>n. grants A n"
  shows "\<exists>ts. sdssplitlen A s len sep seplen = Inr (Some ts) \<and>
    map content ts = split_on (take (nat seplen) sep) [] (take (nat len) s) \<and>
    yields A (sdsjoinsds A ts sep (nat seplen)) (take (nat len) s) \<and>
    sdssplitlen A s 0 sep seplen = Inr (Some []) \<and> sdssplitlen A s len sep 0 = Inr None"
proof -
  let ?xss = "split_on (take (nat seplen) sep) [] (take (nat len) s)"
  from sdssplitlen_gives [OF assms(1-5), of A] assms(6) obtain ts where
    ts: "sdssplitlen A s len sep seplen = Inr (Some ts)" "tokens ts ?xss" by (auto simp: gives_tokens_def)
  have join: "intersperse (take (nat seplen) sep) ?xss = take (nat len) s" using intersperse_split [of _ "[]"] by simp
  have "length (take (nat len) s) < 2 ^ 62" using assms(3) by simp
  then have "yields A (sdsjoinsds A ts sep (nat seplen)) (take (nat len) s)"
    using sdsjoinsds_yields [OF assms(6) ts(2) assms(5)] by (simp add: join)
  moreover have "map content ts = ?xss"
    using ts(2) by (auto simp: tokens_def list_all2_conv_all_nth intro!: nth_equalityI)
  ultimately show ?thesis using ts(1) assms(1,4,6) by (simp add: sdssplitlen_def)
qed

lemma split_and_join_witness:
  "\<exists>ts. sdssplitlen all_memory (''foo_-_bar'' @ [nul]) 9 (''_-_'' @ [nul]) 3 = Inr (Some ts) \<and> map content ts = [''foo'', ''bar'']"
proof -
  have "split_on ''_-_'' [] ''foo_-_bar'' = [''foo'', ''bar'']" by (simp add: split_on.simps)
  then show ?thesis
    using split_and_join [of 9 "''foo_-_bar'' @ [nul]" 3 "''_-_'' @ [nul]" all_memory] by (auto simp: all_memory_def)
qed

text \<open>
  C12: \<open>sdssplitargs\<close> reads back what \<open>sdscatrepr\<close> writes, as the comment above it says: for any byte
  strings, NUL bytes, quotes, backslashes and blanks included, a line of their quoted forms
  separated by single spaces is split into exactly these strings, when the allocations succeed.
\<close>

theorem repr_roundtrip:
  assumes "\<forall>n. grants A n" "\<forall>x \<in> set xss. length x < 2 ^ 50"
  shows "(\<forall>x \<in> set xss. sds_ok s \<and> content s = [] \<longrightarrow>
      (\<exists>r. sdscatrepr A x (length x) s = Some r \<and> yields A r (repr_text x))) \<and>
    (\<exists>vec. sdssplitargs A (quoted_line xss @ [nul]) = Inr (Some vec) \<and>
      map (map_option content) vec = map Some xss)"
proof (intro conjI ballI impI)
  fix x assume x: "x \<in> set xss" "sds_ok s \<and> content s = []"
  then have "sdslen s = 0" using length_content [of s] by simp
  then show "\<exists>r. sdscatrepr A x (length x) s = Some r \<and> yields A r (repr_text x)"
    using sdscatrepr_returns [OF assms(1), of "length x" x s] assms(2) x by (force simp: returns_def)
next
  have "\<forall>x \<in> set xss. length x < 2 ^ 61" using assms(2) by fastforce
  from sdssplitargs_quoted [OF assms(1) this, of "[]"] obtain vec where
    vec: "sdssplitargs A (quoted_line xss @ [nul]) = Inr (Some vec)" "arguments vec xss" by blast
  have "map (map_option content) vec = map Some xss"
    using vec(2) by (auto simp: arguments_def list_all2_conv_all_nth intro!: nth_equalityI)
  with vec(1) show "\<exists>vec. sdssplitargs A (quoted_line xss @ [nul]) = Inr (Some vec) \<and> map (map_option content) vec = map Some xss"
    by blast
qed

lemma repr_roundtrip_witness:
  "\<exists>vec. sdssplitargs all_memory (quoted_line [''a b'', [nul, dquote, lf]] @ [nul]) = Inr (Some vec) \<and>
     map (map_option content) vec = [Some ''a b'', Some [nul, dquote, lf]]"
  using repr_roundtrip [of all_memory "[''a b'', [nul, dquote, lf]]"] by (simp add: all_memory_def)

end
