(* ===== verification/Sds_Heap.thy ===== *)
theory Sds_Heap
  imports Sds_Args C_Heap
begin

text \<open>
  The blocks behind the functions of \<open>src/commlib/redis/sds.cpp\<close> that own more than one string:
  \<open>sdssplitlen\<close>, \<open>sdsfreesplitres\<close> and \<open>sdssplitargs\<close>, with what they do when an allocation fails.

  A string is its block and its value; each \<open>s_malloc\<close> and \<open>s_realloc\<close> takes the next number of the
  heap of \<open>C_Heap\<close> and may fail.  What a string holds after a granted allocation is what the
  functions of the other theories say, with an allocator that grants everything (\<open>granting\<close>).
\<close>

type_synonym hsds = "nat \<times> sds"

definition granting :: "allocator \<Rightarrow> allocator" where
  "granting A = A\<lparr>grants := (\<lambda>_. True)\<rparr>"

definition placed :: "nat \<Rightarrow> sds_fault + sds option \<Rightarrow> heap \<Rightarrow> sds_fault + hsds option \<times> heap" where
  "placed b m h = rbind m (\<lambda>r. Inr (map_option (Pair b) r, h))"

subsection \<open>Strings\<close>

definition sdsnewlen_h :: "(nat \<Rightarrow> bool) \<Rightarrow> allocator \<Rightarrow> bytes option \<Rightarrow> nat \<Rightarrow> heap \<Rightarrow> sds_fault + hsds option \<times> heap" where
  "sdsnewlen_h ok A init initlen h =
    (case heap_alloc ok h of (None, h1) \<Rightarrow> Inr (None, h1)
     | (Some b, h1) \<Rightarrow> placed b (sdsnewlen (granting A) init initlen) h1)"

definition sdsempty_h :: "(nat \<Rightarrow> bool) \<Rightarrow> allocator \<Rightarrow> heap \<Rightarrow> sds_fault + hsds option \<times> heap" where
  "sdsempty_h ok A h = sdsnewlen_h ok A (Some [nul]) 0 h"

definition sdsfree :: "hsds option \<Rightarrow> heap \<Rightarrow> heap" where
  "sdsfree s h = (case s of None \<Rightarrow> h | Some (b, _) \<Rightarrow> free_block b h)"

text \<open>
  \<open>sdsMakeRoomFor\<close> takes a new block when there is too little room, with \<open>s_realloc\<close> or with
  \<open>s_malloc\<close> and \<open>s_free\<close>; the old block is gone in both cases, unless the allocation fails.
\<close>

definition sdscatlen_h :: "(nat \<Rightarrow> bool) \<Rightarrow> allocator \<Rightarrow> bytes \<Rightarrow> nat \<Rightarrow> hsds \<Rightarrow> heap \<Rightarrow> sds_fault + hsds option \<times> heap" where
  "sdscatlen_h ok A t len s h =
    (if len \<le> sdsavail (snd s) then placed (fst s) (sdscatlen (granting A) t len (snd s)) h
     else case heap_realloc ok (fst s) h of (None, h1) \<Rightarrow> Inr (None, h1)
       | (Some b, h1) \<Rightarrow> placed b (sdscatlen (granting A) t len (snd s)) h1)"

subsection \<open>Splitting\<close>

definition free_tokens :: "hsds list \<Rightarrow> nat \<Rightarrow> heap \<Rightarrow> heap" where
  "free_tokens toks arr h = free_block arr (fold (\<lambda>t. sdsfree (Some t)) toks h)"

definition next_token_h ::
  "(nat \<Rightarrow> bool) \<Rightarrow> allocator \<Rightarrow> bytes \<Rightarrow> nat \<Rightarrow> nat \<Rightarrow> hsds list \<Rightarrow> nat \<Rightarrow> heap \<Rightarrow> sds_fault + hsds list option \<times> heap" where
  "next_token_h ok A s start n toks slots h =
    rbind (sdsnewlen_h ok A (Some (drop start s)) n h) (\<lambda>(t, h1). case t of None \<Rightarrow> Inr (None, h1)
      | Some t \<Rightarrow> rbind (store_token toks slots t) (\<lambda>ts. Inr (Some ts, h1)))"

definition grow_tokens :: "(nat \<Rightarrow> bool) \<Rightarrow> nat \<Rightarrow> nat \<Rightarrow> nat \<Rightarrow> heap \<Rightarrow> nat option \<times> heap" where
  "grow_tokens ok slots elements arr h =
    (if slots < elements + 2 then heap_realloc ok arr h else (Some arr, h))"

function split_loop_h ::
  "(nat \<Rightarrow> bool) \<Rightarrow> allocator \<Rightarrow> bytes \<Rightarrow> nat \<Rightarrow> bytes \<Rightarrow> nat \<Rightarrow> hsds list \<Rightarrow> nat \<Rightarrow> nat \<Rightarrow> nat \<Rightarrow> nat \<Rightarrow> heap \<Rightarrow>
   sds_fault + (nat \<times> hsds list) option \<times> heap" where
  "split_loop_h ok A s len sep seplen toks arr slots start j h =
    (if j < len - (seplen - 1) then
       (case grow_tokens ok slots (length toks) arr h of
          (None, h1) \<Rightarrow> Inr (None, free_tokens toks arr h1)
        | (Some arr1, h1) \<Rightarrow>
            rbind (sep_at s sep seplen j) (\<lambda>found.
              if found then
                rbind (next_token_h ok A s start (j - start) toks (slots_for slots (length toks)) h1) (\<lambda>(ts, h2).
                  case ts of None \<Rightarrow> Inr (None, free_tokens toks arr1 h2)
                  | Some ts \<Rightarrow> split_loop_h ok A s len sep seplen ts arr1 (slots_for slots (length toks))
                      (j + seplen) (Suc (j + (seplen - 1))) h2)
              else split_loop_h ok A s len sep seplen toks arr1 (slots_for slots (length toks)) start (j + 1) h1))
     else rbind (next_token_h ok A s start (len - start) toks slots h) (\<lambda>(ts, h1).
       case ts of None \<Rightarrow> Inr (None, free_tokens toks arr h1) | Some ts \<Rightarrow> Inr (Some (arr, ts), h1)))"
  by pat_completeness auto
termination by (relation "measure (\<lambda>(ok, A, s, len, sep, seplen, toks, arr, slots, start, j, h). len - j)") auto

declare split_loop_h.simps [simp del]

definition sdssplitlen_h ::
  "(nat \<Rightarrow> bool) \<Rightarrow> allocator \<Rightarrow> bytes \<Rightarrow> int \<Rightarrow> bytes \<Rightarrow> int \<Rightarrow> heap \<Rightarrow> sds_fault + (nat \<times> hsds list) option \<times> heap" where
  "sdssplitlen_h ok A s len sep seplen h =
    (if seplen < 1 \<or> len < 0 then Inr (None, h)
     else case heap_alloc ok h of (None, h1) \<Rightarrow> Inr (None, h1)
       | (Some arr, h1) \<Rightarrow>
           if len = 0 then Inr (Some (arr, []), h1)
           else split_loop_h ok A s (nat len) sep (nat seplen) [] arr 5 0 0 h1)"

text \<open>The tokens are freed from the last to the first.\<close>

definition sdsfreesplitres :: "(nat \<times> hsds option list) option \<Rightarrow> heap \<Rightarrow> heap" where
  "sdsfreesplitres res h =
    (case res of None \<Rightarrow> h | Some (arr, toks) \<Rightarrow> free_block arr (fold sdsfree (rev toks) h))"

subsection \<open>Arguments\<close>

definition add_byte_h :: "(nat \<Rightarrow> bool) \<Rightarrow> allocator \<Rightarrow> char \<Rightarrow> hsds option \<Rightarrow> heap \<Rightarrow> sds_fault + hsds option \<times> heap" where
  "add_byte_h ok A c cur h = (case cur of None \<Rightarrow> Inl NullPtr | Some s \<Rightarrow> sdscatlen_h ok A [c] 1 s h)"

text \<open>The result says whether the argument is well formed; \<open>current\<close> is kept for \<open>err\<close>.\<close>

type_synonym token_end = "bool \<times> hsds option \<times> bytes"

function token_loop_h ::
  "(nat \<Rightarrow> bool) \<Rightarrow> allocator \<Rightarrow> quote_mode \<Rightarrow> bytes \<Rightarrow> hsds option \<Rightarrow> heap \<Rightarrow> sds_fault + token_end \<times> heap" where
  "token_loop_h ok A InQ p cur h =
    (case p of [] \<Rightarrow> Inr ((False, cur, []), h)
     | c # r \<Rightarrow>
       if c = bslash \<and> hex_escape r
       then rbind (add_byte_h ok A (hex_byte r) cur h) (\<lambda>(cur, h). token_loop_h ok A InQ (drop 3 r) cur h)
       else if c = bslash \<and> r \<noteq> []
       then rbind (add_byte_h ok A (unescape (hd r)) cur h) (\<lambda>(cur, h). token_loop_h ok A InQ (tl r) cur h)
       else if c = dquote then Inr ((ends_quote r, cur, r), h)
       else rbind (add_byte_h ok A c cur h) (\<lambda>(cur, h). token_loop_h ok A InQ r cur h))"
| "token_loop_h ok A InSq p cur h =
    (case p of [] \<Rightarrow> Inr ((False, cur, []), h)
     | c # r \<Rightarrow>
       if c = bslash \<and> r \<noteq> [] \<and> hd r = squote
       then rbind (add_byte_h ok A squote cur h) (\<lambda>(cur, h). token_loop_h ok A InSq (tl r) cur h)
       else if c = squote then Inr ((ends_quote r, cur, r), h)
       else rbind (add_byte_h ok A c cur h) (\<lambda>(cur, h). token_loop_h ok A InSq r cur h))"
| "token_loop_h ok A NoQ p cur h =
    (case p of [] \<Rightarrow> Inr ((True, cur, []), h)
     | c # r \<Rightarrow>
       if c = CHR '' '' \<or> c = lf \<or> c = cr \<or> c = tab then Inr ((True, cur, r), h)
       else if c = dquote then token_loop_h ok A InQ r cur h
       else if c = squote then token_loop_h ok A InSq r cur h
       else rbind (add_byte_h ok A c cur h) (\<lambda>(cur, h). token_loop_h ok A NoQ r cur h))"
  by pat_completeness auto
termination by (relation "measure (\<lambda>(ok, A, m, p, cur, h). length p)") auto

declare token_loop_h.simps [simp del]

definition grow_vector :: "(nat \<Rightarrow> bool) \<Rightarrow> nat option \<Rightarrow> heap \<Rightarrow> nat option \<times> heap" where
  "grow_vector ok vec h = (case vec of None \<Rightarrow> heap_alloc ok h | Some b \<Rightarrow> heap_realloc ok b h)"

definition free_args :: "hsds option list \<Rightarrow> nat option \<Rightarrow> hsds option \<Rightarrow> heap \<Rightarrow> heap" where
  "free_args toks vec cur h =
    sdsfree cur (case vec of None \<Rightarrow> fold sdsfree (rev toks) h | Some b \<Rightarrow> free_block b (fold sdsfree (rev toks) h))"

lemma token_loop_h_rest: "token_loop_h ok A m p cur h = Inr ((b, cur', r), h') \<Longrightarrow> length r \<le> length p - 1"
proof (induction ok A m p cur h rule: token_loop_h.induct)
  case (1 ok A p cur h)
  show ?case
    using 1(4) by (subst (asm) token_loop_h.simps) (fastforce simp: rbind_Inr_iff split: list.splits if_splits dest: 1(1-3))
next
  case (2 ok A p cur h)
  show ?case
    using 2(3) by (subst (asm) token_loop_h.simps) (fastforce simp: rbind_Inr_iff split: list.splits if_splits dest: 2(1-2))
next
  case (3 ok A p cur h)
  show ?case
    using 3(4) by (subst (asm) token_loop_h.simps) (fastforce simp: rbind_Inr_iff split: list.splits if_splits dest: 3(1-3))
qed

lemma token_loop_h_shorter:
  assumes "token_loop_h ok A NoQ (dropWhile isspace p) cur h = Inr ((b, cur', r), h')" "dropWhile isspace p \<noteq> []"
  shows "length r < length p"
proof -
  have "length r < length (dropWhile isspace p)"
    using token_loop_h_rest [OF assms(1)] assms(2) by (metis Suc_pred' le_imp_less_Suc length_greater_0_conv)
  also have "\<dots> \<le> length p" by (rule length_dropWhile_le)
  finally show ?thesis .
qed

text \<open>A failed growth of the vector is a null vector, which is then written to.\<close>

function args_loop_h ::
  "(nat \<Rightarrow> bool) \<Rightarrow> allocator \<Rightarrow> bytes \<Rightarrow> hsds option list \<Rightarrow> nat option \<Rightarrow> heap \<Rightarrow>
   sds_fault + (nat \<times> hsds option list) option \<times> heap" where
  "args_loop_h ok A p toks vec h =
    (let q = dropWhile isspace p in
     if q \<noteq> [] then
       rbind (sdsempty_h ok A h) (\<lambda>(cur, h1). rbind (token_loop_h ok A NoQ q cur h1) (\<lambda>((fine, cur, rest), h2).
         if \<not> fine then Inr (None, free_args toks vec cur h2)
         else case grow_vector ok vec h2 of (None, h3) \<Rightarrow> Inl NullPtr
           | (Some b, h3) \<Rightarrow> args_loop_h ok A rest (toks @ [cur]) (Some b) h3))
     else case vec of Some b \<Rightarrow> Inr (Some (b, toks), h)
       | None \<Rightarrow> (case heap_alloc ok h of (None, h1) \<Rightarrow> Inr (None, h1) | (Some b, h1) \<Rightarrow> Inr (Some (b, toks), h1)))"
  by pat_completeness auto
termination
  by (relation "measure (\<lambda>(ok, A, p, toks, vec, h). length p)") (auto dest: token_loop_h_shorter)

declare args_loop_h.simps [simp del]

definition sdssplitargs_h ::
  "(nat \<Rightarrow> bool) \<Rightarrow> allocator \<Rightarrow> bytes \<Rightarrow> heap \<Rightarrow> sds_fault + (nat \<times> hsds option list) option \<times> heap" where
  "sdssplitargs_h ok A line h = rbind (c_string line) (\<lambda>p. args_loop_h ok A p [] None h)"

subsection \<open>Ownership\<close>

text \<open>The blocks a string, and the tokens of a result, own.\<close>

definition owned :: "hsds option \<Rightarrow> nat multiset" where
  "owned s = (case s of None \<Rightarrow> {#} | Some (b, _) \<Rightarrow> {#b#})"

definition owned_all :: "hsds option list \<Rightarrow> nat multiset" where
  "owned_all toks = sum_list (map owned toks)"

lemma owned_simps [simp]: "owned None = {#}" "owned (Some (b, x)) = {#b#}"
  by (simp_all add: owned_def)

lemma owned_all_simps [simp]: "owned_all [] = {#}" "owned_all (x # xs) = owned x + owned_all xs"
  "owned_all (xs @ ys) = owned_all xs + owned_all ys" "owned_all (rev xs) = owned_all xs"
  by (induction xs) (auto simp: owned_all_def ac_simps)

lemma balanced_sdsfree: "balanced ok h0 h (owned s + R) \<Longrightarrow> balanced ok h0 (sdsfree s h) R"
  by (cases s) (auto simp: sdsfree_def intro: balanced_free_block)

lemma balanced_sdsfree_all: "balanced ok h0 h (owned_all xs + R) \<Longrightarrow> balanced ok h0 (fold sdsfree xs h) R"
proof (induction xs arbitrary: h)
  case (Cons x xs)
  then have "balanced ok h0 (sdsfree x h) (owned_all xs + R)" by (intro balanced_sdsfree) (simp add: ac_simps)
  with Cons.IH show ?case by simp
qed simp

lemma fold_free_tokens: "fold (\<lambda>t. sdsfree (Some t)) toks h = fold sdsfree (map Some toks) h"
  by (induction toks arbitrary: h) simp_all

lemma balanced_free_tokens:
  "balanced ok h0 h (add_mset arr (owned_all (map Some toks) + R)) \<Longrightarrow> balanced ok h0 (free_tokens toks arr h) R"
  unfolding free_tokens_def fold_free_tokens
  by (intro balanced_free_block balanced_sdsfree_all) (simp add: ac_simps)

lemma balanced_placed:
  assumes "placed b m h = Inr (r, h')" "balanced ok h0 h (add_mset b R)" "m \<noteq> Inr None"
  shows "balanced ok h0 h' (owned r + R)"
  using assms by (cases m) (auto simp: placed_def)

lemma granting_grants [simp]: "grants (granting A) n"
  by (simp add: granting_def)

lemma sdsnewlen_granting: "sdsnewlen (granting A) init n \<noteq> Inr None"
  by (auto simp: sdsnewlen_def Let_def rbind_Inr_iff)

lemma sdsMakeRoomFor_granting: "sdsMakeRoomFor (granting A) n s \<noteq> Inr None"
  by (auto simp: sdsMakeRoomFor_def reblock_def Let_def rbind_Inr_iff)

lemma sdscatlen_granting: "sdscatlen (granting A) t n s \<noteq> Inr None"
  using sdsMakeRoomFor_granting [of A n s]
  by (auto simp: sdscatlen_def if_room_def Let_def rbind_Inr_iff split: option.splits)

lemma balanced_newlen:
  assumes "sdsnewlen_h ok A init n h = Inr (r, h')" "balanced ok h0 h R"
  shows "balanced ok h0 h' (owned r + R)"
proof -
  obtain x h1 where x: "heap_alloc ok h = (x, h1)" by (cases "heap_alloc ok h")
  from balanced_alloc_more [OF assms(2) x] assms(1) x show ?thesis
    by (auto simp: sdsnewlen_h_def split: option.splits dest: balanced_placed [OF _ _ sdsnewlen_granting])
qed

lemma balanced_next_token:
  assumes "next_token_h ok A s start n toks slots h = Inr (r, h')" "balanced ok h0 h (owned_all (map Some toks) + R)"
  shows "balanced ok h0 h' (owned_all (map Some (case r of None \<Rightarrow> toks | Some ts \<Rightarrow> ts)) + R)"
proof -
  obtain t h1 where t: "sdsnewlen_h ok A (Some (drop start s)) n h = Inr (t, h1)"
    "(case t of None \<Rightarrow> Inr (None, h1) | Some t \<Rightarrow> rbind (store_token toks slots t) (\<lambda>ts. Inr (Some ts, h1))) = Inr (r, h')"
    using assms(1) by (auto simp: next_token_h_def rbind_Inr_iff)
  note own = balanced_newlen [OF t(1) assms(2)]
  show ?thesis
  proof (cases t)
    case None
    with own t(2) show ?thesis by simp
  next
    case (Some x)
    with t(2) have "r = Some (toks @ [x])" "h' = h1" by (auto simp: rbind_Inr_iff store_token_def split: if_splits)
    with own Some show ?thesis by (simp add: ac_simps)
  qed
qed

definition owned_split :: "(nat \<times> hsds list) option \<Rightarrow> nat multiset" where
  "owned_split res = (case res of None \<Rightarrow> {#} | Some (arr, toks) \<Rightarrow> add_mset arr (owned_all (map Some toks)))"

lemma split_loop_h_end:
  "\<not> j < len - (seplen - 1) \<Longrightarrow> split_loop_h ok A s len sep seplen toks arr slots start j h =
    rbind (next_token_h ok A s start (len - start) toks slots h) (\<lambda>(ts, h1).
       case ts of None \<Rightarrow> Inr (None, free_tokens toks arr h1) | Some ts \<Rightarrow> Inr (Some (arr, ts), h1))"
  by (subst split_loop_h.simps) (simp only: if_False)

lemma split_loop_h_step:
  "j < len - (seplen - 1) \<Longrightarrow> grow_tokens ok slots (length toks) arr h = (Some arr1, h1) \<Longrightarrow>
    split_loop_h ok A s len sep seplen toks arr slots start j h =
      rbind (sep_at s sep seplen j) (\<lambda>found.
        if found then
          rbind (next_token_h ok A s start (j - start) toks (slots_for slots (length toks)) h1) (\<lambda>(ts, h2).
            case ts of None \<Rightarrow> Inr (None, free_tokens toks arr1 h2)
            | Some ts \<Rightarrow> split_loop_h ok A s len sep seplen ts arr1 (slots_for slots (length toks))
                (j + seplen) (Suc (j + (seplen - 1))) h2)
        else split_loop_h ok A s len sep seplen toks arr1 (slots_for slots (length toks)) start (j + 1) h1)"
  by (subst split_loop_h.simps) (simp only: if_True prod.case option.case)

lemma split_loop_h_none:
  "j < len - (seplen - 1) \<Longrightarrow> grow_tokens ok slots (length toks) arr h = (None, h1) \<Longrightarrow>
    split_loop_h ok A s len sep seplen toks arr slots start j h = Inr (None, free_tokens toks arr h1)"
  by (subst split_loop_h.simps) (simp only: if_True prod.case option.case)

lemma balanced_split_loop:
  "split_loop_h ok A s len sep seplen toks arr slots start j h = Inr (r, h') \<Longrightarrow>
   balanced ok h0 h (add_mset arr (owned_all (map Some toks))) \<Longrightarrow> balanced ok h0 h' (owned_split r)"
proof (induction ok A s len sep seplen toks arr slots start j h rule: split_loop_h.induct)
  case (1 ok A s len sep seplen toks arr slots start j h)
  have own: "balanced ok h0 h (owned_all (map Some toks) + {#arr#})" using 1(4) by simp
  show ?case
  proof (cases "j < len - (seplen - 1)")
    case False
    obtain ts h1 where ts: "next_token_h ok A s start (len - start) toks slots h = Inr (ts, h1)"
      "(case ts of None \<Rightarrow> Inr (None, free_tokens toks arr h1) | Some ts \<Rightarrow> Inr (Some (arr, ts), h1)) = (Inr (r, h') :: sds_fault + _)"
      using 1(3) unfolding split_loop_h_end [OF False] by (rule rbind_pairE)
    from balanced_next_token [OF ts(1) own] ts(2) show ?thesis
      by (auto simp: owned_split_def split: option.splits intro: balanced_free_tokens)
  next
    case True
    obtain g h1 where g: "grow_tokens ok slots (length toks) arr h = (g, h1)" by (cases "grow_tokens ok slots (length toks) arr h")
    have own1: "balanced ok h0 h1 (add_mset (case g of None \<Rightarrow> arr | Some b \<Rightarrow> b) (owned_all (map Some toks)))"
      using balanced_realloc [OF 1(4), of "g" h1] 1(4) g by (auto simp: grow_tokens_def split: if_splits option.splits)
    show ?thesis
    proof (cases g)
      case None
      with g have "grow_tokens ok slots (length toks) arr h = (None, h1)" by simp
      with 1(3) split_loop_h_none [OF True this] own1 None show ?thesis
        by (auto simp: owned_split_def intro: balanced_free_tokens)
    next
      case (Some arr1)
      with g have g1: "grow_tokens ok slots (length toks) arr h = (Some arr1, h1)" by simp
      note eq = 1(3) [unfolded split_loop_h_step [OF True g1]]
      then obtain found where f: "sep_at s sep seplen j = Inr found" by (auto simp: rbind_Inr_iff)
      show ?thesis
      proof (cases found)
        case False
        from eq f False have "split_loop_h ok A s len sep seplen toks arr1 (slots_for slots (length toks)) start (j + 1) h1 = Inr (r, h')"
          by simp
        from 1(2) [OF True g [symmetric] Some f False this] own1 Some show ?thesis by simp
      next
        case found: True
        from eq f found obtain ts h2 where
          ts: "next_token_h ok A s start (j - start) toks (slots_for slots (length toks)) h1 = Inr (ts, h2)"
          and rest: "(case ts of None \<Rightarrow> Inr (None, free_tokens toks arr1 h2)
            | Some ts \<Rightarrow> split_loop_h ok A s len sep seplen ts arr1 (slots_for slots (length toks)) (j + seplen) (Suc (j + (seplen - 1))) h2) =
              Inr (r, h')"
          by (simp, elim rbind_pairE)
        have own2: "balanced ok h0 h2 (owned_all (map Some (case ts of None \<Rightarrow> toks | Some ts \<Rightarrow> ts)) + {#arr1#})"
          using own1 Some by (intro balanced_next_token [OF ts]) simp
        show ?thesis
        proof (cases ts)
          case None
          with rest own2 show ?thesis by (auto simp: owned_split_def intro: balanced_free_tokens)
        next
          case (Some ts')
          with rest own2 1(1) [OF True g [symmetric] \<open>g = Some arr1\<close> f found ts refl Some] show ?thesis by simp
        qed
      qed
    qed
  qed
qed

subsection \<open>The same results\<close>

text \<open>
  A function on blocks agrees with the function on values: it gives the same result, or NULL because
  an allocation failed.
\<close>

definition agrees :: "(nat \<Rightarrow> bool) \<Rightarrow> sds_fault + 'a option \<times> heap \<Rightarrow> ('a \<Rightarrow> 'b) \<Rightarrow> sds_fault + 'b option \<Rightarrow> bool" where
  "agrees ok H f C \<longleftrightarrow>
     (\<exists>h. H = Inr (None, h)) \<and> (\<exists>n. \<not> ok n) \<or> rbind H (\<lambda>(r, h). Inr (map_option f r)) = C"

lemma agrees_fail: "\<not> ok n \<Longrightarrow> agrees ok (Inr (None, h)) f C"
  by (auto simp: agrees_def)

lemma agrees_bind:
  assumes "agrees ok H f C" "\<And>x h. H = Inr (Some x, h) \<Longrightarrow> agrees ok (K x h) g (L (f x))"
  shows "agrees ok (rbind H (\<lambda>(r, h). case r of None \<Rightarrow> Inr (None, F h) | Some x \<Rightarrow> K x h)) g
    (rbind C (\<lambda>r. case r of None \<Rightarrow> Inr None | Some y \<Rightarrow> L y))"
proof (cases H)
  case (Inl e)
  with assms(1) have "C = Inl e" by (auto simp: agrees_def)
  with Inl show ?thesis by (simp add: agrees_def)
next
  case (Inr p)
  obtain r h where p: "p = (r, h)" by (cases p)
  show ?thesis
  proof (cases r)
    case None
    with Inr p assms(1) show ?thesis by (auto simp: agrees_def)
  next
    case (Some x)
    with Inr p assms(1) have "C = Inr (Some (f x))" by (auto simp: agrees_def)
    with Inr p Some assms(2) show ?thesis by simp
  qed
qed

lemma rbind_option_same: "rbind m (\<lambda>r. case r of None \<Rightarrow> Inr None | Some x \<Rightarrow> Inr (Some x)) = m"
  by (cases m) (auto split: option.split)

lemma agrees_placed: "agrees ok (placed b m h) snd m"
  by (cases m) (auto simp: agrees_def placed_def option.map_comp comp_def option.map_ident)

lemma heap_alloc_fails: "heap_alloc ok h = (None, h1) \<Longrightarrow> \<not> ok (next_block h)"
  by (auto simp: heap_alloc_def split: if_splits)

lemma agrees_newlen: "agrees ok (sdsnewlen_h ok A init n h) snd (sdsnewlen (granting A) init n)"
  by (auto simp: sdsnewlen_h_def agrees_placed split: prod.split option.split intro: agrees_fail dest: heap_alloc_fails)

lemma agrees_next_token:
  "agrees ok (next_token_h ok A s start n toks slots h) (map snd) (next_token (granting A) s start n (map snd toks) slots)"
  unfolding next_token_h_def next_token_def
proof (rule agrees_bind [OF agrees_newlen])
  show "agrees ok (rbind (store_token toks slots x) (\<lambda>ts. Inr (Some ts, h))) (map snd)
      (rbind (store_token (map snd toks) slots (snd x)) (\<lambda>ts. Inr (Some ts)))" for x h
    by (simp add: store_token_def agrees_def)
qed

lemma realloc_fails: "heap_realloc ok b h = (None, h1) \<Longrightarrow> \<exists>n. \<not> ok n"
  by (auto simp: heap_realloc_def split: prod.splits option.splits dest: heap_alloc_fails)

lemma agrees_split_loop:
  "agrees ok (split_loop_h ok A s len sep seplen toks arr slots start j h) (map snd \<circ> snd)
     (split_loop (granting A) s len sep seplen (map snd toks) slots start j)"
proof (induction ok A s len sep seplen toks arr slots start j h rule: split_loop_h.induct)
  case (1 ok A s len sep seplen toks arr slots start j h)
  show ?case
  proof (cases "j < len - (seplen - 1)")
    case False
    have C: "split_loop (granting A) s len sep seplen (map snd toks) slots start j =
        rbind (next_token (granting A) s start (len - start) (map snd toks) slots)
          (\<lambda>r. case r of None \<Rightarrow> Inr None | Some ts \<Rightarrow> Inr (Some ts))"
      using False by (subst split_loop.simps) (simp add: rbind_option_same)
    show ?thesis unfolding split_loop_h_end [OF False] C
      by (rule agrees_bind [OF agrees_next_token]) (simp add: agrees_def)
  next
    case True
    obtain g h1 where g: "grow_tokens ok slots (length toks) arr h = (g, h1)" by (cases "grow_tokens ok slots (length toks) arr h")
    show ?thesis
    proof (cases g)
      case None
      with g have g1: "grow_tokens ok slots (length toks) arr h = (None, h1)" by simp
      then obtain n where "\<not> ok n" by (auto simp: grow_tokens_def split: if_splits dest: realloc_fails)
      then show ?thesis unfolding split_loop_h_none [OF True g1] by (rule agrees_fail)
    next
      case (Some arr1)
      with g have g1: "grow_tokens ok slots (length toks) arr h = (Some arr1, h1)" by simp
      let ?slots = "slots_for slots (length toks)"
      have C: "split_loop (granting A) s len sep seplen (map snd toks) slots start j =
          rbind (sep_at s sep seplen j) (\<lambda>found. if found then
            rbind (next_token (granting A) s start (j - start) (map snd toks) ?slots) (\<lambda>ts. case ts of None \<Rightarrow> Inr None
              | Some ts \<Rightarrow> split_loop (granting A) s len sep seplen ts ?slots (j + seplen) (Suc (j + (seplen - 1))))
            else split_loop (granting A) s len sep seplen (map snd toks) ?slots start (j + 1))"
        using True by (subst split_loop.simps) (unfold length_map, simp)
      show ?thesis
      proof (cases "sep_at s sep seplen j")
        case (Inl e)
        then show ?thesis unfolding split_loop_h_step [OF True g1] C by (simp add: agrees_def)
      next
        case (Inr found)
        show ?thesis
        proof (cases found)
          case False
          from 1(2) [OF True g [symmetric] Some Inr False] Inr False show ?thesis
            unfolding split_loop_h_step [OF True g1] C by simp
        next
          case found: True
          show ?thesis
            unfolding split_loop_h_step [OF True g1] C Inr rbind.simps if_P [OF found]
            by (rule agrees_bind [OF agrees_next_token])
              (use 1(1) [OF True g [symmetric] Some Inr found _ refl] in simp)
        qed
      qed
    qed
  qed
qed

subsection \<open>Arguments, when memory lasts\<close>

abbreviation plenty :: "nat \<Rightarrow> bool" where "plenty \<equiv> (\<lambda>_. True)"

lemma placed_Some: "placed b m h = Inr (r, h') \<Longrightarrow> m \<noteq> Inr None \<Longrightarrow> h' = h \<and> (\<exists>s. r = Some (b, s))"
  by (cases m) (auto simp: placed_def)

lemma plenty_alloc: "heap_alloc plenty h = (Some (next_block h), h\<lparr>next_block := Suc (next_block h)\<rparr>)"
  by (simp add: heap_alloc_def)

lemma balanced_catlen:
  assumes "sdscatlen_h plenty A t n x h = Inr (r, h')" "balanced plenty h0 h (add_mset (fst x) R)"
  shows "\<exists>y. r = Some y \<and> balanced plenty h0 h' (add_mset (fst y) R)"
proof (cases "n \<le> sdsavail (snd x)")
  case True
  with assms(1) have "placed (fst x) (sdscatlen (granting A) t n (snd x)) h = Inr (r, h')" by (simp add: sdscatlen_h_def)
  from placed_Some [OF this sdscatlen_granting] assms(2) show ?thesis by auto
next
  case False
  obtain b h1 where b: "heap_realloc plenty (fst x) h = (Some b, h1)"
    by (simp add: heap_realloc_def plenty_alloc)
  with False assms(1) have "placed b (sdscatlen (granting A) t n (snd x)) h1 = Inr (r, h')" by (simp add: sdscatlen_h_def)
  from placed_Some [OF this sdscatlen_granting] balanced_realloc [OF assms(2) b] show ?thesis by auto
qed

text \<open>The string that is being built exists, and it is the only new block beside \<open>R\<close>.\<close>

definition building :: "heap \<Rightarrow> nat multiset \<Rightarrow> hsds option \<Rightarrow> heap \<Rightarrow> bool" where
  "building h0 R cur h \<longleftrightarrow> cur \<noteq> None \<and> balanced plenty h0 h (owned cur + R)"

lemma building_byte: "add_byte_h plenty A c cur h = Inr (r, h') \<Longrightarrow> building h0 R cur h \<Longrightarrow> building h0 R r h'"
  using balanced_catlen [of A "[c]" 1 _ h r h' h0 R] by (fastforce simp: building_def add_byte_h_def)

lemma building_token:
  "token_loop_h plenty A m p cur h = Inr ((fine, cur', rest), h') \<Longrightarrow> building h0 R cur h \<Longrightarrow> building h0 R cur' h'"
proof (induction plenty A m p cur h rule: token_loop_h.induct)
  case (1 A p cur h)
  show ?case
    using 1(4,5) by (subst (asm) token_loop_h.simps)
      (fastforce simp: rbind_Inr_iff split: list.splits if_splits dest: building_byte 1(1-3))
next
  case (2 A p cur h)
  show ?case
    using 2(3,4) by (subst (asm) token_loop_h.simps)
      (fastforce simp: rbind_Inr_iff split: list.splits if_splits dest: building_byte 2(1-2))
next
  case (3 A p cur h)
  show ?case
    using 3(4,5) by (subst (asm) token_loop_h.simps)
      (fastforce simp: rbind_Inr_iff split: list.splits if_splits dest: building_byte 3(1-3))
qed

lemma building_empty:
  assumes "sdsempty_h plenty A h = Inr (r, h')" "balanced plenty h0 h R"
  shows "building h0 R r h'"
  using assms balanced_newlen [OF _ assms(2), of A "Some [nul]" 0 r h'] placed_Some [OF _ sdsnewlen_granting]
  by (fastforce simp: building_def sdsempty_h_def sdsnewlen_h_def plenty_alloc)

definition vector_block :: "nat option \<Rightarrow> nat multiset" where
  "vector_block vec = (case vec of None \<Rightarrow> {#} | Some b \<Rightarrow> {#b#})"

definition owned_args :: "(nat \<times> hsds option list) option \<Rightarrow> nat multiset" where
  "owned_args res = (case res of None \<Rightarrow> {#} | Some (b, toks) \<Rightarrow> add_mset b (owned_all toks))"

lemma balanced_free_args:
  "balanced ok h0 h (owned cur + (vector_block vec + (owned_all toks + R))) \<Longrightarrow> balanced ok h0 (free_args toks vec cur h) R"
proof -
  assume "balanced ok h0 h (owned cur + (vector_block vec + (owned_all toks + R)))"
  then have "balanced ok h0 h (owned_all (rev toks) + (vector_block vec + (owned cur + R)))" by (simp add: ac_simps)
  then have "balanced ok h0 (fold sdsfree (rev toks) h) (vector_block vec + (owned cur + R))"
    by (rule balanced_sdsfree_all)
  then show ?thesis
    unfolding free_args_def by (intro balanced_sdsfree) (auto simp: vector_block_def split: option.splits intro: balanced_free_block)
qed

lemma balanced_grow_vector:
  assumes "grow_vector plenty vec h = (Some b, h')" "balanced plenty h0 h (vector_block vec + R)"
  shows "balanced plenty h0 h' (add_mset b R)"
  using assms balanced_alloc_more [OF assms(2), of "Some b" h'] balanced_realloc [of plenty h0 h _ R "Some b" h']
  by (auto simp: grow_vector_def vector_block_def split: option.splits)

lemma balanced_args_loop:
  "args_loop_h plenty A p toks vec h = Inr (r, h') \<Longrightarrow> balanced plenty h0 h (owned_all toks + vector_block vec) \<Longrightarrow>
   balanced plenty h0 h' (owned_args r)"
proof (induction plenty A p toks vec h rule: args_loop_h.induct)
  case (1 A p toks vec h)
  show ?case
  proof (cases "dropWhile isspace p = []")
    case True
    with 1(2,3) show ?thesis
      using balanced_alloc_more [OF 1(3) plenty_alloc]
      by (subst (asm) args_loop_h.simps) (auto simp: plenty_alloc owned_args_def vector_block_def split: option.splits)
  next
    case False
    with 1(2) obtain cur0 h1 fine cur rest h2 where e: "sdsempty_h plenty A h = Inr (cur0, h1)"
      and t: "token_loop_h plenty A NoQ (dropWhile isspace p) cur0 h1 = Inr ((fine, cur, rest), h2)"
      and k: "(if \<not> fine then Inr (None, free_args toks vec cur h2)
         else case grow_vector plenty vec h2 of (None, h3) \<Rightarrow> Inl NullPtr
           | (Some b, h3) \<Rightarrow> args_loop_h plenty A rest (toks @ [cur]) (Some b) h3) = Inr (r, h')"
      by (subst (asm) args_loop_h.simps) (auto simp: rbind_Inr_iff)
    have own: "balanced plenty h0 h2 (owned cur + (owned_all toks + vector_block vec))"
      using building_token [OF t building_empty [OF e 1(3)]] by (simp add: building_def)
    show ?thesis
    proof (cases fine)
      case False
      with k own show ?thesis by (auto simp: owned_args_def ac_simps intro!: balanced_free_args)
    next
      case fine: True
      with k obtain b h3 where b: "grow_vector plenty vec h2 = (Some b, h3)"
        and rec: "args_loop_h plenty A rest (toks @ [cur]) (Some b) h3 = Inr (r, h')"
        by (auto split: prod.splits option.splits)
      have "balanced plenty h0 h3 (add_mset b (owned cur + owned_all toks))"
        using own by (intro balanced_grow_vector [OF b]) (simp add: ac_simps)
      then have "balanced plenty h0 h3 (owned_all (toks @ [cur]) + vector_block (Some b))"
        by (simp add: vector_block_def ac_simps)
      with 1(1) [OF refl False e refl t refl refl refl _ b [symmetric] refl rec] fine show ?thesis by simp
    qed
  qed
qed

lemma byte_same: "rbind (add_byte_h plenty A c cur h) (\<lambda>(r, h). Inr (map_option snd r)) = add_byte (granting A) c (map_option snd cur)"
proof (cases cur)
  case (Some x)
  have "rbind (placed b m h) (\<lambda>(r, h). Inr (map_option snd r)) = m" for b m and h :: heap
    by (cases m) (auto simp: placed_def option.map_comp comp_def option.map_ident)
  with Some show ?thesis
    by (simp add: add_byte_h_def add_byte_def on_sds_def sdscatlen_h_def heap_realloc_def plenty_alloc)
qed (simp add: add_byte_h_def add_byte_def on_sds_def)

definition token_result :: "token_end \<times> heap \<Rightarrow> (sds option \<times> bytes) option" where
  "token_result res = (case res of ((fine, cur, rest), h) \<Rightarrow> if fine then Some (map_option snd cur, rest) else None)"

lemma after_byte:
  assumes "\<And>r h'. add_byte_h plenty A c cur h = Inr (r, h') \<Longrightarrow> rbind (K r h') (\<lambda>x. Inr (token_result x)) = L (map_option snd r)"
  shows "rbind (rbind (add_byte_h plenty A c cur h) (\<lambda>(cur, h). K cur h)) (\<lambda>x. Inr (token_result x)) =
    rbind (add_byte (granting A) c (map_option snd cur)) L"
  using assms by (cases "add_byte_h plenty A c cur h") (auto simp flip: byte_same [of A c cur h])

lemma token_same:
  "rbind (token_loop_h plenty A m p cur h) (\<lambda>x. Inr (token_result x)) = token_loop (granting A) m p (map_option snd cur)"
proof (induction plenty A m p cur h rule: token_loop_h.induct)
  case (1 A p cur h)
  show ?case
    by (subst token_loop_h.simps, subst token_loop.simps)
      (auto simp: token_result_def [of "((_, _, _), _)"] after_byte 1 split: list.split)
next
  case (2 A p cur h)
  show ?case
    by (subst token_loop_h.simps, subst token_loop.simps)
      (auto simp: token_result_def [of "((_, _, _), _)"] after_byte 2 split: list.split)
next
  case (3 A p cur h)
  show ?case
    by (subst token_loop_h.simps, subst token_loop.simps)
      (auto simp: token_result_def [of "((_, _, _), _)"] after_byte 3 split: list.split)
qed

lemma empty_same: "rbind (sdsempty_h plenty A h) (\<lambda>(r, h). Inr (map_option snd r)) = sdsempty (granting A)"
  using agrees_newlen [of plenty A "Some [nul]" 0 h] by (simp add: agrees_def sdsempty_h_def sdsempty_def)

definition args_result :: "(nat \<times> hsds option list) option \<times> heap \<Rightarrow> sds option list option" where
  "args_result res = map_option (map (map_option snd) \<circ> snd) (fst res)"

lemma grow_vector_plenty: "\<exists>b h'. grow_vector plenty vec h = (Some b, h')"
  by (auto simp: grow_vector_def heap_realloc_def plenty_alloc split: option.split)

lemma args_same:
  "(vec = None \<longleftrightarrow> toks = []) \<Longrightarrow>
   rbind (args_loop_h plenty A p toks vec h) (\<lambda>x. Inr (args_result x)) = args_loop (granting A) p (map (map_option snd) toks)"
proof (induction plenty A p toks vec h rule: args_loop_h.induct)
  case (1 A p toks vec h)
  show ?case
  proof (cases "dropWhile isspace p = []")
    case True
    with 1(2) show ?thesis
      by (subst args_loop_h.simps, subst args_loop.simps)
        (auto simp: plenty_alloc args_result_def Let_def split: option.splits)
  next
    case False
    let ?q = "dropWhile isspace p"
    have C: "args_loop (granting A) p (map (map_option snd) toks) =
        rbind (sdsempty (granting A)) (\<lambda>cur. rbind (token_loop (granting A) NoQ ?q cur) (\<lambda>res. case res of None \<Rightarrow> Inr None
          | Some (cur, rest) \<Rightarrow> args_loop (granting A) rest (map (map_option snd) toks @ [cur])))"
      using False by (subst args_loop.simps) (simp add: Let_def)
    have H: "args_loop_h plenty A p toks vec h =
        rbind (sdsempty_h plenty A h) (\<lambda>(cur, h1). rbind (token_loop_h plenty A NoQ ?q cur h1) (\<lambda>((fine, cur, rest), h2).
         if \<not> fine then Inr (None, free_args toks vec cur h2)
         else case grow_vector plenty vec h2 of (None, h3) \<Rightarrow> Inl NullPtr
           | (Some b, h3) \<Rightarrow> args_loop_h plenty A rest (toks @ [cur]) (Some b) h3))"
      using False by (subst args_loop_h.simps) (simp add: Let_def)
    show ?thesis
    proof (cases "sdsempty_h plenty A h")
      case (Inl e)
      then show ?thesis unfolding C H by (simp flip: empty_same [of A h])
    next
      case e: (Inr x)
      obtain cur0 h1 where x: "x = (cur0, h1)" by (cases x)
      with e have e1: "sdsempty_h plenty A h = Inr (cur0, h1)" "sdsempty (granting A) = Inr (map_option snd cur0)"
        by (simp_all flip: empty_same [of A h])
      note tok = token_same [of A NoQ ?q cur0 h1, symmetric]
      show ?thesis
      proof (cases "token_loop_h plenty A NoQ ?q cur0 h1")
        case (Inl e)
        with e1 tok show ?thesis unfolding C H by simp
      next
        case t: (Inr y)
        obtain fine cur rest h2 where y: "y = ((fine, cur, rest), h2)" by (metis surj_pair)
        show ?thesis
        proof (cases fine)
          case False
          with e1 tok t y show ?thesis unfolding C H by (simp add: token_result_def args_result_def)
        next
          case True
          obtain b h3 where b: "grow_vector plenty vec h2 = (Some b, h3)" using grow_vector_plenty by blast
          have "rbind (args_loop_h plenty A rest (toks @ [cur]) (Some b) h3) (\<lambda>x. Inr (args_result x)) =
              args_loop (granting A) rest (map (map_option snd) (toks @ [cur]))"
            using 1(1) [OF refl False e1(1) refl t y [symmetric] refl refl _ b [symmetric] refl] True by simp
          with True e1 tok t y b show ?thesis unfolding C H by (simp add: token_result_def)
        qed
      qed
    qed
  qed
qed

definition no_blocks :: heap where
  "no_blocks = \<lparr>next_block = 0, freed = []\<rparr>"

text \<open>The second allocation is that of the first byte of the first argument.\<close>

lemma empty_string_full:
  "\<exists>s. sdsempty_h (\<lambda>n. n \<noteq> 1) A no_blocks = Inr (Some (0, s), \<lparr>next_block = 1, freed = []\<rparr>) \<and> sdsavail s = 0"
proof -
  obtain s where s: "sdsempty (granting A) = Inr (Some s)"
    by (rule yields_granted [OF sdsempty_yields [of "granting A"]]) (simp, blast)
  then have "hdr s = sdshdr8 0 0"
    by (auto simp: sdsempty_def sdsnewlen_def Let_def rbind_Inr_iff sdsReqType_def sdsHdrSize_def new_hdr_def)
  then have "sdsavail s = 0" by (simp add: sdsavail_def)
  with s show ?thesis by (auto simp: sdsempty_h_def sdsnewlen_h_def sdsempty_def placed_def no_blocks_def heap_alloc_def)
qed

lemma first_byte_lost:
  assumes "c \<noteq> nul" "\<not> isspace c" "c \<noteq> dquote" "c \<noteq> squote"
  shows "sdssplitargs_h (\<lambda>n. n \<noteq> 1) A [c, nul] no_blocks = Inr (Some (2, [None]), \<lparr>next_block = 3, freed = []\<rparr>)"
    "sdssplitargs_h (\<lambda>n. n \<noteq> 1) A [c, c, nul] no_blocks = Inl NullPtr"
proof -
  obtain s where s: "sdsempty_h (\<lambda>n. n \<noteq> 1) A no_blocks = Inr (Some (0, s), \<lparr>next_block = 1, freed = []\<rparr>)" "sdsavail s = 0"
    using empty_string_full by blast
  have c: "c \<noteq> CHR '' ''" "c \<noteq> lf" "c \<noteq> cr" "c \<noteq> tab" using assms(2) by (auto simp: isspace_def)
  have b: "add_byte_h (\<lambda>n. n \<noteq> 1) A c (Some (0, s)) \<lparr>next_block = 1, freed = []\<rparr> = Inr (None, \<lparr>next_block = 2, freed = []\<rparr>)"
    using s(2) by (simp add: add_byte_h_def sdscatlen_h_def heap_realloc_def heap_alloc_def)
  have n: "add_byte_h (\<lambda>n. n \<noteq> 1) A c None h = Inl NullPtr" for h by (simp add: add_byte_h_def)
  have t0: "token_loop_h (\<lambda>n. n \<noteq> 1) A NoQ [] x h = Inr ((True, x, []), h)" for x h by (simp add: token_loop_h.simps)
  have t1: "token_loop_h (\<lambda>n. n \<noteq> 1) A NoQ [c] (Some (0, s)) \<lparr>next_block = 1, freed = []\<rparr> =
      Inr ((True, None, []), \<lparr>next_block = 2, freed = []\<rparr>)"
    by (subst token_loop_h.simps) (use assms c b t0 in simp)
  have t2: "token_loop_h (\<lambda>n. n \<noteq> 1) A NoQ [c, c] (Some (0, s)) \<lparr>next_block = 1, freed = []\<rparr> = Inl NullPtr"
    by (subst token_loop_h.simps) (use assms c b n in \<open>simp add: token_loop_h.simps(3)\<close>)
  have a: "args_loop_h (\<lambda>n. n \<noteq> 1) A [] [x] (Some k) h = Inr (Some (k, [x]), h)" for x k h
    by (subst args_loop_h.simps) simp
  have g: "grow_vector (\<lambda>n. n \<noteq> 1) None \<lparr>next_block = 2, freed = []\<rparr> = (Some 2, \<lparr>next_block = 3, freed = []\<rparr>)"
    by (simp add: grow_vector_def heap_alloc_def)
  show "sdssplitargs_h (\<lambda>n. n \<noteq> 1) A [c, nul] no_blocks = Inr (Some (2, [None]), \<lparr>next_block = 3, freed = []\<rparr>)"
    unfolding sdssplitargs_h_def by (subst args_loop_h.simps) (use assms s t1 g a in \<open>simp add: c_string_def\<close>)
  show "sdssplitargs_h (\<lambda>n. n \<noteq> 1) A [c, c, nul] no_blocks = Inl NullPtr"
    unfolding sdssplitargs_h_def by (subst args_loop_h.simps) (use assms s t2 in \<open>simp add: c_string_def\<close>)
qed

text \<open>
  C13: \<open>sdssplitlen\<close> owns what it returns and nothing else, whichever of its allocations fail.  It does
  not fault; the blocks it took and did not free are those of the array and the tokens of its result
  (none when the result is NULL, which it is only after a failed allocation), \<open>sdsfreesplitres\<close> frees
  each of these once, and the tokens hold the pieces between the separators.
\<close>

theorem split_owns_result:
  assumes "0 < len" "nat len \<le> length s" "length s < 2 ^ 31" "0 < seplen" "nat seplen \<le> length sep"
  shows "\<exists>r h'. sdssplitlen_h ok A s len sep seplen h = Inr (r, h') \<and> balanced ok h h' (owned_split r) \<and>
    balanced ok h (sdsfreesplitres (map_option (\<lambda>(arr, ts). (arr, map Some ts)) r) h') {#} \<and>
    (case r of None \<Rightarrow> \<exists>n. \<not> ok n
     | Some (arr, ts) \<Rightarrow> map (content \<circ> snd) ts = split_on (take (nat seplen) sep) [] (take (nat len) s))"
proof -
  obtain a h1 where a: "heap_alloc ok h = (a, h1)" by (cases "heap_alloc ok h")
  show ?thesis
  proof (cases a)
    case None
    with a assms have "sdssplitlen_h ok A s len sep seplen h = Inr (None, h1)" by (simp add: sdssplitlen_h_def)
    with a None show ?thesis
      using balanced_alloc(2) [of ok h h1] heap_alloc_fails [of ok h h1] by (auto simp: owned_split_def sdsfreesplitres_def)
  next
    case (Some arr)
    let ?H = "split_loop_h ok A s (nat len) sep (nat seplen) [] arr 5 0 0 h1"
    let ?C = "split_loop (granting A) s (nat len) sep (nat seplen) [] 5 0 0"
    have H: "sdssplitlen_h ok A s len sep seplen h = ?H" using a Some assms by (simp add: sdssplitlen_h_def)
    have own: "balanced ok h h1 {#arr#}" using balanced_alloc(1) [of ok h arr h1] a Some by simp
    obtain ts where ts: "?C = Inr (Some ts)" "tokens ts (split_on (take (nat seplen) sep) [] (take (nat len) s))"
      using sdssplitlen_gives [OF assms, of "granting A"] assms by (auto simp: gives_tokens_def sdssplitlen_def)
    have "agrees ok ?H (map snd \<circ> snd) ?C" using agrees_split_loop [of ok A s "nat len" sep "nat seplen" "[]"] by simp
    with ts(1) obtain r h' where r: "?H = Inr (r, h')"
      "r = None \<and> (\<exists>n. \<not> ok n) \<or> (\<exists>arr hts. r = Some (arr, hts) \<and> map snd hts = ts)"
      by (cases ?H) (auto simp: agrees_def)
    have bal: "balanced ok h h' (owned_split r)" using balanced_split_loop [OF r(1)] own by simp
    have "balanced ok h (sdsfreesplitres (map_option (\<lambda>(arr, ts). (arr, map Some ts)) r) h') {#}"
    proof (cases r)
      case (Some p)
      obtain b hts where "p = (b, hts)" by (cases p)
      with bal Some show ?thesis
        by (auto simp: sdsfreesplitres_def owned_split_def ac_simps intro!: balanced_free_block balanced_sdsfree_all)
    qed (use bal in \<open>simp add: sdsfreesplitres_def owned_split_def\<close>)
    moreover have "map content ts = split_on (take (nat seplen) sep) [] (take (nat len) s)"
      using ts(2) by (auto simp: tokens_def list_all2_conv_all_nth intro!: nth_equalityI)
    ultimately show ?thesis using H r bal by (auto simp flip: map_map)
  qed
qed

lemma split_owns_result_witness:
  "\<exists>r h'. sdssplitlen_h (\<lambda>n. n \<noteq> 2) \<lparr>grants = (\<lambda>_. True), garbage = (\<lambda>_. CHR ''?'')\<rparr> ''a,b'' 3 '','' 1 no_blocks = Inr (r, h') \<and>
    balanced (\<lambda>n. n \<noteq> 2) no_blocks h' (owned_split r)"
proof -
  have h: "(0::int) < 3" "nat 3 \<le> length ''a,b''" "length ''a,b'' < 2 ^ 31" "(0::int) < 1" "nat 1 \<le> length '',''" by simp_all
  show ?thesis
    using split_owns_result [OF h, of "\<lambda>n. n \<noteq> 2" "\<lparr>grants = (\<lambda>_. True), garbage = (\<lambda>_. CHR ''?'')\<rparr>" no_blocks] by blast
qed

text \<open>
  C21: as long as memory lasts \<open>sdssplitargs\<close> returns on every line, with what the parser of \<open>Sds_Args\<close>
  returns; after a syntax error it has freed every block it took, otherwise the blocks left are those
  of the vector and of its strings, and \<open>sdsfreesplitres\<close> frees each of these once.  The appends
  to \<open>current\<close> are unchecked: when the one for the first byte of a line fails, the
  string is lost, and the call returns a NULL argument or, with a second byte, dereferences NULL.
\<close>

theorem split_args_owns:
  assumes "nul \<in> set line" "length line < 2 ^ 62"
  shows "(\<exists>r h'. sdssplitargs_h plenty A line h = Inr (r, h') \<and> balanced plenty h h' (owned_args r) \<and>
      balanced plenty h (sdsfreesplitres r h') {#} \<and> sdssplitargs (granting A) line = Inr (args_result (r, h'))) \<and>
    sdssplitargs_h (\<lambda>n. n \<noteq> 1) A [CHR ''a'', CHR ''a'', nul] no_blocks = Inl NullPtr"
proof -
  let ?p = "takeWhile (\<lambda>c. c \<noteq> nul) line"
  have p: "c_string line = Inr ?p" using assms(1) by (simp add: c_string_def)
  have "length ?p < 2 ^ 62" using assms(2) length_takeWhile_le [of "\<lambda>c. c \<noteq> nul" line] by linarith
  then obtain res where res: "args_loop (granting A) ?p [] = Inr res"
    using args_total [of "granting A" ?p "[]"] by auto
  have "rbind (args_loop_h plenty A ?p [] None h) (\<lambda>x. Inr (args_result x)) = Inr res"
    using args_same [of None "[]" A ?p h] res by simp
  then obtain r h' where r: "args_loop_h plenty A ?p [] None h = Inr (r, h')" "args_result (r, h') = res"
    by (auto simp: rbind_Inr_iff)
  have own: "balanced plenty h h' (owned_args r)"
    using balanced_args_loop [OF r(1), of h] balanced_refl by (simp add: vector_block_def)
  then have "balanced plenty h (sdsfreesplitres r h') {#}"
    by (auto simp: sdsfreesplitres_def owned_args_def ac_simps split: option.split
        intro!: balanced_free_block balanced_sdsfree_all)
  with own r res p show ?thesis
    using first_byte_lost [of "CHR ''a''" A] by (simp add: sdssplitargs_h_def sdssplitargs_def isspace_def)
qed

lemma split_args_owns_witness:
  "\<exists>r h'. sdssplitargs_h plenty \<lparr>grants = (\<lambda>_. True), garbage = (\<lambda>_. CHR ''?'')\<rparr> (''set k'' @ [nul]) no_blocks = Inr (r, h') \<and>
    balanced plenty no_blocks (sdsfreesplitres r h') {#}"
proof -
  have h: "nul \<in> set (''set k'' @ [nul])" "length (''set k'' @ [nul]) < 2 ^ 62" by simp_all
  show ?thesis
    using split_args_owns [OF h, of "\<lparr>grants = (\<lambda>_. True), garbage = (\<lambda>_. CHR ''?'')\<rparr>" no_blocks] by blast
qed

end
