(* ===== verification/Server.thy ===== *)
theory Server
  imports Trans_Mgr Rpc
begin

text \<open>
  A server of the framework: the transactions of \<open>src/app/common/svr_comm_trans.h\<close> and
  \<open>svr_comm_trans.cpp\<close> on the transaction manager, and the handler of \<open>app_base.h\<close> that takes the
  messages of the network to it.

  The code of a transaction, its \<open>Task\<close>, is an argument: given its context, what \<open>Yield\<close> returned and
  the message \<open>GetMsg\<close> shows, it says which messages it sends, in their order, and how it goes on.
\<close>

text \<open>\<open>struct MsgHead : public TransMsg\<close>\<close>

record svr_msg = trans_msg +
  head_of :: msg_head

definition MsgHead :: "msg_head \<Rightarrow> svr_msg" where
  "MsgHead h = \<lparr>m_cmd = h_cmd h, m_co_id = dst_co_id h, m_data = h_msg h, head_of = h\<rparr>"

text \<open>What belongs to a server beside its coroutines; \<open>published\<close> is what it gave to the network.\<close>

record 'a svr_app =
  net :: mq_state
  known_svrs :: svr_list
  published :: "msg_head list"
  undefined_behaviour :: bool
  user :: 'a

definition net_SendMsg :: "msg_head \<Rightarrow> 'a svr_app \<Rightarrow> 'a svr_app" where
  "net_SendMsg h a = (case mq_publish (net a) h of None \<Rightarrow> a | Some m \<Rightarrow> a\<lparr>published := published a @ [m]\<rparr>)"

subsection \<open>The calls of a transaction\<close>

text \<open>
  Payloads are serialised.  \<open>SendRequest\<close> is \<open>SendMsgThenYield\<close> up to its \<open>Yield\<close>; the number in
  the calls by type is what \<open>RandOne\<close> draws.
\<close>

datatype api_call =
    SendMsg bytes u32 bytes u32
  | SendMsgBySvrType nat bytes u32 bytes u32
  | SendReply msg_head bytes
  | SendRequest bytes u32 bytes u32
  | SendRequestByType nat bytes u32 bytes u32

fun call_head :: "u32 \<Rightarrow> 'a svr_app \<Rightarrow> api_call \<Rightarrow> msg_head" where
  "call_head i a (SendMsg dst cmd msg co) = send_msg dst cmd msg co"
| "call_head i a (SendMsgBySvrType rnd ty cmd msg co) = send_by_type rnd (known_svrs a) ty cmd msg co"
| "call_head i a (SendReply src msg) = send_reply src msg"
| "call_head i a (SendRequest dst cmd msg co) = request_head i (mq_key (net a)) dst cmd msg co"
| "call_head i a (SendRequestByType rnd ty cmd msg co) =
    request_head i (mq_key (net a)) (GetOneSvrByType rnd ty (known_svrs a)) cmd msg co"

definition api :: "u32 \<Rightarrow> api_call \<Rightarrow> 'a svr_app \<Rightarrow> 'a svr_app" where
  "api i c a = net_SendMsg (call_head i a c) a"

text \<open>How a transaction goes on: it ends, an exception leaves it, it yields, or its behaviour is undefined.\<close>

datatype ('k, 'a) task_end = Returns 'a | Throws string 'a | Yields int 'k 'a | Undefined 'a

type_synonym ('k, 'a) svr_task = "'k \<Rightarrow> int \<Rightarrow> svr_msg option \<Rightarrow> 'a \<Rightarrow> api_call list \<times> ('k, 'a) task_end"

text \<open>\<open>DoTask\<close> catches every \<open>std::exception\<close>.  The context has the id of the coroutine, \<open>_co->co_id_\<close>.\<close>

definition DoTask ::
  "('k, 'a) svr_task \<Rightarrow> u32 \<times> 'k \<Rightarrow> int \<Rightarrow> svr_msg option \<Rightarrow> 'a svr_app \<Rightarrow> (u32 \<times> 'k, 'a svr_app) outcome" where
  "DoTask task ik ret msg a =
    (case task (snd ik) ret msg (user a) of (calls, e) \<Rightarrow>
      (let a1 = fold (api (fst ik)) calls a in
       case e of
         Returns u \<Rightarrow> Finish (a1\<lparr>user := u\<rparr>)
       | Throws why u \<Rightarrow> Finish (a1\<lparr>user := u\<rparr>)
       | Yields tmo k u \<Rightarrow> YieldFor tmo (fst ik, k) (a1\<lparr>user := u\<rparr>)
       | Undefined u \<Rightarrow> Finish (a1\<lparr>user := u, undefined_behaviour := True\<rparr>)))"

type_synonym ('o, 'k, 'a) svr_state = "('o, u32 \<times> 'k, unit svr_msg_ext, 'a svr_app) tm_states"

definition svr_env ::
  "('o \<Rightarrow> 'k) \<Rightarrow> ('k, 'a) svr_task \<Rightarrow> ('a \<Rightarrow> int) \<Rightarrow> (u32 timer \<Rightarrow> nat) \<Rightarrow> ('o, u32 \<times> 'k, unit svr_msg_ext, 'a svr_app) tm_envs" where
  "svr_env start task clk ml = tm_env (\<lambda>x i. (i, start x)) (DoTask task) (\<lambda>a. clk (user a)) ml"

text \<open>The handler that \<open>AppBase::Init\<close> gives to the network; the result of \<open>OnMsg\<close> is dropped.\<close>

definition recv_msg ::
  "('o, u32 \<times> 'k, unit svr_msg_ext, 'a svr_app) tm_envs \<Rightarrow> msg_head \<Rightarrow> ('o, 'k, 'a) svr_state \<Rightarrow> ('o, 'k, 'a) svr_state" where
  "recv_msg env h st = snd (OnMsg env (MsgHead h) st)"

definition svr_app_of :: "('o, 'k, 'a) svr_state \<Rightarrow> 'a svr_app" where
  "svr_app_of st = app (world (snd st))"

definition set_svr_app :: "'a svr_app \<Rightarrow> ('o, 'k, 'a) svr_state \<Rightarrow> ('o, 'k, 'a) svr_state" where
  "set_svr_app a st = (fst st, (snd st)\<lparr>world := (world (snd st))\<lparr>app := a\<rparr>\<rparr>)"

definition svr_init :: "(u32 \<Rightarrow> 'o list option) \<Rightarrow> bytes \<Rightarrow> 'a \<Rightarrow> ('o, 'k, 'a) svr_state" where
  "svr_init tm self u = co_init \<lparr>trans_map = tm, app = \<lparr>net = \<lparr>mq_connected = False, send_usable = False,
     recv_channel_succ = False, mq_key = self\<rparr>, known_svrs = empty_svr_list, published = [], undefined_behaviour = False, user = u\<rparr>\<rparr>"

subsection \<open>Code that only uses the interface\<close>

text \<open>
  \<open>knows k\<close> are the heads a context has kept.  A transaction that answers only messages it was given
  and leaves \<open>dst_co_id\<close> at its default uses nothing but the interface.
\<close>

fun proper_call :: "msg_head set \<Rightarrow> api_call \<Rightarrow> bool" where
  "proper_call seen (SendMsg dst cmd msg co) \<longleftrightarrow> co = 0"
| "proper_call seen (SendMsgBySvrType rnd ty cmd msg co) \<longleftrightarrow> co = 0"
| "proper_call seen (SendReply src msg) \<longleftrightarrow> src \<in> seen"
| "proper_call seen (SendRequest dst cmd msg co) \<longleftrightarrow> co = 0"
| "proper_call seen (SendRequestByType rnd ty cmd msg co) \<longleftrightarrow> co = 0"

definition api_only :: "('k \<Rightarrow> msg_head set) \<Rightarrow> ('o \<Rightarrow> 'k) \<Rightarrow> ('k, 'a) svr_task \<Rightarrow> bool" where
  "api_only knows start task \<longleftrightarrow> (\<forall>x. knows (start x) = {}) \<and>
     (\<forall>k ret msg u calls e. task k ret msg u = (calls, e) \<longrightarrow>
       (let seen = knows k \<union> set_option (map_option head_of msg) in
        (\<forall>c \<in> set calls. proper_call seen c) \<and> (\<forall>tmo k' u'. e = Yields tmo k' u' \<longrightarrow> knows k' \<subseteq> seen)))"

text \<open>
  The messages server \<open>b\<close> publishes when it was given the heads \<open>H\<close>: a message for a coroutine answers
  one of them.
\<close>

definition answers :: "msg_head \<Rightarrow> msg_head \<Rightarrow> bool" where
  "answers m req \<longleftrightarrow> dst_bus_id m = src_bus_id req \<and> dst_co_id m = src_co_id req \<and> h_cmd m = h_cmd req + 1"

definition from_server :: "bytes \<Rightarrow> msg_head set \<Rightarrow> msg_head \<Rightarrow> bool" where
  "from_server b H m \<longleftrightarrow> src_bus_id m = b \<and> (dst_co_id m \<noteq> 0 \<longrightarrow> (\<exists>req \<in> H. answers m req))"

definition app_ok :: "bytes \<Rightarrow> msg_head set \<Rightarrow> 'a svr_app \<Rightarrow> bool" where
  "app_ok b H a \<longleftrightarrow> mq_key (net a) = b \<and> (\<forall>m \<in> set (published a). from_server b H m)"

lemma app_ok_user [simp]: "app_ok b H (a\<lparr>user := u\<rparr>) = app_ok b H a"
  "app_ok b H (a\<lparr>undefined_behaviour := x\<rparr>) = app_ok b H a"
  by (simp_all add: app_ok_def)

lemma app_ok_api: "app_ok b H a \<Longrightarrow> proper_call H c \<Longrightarrow> app_ok b H (api i c a)"
  by (cases c) (auto simp: app_ok_def api_def net_SendMsg_def mq_publish_def from_server_def answers_def send_msg_def
      send_by_type_def send_reply_def request_head_def new_head_def split: option.split if_splits)

lemma app_ok_apis: "app_ok b H a \<Longrightarrow> \<forall>c \<in> set calls. proper_call H c \<Longrightarrow> app_ok b H (fold (api i) calls a)"
  by (induction calls arbitrary: a) (simp_all add: app_ok_api)

lemma proper_call_mono: "proper_call S c \<Longrightarrow> S \<subseteq> H \<Longrightarrow> proper_call H c"
  by (cases c) auto

text \<open>What a server holds: the messages and contexts of its coroutines know only the heads \<open>H\<close>.\<close>

definition in_range :: "('t, 'k, 'm) co_pool \<Rightarrow> bool" where
  "in_range cp \<longleftrightarrow> set (free_coroutine cp) \<subseteq> {..<length (objs cp)} \<and>
     (\<forall>i p. action_coroutine cp i = Some p \<longrightarrow> p < length (objs cp))"

definition co_knows :: "('k \<Rightarrow> msg_head set) \<Rightarrow> msg_head set \<Rightarrow> ('t, u32 \<times> 'k, svr_msg) coroutine \<Rightarrow> bool" where
  "co_knows knows H co \<longleftrightarrow> (\<forall>i k. co_ctx co = Saved (i, k) \<longrightarrow> knows k \<subseteq> H) \<and>
     (\<forall>m. co_msg co = Some m \<longrightarrow> head_of m \<in> H)"

definition svr_ok ::
  "bytes \<Rightarrow> ('k \<Rightarrow> msg_head set) \<Rightarrow> msg_head set \<Rightarrow> (u32 \<times> 'o, u32 \<times> 'k, svr_msg, ('o, 'a svr_app) tm_world) co_rest \<Rightarrow> bool" where
  "svr_ok b knows H s \<longleftrightarrow> in_range (cpool s) \<and> (\<forall>co \<in> set (objs (cpool s)). co_knows knows H co) \<and>
     app_ok b H (app (world s))"

lemma in_range_upd_obj [simp]: "in_range (upd_obj p f cp) = in_range cp"
  by (simp add: in_range_def upd_obj_def)

lemma knows_upd_obj:
  assumes "\<forall>co \<in> set (objs cp). co_knows knows H co" "\<And>co. co_knows knows H co \<Longrightarrow> co_knows knows H (f co)"
  shows "\<forall>co \<in> set (objs (upd_obj p f cp)). co_knows knows H co"
proof (cases "p < length (objs cp)")
  case True
  with assms show ?thesis by (auto simp: upd_obj_def dest: subsetD [OF set_update_subset_insert])
qed (use assms(1) in \<open>simp add: upd_obj_def list_update_beyond\<close>)

lemma svr_ok_upd_obj: "svr_ok b knows H s \<Longrightarrow> (\<And>co. co_knows knows H co \<Longrightarrow> co_knows knows H (f co)) \<Longrightarrow>
    svr_ok b knows H (s\<lparr>cpool := upd_obj p f (cpool s)\<rparr>)"
  using knows_upd_obj [of "cpool s" knows H f p] by (simp add: svr_ok_def)

lemma svr_ok_mono: "svr_ok b knows H s \<Longrightarrow> H \<subseteq> H' \<Longrightarrow> svr_ok b knows H' s"
  unfolding svr_ok_def co_knows_def app_ok_def from_server_def by (meson subsetD subset_trans)

lemma app_give_back [simp]: "app (give_back x w) = app w" "app (set_pool cmd pool w) = app w"
  by (simp_all add: give_back_def set_pool_def)

lemma svr_ok_Free:
  assumes "svr_ok b knows H s" "FreeCoroutine i (cpool s) = (task, cp)" "app_ok b H (app w)"
  shows "svr_ok b knows H (s\<lparr>cpool := cp, world := (case task of None \<Rightarrow> w | Some x \<Rightarrow> give_back x w)\<rparr>)"
proof -
  have "app (case task of None \<Rightarrow> w | Some x \<Rightarrow> give_back x w) = app w" by (simp split: option.split)
  moreover have "in_range cp \<and> (\<forall>co \<in> set (objs cp). co_knows knows H co)"
  proof (cases "action_coroutine (cpool s) i")
    case (Some p)
    let ?cp = "upd_obj p (\<lambda>co. co\<lparr>co_task := None\<rparr>) (cpool s)"
    have cp: "cp = ?cp\<lparr>free_coroutine := free_coroutine (cpool s) @ [p], action_coroutine := (action_coroutine (cpool s))(i := None)\<rparr>"
      using assms(2) Some by (simp add: FreeCoroutine_def)
    have "\<forall>co \<in> set (objs ?cp). co_knows knows H co"
      by (rule knows_upd_obj) (use assms(1) in \<open>simp_all add: svr_ok_def co_knows_def\<close>)
    then show ?thesis using assms(1) Some by (simp add: cp svr_ok_def in_range_def upd_obj_def)
  qed (use assms in \<open>simp add: FreeCoroutine_def svr_ok_def\<close>)
  ultimately show ?thesis using assms(3) by (simp add: svr_ok_def)
qed

lemma get_msg_known:
  assumes "svr_ok b knows H s" "GetMsg i (cpool s) = Some m"
  shows "head_of m \<in> H"
proof -
  from assms(2) obtain p where p: "action_coroutine (cpool s) i = Some p" "co_msg (objs (cpool s) ! p) = Some m"
    by (auto simp: GetMsg_def FindCoId_def split: option.splits)
  with assms(1) have "p < length (objs (cpool s))" by (simp add: svr_ok_def in_range_def)
  then have "co_knows knows H (objs (cpool s) ! p)" using assms(1) by (simp add: svr_ok_def)
  with p show ?thesis by (simp add: co_knows_def)
qed

text \<open>One run of a transaction, from the contract of its code.\<close>

lemma api_only_step:
  assumes "api_only knows start task" "task k ret msg u = (calls, e)" "knows k \<subseteq> H" "\<And>m. msg = Some m \<Longrightarrow> head_of m \<in> H"
  shows "\<forall>c \<in> set calls. proper_call H c" "e = Yields tmo k' u' \<Longrightarrow> knows k' \<subseteq> H"
proof -
  let ?seen = "knows k \<union> set_option (map_option head_of msg)"
  have "?seen \<subseteq> H" using assms(3,4) by (auto simp: option.set_map)
  moreover note assms(1) [unfolded api_only_def Let_def, THEN conjunct2, rule_format, OF assms(2)]
  ultimately show "\<forall>c \<in> set calls. proper_call H c" "e = Yields tmo k' u' \<Longrightarrow> knows k' \<subseteq> H"
    using proper_call_mono by (metis, metis subset_trans)
qed

lemma DoTask_keeps:
  assumes "api_only knows start task" "app_ok b H a" "knows (snd ik) \<subseteq> H" "\<And>m. msg = Some m \<Longrightarrow> head_of m \<in> H"
  shows "DoTask task ik ret msg a = Finish a' \<Longrightarrow> app_ok b H a'"
    "DoTask task ik ret msg a = YieldFor tmo ik' a' \<Longrightarrow> app_ok b H a' \<and> knows (snd ik') \<subseteq> H"
proof -
  obtain calls e where e: "task (snd ik) ret msg (user a) = (calls, e)"
    by (cases "task (snd ik) ret msg (user a)")
  note S = api_only_step [OF assms(1) e assms(3,4)]
  have "app_ok b H (fold (api (fst ik)) calls a)" by (rule app_ok_apis [OF assms(2) S(1)])
  with e S(2) show "DoTask task ik ret msg a = Finish a' \<Longrightarrow> app_ok b H a'"
    "DoTask task ik ret msg a = YieldFor tmo ik' a' \<Longrightarrow> app_ok b H a' \<and> knows (snd ik') \<subseteq> H"
    by (auto simp: DoTask_def Let_def split: task_end.splits)
qed

text \<open>The interface of the code of a server, and what holds of every server that runs such code.\<close>

locale server_code =
  fixes knows :: "'k \<Rightarrow> msg_head set"
    and start :: "'o \<Rightarrow> 'k"
    and task :: "('k, 'a) svr_task"
  assumes only_api: "api_only knows start task"
begin

lemma runs_keep:
  assumes "svr_ok b knows H s" "knows (snd ik) \<subseteq> H"
  shows "body_run (svr_env start task clk ml) ik ret (GetMsg i (cpool s)) (world s) = Finish w \<Longrightarrow> app_ok b H (app w)"
    "body_run (svr_env start task clk ml) ik ret (GetMsg i (cpool s)) (world s) = YieldFor tmo ik' w \<Longrightarrow>
      app_ok b H (app w) \<and> knows (snd ik') \<subseteq> H"
proof -
  have a: "app_ok b H (app (world s))" using assms(1) by (simp add: svr_ok_def)
  let ?D = "DoTask task ik ret (GetMsg i (cpool s)) (app (world s))"
  note D = DoTask_keeps [OF only_api a assms(2), of "GetMsg i (cpool s)" ret, OF get_msg_known [OF assms(1)]]
  have run: "body_run (svr_env start task clk ml) ik ret (GetMsg i (cpool s)) (world s) = in_app (world s) ?D"
    by (simp add: svr_env_def tm_env_def)
  show "body_run (svr_env start task clk ml) ik ret (GetMsg i (cpool s)) (world s) = Finish w \<Longrightarrow> app_ok b H (app w)"
    unfolding run using D(1) by (cases ?D) auto
  show "body_run (svr_env start task clk ml) ik ret (GetMsg i (cpool s)) (world s) = YieldFor tmo ik' w \<Longrightarrow>
      app_ok b H (app w) \<and> knows (snd ik') \<subseteq> H"
    unfolding run using D(2) by (cases ?D) auto
qed

end

sublocale server_code < co: co_invariant "svr_env start task clk ml" "svr_ok b knows H"
    "\<lambda>ik. knows (snd ik) \<subseteq> H" "\<lambda>m. head_of m \<in> H" for clk ml b H
proof unfold_locales
  fix s i p k
  assume ok: "svr_ok b knows H s" and p: "action_coroutine (cpool s) i = Some p" "co_ctx (objs (cpool s) ! p) = Saved k"
  then have "p < length (objs (cpool s))" by (simp add: svr_ok_def in_range_def)
  with ok have "co_knows knows H (objs (cpool s) ! p)" by (simp add: svr_ok_def)
  with p show "knows (snd k) \<subseteq> H" by (cases k) (simp add: co_knows_def)
next
  fix s k ret i tmo k' w
  assume "svr_ok b knows H s" "knows (snd k) \<subseteq> H"
    "body_run (svr_env start task clk ml) k ret (GetMsg i (cpool s)) (world s) = YieldFor tmo k' w"
  with runs_keep(2) [of b H s k clk ml ret i tmo k' w] show "knows (snd k') \<subseteq> H \<and> svr_ok b knows H (s\<lparr>world := w\<rparr>)"
    by (simp add: svr_ok_def)
next
  fix s k ret i w task' cp
  assume "svr_ok b knows H s" "knows (snd k) \<subseteq> H" "FreeCoroutine i (cpool s) = (task', cp)"
    "body_run (svr_env start task clk ml) k ret (GetMsg i (cpool s)) (world s) = Finish w"
  with runs_keep(1) [of b H s k clk ml ret i w] svr_ok_Free [of b knows H s i task' cp w]
  show "svr_ok b knows H (s\<lparr>cpool := cp, world := (case task' of None \<Rightarrow> w | Some x \<Rightarrow> released (svr_env start task clk ml) x w)\<rparr>)"
    by (simp add: svr_env_def tm_env_def cong: option.case_cong)
next
  fix x i show "knows (snd (body_start (svr_env start task clk ml) x i)) \<subseteq> H"
    using only_api by (simp add: svr_env_def tm_env_def api_only_def)
qed ((erule svr_ok_upd_obj; fastforce simp: co_knows_def) | simp add: svr_ok_def)+

text \<open>A message for a new transaction and one for a coroutine that waits.\<close>

lemma svr_ok_New:
  assumes "in_range cp" "\<forall>co \<in> set (objs cp). co_knows knows H co" "NewCoroutine x cp = (i, cp')"
  shows "in_range cp' \<and> (\<forall>co \<in> set (objs cp'). co_knows knows H co)"
proof -
  let ?cp1 = "refill cp" and ?p = "hd (free_coroutine (refill cp))"
  have r: "in_range ?cp1" "free_coroutine ?cp1 \<noteq> []" "\<forall>co \<in> set (objs ?cp1). co_knows knows H co"
    using assms(1,2) by (auto simp: refill_def GetCoId_def Let_def in_range_def co_knows_def new_object_def less_Suc_eq)
  have free: "?p < length (objs ?cp1)" "set (tl (free_coroutine ?cp1)) \<subseteq> {..<length (objs ?cp1)}"
    using r(1,2) by (cases "free_coroutine ?cp1"; auto simp: in_range_def)+
  let ?cp2 = "upd_obj ?p (\<lambda>co. co\<lparr>co_task := Some x, co_ctx := Fresh\<rparr>) (?cp1\<lparr>free_coroutine := tl (free_coroutine ?cp1)\<rparr>)"
  have "\<forall>co \<in> set (objs ?cp2). co_knows knows H co"
    by (rule knows_upd_obj) (use r(3) in \<open>simp_all add: co_knows_def\<close>)
  moreover have "cp' = ?cp2\<lparr>action_coroutine := (action_coroutine ?cp2)(i \<mapsto> ?p)\<rparr>"
    using assms(3) by (auto simp: NewCoroutine_def Let_def)
  moreover have "in_range (?cp2\<lparr>action_coroutine := (action_coroutine ?cp2)(i \<mapsto> ?p)\<rparr>)"
    using r(1) free by (simp add: in_range_def upd_obj_def)
  ultimately show ?thesis by simp
qed

context server_code begin

lemma recv_msg_keeps:
  assumes "svr_ok b knows H (snd st)" "h \<in> H"
  shows "svr_ok b knows H (snd (recv_msg (svr_env start task clk ml) h st))"
proof (cases "dst_co_id h = 0 \<and> pool_of (world (snd st)) (h_cmd h) \<noteq> []")
  case True
  let ?pool = "pool_of (world (snd st)) (h_cmd h)"
  let ?w = "set_pool (h_cmd h) (butlast ?pool) (set_pool (h_cmd h) ?pool (world (snd st)))"
  obtain i cp where new: "NewCoroutine (h_cmd h, last ?pool) (cpool (snd st)) = (i, cp)"
    by (cases "NewCoroutine (h_cmd h, last ?pool) (cpool (snd st))")
  have "svr_ok b knows H ((snd st)\<lparr>world := ?w, cpool := cp\<rparr>)"
    using svr_ok_New [OF _ _ new, of knows H] assms(1) by (simp add: svr_ok_def)
  with co.ResumeOneWithMsg_keeps [of b H "(fst st, (snd st)\<lparr>world := ?w, cpool := cp\<rparr>)" "MsgHead h" clk ml i] True new assms(2)
  show ?thesis
    by (simp add: recv_msg_def OnMsg_def MsgHead_def Let_def pool_empty_def pool_get_shared_def AddTack_def)
next
  case False
  have "svr_ok b knows H ((snd st)\<lparr>world := set_pool cmd pool (world (snd st))\<rparr>)" for cmd pool
    using assms(1) by (simp add: svr_ok_def)
  with False co.ResumeOneWithMsg_keeps [OF assms(1), of "MsgHead h" clk ml] assms show ?thesis
    by (auto simp: recv_msg_def OnMsg_def MsgHead_def Let_def pool_empty_def)
qed

lemma tick_keeps:
  "svr_ok b knows H (snd st) \<Longrightarrow> svr_ok b knows H (snd (TickTimeOutCo (svr_env start task clk ml) now st))"
  by (simp add: TickTimeOutCo_def co.TickTimeOut_keeps)

end

lemma svr_ok_init: "svr_ok b knows H (snd (svr_init tm b u))"
  by (simp add: svr_ok_def svr_init_def co_init_def empty_pool_def in_range_def app_ok_def)

text \<open>One run of a transaction on the server that runs it.\<close>

lemma svr_run_finish:
  assumes "DoTask task ik ret (GetMsg i (cpool s)) (app (world s)) = Finish a"
  shows "svr_app_of (run_body (svr_env start task clk ml) 1 i ik ret (t, s)) = a"
proof -
  obtain x cp where fr: "FreeCoroutine i (cpool s) = (x, cp)" by (cases "FreeCoroutine i (cpool s)")
  then show ?thesis using assms by (simp add: svr_env_def tm_env_def svr_app_of_def split: option.split)
qed

lemma svr_run_yield:
  assumes "DoTask task ik ret (GetMsg i (cpool s)) (app (world s)) = YieldFor tmo ik' a"
    "action_coroutine (cpool s) i = Some p"
  shows "\<exists>t1 f. run_body (svr_env start task clk ml) 1 i ik ret (t, s) =
    (t1, s\<lparr>world := (world s)\<lparr>app := a\<rparr>, timer_ids := f, cpool := upd_obj p (\<lambda>co. co\<lparr>co_ctx := Saved ik'\<rparr>) (cpool s)\<rparr>)"
proof -
  obtain t1 tid where "AddTimer (ml t) (clk (user a)) tmo i False t = (t1, tid)"
    by (cases "AddTimer (ml t) (clk (user a)) tmo i False t")
  then show ?thesis using assms by (auto simp: svr_env_def tm_env_def Yield_save_def FindCoId_def Let_def)
qed

end
