(* ===== verification/Cluster.thy ===== *)
theory Cluster
  imports Server
begin

text \<open>
  Servers that exchange messages.  The network takes what a server publishes and hands each message to
  the server it is for, in any order, or loses it, and may hand it over again (\<open>app_base.h\<close>: queue and
  routing key of a server are its id).  \<open>sent\<close> is the history of all that was published, in its order.
\<close>

record ('o, 'k, 'a) cluster =
  svr_at :: "bytes \<Rightarrow> ('o, 'k, 'a) svr_state option"
  in_flight :: "msg_head list"
  sent :: "msg_head list"

type_synonym ('o, 'k, 'a) envs = "bytes \<Rightarrow> ('o, u32 \<times> 'k, unit svr_msg_ext, 'a svr_app) tm_envs"

definition set_svr :: "bytes \<Rightarrow> ('o, 'k, 'a) svr_state \<Rightarrow> ('o, 'k, 'a) cluster \<Rightarrow> ('o, 'k, 'a) cluster" where
  "set_svr b st c = c\<lparr>svr_at := (svr_at c)(b \<mapsto> st)\<rparr>"

text \<open>After a step of server \<open>b\<close> the network has what it published.\<close>

definition take_published :: "bytes \<Rightarrow> ('o, 'k, 'a) svr_state \<Rightarrow> ('o, 'k, 'a) cluster \<Rightarrow> ('o, 'k, 'a) cluster" where
  "take_published b st c =
    c\<lparr>svr_at := (svr_at c)(b \<mapsto> set_svr_app ((svr_app_of st)\<lparr>published := []\<rparr>) st),
      in_flight := in_flight c @ published (svr_app_of st), sent := sent c @ published (svr_app_of st)\<rparr>"

text \<open>
  A server also starts transactions by itself (\<open>server_b.cpp\<close>: a head with nothing but a command), its
  connection changes, and it learns of other servers.  \<open>app_changes\<close> lets its own data \<open>user\<close> change in
  any way, so reachability by these steps says nothing of that data; the steps of one server and of
  the delivery of one message are functions of their own below.
\<close>

inductive cl_step :: "('o, 'k, 'a) envs \<Rightarrow> ('o, 'k, 'a) cluster \<Rightarrow> ('o, 'k, 'a) cluster \<Rightarrow> bool" for env where
  deliver: "m \<in> set (in_flight c) \<Longrightarrow> svr_at c (dst_bus_id m) = Some st \<Longrightarrow>
    cl_step env c (take_published (dst_bus_id m) (recv_msg (env (dst_bus_id m)) m st)
      (c\<lparr>in_flight := remove1 m (in_flight c)\<rparr>))"
| redeliver: "m \<in> set (sent c) \<Longrightarrow> svr_at c (dst_bus_id m) = Some st \<Longrightarrow>
    cl_step env c (take_published (dst_bus_id m) (recv_msg (env (dst_bus_id m)) m st) c)"
| lose: "cl_step env c (c\<lparr>in_flight := remove1 m (in_flight c)\<rparr>)"
| tick: "svr_at c b = Some st \<Longrightarrow> cl_step env c (take_published b (TickTimeOutCo (env b) now st) c)"
| start_local: "svr_at c b = Some st \<Longrightarrow>
    cl_step env c (take_published b (recv_msg (env b) (new_head\<lparr>h_cmd := cmd, h_msg := msg\<rparr>) st) c)"
| app_changes: "svr_at c b = Some st \<Longrightarrow>
    cl_step env c (set_svr b (set_svr_app ((svr_app_of st)\<lparr>net := n\<lparr>mq_key := b\<rparr>, known_svrs := l, user := u\<rparr>) st) c)"

abbreviation cl_steps :: "('o, 'k, 'a) envs \<Rightarrow> ('o, 'k, 'a) cluster \<Rightarrow> ('o, 'k, 'a) cluster \<Rightarrow> bool" where
  "cl_steps env \<equiv> (cl_step env)\<^sup>*\<^sup>*"

text \<open>What one server does by itself, and what the first message of the network does.\<close>

definition run_local :: "('o, 'k, 'a) envs \<Rightarrow> bytes \<Rightarrow> u32 \<Rightarrow> ('o, 'k, 'a) cluster \<Rightarrow> ('o, 'k, 'a) cluster" where
  "run_local env b cmd c =
    (case svr_at c b of None \<Rightarrow> c
     | Some st \<Rightarrow> take_published b (recv_msg (env b) (new_head\<lparr>h_cmd := cmd, h_msg := []\<rparr>) st) c)"

definition deliver_next :: "('o, 'k, 'a) envs \<Rightarrow> ('o, 'k, 'a) cluster \<Rightarrow> ('o, 'k, 'a) cluster" where
  "deliver_next env c =
    (case in_flight c of [] \<Rightarrow> c
     | m # ms \<Rightarrow>
         (case svr_at c (dst_bus_id m) of None \<Rightarrow> c\<lparr>in_flight := ms\<rparr>
          | Some st \<Rightarrow> take_published (dst_bus_id m) (recv_msg (env (dst_bus_id m)) m st) (c\<lparr>in_flight := ms\<rparr>)))"

lemma run_local_steps: "cl_steps env c (run_local env b cmd c)"
  using cl_step.start_local [of c b _ env "[]" cmd] by (auto simp: run_local_def split: option.split)

lemma deliver_next_steps: "cl_steps env c (deliver_next env c)"
proof (cases "in_flight c")
  case (Cons m ms)
  with cl_step.deliver [of m c _ env] cl_step.lose [of env c m] show ?thesis
    by (auto simp: deliver_next_def split: option.split)
qed (simp add: deliver_next_def)

definition cl_init :: "(bytes \<Rightarrow> ((u32 \<Rightarrow> 'o list option) \<times> 'a) option) \<Rightarrow> ('o, 'k, 'a) cluster" where
  "cl_init svrs = \<lparr>svr_at = (\<lambda>b. map_option (\<lambda>(tm, u). svr_init tm b u) (svrs b)), in_flight = [], sent = []\<rparr>"

text \<open>The code of every server uses the interface only.\<close>

definition proper_envs :: "(bytes \<Rightarrow> 'k \<Rightarrow> msg_head set) \<Rightarrow> ('o, 'k, 'a) envs \<Rightarrow> bool" where
  "proper_envs knows env \<longleftrightarrow> (\<forall>b. \<exists>start task clk ml. env b = svr_env start task clk ml \<and> api_only (knows b) start task)"

lemma proper_envsE:
  assumes "proper_envs knows env"
  obtains start task clk ml where "env b = svr_env start task clk ml" "server_code (knows b) start task"
  using assms unfolding proper_envs_def server_code_def by blast

lemma set_svr_simps [simp]: "in_flight (set_svr b st c) = in_flight c" "sent (set_svr b st c) = sent c"
  by (simp_all add: set_svr_def)

lemma svr_at_set_svr:
  assumes "svr_at (set_svr b st c) x = Some st'"
  obtains "x = b" "st' = st" | "svr_at c x = Some st'"
proof (cases "x = b")
  case True
  with assms have "st' = st" by (simp add: set_svr_def)
  with True that(1) show ?thesis by blast
next
  case False
  with assms have "svr_at c x = Some st'" by (simp add: set_svr_def)
  with that(2) show ?thesis by blast
qed

subsection \<open>The invariant\<close>

text \<open>What server \<open>b\<close> can have been given: messages to it, and heads it made itself.\<close>

definition given :: "bytes \<Rightarrow> msg_head list \<Rightarrow> msg_head set" where
  "given b log = {h \<in> set log. dst_bus_id h = b} \<union> {h. src_co_id h = 0}"

definition well_answered :: "msg_head list \<Rightarrow> bool" where
  "well_answered log \<longleftrightarrow> (\<forall>pre m post. log = pre @ m # post \<longrightarrow> dst_co_id m \<noteq> 0 \<longrightarrow>
     (\<exists>req \<in> set pre. answers m req \<and> dst_bus_id req = src_bus_id m \<and> src_co_id req \<noteq> 0))"

definition cl_ok :: "(bytes \<Rightarrow> 'k \<Rightarrow> msg_head set) \<Rightarrow> ('o, 'k, 'a) cluster \<Rightarrow> bool" where
  "cl_ok knows c \<longleftrightarrow> well_answered (sent c) \<and> set (in_flight c) \<subseteq> set (sent c) \<and>
     (\<forall>b st. svr_at c b = Some st \<longrightarrow> svr_ok b (knows b) (given b (sent c)) (snd st) \<and> published (svr_app_of st) = [])"

lemma cl_okD:
  assumes "cl_ok knows c"
  shows "svr_at c b = Some st \<Longrightarrow> svr_ok b (knows b) (given b (sent c)) (snd st)" "set (in_flight c) \<subseteq> set (sent c)"
    "well_answered (sent c)" "svr_at c b = Some st \<Longrightarrow> published (svr_app_of st) = []"
  using assms unfolding cl_ok_def by blast+

lemma cl_okI:
  assumes "well_answered (sent c)" "set (in_flight c) \<subseteq> set (sent c)"
    "\<And>b st. svr_at c b = Some st \<Longrightarrow> svr_ok b (knows b) (given b (sent c)) (snd st)"
    "\<And>b st. svr_at c b = Some st \<Longrightarrow> published (svr_app_of st) = []"
  shows "cl_ok knows c"
  using assms unfolding cl_ok_def by blast

lemma given_mono: "set xs \<subseteq> set ys \<Longrightarrow> given b xs \<subseteq> given b ys"
  by (auto simp: given_def)

lemma well_answered_append:
  assumes "well_answered xs" "\<forall>m \<in> set ys. from_server b (given b xs) m"
  shows "well_answered (xs @ ys)"
  unfolding well_answered_def
proof (intro allI impI)
  fix pre m post assume e: "xs @ ys = pre @ m # post" and co: "dst_co_id m \<noteq> 0"
  from e consider zs where "xs = pre @ m # zs" | zs where "pre = xs @ zs" "ys = zs @ m # post"
    by (auto simp: append_eq_append_conv2 append_eq_Cons_conv Cons_eq_append_conv)
  then show "\<exists>req \<in> set pre. answers m req \<and> dst_bus_id req = src_bus_id m \<and> src_co_id req \<noteq> 0"
  proof cases
    case 1
    with assms(1) co show ?thesis unfolding well_answered_def by blast
  next
    case 2
    with assms(2) have "from_server b (given b xs) m" by simp
    with co 2 show ?thesis by (auto simp: from_server_def given_def answers_def)
  qed
qed

lemma snd_set_svr_app [simp]: "cpool (snd (set_svr_app a st)) = cpool (snd st)" "app (world (snd (set_svr_app a st))) = a"
  "svr_app_of (set_svr_app a st) = a"
  by (simp_all add: set_svr_app_def svr_app_of_def)

lemma published_taken: "set_svr_app (a\<lparr>published := []\<rparr>) st = st' \<Longrightarrow> published (svr_app_of st') = []"
  by (auto simp: set_svr_app_def svr_app_of_def)

lemma cl_ok_take:
  assumes ok: "cl_ok knows c" and st: "svr_ok b (knows b) (given b (sent c)) (snd st)"
    and fl: "set fl \<subseteq> set (in_flight c)"
  shows "cl_ok knows (take_published b st (c\<lparr>in_flight := fl\<rparr>))"
proof -
  let ?out = "published (svr_app_of st)"
  have out: "\<forall>m \<in> set ?out. from_server b (given b (sent c)) m"
    using st by (simp add: svr_ok_def app_ok_def svr_app_of_def)
  have mono: "given x (sent c) \<subseteq> given x (sent c @ ?out)" for x by (rule given_mono) simp
  have "svr_ok b (knows b) (given b (sent c @ ?out)) (snd st)" by (rule svr_ok_mono [OF st mono])
  then have "svr_ok b (knows b) (given b (sent c @ ?out)) (snd (set_svr_app ((svr_app_of st)\<lparr>published := []\<rparr>) st))"
    by (simp add: svr_ok_def app_ok_def svr_app_of_def)
  moreover have "svr_ok x (knows x) (given x (sent c @ ?out)) (snd st')" if "svr_at c x = Some st'" for x st'
    by (rule svr_ok_mono [OF cl_okD(1) [OF ok that] mono])
  moreover have "well_answered (sent c @ ?out)" using ok out well_answered_append by (auto simp: cl_ok_def)
  ultimately have new: "svr_ok b (knows b) (given b (sent c @ ?out)) (snd st')" "well_answered (sent c @ ?out)"
      "svr_at c x = Some st'' \<Longrightarrow> svr_ok x (knows x) (given x (sent c @ ?out)) (snd st'')"
      if "set_svr_app ((svr_app_of st)\<lparr>published := []\<rparr>) st = st'" for x st' st''
    using that by auto
  show ?thesis
  proof (rule cl_okI)
    fix x st' assume "svr_at (take_published b st (c\<lparr>in_flight := fl\<rparr>)) x = Some st'"
    then consider "x = b" "set_svr_app ((svr_app_of st)\<lparr>published := []\<rparr>) st = st'" | "svr_at c x = Some st'"
      by (auto simp: take_published_def split: if_splits)
    then have "svr_ok x (knows x) (given x (sent c @ ?out)) (snd st') \<and> published (svr_app_of st') = []"
      using new(3) [OF refl] new(1) published_taken cl_okD(4) [OF ok] by cases blast+
    then show "svr_ok x (knows x) (given x (sent (take_published b st (c\<lparr>in_flight := fl\<rparr>)))) (snd st')"
      "published (svr_app_of st') = []" by (simp_all add: take_published_def)
  qed (use new(2) [OF refl] fl cl_okD(2) [OF ok] in \<open>auto simp: take_published_def\<close>)
qed

lemma svr_ok_set_app: "svr_ok b k H (snd st) \<Longrightarrow> app_ok b H a \<Longrightarrow> svr_ok b k H (snd (set_svr_app a st))"
  by (simp add: svr_ok_def)

lemma cl_ok_step:
  assumes "cl_step env c c'" "proper_envs knows env" "cl_ok knows c"
  shows "cl_ok knows c'"
  using assms(1)
proof cases
  case (deliver m st)
  obtain start task clk ml where e: "env (dst_bus_id m) = svr_env start task clk ml" "server_code (knows (dst_bus_id m)) start task"
    by (rule proper_envsE [OF assms(2)])
  have "m \<in> given (dst_bus_id m) (sent c)" using cl_okD(2) [OF assms(3)] deliver(2) by (auto simp: given_def)
  from server_code.recv_msg_keeps [OF e(2) cl_okD(1) [OF assms(3) deliver(3)] this] show ?thesis
    unfolding deliver(1) e(1) by (intro cl_ok_take [OF assms(3)] set_remove1_subset)
next
  case (redeliver m st)
  obtain start task clk ml where e: "env (dst_bus_id m) = svr_env start task clk ml" "server_code (knows (dst_bus_id m)) start task"
    by (rule proper_envsE [OF assms(2)])
  have "m \<in> given (dst_bus_id m) (sent c)" using redeliver(2) by (simp add: given_def)
  from cl_ok_take [OF assms(3) server_code.recv_msg_keeps [OF e(2) cl_okD(1) [OF assms(3) redeliver(3)] this] order_refl]
  show ?thesis by (simp add: redeliver(1) e(1))
next
  case (lose m)
  with assms(3) show ?thesis by (auto simp: cl_ok_def dest: notin_set_remove1)
next
  case (tick b st now)
  obtain start task clk ml where e: "env b = svr_env start task clk ml" "server_code (knows b) start task"
    by (rule proper_envsE [OF assms(2)])
  from cl_ok_take [OF assms(3) server_code.tick_keeps [OF e(2) cl_okD(1) [OF assms(3) tick(2)]] order_refl]
  show ?thesis by (simp add: tick(1) e(1))
next
  case (start_local b st msg cmd)
  obtain start task clk ml where e: "env b = svr_env start task clk ml" "server_code (knows b) start task"
    by (rule proper_envsE [OF assms(2)])
  have "new_head\<lparr>h_cmd := cmd, h_msg := msg\<rparr> \<in> given b (sent c)" by (simp add: given_def new_head_def)
  from cl_ok_take [OF assms(3) server_code.recv_msg_keeps [OF e(2) cl_okD(1) [OF assms(3) start_local(2)] this] order_refl]
  show ?thesis by (simp add: start_local(1) e(1))
next
  case (app_changes b st u l n)
  let ?a = "(svr_app_of st)\<lparr>net := n\<lparr>mq_key := b\<rparr>, known_svrs := l, user := u\<rparr>"
  have a: "published ?a = []" using cl_okD(4) [OF assms(3) app_changes(2)] by simp
  then have "app_ok b (given b (sent c)) ?a" by (simp add: app_ok_def)
  with cl_okD(1) [OF assms(3) app_changes(2)] have new: "svr_ok b (knows b) (given b (sent c)) (snd (set_svr_app ?a st))"
    by (rule svr_ok_set_app)
  show ?thesis
    unfolding app_changes(1)
  proof (rule cl_okI)
    fix x st' assume "svr_at (set_svr b (set_svr_app ?a st) c) x = Some st'"
    then have "svr_ok x (knows x) (given x (sent c)) (snd st') \<and> published (svr_app_of st') = []"
    proof (rule svr_at_set_svr)
      assume "x = b" "st' = set_svr_app ?a st"
      with new a show ?thesis by simp
    qed (use cl_okD(1,4) [OF assms(3)] in blast)
    then show "svr_ok x (knows x) (given x (sent (set_svr b (set_svr_app ?a st) c))) (snd st')"
      "published (svr_app_of st') = []" by simp_all
  qed (use cl_okD [OF assms(3)] in simp_all)
qed

lemma cl_ok_init: "cl_ok knows (cl_init svrs)"
proof (rule cl_okI)
  fix b and st :: "('b, 'a, 'c) svr_state"
  assume "svr_at (cl_init svrs) b = Some st"
  then obtain tm u where "st = svr_init tm b u" by (auto simp: cl_init_def)
  then show "svr_ok b (knows b) (given b (sent (cl_init svrs))) (snd st)" "published (svr_app_of st) = []"
    by (simp_all add: svr_ok_init) (simp add: svr_app_of_def svr_init_def co_init_def)
qed (simp_all add: cl_init_def well_answered_def)

lemma cl_ok_steps: "cl_steps env c c' \<Longrightarrow> proper_envs knows env \<Longrightarrow> cl_ok knows c \<Longrightarrow> cl_ok knows c'"
  by (induction rule: rtranclp_induct) (auto intro: cl_ok_step)

end
