(* ===== verification/Hello.thy ===== *)
theory Hello
  imports Cluster Resp Co_Props
begin

text \<open>
  The two servers of \<open>src/app/test/server_a.cpp\<close> and \<open>server_b.cpp\<close>: one greets, the other asks it to.
  The messages of \<open>say_hello.proto\<close> are records; how they are written is the argument \<open>hello_codec\<close>
  (a failed \<open>ParseFromArray\<close> of a request is not looked at, so its reader always gives a request).
\<close>

record hello_req =
  content :: bytes
  req_seq :: u32
  time_req :: "64 word"

record hello_rsp =
  rsp_content :: bytes
  rsp_seq :: u32
  rsp_time_req :: "64 word"
  time_rsp :: "64 word"

record hello_codec =
  write_hello_req :: "hello_req \<Rightarrow> bytes"
  read_hello_req :: "bytes \<Rightarrow> hello_req"
  write_hello_rsp :: "hello_rsp \<Rightarrow> bytes"
  read_hello_rsp :: "bytes \<Rightarrow> hello_rsp option"

text \<open>Strings of \<open>proto3\<close> are UTF-8; these are ASCII.\<close>

definition ascii :: "bytes \<Rightarrow> bool" where
  "ascii xs \<longleftrightarrow> (\<forall>c \<in> set xs. (of_char c :: nat) < 128)"

definition hello_codec_ok :: "hello_codec \<Rightarrow> bool" where
  "hello_codec_ok cd \<longleftrightarrow> (\<forall>q. ascii (content q) \<longrightarrow> read_hello_req cd (write_hello_req cd q) = q) \<and>
     (\<forall>r. ascii (rsp_content r) \<longrightarrow> read_hello_rsp cd (write_hello_rsp cd r) = Some r)"

text \<open>
  What the transactions work on: the sequence number, the clock, the next random number, and the
  results (a response, or the exception that was caught) in the order they were logged.
\<close>

record hello_user =
  hello_seq :: u32
  now :: "64 word"
  dice :: nat
  hello_log :: "(fault + hello_rsp) list"

datatype hello_ctx = HStart | HWaits

abbreviation kSayHello :: u32 where "kSayHello \<equiv> 1001"

definition greeting :: "hello_req \<Rightarrow> 64 word \<Rightarrow> hello_rsp" where
  "greeting req t = \<lparr>rsp_content = ''hello : '' @ content req, rsp_seq = req_seq req, rsp_time_req = time_req req, time_rsp = t\<rparr>"

definition hello_a :: "hello_codec \<Rightarrow> (hello_ctx, hello_user) svr_task" where
  "hello_a cd k ret msg u =
    (case msg of None \<Rightarrow> ([], Undefined u)
     | Some m \<Rightarrow> ([SendReply (head_of m) (write_hello_rsp cd (greeting (read_hello_req cd (m_data m)) (now u)))], Returns u))"

text \<open>\<open>SendMsgRpcByType\<close> in two parts: up to the \<open>Yield\<close>, and what it makes of the result of the \<open>Yield\<close>.\<close>

definition hello_request :: "hello_user \<Rightarrow> hello_req" where
  "hello_request u = \<lparr>content = ''I am liuping'', req_seq = hello_seq u, time_req = now u\<rparr>"

definition hello_b :: "hello_codec \<Rightarrow> (hello_ctx, hello_user) svr_task" where
  "hello_b cd k ret msg u =
    (case k of
       HStart \<Rightarrow>
         (let u1 = u\<lparr>hello_seq := hello_seq u + 1\<rparr> in
          ([SendRequestByType (dice u) ''server_a'' kSayHello (write_hello_req cd (hello_request u1)) 0], Yields 5000 HWaits u1))
     | HWaits \<Rightarrow>
         ([], Returns (u\<lparr>hello_log := hello_log u @
            [fst (SendMsgRpc (read_hello_rsp cd) (\<lambda>req c. ((ret, map_option head_of msg), c)) new_head ())]\<rparr>)))"

text \<open>Both use the interface only.\<close>

definition hello_knows :: "hello_ctx \<Rightarrow> msg_head set" where
  "hello_knows k = {}"

interpretation hello_server_a: server_code hello_knows "\<lambda>_. HStart" "hello_a cd" for cd
  by unfold_locales (auto simp: api_only_def hello_knows_def hello_a_def Let_def split: option.splits)

interpretation hello_server_b: server_code hello_knows "\<lambda>_. HStart" "hello_b cd" for cd
  by unfold_locales (auto simp: api_only_def hello_knows_def hello_b_def Let_def split: hello_ctx.splits)

subsection \<open>One exchange\<close>

definition svr_ready :: "u32 \<Rightarrow> bytes \<Rightarrow> ('o, 'k, 'a) svr_state \<Rightarrow> bool" where
  "svr_ready cmd b st \<longleftrightarrow> pool_ok (cpool (snd st)) \<and> flags_clear (cpool (snd st)) \<and>
     length (objs (cpool (snd st))) < 2 ^ 32 - 2 \<and> pool_of (world (snd st)) cmd \<noteq> [] \<and>
     net (svr_app_of st) = \<lparr>mq_connected = True, send_usable = True, recv_channel_succ = True, mq_key = b\<rparr> \<and>
     published (svr_app_of st) = []"

lemma svr_readyE:
  assumes "svr_ready cmd b st" "m_cmd msg = cmd" "m_co_id msg = 0"
  obtains i p t s x where "i \<noteq> 0" "OnMsg env msg st = (0, run_body env 1 i (body_start env (cmd, x) i) 0 (t, s))"
    "GetMsg i (cpool s) = Some msg" "action_coroutine (cpool s) i = Some p" "pool_ok (cpool s)" "flags_clear (cpool s)"
    "app (world s) = svr_app_of st"
proof -
  from assms(1) have r: "pool_ok (cpool (snd st))" "flags_clear (cpool (snd st))" "length (objs (cpool (snd st))) < 2 ^ 32 - 2"
      "pool_of (world (snd st)) cmd \<noteq> []" by (simp_all add: svr_ready_def)
  have px: "pool_of (world (snd st)) (m_cmd msg) = butlast (pool_of (world (snd st)) cmd) @ [last (pool_of (world (snd st)) cmd)]"
    using r(4) assms(2) by simp
  from OnMsg_new [OF r(1,3) assms(3) px, of env] r(2) assms(2) that show ?thesis by (metis svr_app_of_def)
qed

lemma mq_publish_up: "dst_bus_id h \<noteq> [] \<Longrightarrow>
    mq_publish \<lparr>mq_connected = True, send_usable = True, recv_channel_succ = True, mq_key = b\<rparr> h = Some (h\<lparr>src_bus_id := b\<rparr>)"
  by (simp add: mq_publish_def)

definition ask_head :: "hello_codec \<Rightarrow> bytes \<Rightarrow> bytes \<Rightarrow> u32 \<Rightarrow> hello_req \<Rightarrow> msg_head" where
  "ask_head cd b a i req = request_head i b a kSayHello (write_hello_req cd req) 0"

definition greet_head :: "hello_codec \<Rightarrow> bytes \<Rightarrow> bytes \<Rightarrow> u32 \<Rightarrow> hello_req \<Rightarrow> 64 word \<Rightarrow> msg_head" where
  "greet_head cd a b i req t = new_head\<lparr>h_msg := write_hello_rsp cd (greeting req t), h_cmd := kSayHello + 1,
     dst_co_id := i, dst_bus_id := b, src_bus_id := a\<rparr>"

text \<open>The one that asks publishes its request and waits.\<close>

lemma hello_asks:
  assumes env: "env = svr_env (\<lambda>_. HStart) (hello_b cd) clk ml" and r: "svr_ready kSayHello b st"
    and a: "GetOneSvrByType (dice (user (svr_app_of st))) ''server_a'' (known_svrs (svr_app_of st)) = a" "a \<noteq> []"
  obtains i p t s where "recv_msg env (new_head\<lparr>h_cmd := kSayHello, h_msg := msg\<rparr>) st = (t, s)"
    "i \<noteq> 0" "action_coroutine (cpool s) i = Some p" "pool_ok (cpool s)" "flags_clear (cpool s)"
    "co_ctx (objs (cpool s) ! p) = Saved (i, HWaits)"
    "app (world s) = (svr_app_of st)
       \<lparr>published := [ask_head cd b a i (hello_request ((user (svr_app_of st))\<lparr>hello_seq := hello_seq (user (svr_app_of st)) + 1\<rparr>))],
        user := (user (svr_app_of st))\<lparr>hello_seq := hello_seq (user (svr_app_of st)) + 1\<rparr>\<rparr>"
proof -
  let ?m = "MsgHead (new_head\<lparr>h_cmd := kSayHello, h_msg := msg\<rparr>)" and ?app = "svr_app_of st"
  let ?u = "(user ?app)\<lparr>hello_seq := hello_seq (user ?app) + 1\<rparr>"
  have m: "m_cmd ?m = kSayHello" "m_co_id ?m = 0" by (simp_all add: MsgHead_def new_head_def)
  obtain i p t s x where o: "i \<noteq> 0" "OnMsg env ?m st = (0, run_body env 1 i (body_start env (kSayHello, x) i) 0 (t, s))"
    "GetMsg i (cpool s) = Some ?m" "action_coroutine (cpool s) i = Some p" "pool_ok (cpool s)" "flags_clear (cpool s)"
    "app (world s) = ?app" by (rule svr_readyE [OF r m])
  have start: "body_start env (kSayHello, x) i = (i, HStart)" by (simp add: env svr_env_def tm_env_def)
  have net: "net ?app = \<lparr>mq_connected = True, send_usable = True, recv_channel_succ = True, mq_key = b\<rparr>" "published ?app = []"
    using r by (simp_all add: svr_ready_def)
  have api: "api i (SendRequestByType (dice (user ?app)) ''server_a'' kSayHello (write_hello_req cd (hello_request ?u)) 0) ?app =
      ?app\<lparr>published := [ask_head cd b a i (hello_request ?u)]\<rparr>"
    using a net by (simp add: api_def net_SendMsg_def request_head_def mq_publish_up ask_head_def)
  let ?a = "?app\<lparr>published := [ask_head cd b a i (hello_request ?u)], user := ?u\<rparr>"
  have run: "DoTask (hello_b cd) (i, HStart) 0 (GetMsg i (cpool s)) (app (world s)) = YieldFor 5000 (i, HWaits) ?a"
    using api by (simp add: DoTask_def hello_b_def Let_def o(7))
  from svr_run_yield [OF run o(4), of "\<lambda>_. HStart" clk ml t] obtain t1 f where
    "run_body env 1 i (i, HStart) 0 (t, s) = (t1, s\<lparr>world := (world s)\<lparr>app := ?a\<rparr>, timer_ids := f,
       cpool := upd_obj p (\<lambda>co. co\<lparr>co_ctx := Saved (i, HWaits)\<rparr>) (cpool s)\<rparr>)" unfolding env by blast
  moreover have "p < length (objs (cpool s))" using pool_act [OF o(5,4)] by simp
  ultimately show ?thesis
    using o start
    by (intro that [of t1 "s\<lparr>world := (world s)\<lparr>app := ?a\<rparr>, timer_ids := f,
         cpool := upd_obj p (\<lambda>co. co\<lparr>co_ctx := Saved (i, HWaits)\<rparr>) (cpool s)\<rparr>" i p])
      (simp_all add: recv_msg_def objs_upd_obj pool_ok_upd_obj flags_upd del: run_body.simps)
qed

text \<open>The one that is asked answers at once.\<close>

lemma hello_answers:
  assumes env: "env = svr_env (\<lambda>_. HStart) (hello_a cd) clk ml" and r: "svr_ready kSayHello a st"
    and cd: "hello_codec_ok cd" "ascii (content req)" and b: "b \<noteq> []"
  shows "svr_app_of (recv_msg env (ask_head cd b a i req) st) =
    (svr_app_of st)\<lparr>published := [greet_head cd a b i req (now (user (svr_app_of st)))]\<rparr>"
proof -
  let ?m = "MsgHead (ask_head cd b a i req)" and ?app = "svr_app_of st"
  have m: "m_cmd ?m = kSayHello" "m_co_id ?m = 0" by (simp_all add: MsgHead_def ask_head_def request_head_def)
  obtain j p t s x where o: "j \<noteq> 0" "OnMsg env ?m st = (0, run_body env 1 j (body_start env (kSayHello, x) j) 0 (t, s))"
    "GetMsg j (cpool s) = Some ?m" "action_coroutine (cpool s) j = Some p" "pool_ok (cpool s)" "flags_clear (cpool s)"
    "app (world s) = ?app" by (rule svr_readyE [OF r m])
  have start: "body_start env (kSayHello, x) j = (j, HStart)" by (simp add: env svr_env_def tm_env_def)
  have net: "net ?app = \<lparr>mq_connected = True, send_usable = True, recv_channel_succ = True, mq_key = a\<rparr>" "published ?app = []"
    using r by (simp_all add: svr_ready_def)
  have read: "read_hello_req cd (write_hello_req cd req) = req" using cd by (simp add: hello_codec_ok_def)
  have api: "api j (SendReply (head_of ?m) (write_hello_rsp cd (greeting (read_hello_req cd (m_data ?m)) (now (user ?app))))) ?app =
      ?app\<lparr>published := [greet_head cd a b i req (now (user ?app))]\<rparr>"
    using b net read
    by (simp add: api_def net_SendMsg_def send_reply_def send_msg_def mq_publish_up greet_head_def MsgHead_def ask_head_def
        request_head_def)
  have run: "DoTask (hello_a cd) (j, HStart) 0 (GetMsg j (cpool s)) (app (world s)) =
      Finish (?app\<lparr>published := [greet_head cd a b i req (now (user ?app))]\<rparr>)"
    using api by (simp add: DoTask_def hello_a_def Let_def o(3,7))
  from svr_run_finish [OF run, of "\<lambda>_. HStart" clk ml t] o(2) start show ?thesis
    by (simp add: recv_msg_def env del: run_body.simps)
qed

text \<open>The answer resumes the one that asked.\<close>

lemma hello_resumed:
  assumes env: "env = svr_env (\<lambda>_. HStart) (hello_b cd) clk ml" and cd: "hello_codec_ok cd" "ascii (content req)"
    and w: "i \<noteq> 0" "action_coroutine (cpool s) i = Some p" "pool_ok (cpool s)" "flags_clear (cpool s)"
      "co_ctx (objs (cpool s) ! p) = Saved (i, HWaits)"
  shows "svr_app_of (recv_msg env (greet_head cd a b i req t0) (t, s)) =
    (app (world s))\<lparr>user := (user (app (world s)))\<lparr>hello_log := hello_log (user (app (world s))) @ [Inr (greeting req t0)]\<rparr>\<rparr>"
proof -
  let ?m = "MsgHead (greet_head cd a b i req t0)"
  have m: "m_co_id ?m = i" by (simp add: MsgHead_def greet_head_def)
  obtain t' s' where o: "OnMsg env ?m (t, s) = (0, run_body env 1 i (i, HWaits) 0 (t', s'))"
    "GetMsg i (cpool s') = Some ?m" "world s' = world s"
    using OnMsg_resume [of ?m s p "(i, HWaits)" env t] w m by metis
  have "ascii (rsp_content (greeting req t0))" using cd(2) by (auto simp: ascii_def greeting_def)
  then have read: "read_hello_rsp cd (write_hello_rsp cd (greeting req t0)) = Some (greeting req t0)"
    using cd(1) by (simp add: hello_codec_ok_def)
  have run: "DoTask (hello_b cd) (i, HWaits) 0 (GetMsg i (cpool s')) (app (world s')) =
      Finish ((app (world s))\<lparr>user := (user (app (world s)))\<lparr>hello_log := hello_log (user (app (world s))) @ [Inr (greeting req t0)]\<rparr>\<rparr>)"
    using read by (simp add: DoTask_def hello_b_def Let_def o(2,3) SendMsgRpc_def MsgHead_def greet_head_def)
  from svr_run_finish [OF run, of "\<lambda>_. HStart" clk ml t'] o(1) show ?thesis
    by (simp add: recv_msg_def env del: run_body.simps)
qed

text \<open>The first two steps: the request is delivered, the reply is on its way.\<close>

lemma hello_reply_in_flight:
  assumes cd: "hello_codec_ok cd" and ab: "a \<noteq> b" "a \<noteq> []" "b \<noteq> []"
    and env: "env a = svr_env (\<lambda>_. HStart) (hello_a cd) clk ml" "env b = svr_env (\<lambda>_. HStart) (hello_b cd) clk' ml'"
    and at: "svr_at c a = Some sta" "svr_at c b = Some stb" and ready: "svr_ready kSayHello a sta" "svr_ready kSayHello b stb"
    and pick: "GetOneSvrByType (dice (user (svr_app_of stb))) ''server_a'' (known_svrs (svr_app_of stb)) = a"
    and quiet: "in_flight c = []"
    and u: "u = (user (svr_app_of stb))\<lparr>hello_seq := hello_seq (user (svr_app_of stb)) + 1\<rparr>"
  obtains i p t s c' where "c' = deliver_next env (run_local env b kSayHello c)" "svr_at c' b = Some (t, s)"
    "in_flight (run_local env b kSayHello c) = [ask_head cd b a i (hello_request u)]"
    "in_flight c' = [greet_head cd a b i (hello_request u) (now (user (svr_app_of sta)))]"
    "i \<noteq> 0" "action_coroutine (cpool s) i = Some p" "pool_ok (cpool s)" "flags_clear (cpool s)"
    "co_ctx (objs (cpool s) ! p) = Saved (i, HWaits)" "app (world s) = (svr_app_of stb)\<lparr>published := [], user := u\<rparr>"
proof -
  obtain i p t s where b1: "recv_msg (env b) (new_head\<lparr>h_cmd := kSayHello, h_msg := []\<rparr>) stb = (t, s)"
    "i \<noteq> 0" "action_coroutine (cpool s) i = Some p" "pool_ok (cpool s)" "flags_clear (cpool s)"
    "co_ctx (objs (cpool s) ! p) = Saved (i, HWaits)"
    "app (world s) = (svr_app_of stb)\<lparr>published := [ask_head cd b a i (hello_request u)], user := u\<rparr>"
    unfolding u by (rule hello_asks [OF env(2) ready(2) pick ab(2)])
  let ?ask = "ask_head cd b a i (hello_request u)"
  let ?greet = "greet_head cd a b i (hello_request u) (now (user (svr_app_of sta)))"
  obtain s1 where st: "set_svr_app ((svr_app_of (t, s))\<lparr>published := []\<rparr>) (t, s) = (t, s1)" "cpool s1 = cpool s"
      "app (world s1) = (svr_app_of stb)\<lparr>published := [], user := u\<rparr>"
    using b1(7) by (simp add: set_svr_app_def svr_app_of_def)
  define c1 where "c1 = take_published b (t, s) c"
  have s1: "run_local env b kSayHello c = c1" using at(2) b1(1) by (simp add: c1_def run_local_def)
  have c1: "in_flight c1 = [?ask]" "svr_at c1 b = Some (t, s1)" "svr_at c1 a = Some sta"
    using quiet b1(7) at(1) ab(1) st(1) by (simp_all add: c1_def take_published_def svr_app_of_def)
  define c2 where "c2 = take_published a (recv_msg (env a) ?ask sta) (c1\<lparr>in_flight := []\<rparr>)"
  have dst: "dst_bus_id ?ask = a" by (simp add: ask_head_def request_head_def)
  have s2: "deliver_next env c1 = c2" using c1 dst by (simp add: c2_def deliver_next_def)
  have "ascii (content (hello_request u))" by (simp add: hello_request_def ascii_def)
  from hello_answers [OF env(1) ready(1) cd this ab(3)]
  have a2: "svr_app_of (recv_msg (env a) ?ask sta) = (svr_app_of sta)\<lparr>published := [?greet]\<rparr>" .
  have c2: "in_flight c2 = [?greet]" "svr_at c2 b = Some (t, s1)"
    using a2 c1 ab(1) by (simp_all add: c2_def take_published_def)
  show ?thesis by (rule that [of c2 t s1 i p]) (use s1 s2 c2 b1 st c1(1) in simp_all)
qed

subsection \<open>A cluster of the two\<close>

definition demo_hello_codec :: hello_codec where
  "demo_hello_codec =
    \<lparr>write_hello_req = (\<lambda>q. bulk (content q) @ num_line (unat (req_seq q)) @ num_line (unat (time_req q))),
     read_hello_req = (\<lambda>s. case read_bulk s of None \<Rightarrow> \<lparr>content = [], req_seq = 0, time_req = 0\<rparr> | Some (c, s) \<Rightarrow>
       (case read_num s of None \<Rightarrow> \<lparr>content = c, req_seq = 0, time_req = 0\<rparr> | Some (n, s) \<Rightarrow>
       (case read_num s of None \<Rightarrow> \<lparr>content = c, req_seq = of_nat n, time_req = 0\<rparr>
        | Some (t, s) \<Rightarrow> \<lparr>content = c, req_seq = of_nat n, time_req = of_nat t\<rparr>))),
     write_hello_rsp = (\<lambda>r. bulk (rsp_content r) @ num_line (unat (rsp_seq r)) @ num_line (unat (rsp_time_req r)) @
       num_line (unat (time_rsp r))),
     read_hello_rsp = (\<lambda>s. case read_bulk s of None \<Rightarrow> None | Some (c, s) \<Rightarrow>
       (case read_num s of None \<Rightarrow> None | Some (n, s) \<Rightarrow> (case read_num s of None \<Rightarrow> None | Some (t, s) \<Rightarrow>
       (case read_num s of None \<Rightarrow> None
        | Some (t', s) \<Rightarrow> Some \<lparr>rsp_content = c, rsp_seq = of_nat n, rsp_time_req = of_nat t, time_rsp = of_nat t'\<rparr>))))\<rparr>"

lemma demo_hello_codec_ok: "hello_codec_ok demo_hello_codec"
proof -
  have n: "read_num (num_line k) = Some (k, [])" for k using num_codec.dec_enc [of k "[]"] by simp
  show ?thesis
    by (simp add: hello_codec_ok_def demo_hello_codec_def bulk_codec.dec_enc num_codec.dec_enc n)
qed

definition hello_env :: "(unit, hello_ctx, hello_user) envs" where
  "hello_env b =
    (if b = ''server_a-1'' then svr_env (\<lambda>_. HStart) (hello_a demo_hello_codec) (\<lambda>u. sint (now u)) careful_malloc
     else svr_env (\<lambda>_. HStart) (hello_b demo_hello_codec) (\<lambda>u. sint (now u)) careful_malloc)"

definition hello_new :: "bytes \<Rightarrow> (unit, hello_ctx, hello_user) svr_state" where
  "hello_new b = svr_init [kSayHello \<mapsto> [()]] b \<lparr>hello_seq = 0, now = 0, dice = 0, hello_log = []\<rparr>"

definition hello_up :: "bytes \<Rightarrow> 64 word \<Rightarrow> svr_list \<Rightarrow> (unit, hello_ctx, hello_user) svr_state" where
  "hello_up b t l = set_svr_app ((svr_app_of (hello_new b))
     \<lparr>net := \<lparr>mq_connected = True, send_usable = True, recv_channel_succ = True, mq_key = []\<rparr>\<lparr>mq_key := b\<rparr>, known_svrs := l,
      user := \<lparr>hello_seq = 6, now = t, dice = 0, hello_log = []\<rparr>\<rparr>) (hello_new b)"

definition hello_svrs :: "bytes \<Rightarrow> ((u32 \<Rightarrow> unit list option) \<times> hello_user) option" where
  "hello_svrs b = (if b \<in> {''server_a-1'', ''server_b-1''}
     then Some ([kSayHello \<mapsto> [()]], \<lparr>hello_seq = 0, now = 0, dice = 0, hello_log = []\<rparr>) else None)"

definition hello_cluster :: "(unit, hello_ctx, hello_user) cluster" where
  "hello_cluster = set_svr ''server_b-1'' (hello_up ''server_b-1'' 50 (AddSvr ''server_a-1'' empty_svr_list))
     (set_svr ''server_a-1'' (hello_up ''server_a-1'' 60 empty_svr_list) (cl_init hello_svrs))"

lemma hello_cluster_reached: "cl_steps hello_env (cl_init hello_svrs) hello_cluster"
proof -
  let ?c1 = "set_svr ''server_a-1'' (hello_up ''server_a-1'' 60 empty_svr_list) (cl_init hello_svrs)"
  have "svr_at (cl_init hello_svrs) ''server_a-1'' = Some (hello_new ''server_a-1'')"
    by (simp add: cl_init_def hello_svrs_def hello_new_def)
  then have "cl_step hello_env (cl_init hello_svrs) ?c1" unfolding hello_up_def by (rule cl_step.app_changes)
  moreover have "svr_at ?c1 ''server_b-1'' = Some (hello_new ''server_b-1'')"
    by (simp add: set_svr_def cl_init_def hello_svrs_def hello_new_def)
  then have "cl_step hello_env ?c1 hello_cluster"
    unfolding hello_cluster_def hello_up_def [of "''server_b-1''"] by (rule cl_step.app_changes)
  ultimately show ?thesis by auto
qed

lemma hello_up_ready: "svr_ready kSayHello b (hello_up b t l)"
  by (simp add: svr_ready_def hello_up_def hello_new_def svr_init_def svr_app_of_def set_svr_app_def co_init_def
      pool_ok_empty pool_of_def flags_clear_def) (simp add: empty_pool_def)

lemma hello_up_app: "user (svr_app_of (hello_up b t l)) = \<lparr>hello_seq = 6, now = t, dice = 0, hello_log = []\<rparr>"
  "known_svrs (svr_app_of (hello_up b t l)) = l"
  by (simp_all add: hello_up_def)

text \<open>What the two theorems below ask of this cluster.\<close>

lemma hello_cluster_facts:
  "''server_a-1'' \<noteq> ''server_b-1''" "''server_a-1'' \<noteq> []" "''server_b-1'' \<noteq> []"
  "hello_env ''server_a-1'' = svr_env (\<lambda>_. HStart) (hello_a demo_hello_codec) (\<lambda>u. sint (now u)) careful_malloc"
  "hello_env ''server_b-1'' = svr_env (\<lambda>_. HStart) (hello_b demo_hello_codec) (\<lambda>u. sint (now u)) careful_malloc"
  "svr_at hello_cluster ''server_a-1'' = Some (hello_up ''server_a-1'' 60 empty_svr_list)"
  "svr_at hello_cluster ''server_b-1'' = Some (hello_up ''server_b-1'' 50 (AddSvr ''server_a-1'' empty_svr_list))"
  "svr_ready kSayHello ''server_a-1'' (hello_up ''server_a-1'' 60 empty_svr_list)"
  "svr_ready kSayHello ''server_b-1'' (hello_up ''server_b-1'' 50 (AddSvr ''server_a-1'' empty_svr_list))"
  "GetOneSvrByType (dice (user (svr_app_of (hello_up ''server_b-1'' 50 (AddSvr ''server_a-1'' empty_svr_list))))) ''server_a''
     (known_svrs (svr_app_of (hello_up ''server_b-1'' 50 (AddSvr ''server_a-1'' empty_svr_list)))) = ''server_a-1''"
  "in_flight hello_cluster = []"
proof -
  show "''server_a-1'' \<noteq> ''server_b-1''" "''server_a-1'' \<noteq> []" "''server_b-1'' \<noteq> []" by simp_all
  show "hello_env ''server_a-1'' = svr_env (\<lambda>_. HStart) (hello_a demo_hello_codec) (\<lambda>u. sint (now u)) careful_malloc"
    "hello_env ''server_b-1'' = svr_env (\<lambda>_. HStart) (hello_b demo_hello_codec) (\<lambda>u. sint (now u)) careful_malloc"
    by (simp_all add: hello_env_def)
  show "svr_at hello_cluster ''server_a-1'' = Some (hello_up ''server_a-1'' 60 empty_svr_list)"
    "svr_at hello_cluster ''server_b-1'' = Some (hello_up ''server_b-1'' 50 (AddSvr ''server_a-1'' empty_svr_list))"
    "in_flight hello_cluster = []"
    by (simp_all add: hello_cluster_def set_svr_def cl_init_def)
  show "GetOneSvrByType (dice (user (svr_app_of (hello_up ''server_b-1'' 50 (AddSvr ''server_a-1'' empty_svr_list))))) ''server_a''
     (known_svrs (svr_app_of (hello_up ''server_b-1'' 50 (AddSvr ''server_a-1'' empty_svr_list)))) = ''server_a-1''"
    by (simp add: hello_up_app GetOneSvrByType_def GetSvrListByType_def AddSvr_def empty_svr_list_def GetType_def RandOne_def svrs_of_def)
qed (rule hello_up_ready)+

lemma hello_env_proper: "proper_envs (\<lambda>_. hello_knows) hello_env"
  unfolding proper_envs_def
proof
  fix b
  show "\<exists>start task clk ml. hello_env b = svr_env start task clk ml \<and> api_only hello_knows start task"
  proof (cases "b = ''server_a-1''")
    case True
    then have "hello_env b = svr_env (\<lambda>_. HStart) (hello_a demo_hello_codec) (\<lambda>u. sint (now u)) careful_malloc"
      by (simp add: hello_env_def)
    then show ?thesis by (intro exI conjI) (assumption, rule hello_server_a.only_api)
  next
    case False
    then have "hello_env b = svr_env (\<lambda>_. HStart) (hello_b demo_hello_codec) (\<lambda>u. sint (now u)) careful_malloc"
      by (simp add: hello_env_def)
    then show ?thesis by (intro exI conjI) (assumption, rule hello_server_b.only_api)
  qed
qed

text \<open>
  C11: a call through the whole framework, step by step.  When server \<open>b\<close> is given its own message
  \<open>kSayHello\<close>, its transaction picks a server of type \<open>server_a\<close>, sends a request to it, and yields; when
  this request is delivered, a transaction at \<open>a\<close> sends the reply to the coroutine that waits at \<open>b\<close>;
  when the reply is delivered, this coroutine goes on with it: the log of \<open>b\<close> ends in exactly this
  reply, its sequence number is one higher, and nothing is left in the network.
  (Both servers are connected and have a free transaction object, nothing else is in the network, \<open>b\<close>
  knows a server of the type and the choice falls on \<open>a\<close>, and the serialisation reads back what it wrote.)
\<close>

theorem hello_exchange:
  assumes cd: "hello_codec_ok cd" and ab: "a \<noteq> b" "a \<noteq> []" "b \<noteq> []"
    and env: "env a = svr_env (\<lambda>_. HStart) (hello_a cd) clk ml" "env b = svr_env (\<lambda>_. HStart) (hello_b cd) clk' ml'"
    and at: "svr_at c a = Some sta" "svr_at c b = Some stb" and ready: "svr_ready kSayHello a sta" "svr_ready kSayHello b stb"
    and pick: "GetOneSvrByType (dice (user (svr_app_of stb))) ''server_a'' (known_svrs (svr_app_of stb)) = a"
    and quiet: "in_flight c = []"
    and q: "q = hello_request ((user (svr_app_of stb))\<lparr>hello_seq := hello_seq (user (svr_app_of stb)) + 1\<rparr>)"
    and c': "c' = deliver_next env (deliver_next env (run_local env b kSayHello c))"
  shows "\<exists>stb' i. i \<noteq> 0 \<and> in_flight (run_local env b kSayHello c) = [ask_head cd b a i q] \<and>
    in_flight (deliver_next env (run_local env b kSayHello c)) = [greet_head cd a b i q (now (user (svr_app_of sta)))] \<and>
    svr_at c' b = Some stb' \<and> in_flight c' = [] \<and>
    hello_seq (user (svr_app_of stb')) = hello_seq (user (svr_app_of stb)) + 1 \<and>
    hello_log (user (svr_app_of stb')) = hello_log (user (svr_app_of stb)) @
      [Inr \<lparr>rsp_content = ''hello : I am liuping'', rsp_seq = hello_seq (user (svr_app_of stb)) + 1,
         rsp_time_req = now (user (svr_app_of stb)), time_rsp = now (user (svr_app_of sta))\<rparr>]"
proof -
  let ?u = "(user (svr_app_of stb))\<lparr>hello_seq := hello_seq (user (svr_app_of stb)) + 1\<rparr>" and ?t = "now (user (svr_app_of sta))"
  obtain i p t s c2 where c2: "c2 = deliver_next env (run_local env b kSayHello c)" "svr_at c2 b = Some (t, s)"
    "in_flight (run_local env b kSayHello c) = [ask_head cd b a i (hello_request ?u)]"
    "in_flight c2 = [greet_head cd a b i (hello_request ?u) ?t]"
    and w: "i \<noteq> 0" "action_coroutine (cpool s) i = Some p" "pool_ok (cpool s)" "flags_clear (cpool s)"
    "co_ctx (objs (cpool s) ! p) = Saved (i, HWaits)" and app: "app (world s) = (svr_app_of stb)\<lparr>published := [], user := ?u\<rparr>"
    using hello_reply_in_flight [OF cd ab env at ready pick quiet refl] by metis
  let ?greet = "greet_head cd a b i (hello_request ?u) ?t"
  let ?stb = "recv_msg (env b) ?greet (t, s)"
  let ?stb' = "set_svr_app ((svr_app_of ?stb)\<lparr>published := []\<rparr>) ?stb"
  define c3 where "c3 = take_published b ?stb (c2\<lparr>in_flight := []\<rparr>)"
  have "c' = deliver_next env c2" by (simp only: c' c2(1))
  also have "... = c3" using c2(2,4) unfolding c3_def deliver_next_def [of env c2] by (simp add: greet_head_def)
  finally have s3: "c' = c3" .
  have "ascii (content (hello_request ?u))" by (simp add: hello_request_def ascii_def)
  from hello_resumed [OF env(2) cd this w] app
  have b3: "svr_app_of ?stb = (svr_app_of stb)
      \<lparr>published := [], user := ?u\<lparr>hello_log := hello_log ?u @ [Inr (greeting (hello_request ?u) ?t)]\<rparr>\<rparr>" by simp
  then have "user (svr_app_of ?stb') = ?u\<lparr>hello_log := hello_log ?u @ [Inr (greeting (hello_request ?u) ?t)]\<rparr>" by simp
  moreover have "in_flight c3 = []" "svr_at c3 b = Some ?stb'" using b3 c2 by (simp_all add: c3_def take_published_def)
  ultimately show ?thesis
    using c2(1,3,4) w(1) unfolding s3 q
    by (intro exI [of _ ?stb'] exI [of _ i]) (simp add: greeting_def hello_request_def)
qed

lemma hello_exchange_witness:
  "\<exists>c' stb'. c' = deliver_next hello_env (deliver_next hello_env (run_local hello_env ''server_b-1'' kSayHello hello_cluster)) \<and>
    svr_at c' ''server_b-1'' = Some stb' \<and> in_flight c' = [] \<and>
    hello_log (user (svr_app_of stb')) =
      [Inr \<lparr>rsp_content = ''hello : I am liuping'', rsp_seq = 7, rsp_time_req = 50, time_rsp = 60\<rparr>]"
  using hello_exchange [of demo_hello_codec "''server_a-1''" "''server_b-1''" hello_env, OF demo_hello_codec_ok hello_cluster_facts refl refl]
  by (auto simp: hello_up_app)

text \<open>
  C2: every message for a coroutine answers a request.  In every execution of a cluster whose
  transactions use the interface of \<open>TransMgr\<close> only (\<open>proper_envs\<close>, which the code of the two servers
  of the repository meets: \<open>hello_env_proper\<close>), with messages delivered in any order or lost, with ticks,
  connections that come and go, and servers that come to know each other: a message in flight that has a
  coroutine as its destination was preceded by a request that a coroutine of this id at this server
  sent to the server the message is from, and its command is the next one.
\<close>

theorem replies_answer_requests:
  assumes "proper_envs knows env" "cl_steps env (cl_init svrs) c" "m \<in> set (in_flight c)" "dst_co_id m \<noteq> 0"
  shows "\<exists>pre req post. sent c = pre @ m # post \<and> req \<in> set pre \<and>
    src_bus_id req = dst_bus_id m \<and> src_co_id req = dst_co_id m \<and> dst_bus_id req = src_bus_id m \<and> h_cmd m = h_cmd req + 1"
proof -
  have ok: "cl_ok knows c" by (rule cl_ok_steps [OF assms(2,1) cl_ok_init])
  with assms(3) cl_okD(2) have "m \<in> set (sent c)" by blast
  then obtain pre post where p: "sent c = pre @ m # post" by (meson split_list)
  with cl_okD(3) [OF ok] assms(4) obtain req where "req \<in> set pre" "answers m req" "dst_bus_id req = src_bus_id m"
    unfolding well_answered_def by blast
  with p show ?thesis by (auto simp: answers_def)
qed

lemma replies_answer_requests_witness:
  "\<exists>c m pre req post. cl_steps hello_env (cl_init hello_svrs) c \<and> m \<in> set (in_flight c) \<and> dst_co_id m \<noteq> 0 \<and>
    sent c = pre @ m # post \<and> req \<in> set pre \<and> src_bus_id req = ''server_b-1'' \<and> h_cmd m = h_cmd req + 1"
proof -
  obtain i p t s c' where c': "c' = deliver_next hello_env (run_local hello_env ''server_b-1'' kSayHello hello_cluster)" "i \<noteq> 0"
    "in_flight c' = [greet_head demo_hello_codec ''server_a-1'' ''server_b-1'' i
       (hello_request \<lparr>hello_seq = 7, now = 50, dice = 0, hello_log = []\<rparr>) 60]"
    by (rule hello_reply_in_flight [OF demo_hello_codec_ok hello_cluster_facts, where u = "\<lparr>hello_seq = 7, now = 50, dice = 0, hello_log = []\<rparr>"])
      (simp_all add: hello_up_app)
  let ?m = "hd (in_flight c')"
  have m: "?m \<in> set (in_flight c')" "dst_co_id ?m \<noteq> 0" "dst_bus_id ?m = ''server_b-1''"
    using c' by (simp_all add: greet_head_def)
  have run: "cl_steps hello_env (cl_init hello_svrs) c'" unfolding c'(1)
    by (rule rtranclp_trans [OF rtranclp_trans [OF hello_cluster_reached run_local_steps] deliver_next_steps])
  from replies_answer_requests [OF hello_env_proper run m(1,2)] run m show ?thesis by metis
qed

end
