(* ===== verification/Mq_Net.thy ===== *)
theory Mq_Net
  imports Client_State Rpc
begin

text \<open>
  The RabbitMQ connection of \<open>src/app/common/mq_net.h\<close> and \<open>mq_net.cpp\<close> over its life: \<open>Reconnect\<close> makes a
  new connection with its channels, the AMQP library reports on it, and \<open>SendMsg\<close> publishes.

  What the library knows of the current connection is kept beside the client: whether the
  connection object is in use, whether it is up, and which exchanges were declared on it.  A new
  connection object replaces the old one, which is destroyed and reports nothing more; on one channel
  the answers come in the order of the requests.
\<close>

record mq_world =
  mq_self :: mq_client
  mq_alive :: bool
  mq_up :: bool
  recv_declared :: bool
  send_declared :: bool

text \<open>The constructor leaves \<open>state_\<close> as it is (\<open>junk\<close>).\<close>

definition mq_client_new :: "int \<Rightarrow> mq_client" where
  "mq_client_new junk = \<lparr>mq_st = junk, mq_created = False, send_channel_succ = False, recv_channel_succ_flag = False\<rparr>"

definition mq_world_new :: "int \<Rightarrow> mq_world" where
  "mq_world_new junk = \<lparr>mq_self = mq_client_new junk, mq_alive = False, mq_up = False, recv_declared = False, send_declared = False\<rparr>"

definition mq_tick :: "mq_world \<Rightarrow> mq_world" where
  "mq_tick w =
    (if NotNeedReconnect (mq_st (mq_self w)) then w
     else w\<lparr>mq_self := mq_Reconnect (mq_self w), mq_alive := True, mq_up := False, recv_declared := False, send_declared := False\<rparr>)"

definition mq_report :: "mq_event \<Rightarrow> mq_world \<Rightarrow> mq_world" where
  "mq_report e w = w\<lparr>mq_self := mq_callback e (mq_self w)\<rparr>"

inductive mq_step :: "mq_world \<Rightarrow> mq_world \<Rightarrow> bool" where
  tick: "mq_step w (mq_tick w)"
| connected: "mq_alive w \<Longrightarrow> \<not> mq_up w \<Longrightarrow> mq_step w ((mq_report MqConnected w)\<lparr>mq_up := True\<rparr>)"
| closed: "mq_alive w \<Longrightarrow> mq_step w ((mq_report MqClosed w)\<lparr>mq_alive := False, mq_up := False\<rparr>)"
| failed: "mq_alive w \<Longrightarrow> mq_step w ((mq_report MqError w)\<lparr>mq_alive := False, mq_up := False\<rparr>)"
| recv_declares: "mq_up w \<Longrightarrow> mq_step w ((mq_report MqRecvDeclared w)\<lparr>recv_declared := True\<rparr>)"
| send_declares: "mq_up w \<Longrightarrow> recv_declared w \<Longrightarrow> mq_step w ((mq_report MqSendDeclared w)\<lparr>send_declared := True\<rparr>)"

text \<open>\<open>SendMsg\<close> and \<open>Heartbeat\<close> in such a state; \<open>usable\<close> is what the library says of the sending channel or the connection.\<close>

definition mq_view :: "bool \<Rightarrow> bytes \<Rightarrow> mq_client \<Rightarrow> mq_state" where
  "mq_view usable key m =
    \<lparr>mq_connected = (mq_st m = kConnected), send_usable = usable, recv_channel_succ = recv_channel_succ_flag m, mq_key = key\<rparr>"

definition mq_SendMsg :: "bool \<Rightarrow> bytes \<Rightarrow> mq_world \<Rightarrow> msg_head \<Rightarrow> msg_head option" where
  "mq_SendMsg usable key w msg = mq_publish (mq_view usable key (mq_self w)) msg"

definition Heartbeat :: "bool \<Rightarrow> mq_client \<Rightarrow> bool" where
  "Heartbeat usable m \<longleftrightarrow> mq_created m \<and> usable"

subsection \<open>The invariant\<close>

definition mq_ok :: "mq_world \<Rightarrow> bool" where
  "mq_ok w \<longleftrightarrow> (mq_up w \<longleftrightarrow> mq_st (mq_self w) = kConnected) \<and> (mq_alive w \<longleftrightarrow> NotNeedReconnect (mq_st (mq_self w))) \<and>
     (mq_alive w \<longrightarrow> mq_created (mq_self w)) \<and> (mq_up w \<longrightarrow> mq_alive w) \<and>
     recv_channel_succ_flag (mq_self w) = recv_declared w \<and> send_channel_succ (mq_self w) = send_declared w \<and>
     (send_declared w \<longrightarrow> recv_declared w)"

lemma mq_states_differ [simp]: "kConnecting \<noteq> kConnected" "kDisConnected \<noteq> kConnected"
  by (simp_all add: client_state_defs)

lemma mq_ok_new: "\<not> NotNeedReconnect junk \<Longrightarrow> mq_ok (mq_world_new junk)"
  by (auto simp: mq_ok_def mq_world_new_def mq_client_new_def)

lemma mq_ok_step: "mq_step w w' \<Longrightarrow> mq_ok w \<Longrightarrow> mq_ok w'"
  by (induction rule: mq_step.induct) (auto simp: mq_ok_def mq_tick_def mq_report_def mq_Reconnect_def)

lemma mq_ok_steps: "mq_step\<^sup>*\<^sup>* w w' \<Longrightarrow> mq_ok w \<Longrightarrow> mq_ok w'"
  by (induction rule: rtranclp_induct) (auto intro: mq_ok_step)

lemma mq_SendMsg_iff:
  "mq_ok w \<Longrightarrow> mq_SendMsg usable key w msg = Some out \<longleftrightarrow>
      mq_alive w \<and> mq_up w \<and> recv_declared w \<and> usable \<and> dst_bus_id msg \<noteq> [] \<and> out = msg\<lparr>src_bus_id := key\<rparr>"
  by (auto simp: mq_ok_def mq_SendMsg_def mq_publish_def mq_view_def)

text \<open>
  C14: what is published goes to a connection that is there.  In every state that ticks and reports of
  the library lead to: \<open>SendMsg\<close> publishes a message exactly when the current connection is up, its
  exchange was declared on this connection, the channel is usable and the message has a
  destination; the message then has the key of this server as its source.  The client asks for
  a new connection exactly when the last one is gone, and a connection that is up has declared nothing
  on the strength of an earlier one.  (The start state asks for a connection; the source leaves it
  uninitialised, and one that claims to be connected publishes through a null channel.)
\<close>

theorem mq_publishes_when_up:
  assumes "mq_step\<^sup>*\<^sup>* (mq_world_new junk) w" "\<not> NotNeedReconnect junk"
  shows "(mq_SendMsg usable key w msg = Some out \<longleftrightarrow>
      mq_alive w \<and> mq_up w \<and> recv_declared w \<and> usable \<and> dst_bus_id msg \<noteq> [] \<and> out = msg\<lparr>src_bus_id := key\<rparr>) \<and>
    (IsUsable (mq_self w) \<longleftrightarrow> send_declared w) \<and>
    (mq_alive w \<longrightarrow> mq_tick w = w) \<and>
    (\<not> mq_alive w \<longrightarrow> mq_SendMsg usable key w msg = None \<and> mq_alive (mq_tick w) \<and> \<not> recv_declared (mq_tick w) \<and>
       mq_SendMsg usable key (mq_tick w) msg = None)"
proof -
  have ok: "mq_ok w" by (rule mq_ok_steps [OF assms(1) mq_ok_new [OF assms(2)]])
  note mq_SendMsg_iff [OF this, of usable key msg out]
  moreover have "IsUsable (mq_self w) \<longleftrightarrow> send_declared w" using ok by (auto simp: mq_ok_def IsUsable_def)
  moreover have "mq_alive w \<longrightarrow> mq_tick w = w" using ok by (simp add: mq_ok_def mq_tick_def)
  moreover have "\<not> mq_alive w \<longrightarrow> mq_SendMsg usable key w msg = None \<and> mq_alive (mq_tick w) \<and> \<not> recv_declared (mq_tick w) \<and>
       mq_SendMsg usable key (mq_tick w) msg = None"
    using ok by (auto simp: mq_ok_def mq_tick_def mq_SendMsg_def mq_publish_def mq_view_def mq_Reconnect_def)
  ultimately show ?thesis by blast
qed

lemma mq_publishes_when_up_witness:
  "\<exists>w. mq_step\<^sup>*\<^sup>* (mq_world_new 4) w \<and>
     mq_SendMsg True ''server_a-1'' w (send_msg ''server_b-1'' 7 ''x'' 0) =
       Some ((send_msg ''server_b-1'' 7 ''x'' 0)\<lparr>src_bus_id := ''server_a-1''\<rparr>)"
proof -
  have n: "\<not> NotNeedReconnect 4" by (simp add: NotNeedReconnect_def client_state_defs)
  let ?w1 = "mq_tick (mq_world_new 4)"
  let ?w2 = "(mq_report MqConnected ?w1)\<lparr>mq_up := True\<rparr>"
  let ?w3 = "(mq_report MqRecvDeclared ?w2)\<lparr>recv_declared := True\<rparr>"
  have w1: "mq_alive ?w1" "\<not> mq_up ?w1" using n by (simp_all add: mq_tick_def mq_world_new_def mq_client_new_def)
  have "mq_step (mq_world_new 4) ?w1" "mq_step ?w1 ?w2" "mq_step ?w2 ?w3"
    using w1 by (auto intro: mq_step.intros)
  then have run: "mq_step\<^sup>*\<^sup>* (mq_world_new 4) ?w3" by auto
  have "mq_alive ?w3 \<and> mq_up ?w3 \<and> recv_declared ?w3" using w1 by (simp add: mq_report_def)
  moreover have "dst_bus_id (send_msg ''server_b-1'' 7 ''x'' 0) \<noteq> []" by (simp add: send_msg_def)
  ultimately show ?thesis
    using mq_publishes_when_up [OF run n, of True "''server_a-1''" "send_msg ''server_b-1'' 7 ''x'' 0"] run by blast
qed

end
