(* ===== verification/Config.thy ===== *)
theory Config
  imports Errors "HOL-Library.Word"
begin

text \<open>
  Reading the configuration: the accessors of \<open>src/commlib/toml_base.hpp\<close> and the \<open>FromToml\<close> functions of
  \<open>src/app/redissvr/redissvr_toml.hpp\<close> and \<open>src/app/test/server_a_toml.hpp\<close> (those of server b and of
  \<open>test_toml.hpp\<close> are the same text), on the values that the TOML parser makes.

  \<open>toml\<close> has one constructor per class of value of \<open>cpptoml.h\<close>; a table has every key once.  The
  accessors return a null pointer for a value of another type, and the code dereferences what they
  return.
\<close>

datatype toml =
    TString bytes | TInteger "64 word" | TFloat "64 word" | TBool bool
  | TLocalDate bytes | TLocalTime bytes | TLocalDatetime bytes | TOffsetDatetime bytes
  | TArray "toml list" | TTableArray "toml list" | TTable "(bytes \<times> toml) list"

definition arrow :: "'a option \<Rightarrow> fault + 'a" where
  "arrow p = (case p of None \<Rightarrow> Inl Undef | Some x \<Rightarrow> Inr x)"

definition as_table :: "toml \<Rightarrow> (bytes \<times> toml) list option" where
  "as_table t = (case t of TTable kvs \<Rightarrow> Some kvs | _ \<Rightarrow> None)"

definition as_string :: "toml \<Rightarrow> bytes option" where
  "as_string t = (case t of TString s \<Rightarrow> Some s | _ \<Rightarrow> None)"

definition as_int64 :: "toml \<Rightarrow> 64 word option" where
  "as_int64 t = (case t of TInteger i \<Rightarrow> Some i | _ \<Rightarrow> None)"

definition as_bool :: "toml \<Rightarrow> bool option" where
  "as_bool t = (case t of TBool b \<Rightarrow> Some b | _ \<Rightarrow> None)"

text \<open>An integer is taken for a double; \<open>i2d\<close> is the conversion.\<close>

definition as_double :: "(64 word \<Rightarrow> 64 word) \<Rightarrow> toml \<Rightarrow> 64 word option" where
  "as_double i2d t = (case t of TFloat d \<Rightarrow> Some d | TInteger i \<Rightarrow> Some (i2d i) | _ \<Rightarrow> None)"

definition table_get :: "bytes \<Rightarrow> (bytes \<times> toml) list \<Rightarrow> fault + toml" where
  "table_get key kvs = (case map_of kvs key of None \<Rightarrow> Inl (Throw (StdException ''out_of_range'')) | Some t \<Rightarrow> Inr t)"

subsection \<open>The accessors of \<open>TomlBase\<close>\<close>

text \<open>The pointer of a \<open>TomlBase\<close> made by its default constructor is null.\<close>

definition TomlBase_string :: "toml option \<Rightarrow> fault + bytes" where
  "TomlBase_string p = rbind (arrow p) (\<lambda>t. arrow (as_string t))"

definition TomlBase_I :: "toml option \<Rightarrow> fault + 64 word" where
  "TomlBase_I p = rbind (arrow p) (\<lambda>t. arrow (as_int64 t))"

definition TomlBase_D :: "(64 word \<Rightarrow> 64 word) \<Rightarrow> toml option \<Rightarrow> fault + 64 word" where
  "TomlBase_D i2d p = rbind (arrow p) (\<lambda>t. arrow (as_double i2d t))"

definition TomlBase_B :: "toml option \<Rightarrow> fault + bool" where
  "TomlBase_B p = rbind (arrow p) (\<lambda>t. arrow (as_bool t))"

subsection \<open>The structs\<close>

text \<open>\<open>ptr->as_table()->get(key)\<close> and what is read from it.\<close>

definition get_base :: "toml \<Rightarrow> bytes \<Rightarrow> fault + toml" where
  "get_base ptr key = rbind (arrow (as_table ptr)) (table_get key)"

definition get_string :: "toml \<Rightarrow> bytes \<Rightarrow> fault + bytes" where
  "get_string ptr key = rbind (get_base ptr key) (\<lambda>t. arrow (as_string t))"

definition get_int64 :: "toml \<Rightarrow> bytes \<Rightarrow> fault + 64 word" where
  "get_int64 ptr key = rbind (get_base ptr key) (\<lambda>t. arrow (as_int64 t))"

record redis_conf =
  port :: "64 word"
  ip :: bytes

record log_conf =
  log_level :: "64 word"
  log_remain_size :: "64 word"

record server_conf =
  log :: log_conf
  zk_host :: bytes
  router :: bytes
  mq_addr :: bytes

record redissvr_conf = server_conf +
  redis :: redis_conf

definition Redis_FromToml :: "toml \<Rightarrow> fault + redis_conf" where
  "Redis_FromToml ptr =
    rbind (get_int64 ptr ''port'') (\<lambda>p. rbind (get_string ptr ''ip'') (\<lambda>i. Inr \<lparr>port = p, ip = i\<rparr>))"

definition Log_FromToml :: "toml \<Rightarrow> fault + log_conf" where
  "Log_FromToml ptr =
    rbind (get_int64 ptr ''log_level'') (\<lambda>l. rbind (get_int64 ptr ''log_remain_size'') (\<lambda>r.
      Inr \<lparr>log_level = l, log_remain_size = r\<rparr>))"

definition server_FromToml :: "toml \<Rightarrow> fault + server_conf" where
  "server_FromToml ptr =
    rbind (rbind (get_base ptr ''log'') Log_FromToml) (\<lambda>l.
    rbind (get_string ptr ''zk_host'') (\<lambda>z. rbind (get_string ptr ''router'') (\<lambda>r. rbind (get_string ptr ''mq_addr'') (\<lambda>m.
      Inr \<lparr>log = l, zk_host = z, router = r, mq_addr = m\<rparr>))))"

definition redissvr_FromToml :: "toml \<Rightarrow> fault + redissvr_conf" where
  "redissvr_FromToml ptr =
    rbind (rbind (get_base ptr ''redis'') Redis_FromToml) (\<lambda>rd.
    rbind (rbind (get_base ptr ''log'') Log_FromToml) (\<lambda>l.
    rbind (get_string ptr ''zk_host'') (\<lambda>z. rbind (get_string ptr ''router'') (\<lambda>r. rbind (get_string ptr ''mq_addr'') (\<lambda>m.
      Inr \<lparr>log = l, zk_host = z, router = r, mq_addr = m, redis = rd\<rparr>)))))"

subsection \<open>What a configuration says\<close>

text \<open>The specification: the entries of a configuration, by their paths, and how a path is looked up.\<close>

fun at_path :: "toml \<Rightarrow> bytes list \<Rightarrow> fault + toml" where
  "at_path t [] = Inr t"
| "at_path t (k # ks) = (case t of
     TTable kvs \<Rightarrow> (case map_of kvs k of None \<Rightarrow> Inl (Throw (StdException ''out_of_range'')) | Some t \<Rightarrow> at_path t ks)
   | _ \<Rightarrow> Inl Undef)"

datatype entry_type = EInt | EString

fun has_type :: "entry_type \<Rightarrow> toml \<Rightarrow> bool" where
  "has_type EInt t \<longleftrightarrow> (\<exists>i. t = TInteger i)"
| "has_type EString t \<longleftrightarrow> (\<exists>s. t = TString s)"

definition entry_fault :: "toml \<Rightarrow> bytes list \<times> entry_type \<Rightarrow> fault option" where
  "entry_fault t e = (case at_path t (fst e) of Inl f \<Rightarrow> Some f | Inr v \<Rightarrow> if has_type (snd e) v then None else Some Undef)"

definition server_entries :: "(bytes list \<times> entry_type) list" where
  "server_entries = [([''log'', ''log_level''], EInt), ([''log'', ''log_remain_size''], EInt), ([''zk_host''], EString),
     ([''router''], EString), ([''mq_addr''], EString)]"

definition redissvr_entries :: "(bytes list \<times> entry_type) list" where
  "redissvr_entries = [([''redis'', ''port''], EInt), ([''redis'', ''ip''], EString)] @ server_entries"

definition server_values :: "'z server_conf_scheme \<Rightarrow> toml list" where
  "server_values c = [TInteger (log_level (log c)), TInteger (log_remain_size (log c)), TString (zk_host c), TString (router c),
     TString (mq_addr c)]"

definition redissvr_values :: "redissvr_conf \<Rightarrow> toml list" where
  "redissvr_values c = [TInteger (port (redis c)), TString (ip (redis c))] @ server_values c"

text \<open>Reading the entries one by one, in the order of the code.\<close>

fun read_entries :: "toml \<Rightarrow> (bytes list \<times> entry_type) list \<Rightarrow> fault + toml list" where
  "read_entries t [] = Inr []"
| "read_entries t (e # es) = (case entry_fault t e of Some f \<Rightarrow> Inl f
     | None \<Rightarrow> rbind (at_path t (fst e)) (\<lambda>v. rbind (read_entries t es) (\<lambda>vs. Inr (v # vs))))"

subsection \<open>Reading against the specification\<close>

definition read_int :: "toml \<Rightarrow> bytes list \<Rightarrow> fault + 64 word" where
  "read_int t p = rbind (at_path t p) (\<lambda>v. arrow (as_int64 v))"

definition read_string :: "toml \<Rightarrow> bytes list \<Rightarrow> fault + bytes" where
  "read_string t p = rbind (at_path t p) (\<lambda>v. arrow (as_string v))"

lemma get_base_path: "get_base t k = at_path t [k]"
  by (cases t) (auto simp: get_base_def as_table_def arrow_def table_get_def split: option.split)

lemma at_path_Cons: "at_path t (k # ks) = rbind (get_base t k) (\<lambda>x. at_path x ks)"
  by (cases t) (auto simp: get_base_def as_table_def arrow_def table_get_def split: option.split)

lemma get_as_read: "get_int64 t k = read_int t [k]" "get_string t k = read_string t [k]"
  by (simp_all add: get_int64_def get_string_def read_int_def read_string_def get_base_path)

declare at_path.simps(2) [simp del]

text \<open>A section is looked up once by the code, and again for each entry by the specification.\<close>

lemma Redis_read: "rbind (get_base t k) Redis_FromToml =
    rbind (read_int t [k, ''port'']) (\<lambda>p. rbind (read_string t [k, ''ip'']) (\<lambda>i. Inr \<lparr>port = p, ip = i\<rparr>))"
  by (cases "get_base t k") (simp_all add: Redis_FromToml_def get_as_read read_int_def read_string_def at_path_Cons)

lemma Log_read: "rbind (get_base t k) Log_FromToml =
    rbind (read_int t [k, ''log_level'']) (\<lambda>l. rbind (read_int t [k, ''log_remain_size'']) (\<lambda>r.
      Inr \<lparr>log_level = l, log_remain_size = r\<rparr>))"
  by (cases "get_base t k") (simp_all add: Log_FromToml_def get_as_read read_int_def at_path_Cons)

lemma read_entry:
  "read_entries t ((p, EInt) # es) = rbind (read_int t p) (\<lambda>i. rbind (read_entries t es) (\<lambda>vs. Inr (TInteger i # vs)))"
  "read_entries t ((p, EString) # es) = rbind (read_string t p) (\<lambda>s. rbind (read_entries t es) (\<lambda>vs. Inr (TString s # vs)))"
  by (cases "at_path t p"; auto simp: read_int_def read_string_def entry_fault_def as_int64_def as_string_def arrow_def
      split: toml.split)+

declare read_entries.simps(2) [simp del]

lemma server_read:
  "server_FromToml t = Inr c \<longleftrightarrow> read_entries t server_entries = Inr (server_values c)"
  "server_FromToml t = Inl f \<longleftrightarrow> read_entries t server_entries = Inl f"
proof -
  show "server_FromToml t = Inr c \<longleftrightarrow> read_entries t server_entries = Inr (server_values c)"
    by (cases c, cases "log c") (auto simp: server_FromToml_def server_entries_def server_values_def Log_read get_as_read read_entry rbind_Inr_iff)
  show "server_FromToml t = Inl f \<longleftrightarrow> read_entries t server_entries = Inl f"
    by (simp add: server_FromToml_def server_entries_def Log_read get_as_read read_entry rbind_assoc) (auto simp: rbind_Inl_iff)
qed

lemma redissvr_read:
  "redissvr_FromToml t = Inr c \<longleftrightarrow> read_entries t redissvr_entries = Inr (redissvr_values c)"
  "redissvr_FromToml t = Inl f \<longleftrightarrow> read_entries t redissvr_entries = Inl f"
proof -
  show "redissvr_FromToml t = Inr c \<longleftrightarrow> read_entries t redissvr_entries = Inr (redissvr_values c)"
    by (cases c, cases "log c", cases "redis c") (auto simp: redissvr_FromToml_def redissvr_entries_def redissvr_values_def
        server_entries_def server_values_def Redis_read Log_read get_as_read read_entry rbind_Inr_iff)
  show "redissvr_FromToml t = Inl f \<longleftrightarrow> read_entries t redissvr_entries = Inl f"
    by (simp add: redissvr_FromToml_def redissvr_entries_def server_entries_def Redis_read Log_read get_as_read read_entry
        rbind_assoc) (auto simp: rbind_Inl_iff)
qed

lemma read_entries_fault:
  "read_entries t es = Inl f \<longleftrightarrow>
    (\<exists>pre e post. es = pre @ e # post \<and> (\<forall>e' \<in> set pre. entry_fault t e' = None) \<and> entry_fault t e = Some f)"
proof (induction es)
  case (Cons e es)
  show ?case
  proof (cases "entry_fault t e")
    case None
    then obtain v where "at_path t (fst e) = Inr v" by (cases "at_path t (fst e)") (auto simp: entry_fault_def)
    with None Cons show ?thesis
      by (auto simp: read_entries.simps(2) rbind_Inl_iff Cons_eq_append_conv) (metis set_ConsD)+
  next
    case (Some g)
    then have r: "read_entries t (e # es) = Inl g" by (simp add: read_entries.simps(2))
    show ?thesis
    proof
      assume "read_entries t (e # es) = Inl f"
      with r Some show "\<exists>pre e' post. e # es = pre @ e' # post \<and> (\<forall>e'' \<in> set pre. entry_fault t e'' = None) \<and> entry_fault t e' = Some f"
        by (intro exI [of _ "[]"] exI [of _ e] exI [of _ es]) simp
    next
      assume "\<exists>pre e' post. e # es = pre @ e' # post \<and> (\<forall>e'' \<in> set pre. entry_fault t e'' = None) \<and> entry_fault t e' = Some f"
      then obtain pre e' post where p: "e # es = pre @ e' # post" "\<forall>e'' \<in> set pre. entry_fault t e'' = None" "entry_fault t e' = Some f"
        by blast
      with r Some show "read_entries t (e # es) = Inl f" by (cases pre) simp_all
    qed
  qed
qed simp

lemma read_entries_values:
  "list_all2 (\<lambda>e v. has_type (snd e) v) es vs \<Longrightarrow>
   read_entries t es = Inr vs \<longleftrightarrow> map (\<lambda>e. at_path t (fst e)) es = map Inr vs"
proof (induction es vs rule: list_all2_induct)
  case (Cons e es v vs)
  then show ?case
    by (cases "at_path t (fst e)") (auto simp: read_entries.simps(2) entry_fault_def rbind_Inr_iff split: option.splits if_splits)
qed simp

text \<open>
  C25: a configuration is read as what it says, or its first bad entry is the fault.  \<open>FromToml\<close> gives a
  configuration exactly when the entries of the file, in whatever order and among whatever others, have
  the values of this configuration; otherwise the first entry in the order of the code that is
  missing or has another type decides: a missing key throws \<open>out_of_range\<close>, a value (or a section) of
  another type is a null pointer that is dereferenced.
\<close>

theorem config_read:
  "(redissvr_FromToml t = Inr c \<longleftrightarrow> map (\<lambda>e. at_path t (fst e)) redissvr_entries = map Inr (redissvr_values c)) \<and>
   (redissvr_FromToml t = Inl f \<longleftrightarrow> (\<exists>pre e post. redissvr_entries = pre @ e # post \<and>
      (\<forall>e' \<in> set pre. entry_fault t e' = None) \<and> entry_fault t e = Some f)) \<and>
   (server_FromToml t = Inr c' \<longleftrightarrow> map (\<lambda>e. at_path t (fst e)) server_entries = map Inr (server_values c')) \<and>
   (server_FromToml t = Inl f \<longleftrightarrow> (\<exists>pre e post. server_entries = pre @ e # post \<and>
      (\<forall>e' \<in> set pre. entry_fault t e' = None) \<and> entry_fault t e = Some f))"
proof -
  have s: "list_all2 (\<lambda>e v. has_type (snd e) v) server_entries (server_values c')"
    by (simp add: server_entries_def server_values_def)
  have r: "list_all2 (\<lambda>e v. has_type (snd e) v) redissvr_entries (redissvr_values c)"
    by (simp add: redissvr_entries_def redissvr_values_def server_entries_def server_values_def)
  show ?thesis
    unfolding redissvr_read server_read read_entries_fault read_entries_values [OF s] read_entries_values [OF r]
    by (intro conjI refl)
qed

definition demo_config :: toml where
  "demo_config = TTable [(''mq_addr'', TString ''amqp://mq''), (''router'', TString ''hello''), (''zk_host'', TString ''zk:2181''),
     (''extra'', TBool True),
     (''log'', TTable [(''log_remain_size'', TInteger 1), (''log_level'', TInteger 2)]),
     (''redis'', TTable [(''ip'', TString ''127.0.0.1''), (''port'', TInteger 6379)])]"

lemma config_read_witness:
  "redissvr_FromToml demo_config = Inr \<lparr>log = \<lparr>log_level = 2, log_remain_size = 1\<rparr>, zk_host = ''zk:2181'', router = ''hello'',
     mq_addr = ''amqp://mq'', redis = \<lparr>port = 6379, ip = ''127.0.0.1''\<rparr>\<rparr> \<and>
   server_FromToml (TTable [(''log'', TTable [(''log_level'', TString ''1'')])]) = Inl Undef"
proof -
  let ?bad = "TTable [(''log'', TTable [(''log_level'', TString ''1'')])]"
  have "entry_fault ?bad ([''log'', ''log_level''], EInt) = Some Undef" by (simp add: entry_fault_def at_path.simps(2))
  then have "\<exists>pre e post. server_entries = pre @ e # post \<and> (\<forall>e' \<in> set pre. entry_fault ?bad e' = None) \<and> entry_fault ?bad e = Some Undef"
    unfolding server_entries_def by (intro exI [of _ "[]"]) simp
  moreover let ?c = "\<lparr>log = \<lparr>log_level = 2, log_remain_size = 1\<rparr>, zk_host = ''zk:2181'', router = ''hello'',
     mq_addr = ''amqp://mq'', redis = \<lparr>port = 6379, ip = ''127.0.0.1''\<rparr>\<rparr>"
  have "map (\<lambda>e. at_path demo_config (fst e)) redissvr_entries = map Inr (redissvr_values ?c)"
    by (simp add: demo_config_def redissvr_entries_def redissvr_values_def server_entries_def server_values_def at_path.simps(2))
  ultimately show ?thesis using config_read [of demo_config ?c] config_read [of ?bad _ Undef] by blast
qed

end
