(* ===== verification/Logging.thy ===== *)
theory Logging
  imports Errors
begin

text \<open>
  The loggers of \<open>src/commlib/logging.h\<close> and \<open>logging.cpp\<close>: which files they open and which of them a message
  goes to.

  Of spdlog the model has the registry of named loggers (registering a name twice throws, getting one
  that is not there gives null), and that a logger drops what is below its level and a sink what is below
  the sink's.  A level is an integer: the configuration is cast to the enumeration unchecked.
\<close>

subsection \<open>Configuration and registry\<close>

definition trace :: int where "trace = 0"
definition debug :: int where "debug = 1"
definition info :: int where "info = 2"
definition warn :: int where "warn = 3"
definition err :: int where "err = 4"
definition critical :: int where "critical = 5"
definition off :: int where "off = 6"

lemmas level_defs = trace_def debug_def info_def warn_def err_def critical_def off_def

record log_config =
  log_path :: bytes
  data_path :: bytes
  log_name :: bytes
  lc_level :: int
  rotating_size :: nat
  max_files :: nat

definition default_config :: log_config where
  "default_config = \<lparr>log_path = [], data_path = [], log_name = ''unknown'', lc_level = debug,
     rotating_size = 1024 * 1024 * 1000, max_files = 10\<rparr>"

datatype sink_kind = Rotating nat nat | Daily

record sink =
  sink_file :: bytes
  sink_level :: int
  sink_kind :: sink_kind

record logger =
  lg_sinks :: "sink list"
  lg_level :: int
  lg_async :: bool

type_synonym log_registry = "(bytes \<times> logger) list"

definition sink_log :: bytes where "sink_log = ''common_log''"
definition sink_data :: bytes where "sink_data = ''data_log''"

definition register_logger :: "bytes \<Rightarrow> logger \<Rightarrow> log_registry \<Rightarrow> fault + log_registry" where
  "register_logger name lg reg =
    (if map_of reg name \<noteq> None then Inl (Throw (StdException ''spdlog_ex'')) else Inr ((name, lg) # reg))"

subsection \<open>Making the loggers\<close>

definition level_str :: "int \<Rightarrow> fault + bytes" where
  "level_str level =
    (case map_of [(trace, ''.trace''), (debug, ''.debug''), (info, ''.info''), (warn, ''.warn''), (err, ''.error''),
         (critical, ''.critical''), (off, ''.off'')] level of
       None \<Rightarrow> Inl (Throw (StdException ''out_of_range'')) | Some s \<Rightarrow> Inr s)"

definition level_sink :: "log_config \<Rightarrow> int \<Rightarrow> fault + sink" where
  "level_sink config level =
    rbind (level_str level) (\<lambda>s. Inr \<lparr>sink_file = log_path config @ ''/'' @ log_name config @ s, sink_level = level,
      sink_kind = Rotating (rotating_size config) (max_files config)\<rparr>)"

text \<open>The loop over the levels up to \<open>err\<close>; \<open>sinks\<close> is the list made so far.\<close>

function level_sinks :: "log_config \<Rightarrow> int \<Rightarrow> sink list \<Rightarrow> fault + sink list" where
  "level_sinks config level sinks =
    (if level \<le> err then rbind (level_sink config level) (\<lambda>s. level_sinks config (level + 1) (sinks @ [s])) else Inr sinks)"
  by auto
termination by (relation "measure (\<lambda>(_, level, _). nat (err + 1 - level))") auto

declare level_sinks.simps [simp del]

definition data_sink :: "log_config \<Rightarrow> sink" where
  "data_sink config = \<lparr>sink_file = data_path config @ ''/'' @ log_name config @ ''.glog'', sink_level = info, sink_kind = Daily\<rparr>"

text \<open>The level of a logger is \<open>info\<close> until it is set; the data logger gets the sinks of the other one as well.\<close>

definition InitInner :: "log_config \<Rightarrow> bool \<Rightarrow> log_registry \<Rightarrow> fault + log_registry" where
  "InitInner config async reg =
    rbind (level_sinks config (lc_level config) []) (\<lambda>sinks.
    rbind (register_logger sink_log \<lparr>lg_sinks = sinks, lg_level = lc_level config, lg_async = async\<rparr> reg) (\<lambda>reg.
      if data_path config = [] then Inr reg
      else register_logger sink_data \<lparr>lg_sinks = sinks @ [data_sink config], lg_level = info, lg_async = async\<rparr> reg))"

definition Init_names :: "bytes \<Rightarrow> bytes \<Rightarrow> bytes \<Rightarrow> log_registry \<Rightarrow> fault + log_registry" where
  "Init_names name path data = InitInner (default_config\<lparr>log_name := name, log_path := path, data_path := data\<rparr>) False"

definition Init_name :: "bytes \<Rightarrow> bytes \<Rightarrow> log_registry \<Rightarrow> fault + log_registry" where
  "Init_name name path = InitInner (default_config\<lparr>log_name := name, log_path := path\<rparr>) False"

definition Init_config :: "log_config \<Rightarrow> log_registry \<Rightarrow> fault + log_registry" where
  "Init_config config = InitInner config False"

definition InitAsync :: "log_config \<Rightarrow> log_registry \<Rightarrow> fault + log_registry" where
  "InitAsync config = InitInner config True"

definition InitAsync_names :: "bytes \<Rightarrow> bytes \<Rightarrow> bytes \<Rightarrow> log_registry \<Rightarrow> fault + log_registry" where
  "InitAsync_names name path data = InitAsync (default_config\<lparr>log_name := name, log_path := path, data_path := data\<rparr>)"

definition InitAsync_name :: "bytes \<Rightarrow> bytes \<Rightarrow> log_registry \<Rightarrow> fault + log_registry" where
  "InitAsync_name name path = InitAsync (default_config\<lparr>log_name := name, log_path := path\<rparr>)"

subsection \<open>Writing\<close>

text \<open>The macros \<open>DEBUG\<close> to \<open>ERROR\<close> and \<open>GLOG\<close>: the files a message of a level is written to.\<close>

definition log_call :: "bytes \<Rightarrow> int \<Rightarrow> log_registry \<Rightarrow> fault + bytes list" where
  "log_call name level reg =
    (case map_of reg name of None \<Rightarrow> Inl Undef
     | Some lg \<Rightarrow> Inr (if lg_level lg \<le> level then map sink_file (filter (\<lambda>s. sink_level s \<le> level) (lg_sinks lg)) else []))"

definition GLOG :: "log_registry \<Rightarrow> fault + bytes list" where
  "GLOG = log_call sink_data info"

subsection \<open>The files\<close>

text \<open>The specification: the names of the levels that have a file.\<close>

definition level_file :: "log_config \<Rightarrow> int \<Rightarrow> bytes" where
  "level_file config level = log_path config @ ''/'' @ log_name config @ [''.trace'', ''.debug'', ''.info'', ''.warn'', ''.error''] ! nat level"

lemma level_sink_eq: "0 \<le> level \<Longrightarrow> level \<le> err \<Longrightarrow> level_sink config level =
    Inr \<lparr>sink_file = level_file config level, sink_level = level, sink_kind = Rotating (rotating_size config) (max_files config)\<rparr>"
proof -
  assume "0 \<le> level" "level \<le> err"
  then have "level \<in> {0, 1, 2, 3, 4}" by (auto simp: err_def)
  then show ?thesis by (auto simp: level_sink_def level_str_def level_file_def level_defs)
qed

lemma level_sinks_eq:
  "0 \<le> level \<Longrightarrow> level_sinks config level sinks = Inr (sinks @ map (\<lambda>k. \<lparr>sink_file = level_file config k, sink_level = k,
     sink_kind = Rotating (rotating_size config) (max_files config)\<rparr>) [level..err])"
proof (induction config level sinks rule: level_sinks.induct)
  case (1 config level sinks)
  then show ?case
    by (subst level_sinks.simps, cases "level \<le> err") (simp_all add: level_sink_eq upto_rec1)
qed

lemma level_sinks_negative: "level < 0 \<Longrightarrow> level_sinks config level sinks = Inl (Throw (StdException ''out_of_range''))"
  by (subst level_sinks.simps) (simp add: level_sink_def level_str_def level_defs)

lemma filter_upto: "filter (\<lambda>k. k \<le> l) [a..b] = [a..min l b]" for a b l :: int
proof (induction a b rule: upto.induct)
  case (1 a b)
  show ?case
  proof (cases "a \<le> b")
    case True
    then have "[a..b] = a # [a + 1..b]" by (rule upto_rec1)
    with 1 True show ?thesis by (cases "a \<le> l") (simp_all add: upto_rec1)
  qed simp
qed

lemma InitInner_again: "map_of reg sink_log \<noteq> None \<Longrightarrow> \<exists>e. InitInner config async reg = Inl (Throw e)"
  by (cases "lc_level config < 0") (auto simp: InitInner_def level_sinks_negative level_sinks_eq register_logger_def)

lemma log_names_differ [simp]: "sink_log \<noteq> sink_data" "sink_data \<noteq> sink_log"
  by (simp_all add: sink_log_def sink_data_def)

text \<open>
  C29: what a message is written to.  With a level of the enumeration (not below \<open>trace\<close>) and no loggers yet, the loggers are
  made; a message of level \<open>l\<close> then goes exactly to the files of the levels from the configured one to \<open>l\<close>, as
  far as \<open>error\<close>, and with a path for it a data message to the files of the levels up to \<open>info\<close> and the data
  file.  A level below \<open>trace\<close> throws \<open>out_of_range\<close>, a second call throws, and a message
  before the first call uses a null pointer.
\<close>

theorem log_files:
  "(0 \<le> lc_level config \<longrightarrow> (\<exists>reg. InitInner config async [] = Inr reg \<and>
      log_call sink_log l reg = Inr (map (level_file config) [lc_level config..min l err]) \<and>
      (data_path config \<noteq> [] \<longrightarrow> GLOG reg = Inr (map (level_file config) [lc_level config..info] @ [sink_file (data_sink config)])) \<and>
      (\<exists>e. InitInner config' async' reg = Inl (Throw e)))) \<and>
   (lc_level config < 0 \<longrightarrow> InitInner config async reg' = Inl (Throw (StdException ''out_of_range''))) \<and>
   log_call sink_log l [] = Inl Undef \<and> GLOG [] = Inl Undef"
proof -
  let ?k = "\<lambda>k. \<lparr>sink_file = level_file config k, sink_level = k, sink_kind = Rotating (rotating_size config) (max_files config)\<rparr>"
  have f: "filter (\<lambda>s. sink_level s \<le> l) (map ?k xs) = map ?k (filter (\<lambda>k. k \<le> l) xs)" for l xs
    by (simp add: filter_map o_def)
  have m: "map sink_file (map ?k xs) = map (level_file config) xs" for xs by simp
  have "\<exists>reg. InitInner config async [] = Inr reg \<and>
      log_call sink_log l reg = Inr (map (level_file config) [lc_level config..min l err]) \<and>
      (data_path config \<noteq> [] \<longrightarrow> GLOG reg = Inr (map (level_file config) [lc_level config..info] @ [sink_file (data_sink config)])) \<and>
      (\<exists>e. InitInner config' async' reg = Inl (Throw e))" if level: "0 \<le> lc_level config"
  proof -
    let ?sinks = "map ?k [lc_level config..err]"
    let ?common = "(sink_log, \<lparr>lg_sinks = ?sinks, lg_level = lc_level config, lg_async = async\<rparr>)"
    let ?data = "(sink_data, \<lparr>lg_sinks = ?sinks @ [data_sink config], lg_level = info, lg_async = async\<rparr>)"
    let ?reg = "if data_path config = [] then [?common] else [?data, ?common]"
    have "InitInner config async [] = Inr ?reg"
      using level by (simp add: InitInner_def level_sinks_eq register_logger_def)
    moreover have "log_call sink_log l ?reg = Inr (map (level_file config) [lc_level config..min l err])"
      by (simp add: log_call_def f m filter_upto)
    moreover have "data_path config \<noteq> [] \<longrightarrow> GLOG ?reg = Inr (map (level_file config) [lc_level config..info] @ [sink_file (data_sink config)])"
      by (simp add: GLOG_def log_call_def f m filter_upto data_sink_def) (simp add: level_defs)
    moreover have "\<exists>e. InitInner config' async' ?reg = Inl (Throw e)" by (rule InitInner_again) simp
    ultimately show ?thesis by blast
  qed
  then show ?thesis
    by (simp add: InitInner_def level_sinks_negative log_call_def GLOG_def)
qed

lemma log_files_witness:
  "\<exists>reg. InitAsync (default_config\<lparr>log_path := ''log'', data_path := ''log'', lc_level := 2\<rparr>) [] = Inr reg \<and>
     log_call sink_log warn reg = Inr [''log/unknown.info'', ''log/unknown.warn'']"
proof -
  let ?config = "default_config\<lparr>log_path := ''log'', data_path := ''log'', lc_level := 2\<rparr>"
  have "[2..min warn err] = [2, 3]" by (simp add: level_defs upto.simps)
  with log_files [of ?config True warn] show ?thesis
    by (auto simp: InitAsync_def default_config_def level_file_def)
qed

end
