(* ===== verification/Event_Loop.thy ===== *)
theory Event_Loop
  imports Errors C_Heap
begin

text \<open>
  The timers of the event loop, \<open>src/app/common/event_help.h\<close>, and the idle counter of \<open>src/commlib/app.h\<close>.

  An \<open>EventInfo\<close> is a block of the heap; libevent keeps the pending events, each with the time in
  microseconds at which it is due, takes an event out before it calls \<open>CB\<close>, and delivers it when its
  time has come.  What a callback does is an argument: it changes the world and may add timers
  (as \<open>server_b.cpp\<close> does).
\<close>

record 'c ev_info =
  tv_sec :: u32
  tv_usec :: u32
  ev_cb :: 'c
  ev_repeat :: bool

record 'c ev_base =
  ev_heap :: heap
  infos :: "nat \<Rightarrow> 'c ev_info option"
  pending :: "(nat \<times> nat) list"

type_synonym 'c new_timer = "u32 \<times> 'c \<times> bool"

definition ev_base_new :: "heap \<Rightarrow> 'c ev_base" where
  "ev_base_new h = \<lparr>ev_heap = h, infos = (\<lambda>_. None), pending = []\<rparr>"

definition ev_timeout :: "'c ev_info \<Rightarrow> nat" where
  "ev_timeout i = unat (tv_sec i) * 1000000 + unat (tv_usec i)"

definition new_info :: "u32 \<Rightarrow> 'c \<Rightarrow> bool \<Rightarrow> 'c ev_info" where
  "new_info ms cb rep = \<lparr>tv_sec = ms div 1000, tv_usec = (ms mod 1000) * 1000, ev_cb = cb, ev_repeat = rep\<rparr>"

text \<open>\<open>event_add\<close> reads the \<open>EventInfo\<close>: one that was deleted is undefined behaviour.\<close>

definition event_add :: "nat \<Rightarrow> nat \<Rightarrow> 'c ev_base \<Rightarrow> fault + 'c ev_base" where
  "event_add now b base = (case infos base b of None \<Rightarrow> Inl Undef
     | Some i \<Rightarrow> Inr (base\<lparr>pending := pending base @ [(now + ev_timeout i, b)]\<rparr>))"

definition EvAddTimer :: "nat \<Rightarrow> 'c new_timer \<Rightarrow> 'c ev_base \<Rightarrow> fault + 'c ev_base" where
  "EvAddTimer now tm base =
    (case tm of (ms, cb, rep) \<Rightarrow> case heap_alloc (\<lambda>_. True) (ev_heap base) of
       (None, h) \<Rightarrow> Inl (Throw (StdException ''bad_alloc''))
     | (Some b, h) \<Rightarrow> event_add now b (base\<lparr>ev_heap := h, infos := (infos base)(b \<mapsto> new_info ms cb rep)\<rparr>))"

primrec EvAddTimers :: "nat \<Rightarrow> 'c new_timer list \<Rightarrow> 'c ev_base \<Rightarrow> fault + 'c ev_base" where
  "EvAddTimers now [] base = Inr base"
| "EvAddTimers now (tm # tms) base = rbind (EvAddTimer now tm base) (EvAddTimers now tms)"

definition EventInfo_CB :: "('c \<Rightarrow> 'w \<Rightarrow> 'c new_timer list \<times> 'w) \<Rightarrow> nat \<Rightarrow> nat \<Rightarrow> 'c ev_base \<Rightarrow> 'w \<Rightarrow> fault + 'c ev_base \<times> 'w" where
  "EventInfo_CB run now b base w =
    (case infos base b of None \<Rightarrow> Inl Undef
     | Some i \<Rightarrow> (case run (ev_cb i) w of (tms, w1) \<Rightarrow>
         rbind (EvAddTimers now tms base) (\<lambda>base1.
           if ev_repeat i then rbind (event_add now b base1) (\<lambda>base2. Inr (base2, w1))
           else Inr (base1\<lparr>ev_heap := free_block b (ev_heap base1), infos := (infos base1)(b := None)\<rparr>, w1))))"

definition take_event :: "nat \<times> nat \<Rightarrow> 'c ev_base \<Rightarrow> 'c ev_base" where
  "take_event e base = base\<lparr>pending := remove1 e (pending base)\<rparr>"

inductive ev_step :: "('c \<Rightarrow> 'w \<Rightarrow> 'c new_timer list \<times> 'w) \<Rightarrow> 'c ev_base \<times> 'w \<Rightarrow> 'c ev_base \<times> 'w \<Rightarrow> bool" for run where
  fire: "(d, b) \<in> set (pending base) \<Longrightarrow> d \<le> now \<Longrightarrow> EventInfo_CB run now b (take_event (d, b) base) w = Inr (base', w') \<Longrightarrow>
    ev_step run (base, w) (base', w')"
| add_timer: "EvAddTimer now tm base = Inr base' \<Longrightarrow> ev_step run (base, w) (base', w)"

subsection \<open>The invariant\<close>

definition ev_ok :: "heap \<Rightarrow> 'c ev_base \<Rightarrow> nat list \<Rightarrow> bool" where
  "ev_ok h0 base extra \<longleftrightarrow> (let bs = map snd (pending base) @ extra in
     distinct bs \<and> (\<forall>b. infos base b \<noteq> None \<longleftrightarrow> b \<in> set bs) \<and> (\<forall>b \<in> set bs. b < next_block (ev_heap base)) \<and>
     balanced (\<lambda>_. True) h0 (ev_heap base) (mset bs))"

lemma ev_ok_new: "ev_ok h (ev_base_new h) []"
  by (simp add: ev_ok_def ev_base_new_def balanced_refl)

lemma alloc_all: "heap_alloc (\<lambda>_. True) h = (Some (next_block h), h\<lparr>next_block := Suc (next_block h)\<rparr>)"
  by (simp add: heap_alloc_def)

lemma ev_ok_add:
  assumes "ev_ok h0 base extra"
  shows "\<exists>base'. EvAddTimer now tm base = Inr base' \<and> ev_ok h0 base' extra \<and>
    (\<forall>b \<in> set extra. infos base' b = infos base b) \<and> set (pending base) \<subseteq> set (pending base')"
proof -
  obtain ms cb rep where tm: "tm = (ms, cb, rep)" by (cases tm)
  let ?b = "next_block (ev_heap base)"
  from assms have fresh: "?b \<notin> set (map snd (pending base) @ extra)" by (force simp: ev_ok_def Let_def)
  have "balanced (\<lambda>_. True) h0 ((ev_heap base)\<lparr>next_block := Suc ?b\<rparr>) (add_mset ?b (mset (map snd (pending base) @ extra)))"
    using balanced_alloc_more [of "\<lambda>_. True" h0 "ev_heap base" _ "Some ?b"] assms alloc_all
    by (fastforce simp: ev_ok_def Let_def)
  with assms fresh tm show ?thesis
    by (auto simp: EvAddTimer_def alloc_all event_add_def ev_ok_def Let_def less_Suc_eq split: if_splits)
qed

lemma ev_ok_adds:
  "ev_ok h0 base extra \<Longrightarrow> \<exists>base'. EvAddTimers now tms base = Inr base' \<and> ev_ok h0 base' extra \<and>
    (\<forall>b \<in> set extra. infos base' b = infos base b) \<and> set (pending base) \<subseteq> set (pending base')"
proof (induction tms arbitrary: base)
  case (Cons tm tms)
  from ev_ok_add [OF Cons.prems, of now tm] obtain base1 where b1: "EvAddTimer now tm base = Inr base1" "ev_ok h0 base1 extra"
    "\<forall>b \<in> set extra. infos base1 b = infos base b" "set (pending base) \<subseteq> set (pending base1)" by blast
  from Cons.IH [OF b1(2)] b1 show ?case by fastforce
qed simp

text \<open>An event that is being delivered is no longer pending, but its block is still there.\<close>

lemma ev_ok_take:
  assumes "ev_ok h0 base []" "(d, b) \<in> set (pending base)"
  shows "ev_ok h0 (take_event (d, b) base) [b]"
proof -
  have p: "mset (pending base) = add_mset (d, b) (mset (remove1 (d, b) (pending base)))" using assms(2) by simp
  then have m: "mset (map snd (pending base)) = mset (map snd (remove1 (d, b) (pending base)) @ [b])"
    by (metis image_mset_add_mset mset_append mset_map mset_single_iff mset.simps(2) snd_conv add_mset_add_single mset.simps(1))
  then have "set (map snd (pending base)) = set (map snd (remove1 (d, b) (pending base)) @ [b])"
    "distinct (map snd (pending base)) \<longleftrightarrow> distinct (map snd (remove1 (d, b) (pending base)) @ [b])"
    by (metis mset_eq_setD, metis mset_eq_imp_distinct_iff)
  moreover have "e \<in> set (remove1 (d, b) (pending base)) \<Longrightarrow> e \<in> set (pending base)" for e
    using set_remove1_subset [of "(d, b)" "pending base"] by blast
  ultimately show ?thesis using assms m by (auto simp: ev_ok_def take_event_def Let_def)
qed

lemma ev_ok_CB:
  assumes ok: "ev_ok h0 base []" and e: "(d, b) \<in> set (pending base)"
  obtains i base' w' where "infos base b = Some i" "EventInfo_CB run now b (take_event (d, b) base) w = Inr (base', w')"
    "ev_ok h0 base' []" "set (remove1 (d, b) (pending base)) \<subseteq> set (pending base')"
    "if ev_repeat i then (now + ev_timeout i, b) \<in> set (pending base') else infos base' b = None"
proof -
  let ?base = "take_event (d, b) base"
  from ok e have "infos base b \<noteq> None" by (force simp: ev_ok_def Let_def)
  then obtain i where i: "infos base b = Some i" by blast
  then have i': "infos ?base b = Some i" by (simp add: take_event_def)
  obtain tms w1 where r: "run (ev_cb i) w = (tms, w1)" by (cases "run (ev_cb i) w")
  from ev_ok_adds [OF ev_ok_take [OF ok e], of now tms] obtain base1 where b1: "EvAddTimers now tms ?base = Inr base1"
    "ev_ok h0 base1 [b]" "infos base1 b = Some i" "set (pending ?base) \<subseteq> set (pending base1)" using i' by auto
  show ?thesis
  proof (cases "ev_repeat i")
    case True
    have "ev_ok h0 (base1\<lparr>pending := pending base1 @ [(now + ev_timeout i, b)]\<rparr>) []"
      using b1(2) by (simp add: ev_ok_def Let_def)
    with True i i' r b1 show ?thesis
      by (intro that [of i "base1\<lparr>pending := pending base1 @ [(now + ev_timeout i, b)]\<rparr>" w1])
        (auto simp: EventInfo_CB_def event_add_def take_event_def)
  next
    case False
    let ?base2 = "base1\<lparr>ev_heap := free_block b (ev_heap base1), infos := (infos base1)(b := None)\<rparr>"
    have "balanced (\<lambda>_. True) h0 (free_block b (ev_heap base1)) (mset (map snd (pending base1)))"
      by (rule balanced_free_block) (use b1(2) in \<open>simp add: ev_ok_def Let_def\<close>)
    with b1(2) have "ev_ok h0 ?base2 []" by (auto simp: ev_ok_def Let_def free_block_def)
    with False i i' r b1 show ?thesis
      by (intro that [of i ?base2 w1]) (auto simp: EventInfo_CB_def take_event_def)
  qed
qed

lemma ev_ok_steps: "(ev_step run)\<^sup>*\<^sup>* (base, w) (base', w') \<Longrightarrow> ev_ok h0 base [] \<Longrightarrow> ev_ok h0 base' []"
proof (induction rule: rtranclp_induct2)
  case (step base1 w1 base2 w2)
  from step.hyps(2) show ?case
  proof cases
    case (fire d b now)
    obtain i b' w'' where "EventInfo_CB run now b (take_event (d, b) base1) w1 = Inr (b', w'')" "ev_ok h0 b' []"
      by (rule ev_ok_CB [OF step.IH [OF step.prems] fire(1), of run now w1])
    with fire(3) show ?thesis by simp
  next
    case (add_timer now tm)
    from ev_ok_add [OF step.IH [OF step.prems], of now tm] add_timer show ?thesis by auto
  qed
qed simp

text \<open>What the pending events are: delivering one takes its \<open>EventInfo\<close> away unless it repeats, and adds those of the new timers.\<close>

definition pend_infos :: "'c ev_base \<Rightarrow> 'c ev_info option multiset" where
  "pend_infos base = image_mset (\<lambda>e. infos base (snd e)) (mset (pending base))"

definition timer_info :: "'c new_timer \<Rightarrow> 'c ev_info" where
  "timer_info tm = (case tm of (ms, cb, rep) \<Rightarrow> new_info ms cb rep)"

lemma pend_infos_other:
  "\<forall>e \<in> set (pending base). snd e \<noteq> b \<Longrightarrow>
   image_mset (\<lambda>e. ((infos base)(b := x)) (snd e)) (mset (pending base)) = pend_infos base"
  unfolding pend_infos_def by (intro image_mset_cong) (simp del: split_paired_All)

lemma pend_infos_add:
  assumes "ev_ok h0 base extra" "EvAddTimer now tm base = Inr base'"
  shows "pend_infos base' = add_mset (Some (timer_info tm)) (pend_infos base)"
proof -
  obtain ms cb rep where tm: "tm = (ms, cb, rep)" by (cases tm)
  let ?b = "next_block (ev_heap base)"
  have lt: "\<forall>b \<in> set (map snd (pending base) @ extra). b < ?b" using assms(1) by (simp add: ev_ok_def Let_def del: split_paired_All)
  have "snd e \<noteq> ?b" if "e \<in> set (pending base)" for e using bspec [OF lt, of "snd e"] that by auto
  then have "\<forall>e \<in> set (pending base). snd e \<noteq> ?b" by blast
  note same = pend_infos_other [OF this, of "Some (timer_info tm)"]
  have "base' = base\<lparr>ev_heap := (ev_heap base)\<lparr>next_block := Suc ?b\<rparr>, infos := (infos base)(?b \<mapsto> timer_info tm),
      pending := pending base @ [(now + ev_timeout (timer_info tm), ?b)]\<rparr>"
    using assms(2) [unfolded EvAddTimer_def alloc_all event_add_def tm] by (simp add: timer_info_def tm)
  with same show ?thesis by (simp add: pend_infos_def)
qed

lemma pend_infos_adds:
  "ev_ok h0 base extra \<Longrightarrow> EvAddTimers now tms base = Inr base' \<Longrightarrow>
   pend_infos base' = mset (map (\<lambda>tm. Some (timer_info tm)) tms) + pend_infos base"
proof (induction tms arbitrary: base)
  case (Cons tm tms)
  from Cons.prems(2) obtain base1 where b: "EvAddTimer now tm base = Inr base1" "EvAddTimers now tms base1 = Inr base'"
    by (auto simp: rbind_Inr_iff)
  from ev_ok_add [OF Cons.prems(1), of now tm] b(1) have "ev_ok h0 base1 extra" by auto
  from Cons.IH [OF this b(2)] pend_infos_add [OF Cons.prems(1) b(1)] show ?case by simp
qed simp

lemma pend_infos_CB:
  assumes ok: "ev_ok h0 base []" and e: "(d, b) \<in> set (pending base)" and i: "infos base b = Some i"
    and run: "run (ev_cb i) w = (tms, w1)" and cb: "EventInfo_CB run now b (take_event (d, b) base) w = Inr (base', w')"
  shows "w' = w1 \<and> pend_infos base' + (if ev_repeat i then {#} else {#Some i#}) =
    mset (map (\<lambda>tm. Some (timer_info tm)) tms) + pend_infos base"
proof -
  let ?base = "take_event (d, b) base"
  have "mset (pending base) = add_mset (d, b) (mset (pending ?base))" using e by (simp add: take_event_def)
  then have "pend_infos base = image_mset (\<lambda>e. infos base (snd e)) (add_mset (d, b) (mset (pending ?base)))"
    unfolding pend_infos_def by (rule arg_cong)
  also have "\<dots> = add_mset (Some i) (pend_infos ?base)" using i by (simp add: pend_infos_def take_event_def)
  finally have p: "pend_infos base = add_mset (Some i) (pend_infos ?base)" .
  from ev_ok_adds [OF ev_ok_take [OF ok e], of now tms] obtain base1 where
    b1: "EvAddTimers now tms ?base = Inr base1" "ev_ok h0 base1 [b]" "infos base1 b = Some i"
    using i by (auto simp: take_event_def)
  from pend_infos_adds [OF ev_ok_take [OF ok e] b1(1)] have
    q: "pend_infos base1 = mset (map (\<lambda>tm. Some (timer_info tm)) tms) + pend_infos ?base" .
  have "\<forall>e \<in> set (pending base1). snd e \<noteq> b" using b1(2) by (force simp: ev_ok_def Let_def)
  note same = pend_infos_other [OF this, of None]
  have i': "infos ?base b = Some i" using i by (simp add: take_event_def)
  show ?thesis
  proof (cases "ev_repeat i")
    case True
    with cb run b1 i' have "w' = w1" "pending base' = pending base1 @ [(now + ev_timeout i, b)]" "infos base' = infos base1"
      by (auto simp: EventInfo_CB_def event_add_def)
    then have "w' = w1 \<and> pend_infos base' = add_mset (Some i) (pend_infos base1)" using b1(3) by (simp add: pend_infos_def)
    with True p q show ?thesis by simp
  next
    case False
    with cb run b1 i' have "w' = w1" "pending base' = pending base1" "infos base' = (infos base1)(b := None)"
      by (auto simp: EventInfo_CB_def)
    then have "w' = w1 \<and> pend_infos base' = pend_infos base1" using same by (simp add: pend_infos_def)
    with False p q show ?thesis by simp
  qed
qed

text \<open>A number of milliseconds as a \<open>timeval\<close>.\<close>

lemma new_info_timeout: "tv_usec (new_info ms cb rep) < 1000000 \<and> ev_timeout (new_info ms cb rep) = unat ms * 1000"
proof -
  have m: "unat (ms mod 1000) = unat ms mod 1000" "unat (ms div 1000) = unat ms div 1000"
    by (simp_all add: unat_mod unat_div)
  then have "unat ((ms mod 1000) * 1000) = (unat ms mod 1000) * 1000" by (simp add: unat_word_ariths)
  moreover have "(unat ms mod 1000) * 1000 < 1000000" by simp
  moreover have "unat ms div 1000 * 1000000 + (unat ms mod 1000) * 1000 = unat ms * 1000"
    using div_mult_mod_eq [of "unat ms" 1000] by linarith
  ultimately show ?thesis
    using m by (simp add: new_info_def ev_timeout_def word_less_nat_alt)
qed

subsection \<open>The idle loop\<close>

text \<open>\<open>App::Run\<close>: the counter and whether the round sleeps; \<open>App::Init\<close> ends without its \<open>return\<close>.\<close>

definition App_Run :: "bool \<Rightarrow> int \<Rightarrow> int \<times> bool" where
  "App_Run worked idle =
    (let idle1 = (if \<not> worked then idle + 1 else 0) in if 100 < idle1 then (0, True) else (idle1, False))"

datatype init_end = Exits int | Falls_off

definition App_Init :: "int \<Rightarrow> init_end" where
  "App_Init on_init = (if on_init \<noteq> 0 then Exits on_init else Falls_off)"

lemma app_idle_rounds:
  "fold (\<lambda>_ (i, k). case App_Run False i of (i', b) \<Rightarrow> (i', if b then Suc k else k)) [0..<n] (0, 0) = (int (n mod 101), n div 101)"
  by (induction n) (auto simp: App_Run_def mod_Suc div_Suc)

text \<open>
  C17: timers are neither lost nor used after they are gone.  Whatever timers are added, by the program or by
  callbacks, and in whatever order due events are delivered: the \<open>EventInfo\<close> blocks that are
  not freed are exactly those of the pending events, each pending once; delivering one never
  touches a block that is gone; a repeating timer is pending again one period after its
  delivery, another one has its block freed.  A period of \<open>ms\<close> milliseconds is a well-formed \<open>timeval\<close> of
  this length.
\<close>

theorem timers_safe:
  assumes "(ev_step run)\<^sup>*\<^sup>* (ev_base_new h0, w0) (base, w)" "(d, b) \<in> set (pending base)"
  shows "balanced (\<lambda>_. True) h0 (ev_heap base) (mset (map snd (pending base))) \<and>
    (\<exists>i base' w'. infos base b = Some i \<and> EventInfo_CB run now b (take_event (d, b) base) w = Inr (base', w') \<and>
      balanced (\<lambda>_. True) h0 (ev_heap base') (mset (map snd (pending base'))) \<and>
      (if ev_repeat i then (now + ev_timeout i, b) \<in> set (pending base') else infos base' b = None \<and> b \<notin> snd ` set (pending base'))) \<and>
    tv_usec (new_info ms cb rep) < 1000000 \<and> ev_timeout (new_info ms cb rep) = unat ms * 1000"
proof -
  have ok: "ev_ok h0 base []" by (rule ev_ok_steps [OF assms(1) ev_ok_new])
  obtain i base' w' where r: "infos base b = Some i" "EventInfo_CB run now b (take_event (d, b) base) w = Inr (base', w')"
    "ev_ok h0 base' []" "if ev_repeat i then (now + ev_timeout i, b) \<in> set (pending base') else infos base' b = None"
    by (rule ev_ok_CB [OF ok assms(2)])
  have "infos base' b \<noteq> None \<longleftrightarrow> b \<in> snd ` set (pending base')" using r(3) by (simp add: ev_ok_def Let_def)
  with r have "if ev_repeat i then (now + ev_timeout i, b) \<in> set (pending base') else infos base' b = None \<and> b \<notin> snd ` set (pending base')"
    by (simp split: if_splits)
  moreover have "balanced (\<lambda>_. True) h0 (ev_heap base) (mset (map snd (pending base)))"
    "balanced (\<lambda>_. True) h0 (ev_heap base') (mset (map snd (pending base')))"
    using ok r(3) by (simp_all add: ev_ok_def Let_def)
  ultimately show ?thesis using r(1,2) new_info_timeout [of ms cb rep] by blast
qed

lemma timers_safe_witness:
  "\<exists>base :: string ev_base. pending base = [(2000000, 0)] \<and>
     (\<exists>base'. EventInfo_CB (\<lambda>c w. ([], Suc w)) 2000005 0 (take_event (2000000, 0) base) 0 = Inr (base', 1) \<and>
       (4000005, 0) \<in> set (pending base'))"
proof -
  let ?h = "\<lparr>next_block = 0, freed = []\<rparr>" and ?run = "\<lambda>(c :: string) w. ([], Suc w)"
  obtain base where add: "EvAddTimer 0 (2000, ''reconnect'', True) (ev_base_new ?h) = Inr base"
    and base: "pending base = [(2000000, 0)]" "infos base 0 = Some (new_info 2000 ''reconnect'' True)"
    by (simp add: EvAddTimer_def event_add_def ev_base_new_def alloc_all new_info_timeout)
  have run: "(ev_step ?run)\<^sup>*\<^sup>* (ev_base_new ?h, 0) (base, 0)" by (rule r_into_rtranclp, rule ev_step.add_timer, rule add)
  have t: "ev_timeout (new_info 2000 ''reconnect'' True) = 2000000" by (simp add: new_info_timeout)
  have "ev_repeat (new_info 2000 ''reconnect'' True)" by (simp add: new_info_def)
  with timers_safe [OF run, of 2000000 0 2000005 2000 "''reconnect''" True] base t obtain base' w' where
    "EventInfo_CB ?run 2000005 0 (take_event (2000000, 0) base) 0 = Inr (base', w')" "(4000005, 0) \<in> set (pending base')" by auto
  moreover from this(1) have "w' = 1" using base(2)
    by (simp add: EventInfo_CB_def take_event_def event_add_def split: if_splits)
  ultimately show ?thesis using base(1) by blast
qed

end
