(* ===== verification/App_Base.thy ===== *)
theory App_Base
  imports Discovery Mq_Net Config Logging Event_Loop
begin

text \<open>
  The start of a server, \<open>AppBase::Init\<close> of \<open>src/app/common/app_base.h\<close>, and the event loop that \<open>Run\<close>
  enters, over the configuration, the loggers, the timers, the message queue and the
  ZooKeeper session.

  The configuration file as parsed, the host, the ZooKeeper library and what the uninitialised
  states of the two clients hold are arguments.  \<open>CbUser\<close> is a callback the main function of a server
  adds; the coroutines that timers run are the rest \<open>'r\<close> of the program.
\<close>

datatype 'u app_cb = CbReconnect | CbHeartbeat | CbTickTimeOutCo | CbZkTasks | CbZkCheck | CbUser 'u

definition first_timers :: "'u app_cb new_timer list" where
  "first_timers = [(2 * 1000, CbReconnect, True), (30 * 1000, CbHeartbeat, True), (1, CbTickTimeOutCo, True)]"

definition zk_timers :: "'u app_cb new_timer list" where
  "zk_timers = [(100, CbZkTasks, True), (100, CbZkCheck, True)]"

record ('c, 'u) app_base =
  conf_of :: 'c
  loggers :: log_registry
  app_id :: bytes
  evbase :: "'u app_cb ev_base"
  mq_net :: mq_world
  app_zk :: zk_client
  reports :: bool

subsection \<open>Init\<close>

definition InitLog :: "'z server_conf_scheme \<Rightarrow> log_registry \<Rightarrow> fault + log_registry" where
  "InitLog config =
    InitAsync (default_config\<lparr>log_path := ''log'', data_path := ''log'',
      lc_level := int32 (sint (log_level (log config))), max_files := unat (log_remain_size (log config)) mod 2 ^ 32\<rparr>)"

text \<open>The part of \<open>Init\<close> that opens the session, at the time \<open>later\<close> once it has waited for it.\<close>

definition init_zk ::
  "zk_lib \<Rightarrow> nat \<Rightarrow> bytes \<Rightarrow> ('c, 'u) app_base \<Rightarrow> fault + int \<times> ('c, 'u) app_base" where
  "init_zk lib later svr_type app =
    rbind (zk_Init lib (app_zk app)) (\<lambda>(zk_init, zk).
      if \<not> zk_init then Inr (-1, app\<lparr>app_zk := zk\<rparr>)
      else rbind (EvAddTimers later zk_timers (evbase app)) (\<lambda>base.
        Inr (0, app\<lparr>app_zk := SetWatcherHandler zk, evbase := base, reports := (svr_type \<noteq> kDiscoverySvr)\<rparr>)))"

text \<open>
  None: the host has no address and the program exits.  Otherwise what \<open>Init\<close> returns and the server.
  \<open>clk\<close> holds the times before and after \<open>ZooKeeperClient::Init\<close>, which waits.
\<close>

definition AppBase_Init ::
  "(toml \<Rightarrow> fault + 'z server_conf_scheme) \<Rightarrow> zk_lib \<Rightarrow> int \<times> int \<Rightarrow> heap \<Rightarrow> nat \<times> nat \<Rightarrow> fault + toml \<Rightarrow>
   bytes \<Rightarrow> bytes list option \<Rightarrow> bytes \<Rightarrow> fault + (int \<times> ('z server_conf_scheme, 'u) app_base) option" where
  "AppBase_Init FromToml lib junk h clk parsed svr_type ifs cwd =
    rbind parsed (\<lambda>root. rbind (FromToml root) (\<lambda>conf. rbind (InitLog conf []) (\<lambda>logs.
      case self_id svr_type (GetLocalIP ifs) cwd of None \<Rightarrow> Inr None
      | Some sid \<Rightarrow>
          rbind (EvAddTimers (fst clk) first_timers (ev_base_new h)) (\<lambda>base.
          rbind (init_zk lib (snd clk) svr_type
            \<lparr>conf_of = conf, loggers = logs, app_id = sid, evbase = base, mq_net = mq_tick (mq_world_new (fst junk)),
             app_zk = zk_new (snd junk), reports = False\<rparr>) (\<lambda>ret. Inr (Some ret))))))"

subsection \<open>Run\<close>

record 'r app_world =
  aw_mq :: mq_world
  aw_zk :: zk_client
  aw_fault :: "fault option"
  aw_rest :: 'r

definition app_world_of :: "('c, 'u) app_base \<Rightarrow> 'r \<Rightarrow> 'r app_world" where
  "app_world_of app r = \<lparr>aw_mq = mq_net app, aw_zk = app_zk app, aw_fault = None, aw_rest = r\<rparr>"

text \<open>\<open>AppBase::SendMsg\<close>, a message from the main function: what is published.\<close>

definition AppBase_SendMsg :: "bool \<Rightarrow> ('c, 'u) app_base \<Rightarrow> 'r app_world \<Rightarrow> bytes \<Rightarrow> u32 \<Rightarrow> bytes \<Rightarrow> msg_head option" where
  "AppBase_SendMsg usable app w svr_id cmd msg = mq_SendMsg usable (app_id app) (aw_mq w) (send_msg svr_id cmd msg 0)"

text \<open>
  The callbacks.  \<open>rest\<close> gives what a callback does to the rest of the program and, for a callback of the
  main function, the timers it adds.
\<close>

definition user_timers :: "(u32 \<times> 'u \<times> bool) list \<Rightarrow> 'u app_cb new_timer list" where
  "user_timers us = map (\<lambda>(ms, u, rep). (ms, CbUser u, rep)) us"

definition app_run ::
  "zk_lib \<Rightarrow> ('u app_cb \<Rightarrow> 'r \<Rightarrow> (u32 \<times> 'u \<times> bool) list \<times> 'r) \<Rightarrow> 'u app_cb \<Rightarrow> 'r app_world \<Rightarrow> 'u app_cb new_timer list \<times> 'r app_world" where
  "app_run lib rest cb w =
    (case cb of
       CbReconnect \<Rightarrow> ([], w\<lparr>aw_mq := mq_tick (aw_mq w)\<rparr>)
     | CbHeartbeat \<Rightarrow> ([], w)
     | CbZkCheck \<Rightarrow> ([], case Check lib (aw_zk w) of Inl f \<Rightarrow> w\<lparr>aw_fault := Some f\<rparr> | Inr zk \<Rightarrow> w\<lparr>aw_zk := zk\<rparr>)
     | CbUser u \<Rightarrow> (case rest cb (aw_rest w) of (us, r) \<Rightarrow> (user_timers us, w\<lparr>aw_rest := r\<rparr>))
     | _ \<Rightarrow> ([], w\<lparr>aw_rest := snd (rest cb (aw_rest w))\<rparr>))"

inductive app_step ::
  "zk_lib \<Rightarrow> ('u app_cb \<Rightarrow> 'r \<Rightarrow> (u32 \<times> 'u \<times> bool) list \<times> 'r) \<Rightarrow> 'u app_cb ev_base \<times> 'r app_world \<Rightarrow>
   'u app_cb ev_base \<times> 'r app_world \<Rightarrow> bool" for lib rest where
  fires: "(d, b) \<in> set (pending base) \<Longrightarrow> d \<le> now \<Longrightarrow>
    EventInfo_CB (app_run lib rest) now b (take_event (d, b) base) w = Inr (base', w') \<Longrightarrow> app_step lib rest (base, w) (base', w')"
| adds: "EvAddTimer now (ms, CbUser u, rep) base = Inr base' \<Longrightarrow> app_step lib rest (base, w) (base', w)"
| reports: "mq_step (aw_mq w) m \<Longrightarrow> app_step lib rest (base, w) (base, w\<lparr>aw_mq := m\<rparr>)"

subsection \<open>The timers of the program and the timers of its main function\<close>

text \<open>An \<open>EventInfo\<close> of \<open>Init\<close>, not of the main function.\<close>

fun own_cb :: "'u app_cb \<Rightarrow> bool" where
  "own_cb (CbUser u) \<longleftrightarrow> False"
| "own_cb _ \<longleftrightarrow> True"

definition own :: "'u app_cb ev_info option \<Rightarrow> bool" where
  "own x = (case x of None \<Rightarrow> True | Some i \<Rightarrow> own_cb (ev_cb i))"

definition own_timers :: "'u app_cb ev_base \<Rightarrow> 'u app_cb ev_info option multiset" where
  "own_timers base = filter_mset own (pend_infos base)"

definition timers_of :: "'c new_timer list \<Rightarrow> 'c ev_info option multiset" where
  "timers_of tms = mset (map (\<lambda>tm. Some (timer_info tm)) tms)"

lemma new_info_fields [simp]: "ev_cb (new_info ms cb rep) = cb" "ev_repeat (new_info ms cb rep) = rep"
  by (simp_all add: new_info_def)

lemma user_timers_not_own: "filter_mset own (mset (map (\<lambda>tm. Some (timer_info tm)) (user_timers us))) = {#}"
  by (induction us) (auto simp: user_timers_def own_def timer_info_def)

lemma app_run_timers: "\<exists>us. fst (app_run lib rest cb w) = user_timers us"
  by (cases cb) (auto simp: app_run_def user_timers_def split: prod.split intro: exI [of _ "[]"])

definition loop_ok :: "heap \<Rightarrow> 'u app_cb new_timer list \<Rightarrow> 'u app_cb ev_base \<Rightarrow> bool" where
  "loop_ok h tms base \<longleftrightarrow> ev_ok h base [] \<and> own_timers base = timers_of tms"

text \<open>Delivering an event: the timers of \<open>Init\<close> repeat, so they are pending again.\<close>

lemma loop_ok_fire:
  assumes ok: "loop_ok h tms base" and rep: "\<forall>(ms, cb, r) \<in> set tms. r" and e: "(d, b) \<in> set (pending base)"
    and cb: "EventInfo_CB (app_run lib rest) now b (take_event (d, b) base) w = Inr (base', w')"
  obtains i where "infos base b = Some i" "w' = snd (app_run lib rest (ev_cb i) w)" "loop_ok h tms base'"
    "own_cb (ev_cb i) \<Longrightarrow> ev_cb i \<in> (\<lambda>(ms, cb, r). cb) ` set tms"
proof -
  have eok: "ev_ok h base []" using ok by (simp add: loop_ok_def)
  obtain i b1 w1 where i: "infos base b = Some i" "EventInfo_CB (app_run lib rest) now b (take_event (d, b) base) w = Inr (b1, w1)"
    "ev_ok h b1 []" by (rule ev_ok_CB [OF eok e, of "app_run lib rest" now w])
  obtain ts w2 where r: "app_run lib rest (ev_cb i) w = (ts, w2)" by (cases "app_run lib rest (ev_cb i) w")
  from app_run_timers [of lib rest "ev_cb i" w] r obtain us where us: "ts = user_timers us" by auto
  from pend_infos_CB [OF eok e i(1) r cb] have
    p: "w' = w2" "pend_infos base' + (if ev_repeat i then {#} else {#Some i#}) = mset (map (\<lambda>tm. Some (timer_info tm)) ts) + pend_infos base"
    by simp_all
  have mem: "Some i \<in># pend_infos base" using e i(1) by (force simp: pend_infos_def)
  have reg: "Some i \<in># timers_of tms" if "own_cb (ev_cb i)"
  proof -
    have "Some i \<in># own_timers base" using mem that by (simp add: own_timers_def own_def)
    then show ?thesis using ok by (simp add: loop_ok_def)
  qed
  have "own_timers base' = own_timers base"
  proof (cases "own_cb (ev_cb i)")
    case True
    from reg [OF True] rep have "ev_repeat i" by (auto simp: timers_of_def timer_info_def)
    with p(2) show ?thesis by (simp add: own_timers_def us user_timers_not_own del: mset_map)
  next
    case False
    have "filter_mset own (pend_infos base' + (if ev_repeat i then {#} else {#Some i#})) = own_timers base"
      unfolding p(2) us by (simp add: own_timers_def user_timers_not_own del: mset_map)
    moreover have "\<not> own (Some i)" using False by (simp add: own_def)
    ultimately show ?thesis by (simp add: own_timers_def split: if_splits)
  qed
  with ok i cb have "loop_ok h tms base'" by (simp add: loop_ok_def)
  moreover have "ev_cb i \<in> (\<lambda>(ms, cb, r). cb) ` set tms" if "own_cb (ev_cb i)"
    using reg [OF that] by (force simp: timers_of_def timer_info_def)
  ultimately show thesis using that i(1) p(1) r by simp
qed

lemma loop_ok_user:
  assumes "loop_ok h tms base" "EvAddTimer now (ms, CbUser u, rep) base = Inr base'"
  shows "loop_ok h tms base'"
proof -
  have ok: "ev_ok h base []" using assms(1) by (simp add: loop_ok_def)
  from ev_ok_add [OF ok, of now "(ms, CbUser u, rep)"] assms(2) have "ev_ok h base' []" by auto
  moreover from pend_infos_add [OF ok assms(2)] have "own_timers base' = own_timers base"
    by (simp add: own_timers_def own_def timer_info_def)
  ultimately show ?thesis using assms(1) by (simp add: loop_ok_def)
qed

subsection \<open>A server that runs\<close>

definition app_inv :: "heap \<Rightarrow> 'u app_cb new_timer list \<Rightarrow> zk_client \<Rightarrow> mq_world \<Rightarrow> 'u app_cb ev_base \<Rightarrow> 'r app_world \<Rightarrow> bool" where
  "app_inv h tms zk0 mq0 base w \<longleftrightarrow> loop_ok h tms base \<and> aw_fault w = None \<and> mq_step\<^sup>*\<^sup>* mq0 (aw_mq w) \<and>
     (if CbZkCheck \<in> (\<lambda>(ms, cb, r). cb) ` set tms then zk_watcher (aw_zk w) else aw_zk w = zk0)"

lemma app_inv_run:
  assumes "app_inv h tms zk0 mq0 base w" "own_cb cb \<Longrightarrow> cb \<in> (\<lambda>(ms, cb, r). cb) ` set tms" "loop_ok h tms base'"
  shows "app_inv h tms zk0 mq0 base' (snd (app_run lib rest cb w))"
proof (cases cb)
  case CbReconnect
  with assms show ?thesis by (auto simp: app_inv_def app_run_def intro: rtranclp.rtrancl_into_rtrancl mq_step.tick)
next
  case CbZkCheck
  with assms have "zk_watcher (aw_zk w)" by (simp add: app_inv_def split: if_splits)
  from Check_total [OF this] obtain zk where "Check lib (aw_zk w) = Inr zk" "zk_watcher zk" by blast
  with CbZkCheck assms show ?thesis by (simp add: app_inv_def app_run_def)
qed (use assms in \<open>auto simp: app_inv_def app_run_def split: prod.split\<close>)

lemma app_inv_step:
  assumes "app_step lib rest (base, w) (base', w')" "app_inv h tms zk0 mq0 base w" "\<forall>(ms, cb, r) \<in> set tms. r"
  shows "app_inv h tms zk0 mq0 base' w'"
  using assms(1)
proof cases
  case (fires d b now)
  have "loop_ok h tms base" using assms(2) by (simp add: app_inv_def)
  from loop_ok_fire [OF this assms(3) fires(1,3)] show ?thesis
    using app_inv_run [OF assms(2)] by metis
next
  case (adds now ms u rep)
  with assms(2) loop_ok_user show ?thesis by (fastforce simp: app_inv_def)
next
  case (reports m)
  with assms(2) show ?thesis by (auto simp: app_inv_def intro: rtranclp.rtrancl_into_rtrancl)
qed

lemma app_inv_steps:
  "(app_step lib rest)\<^sup>*\<^sup>* (base, w) (base', w') \<Longrightarrow> app_inv h tms zk0 mq0 base w \<Longrightarrow> \<forall>(ms, cb, r) \<in> set tms. r \<Longrightarrow>
   app_inv h tms zk0 mq0 base' w'"
  by (induction rule: rtranclp_induct2) (blast intro: app_inv_step)+

text \<open>The state that \<open>Init\<close> leaves.\<close>

lemma loop_ok_adds:
  assumes "loop_ok h tms base" "EvAddTimers now new base = Inr base'" "\<forall>(ms, cb, r) \<in> set new. own_cb cb"
  shows "loop_ok h (new @ tms) base'"
proof -
  have ok: "ev_ok h base []" using assms(1) by (simp add: loop_ok_def)
  from ev_ok_adds [OF ok, of now new] assms(2) have "ev_ok h base' []" by auto
  moreover have "filter_mset own (timers_of new) = timers_of new"
    using assms(3) by (auto simp: filter_mset_eq_conv timers_of_def own_def timer_info_def)
  then have "own_timers base' = timers_of (new @ tms)"
    using assms(1) pend_infos_adds [OF ok assms(2)] by (simp add: own_timers_def loop_ok_def timers_of_def)
  ultimately show ?thesis by (simp add: loop_ok_def)
qed

lemma loop_ok_new: "loop_ok h [] (ev_base_new h)"
  using ev_ok_new [of h] by (simp add: loop_ok_def own_timers_def timers_of_def pend_infos_def ev_base_new_def)

definition init_timers :: "int \<Rightarrow> 'u app_cb new_timer list" where
  "init_timers ret = (if ret = 0 then zk_timers else []) @ first_timers"

lemma init_timers_own: "\<forall>(ms, cb, r) \<in> set (init_timers ret). own_cb cb \<and> r"
  by (auto simp: init_timers_def zk_timers_def first_timers_def)

lemma AppBase_Init_result:
  assumes "AppBase_Init FromToml lib junk h clk parsed svr_type ifs cwd = Inr (Some (ret, app))"
  shows "app_inv h (init_timers ret) (app_zk app) (mq_world_new (fst junk)) (evbase app) (app_world_of app r) \<and>
    (ret = 0 \<longleftrightarrow> zk_state (app_zk app) = kConnected) \<and> (ret = 0 \<or> ret = -1) \<and> (reports app \<longleftrightarrow> ret = 0 \<and> svr_type \<noteq> kDiscoverySvr) \<and>
    rbind parsed FromToml = Inr (conf_of app)"
proof -
  from assms obtain root conf logs sid base where conf: "parsed = Inr root" "FromToml root = Inr conf"
    and first: "EvAddTimers (fst clk) first_timers (ev_base_new h) = Inr base"
    and rest: "init_zk lib (snd clk) svr_type \<lparr>conf_of = conf, loggers = logs, app_id = sid, evbase = base,
      mq_net = mq_tick (mq_world_new (fst junk)), app_zk = zk_new (snd junk), reports = False\<rparr> = Inr (ret, app)"
    by (auto simp: AppBase_Init_def rbind_Inr_iff split: option.splits)
  then obtain ok z where z: "zk_Init lib (zk_new (snd junk)) = Inr (ok, z)" by (auto simp: init_zk_def rbind_Inr_iff)
  have st: "ok \<longleftrightarrow> zk_state z = kConnected" using z unfolding zk_Init_def by (rule init_rounds_result) simp
  have own: "\<forall>(ms, cb, r) \<in> set first_timers. own_cb cb" "\<forall>(ms, cb, r) \<in> set zk_timers. own_cb cb"
    by (auto simp: zk_timers_def first_timers_def)
  from loop_ok_adds [OF loop_ok_new first own(1)] have b: "loop_ok h first_timers base" by simp
  have mq: "mq_step\<^sup>*\<^sup>* (mq_world_new (fst junk)) (mq_tick (mq_world_new (fst junk)))" by (blast intro: mq_step.tick)
  show ?thesis
  proof (cases ok)
    case False
    with rest z st b mq conf show ?thesis
      by (auto simp: init_zk_def app_inv_def app_world_of_def init_timers_def first_timers_def)
  next
    case True
    with rest z obtain base2 where base2: "EvAddTimers (snd clk) zk_timers base = Inr base2" "ret = 0"
      "app = \<lparr>conf_of = conf, loggers = logs, app_id = sid, evbase = base2, mq_net = mq_tick (mq_world_new (fst junk)),
        app_zk = SetWatcherHandler z, reports = (svr_type \<noteq> kDiscoverySvr)\<rparr>"
      by (auto simp: init_zk_def rbind_Inr_iff)
    from loop_ok_adds [OF b base2(1) own(2)] have "loop_ok h (zk_timers @ first_timers) base2" .
    with True st mq conf base2 show ?thesis
      by (auto simp: app_inv_def app_world_of_def init_timers_def SetWatcherHandler_def zk_timers_def)
  qed
qed

text \<open>
  C9: what runs after \<open>Init\<close>.  Whatever the library reports, whatever the coroutines do and whatever timers the main function
  adds, in every later state: the repeating timers that \<open>Init\<close> registered are pending, each once with its period, so
  the loop always has an event to wait for; no callback has thrown; and the message queue is in a
  state that ticks and reports lead to.  \<open>Init\<close> returns 0 exactly when the ZooKeeper session was connected in
  the ten rounds it waits; when it returns -1, which the main functions do not look at, the
  server runs on without the timers of the session: the session stays as it is for ever, the server never
  reports itself.  A message of the main function is published exactly when the connection is up with its exchange
  declared and the channel usable, and the message has a destination.
\<close>

theorem app_runs:
  assumes "AppBase_Init FromToml lib junk h clk parsed svr_type ifs cwd = Inr (Some (ret, app))"
    and "(app_step lib rest)\<^sup>*\<^sup>* (evbase app, app_world_of app r) (base, w)"
  shows "own_timers base = timers_of (if ret = 0 then zk_timers @ first_timers else first_timers) \<and> pending base \<noteq> [] \<and>
    balanced (\<lambda>_. True) h (ev_heap base) (mset (map snd (pending base))) \<and> aw_fault w = None \<and>
    mq_step\<^sup>*\<^sup>* (mq_world_new (fst junk)) (aw_mq w) \<and> rbind parsed FromToml = Inr (conf_of app) \<and>
    (ret = 0 \<longleftrightarrow> zk_state (app_zk app) = kConnected) \<and>
    (ret = 0 \<longrightarrow> (reports app \<longleftrightarrow> svr_type \<noteq> kDiscoverySvr)) \<and>
    (ret \<noteq> 0 \<longrightarrow> ret = -1 \<and> aw_zk w = app_zk app \<and> \<not> reports app) \<and>
    (\<not> NotNeedReconnect (fst junk) \<longrightarrow> (AppBase_SendMsg usable app w svr_id cmd msg \<noteq> None \<longleftrightarrow>
       mq_up (aw_mq w) \<and> recv_declared (aw_mq w) \<and> usable \<and> svr_id \<noteq> []))"
proof -
  note init = AppBase_Init_result [OF assms(1), of r]
  have "\<forall>(ms, cb, r) \<in> set (init_timers ret :: 'd app_cb new_timer list). r" using init_timers_own by fast
  with app_inv_steps [OF assms(2)] init have inv: "app_inv h (init_timers ret) (app_zk app) (mq_world_new (fst junk)) base w" by blast
  then have ok: "ev_ok h base []" and own: "own_timers base = timers_of (init_timers ret)" by (simp_all add: app_inv_def loop_ok_def)
  have "size (timers_of (init_timers ret)) \<noteq> 0" by (simp add: timers_of_def init_timers_def first_timers_def)
  then have "own_timers base \<noteq> {#}" using own by auto
  then have "pending base \<noteq> []" by (auto simp: own_timers_def pend_infos_def)
  moreover have "ret \<noteq> 0 \<Longrightarrow> aw_zk w = app_zk app"
    using inv by (auto simp: app_inv_def init_timers_def first_timers_def)
  moreover have "AppBase_SendMsg usable app w svr_id cmd msg \<noteq> None \<longleftrightarrow>
      mq_up (aw_mq w) \<and> recv_declared (aw_mq w) \<and> usable \<and> svr_id \<noteq> []" if "\<not> NotNeedReconnect (fst junk)"
  proof -
    have "mq_ok (aw_mq w)" using inv mq_ok_steps mq_ok_new [OF that] by (auto simp: app_inv_def)
    from mq_SendMsg_iff [OF this] this show ?thesis
      by (auto simp: AppBase_SendMsg_def send_msg_def mq_ok_def simp flip: not_None_eq)
  qed
  ultimately show ?thesis
    using inv init ok own by (simp add: app_inv_def ev_ok_def Let_def init_timers_def) blast
qed

text \<open>A library whose session is connected at the second poll, and one that gives no session.\<close>

definition up_lib :: zk_lib where
  "up_lib = \<lparr>lib_init = (\<lambda>_. Some 1), lib_interest = (\<lambda>_ _. (3, True, False)), lib_select = (\<lambda>_ _ _. Some (True, False)),
     lib_process = (\<lambda>_ k _ _. if k = 1 then [SessionEvent ZOO_CONNECTED_STATE] else [])\<rparr>"

definition down_lib :: zk_lib where
  "down_lib = up_lib\<lparr>lib_init := (\<lambda>_. None)\<rparr>"

definition demo_init :: "zk_lib \<Rightarrow> fault + (int \<times> (server_conf, nat) app_base) option" where
  "demo_init lib = AppBase_Init server_FromToml lib (4, 0) \<lparr>next_block = 0, freed = []\<rparr> (0, 7) (Inr demo_config) ''server_a''
     (Some [''127.0.0.1'', ''10.0.0.7'']) ''/srv''"

lemma demo_config_read: "server_FromToml demo_config = Inr \<lparr>log = \<lparr>log_level = 2, log_remain_size = 1\<rparr>, zk_host = ''zk:2181'',
    router = ''hello'', mq_addr = ''amqp://mq''\<rparr>"
  by (simp add: server_FromToml_def demo_config_def get_base_def get_string_def get_int64_def as_table_def as_string_def as_int64_def
      arrow_def table_get_def Log_FromToml_def)

lemma demo_id: "self_id ''server_a'' (GetLocalIP (Some [''127.0.0.1'', ''10.0.0.7''])) ''/srv'' = Some ''server_a-10.0.0.7-|srv''"
  by code_simp

lemma demo_log: "\<exists>logs. InitLog \<lparr>log = \<lparr>log_level = 2, log_remain_size = 1\<rparr>, zk_host = z, router = r, mq_addr = m\<rparr> [] = Inr logs"
  by (simp add: InitLog_def InitAsync_def InitInner_def level_sinks_eq register_logger_def default_config_def int32_id)

lemma demo_zk: "\<exists>c. zk_Init up_lib (zk_new 0) = Inr (True, c)" "\<exists>c. zk_Init down_lib (zk_new 0) = Inr (False, c)"
  by (simp_all add: zk_Init_def zk_open_def zk_new_def up_lib_def down_lib_def EventLoopOnce_def poll_events_def eval_nat_numeral
      client_state_defs)

lemma demo_timers: "ev_ok h base [] \<Longrightarrow> \<exists>base'. EvAddTimers now tms base = Inr base' \<and> ev_ok h base' []"
  using ev_ok_adds [of h base "[]" now tms] by blast

lemma demo_up: "\<exists>app. demo_init up_lib = Inr (Some (0, app)) \<and> reports app"
  and demo_down: "\<exists>app. demo_init down_lib = Inr (Some (-1, app))"
proof -
  let ?h = "\<lparr>next_block = 0, freed = []\<rparr>"
  from demo_timers [OF ev_ok_new] obtain base where
    b: "EvAddTimers 0 first_timers (ev_base_new ?h) = Inr (base :: nat app_cb ev_base)" "ev_ok ?h base []" by blast
  from demo_timers [OF b(2)] obtain base2 where b2: "EvAddTimers 7 zk_timers base = Inr base2" by blast
  from demo_log obtain logs where logs: "InitLog \<lparr>log = \<lparr>log_level = 2, log_remain_size = 1\<rparr>, zk_host = ''zk:2181'',
    router = ''hello'', mq_addr = ''amqp://mq''\<rparr> [] = Inr logs" by blast
  note parts = demo_init_def AppBase_Init_def demo_config_read logs demo_id b b2 init_zk_def kDiscoverySvr_def
  from demo_zk(1) show "\<exists>app. demo_init up_lib = Inr (Some (0, app)) \<and> reports app" by (auto simp: parts)
  from demo_zk(2) show "\<exists>app. demo_init down_lib = Inr (Some (-1, app))" by (auto simp: parts)
qed

lemma app_runs_witness:
  "(\<exists>app. demo_init up_lib = Inr (Some (0, app)) \<and> own_timers (evbase app) = timers_of (zk_timers @ first_timers)) \<and>
   (\<exists>app base. demo_init down_lib = Inr (Some (-1, app)) \<and> EvAddTimer 9 (2000, CbUser 1, False) (evbase app) = Inr base \<and>
      own_timers base = timers_of first_timers)"
proof
  from demo_up obtain app where up: "demo_init up_lib = Inr (Some (0, app))" by blast
  from app_runs [OF up [unfolded demo_init_def] rtranclp.rtrancl_refl, of "()"] up
  show "\<exists>app. demo_init up_lib = Inr (Some (0, app)) \<and> own_timers (evbase app) = timers_of (zk_timers @ first_timers)" by auto
next
  from demo_down obtain app where down: "demo_init down_lib = Inr (Some (-1, app))" by blast
  obtain base where add: "EvAddTimer 9 (2000, CbUser 1, False) (evbase app) = Inr base"
    by (auto simp: EvAddTimer_def event_add_def alloc_all)
  have "(app_step down_lib (\<lambda>_ r. ([], r)))\<^sup>*\<^sup>* (evbase app, app_world_of app ()) (base, app_world_of app ())"
    by (rule r_into_rtranclp, rule app_step.adds, rule add)
  from app_runs [OF down [unfolded demo_init_def] this] down add
  show "\<exists>app base. demo_init down_lib = Inr (Some (-1, app)) \<and> EvAddTimer 9 (2000, CbUser 1, False) (evbase app) = Inr base \<and>
      own_timers base = timers_of first_timers" by auto
qed

end
