(* ===== verification/Test_Co.thy ===== *)
theory Test_Co
  imports Trans_Props
begin

text \<open>
  The test program \<open>src/test/test_co.cpp\<close>: three transactions that wait, two of which get an answer, and
  the loop that ticks until the third has timed out twice.
\<close>

datatype test_trans = TransA | TransB | TransC

text \<open>Where a transaction continues, with the id of its coroutine.\<close>

datatype test_point = AtStart | AfterFirst | AfterSecond

type_synonym test_ctx = "test_trans \<times> u32 \<times> test_point"

text \<open>The program's clock, in milliseconds, and the lines it has printed, each with the time it was printed at.\<close>

type_synonym test_app = "int \<times> (int \<times> string) list"

definition print_line :: "string \<Rightarrow> test_app \<Rightarrow> test_app" where
  "print_line l a = (fst a, snd a @ [(fst a, l)])"

definition yield_before :: "u32 \<Rightarrow> string" where
  "yield_before i = ''yield before '' @ dec_nat (unat i)"

definition yield_after :: "u32 \<Rightarrow> string" where
  "yield_after i = ''yield after '' @ dec_nat (unat i)"

definition TransA_DoTask :: "u32 \<Rightarrow> test_point \<Rightarrow> int \<Rightarrow> test_app \<Rightarrow> (test_ctx, test_app) outcome" where
  "TransA_DoTask i pt ret a =
    (case pt of
       AtStart \<Rightarrow> YieldFor 1000 (TransA, i, AfterFirst) (print_line (yield_before i) a)
     | AfterFirst \<Rightarrow> YieldFor 1000 (TransA, i, AfterSecond) (if ret \<noteq> 0 then print_line '' by time out 1 '' a else a)
     | AfterSecond \<Rightarrow>
         Finish (print_line (yield_after i) (if ret \<noteq> 0 then print_line '' by time out 2 '' a else a)))"

text \<open>\<open>TransB\<close> and \<open>TransC\<close> have the same body; the default time-out of \<open>Yield\<close> is 5 s.\<close>

definition TransBC_DoTask :: "test_trans \<Rightarrow> u32 \<Rightarrow> test_point \<Rightarrow> int \<Rightarrow> test_app \<Rightarrow> (test_ctx, test_app) outcome" where
  "TransBC_DoTask x i pt ret a =
    (if pt = AtStart then YieldFor 5000 (x, i, AfterFirst) (print_line (yield_before i) a)
     else Finish (print_line (yield_after i) (if ret \<noteq> 0 then print_line '' by time out'' a else a)))"

definition test_DoTask :: "test_ctx \<Rightarrow> int \<Rightarrow> trans_msg option \<Rightarrow> test_app \<Rightarrow> (test_ctx, test_app) outcome" where
  "test_DoTask k ret msg a =
    (case k of (x, i, pt) \<Rightarrow> if x = TransA then TransA_DoTask i pt ret a else TransBC_DoTask x i pt ret a)"

type_synonym test_state = "(test_trans, test_ctx, test_app) tm_state"

definition test_env :: "(test_trans, test_ctx, test_app) tm_env" where
  "test_env = tm_env (\<lambda>x i. (x, i, AtStart)) test_DoTask fst careful_malloc"

definition test_init :: test_state where
  "test_init = tm_init [1 \<mapsto> [TransA], 2 \<mapsto> [TransB], 3 \<mapsto> [TransC]] (0, [])"

definition MsgType :: "u32 \<Rightarrow> u32 \<Rightarrow> trans_msg" where
  "MsgType cmd co = \<lparr>m_cmd = cmd, m_co_id = co, m_data = []\<rparr>"

definition test_messages :: "(u32 \<times> u32) list" where
  "test_messages = [(1, 0), (2, 0), (3, 0), (2, 2), (3, 3)]"

definition test_sent :: test_state where
  "test_sent = fold (\<lambda>(c, i) st. snd (OnMsg test_env (MsgType c i) st)) test_messages test_init"

definition set_clock :: "int \<Rightarrow> test_state \<Rightarrow> test_state" where
  "set_clock t st = (fst st, (snd st)\<lparr>world := (world (snd st))\<lparr>app := (t, snd (app (world (snd st))))\<rparr>\<rparr>)"

definition test_tick :: "int \<Rightarrow> test_state \<Rightarrow> test_state" where
  "test_tick t st = TickTimeOutCo test_env t (set_clock t st)"

definition printed :: "test_state \<Rightarrow> (int \<times> string) list" where
  "printed st = snd (app (world (snd st)))"

text \<open>The loop, with a tick every 100 ms from the start.\<close>

definition test_loop :: "nat \<Rightarrow> test_state" where
  "test_loop n = fold (\<lambda>k. test_tick (100 * int k)) [0..<n] test_sent"

subsection \<open>Its output\<close>

lemmas test_run_defs =
  test_env_def tm_env_def MsgType_def test_DoTask_def TransA_DoTask_def TransBC_DoTask_def print_line_def
  OnMsg_def TickTimeOutCo_def TickTimeOut_def set_pool_def pool_of_def pool_empty_def pool_get_shared_def
  give_back_def pool_deleter_def AddTack_def NewCoroutine_def refill_def GetCoId_def new_object_def upd_obj_def
  ResumeOneWithMsg_def ResumeOne_def CoResume_def CancelCoTimer_def ResumeWithMsg_enter_def Resume_enter_def
  FindCoId_def switch_to_def CoIdExist_def GetMsg_def Yield_save_def Yield_return_def FreeCoroutine_def
  AddTimer_def CancelTimer_def DoTimeOutTask_def end_round_def node_less_def node_id_def node_task_def c_div_def
  careful_malloc_def node_addr_def yield_before_def yield_after_def addrs_in_use_def Let_def

lemma digit_names: "dec_nat (Suc 0) = ''1''" "dec_nat 2 = ''2''" "dec_nat 3 = ''3''"
  by code_simp+

lemmas test_init_defs = test_init_def tm_init_def co_init_def empty_timer_def empty_pool_def

text \<open>
  what the test program prints, with a tick every 100 ms: the three transactions start with the ids the
  program's comments name, the two that get their message finish at once, and the first is
  resumed one second and two seconds after its start, both times
  by its time-out.
\<close>

theorem test_program_output:
  "printed (test_loop 21) =
     [(0, ''yield before 1''), (0, ''yield before 2''), (0, ''yield before 3''), (0, ''yield after 2''),
      (0, ''yield after 3''), (1000, '' by time out 1 ''), (2000, '' by time out 2 ''), (2000, ''yield after 1'')]"
  by (simp add: test_loop_def test_sent_def test_messages_def upt_rec test_tick_def set_clock_def printed_def
      test_init_defs test_run_defs digit_names)

end
