(* ===== verification/Test_Timer.thy ===== *)
theory Test_Timer
  imports Timer
begin

text \<open>
  The test program \<open>src/test/test_timer.cpp\<close>: five timers, one second apart, the third cancelled at once, and a
  loop that handles what is due until no timer is left.
\<close>

text \<open>
  A task prints its number.  \<open>clocks\<close> holds what \<open>now_ms\<close> and the allocation of the \<open>TimeInfo\<close> give in each
  round of the first loop.
\<close>

type_synonym printed_seconds = "nat list"

definition print_task :: "nat \<Rightarrow> nat timer \<times> printed_seconds \<Rightarrow> nat timer \<times> printed_seconds" where
  "print_task i st = (fst st, snd st @ [i])"

definition add_one :: "(int \<times> nat) list \<Rightarrow> nat \<Rightarrow> nat timer \<Rightarrow> nat timer" where
  "add_one clocks i t =
    (case AddTimer (snd (clocks ! i)) (fst (clocks ! i)) (int i * 1000) i False t of (t1, tid) \<Rightarrow>
       if i = 2 then CancelTimer tid t1 else t1)"

definition start_timers :: "(int \<times> nat) list \<Rightarrow> nat timer" where
  "start_timers clocks = fold (add_one clocks) [0..<5] empty_timer"

text \<open>The second loop, with the readings of the clock it makes; None when they are used up before it ends.\<close>

fun timer_loop :: "int list \<Rightarrow> nat timer \<times> printed_seconds \<Rightarrow> (nat timer \<times> printed_seconds) option" where
  "timer_loop ts st =
    (if TimerSize (fst st) = 0 then Some st
     else case ts of [] \<Rightarrow> None | now # ts \<Rightarrow> timer_loop ts (DoTimeOutTask print_task now st))"

declare timer_loop.simps [simp del]

text \<open>What a reading of the clock does, without the timers' list: what is due goes away and prints unless it is the third.\<close>

definition due_nodes :: "int \<Rightarrow> nat tnode list \<Rightarrow> nat tnode list" where
  "due_nodes now ns = takeWhile (\<lambda>n. fst n < now + 1) ns"

lemma fire_all_print:
  "\<forall>n \<in> set ns. \<not> ti_repeat (snd (snd n)) \<Longrightarrow> distinct (map node_id ns) \<Longrightarrow>
   fire_all print_task now ns (t, out) =
     (t\<lparr>cancel_list := cancel_list t - set (map node_id ns)\<rparr>,
      out @ map node_task (filter (\<lambda>n. node_id n \<notin> cancel_list t) ns))"
proof (induction ns arbitrary: t out)
  case (Cons n ns)
  have fresh: "node_id m \<noteq> node_id n" if "m \<in> set ns" for m
    using Cons.prems(2) imageI [OF that, of node_id] by (metis distinct.simps(2) list.set_map list.simps(9))
  then have f: "filter (\<lambda>m. node_id m \<notin> cancel_list t - {node_id n}) ns = filter (\<lambda>m. node_id m \<notin> cancel_list t) ns"
    by (intro filter_cong) simp_all
  note IH = Cons.IH [OF _ distinct.simps(2) [THEN iffD1, OF Cons.prems(2) [unfolded list.map], THEN conjunct2]]
  have rep: "\<not> ti_repeat (snd (snd n))" "\<forall>n \<in> set ns. \<not> ti_repeat (snd (snd n))" using Cons.prems(1) by simp_all
  show ?case
  proof (cases "node_id n \<in> cancel_list t")
    case True
    have "cancel_list t - {node_id n} - X = cancel_list t - insert (node_id n) X" for X by blast
    with True f IH [OF rep(2)] show ?thesis by simp
  next
    case False
    then have "cancel_list t - insert (node_id n) X = cancel_list t - X" for X by blast
    with False rep IH [OF rep(2)] show ?thesis by (simp add: print_task_def)
  qed
qed simp

text \<open>After \<open>k\<close> of the nodes \<open>ns\<close>, the ids \<open>cs\<close> among them cancelled.\<close>

definition left_after :: "nat tnode list \<Rightarrow> timer_id set \<Rightarrow> nat \<Rightarrow> nat timer \<times> printed_seconds \<Rightarrow> bool" where
  "left_after ns cs k st \<longleftrightarrow> timer_set (fst st) = drop k ns \<and> cancel_list (fst st) = cs - set (map node_id (take k ns)) \<and>
     snd st = map node_task (filter (\<lambda>n. node_id n \<notin> cs) (take k ns))"

lemma left_after_round:
  assumes rep: "\<forall>n \<in> set ns. \<not> ti_repeat (snd (snd n))" and d: "distinct (map node_id ns)" and left: "left_after ns cs k st"
  shows "left_after ns cs (k + length (due_nodes now (drop k ns))) (DoTimeOutTask print_task now st)"
proof -
  let ?due = "due_nodes now (drop k ns)" and ?k = "k + length (due_nodes now (drop k ns))"
  have due: "?due = take (length ?due) (drop k ns)" unfolding due_nodes_def by (rule takeWhile_eq_take)
  have rest: "dropWhile (\<lambda>n. fst n < now + 1) (drop k ns) = drop ?k ns"
    unfolding due_nodes_def by (subst dropWhile_eq_drop) (simp add: add.commute)
  have take: "take ?k ns = take k ns @ ?due" unfolding take_add by (simp only: due [symmetric])
  obtain t out where st: "st = (t, out)" by (cases st)
  show ?thesis
  proof (cases "?due = []")
    case True
    with left st show ?thesis by (simp add: left_after_def DoTimeOutTask_def due_nodes_def)
  next
    case False
    have sub: "set ?due \<subseteq> set ns" using due by (metis order_trans set_drop_subset set_take_subset)
    have "distinct (map node_id (take ?k ns))" using d by (metis distinct_take take_map)
    then have dd: "distinct (map node_id ?due)" "\<forall>n \<in> set ?due. node_id n \<notin> node_id ` set (take k ns)"
      unfolding take by auto
    then have f: "filter (\<lambda>n. node_id n \<notin> cs - node_id ` set (take k ns)) ?due = filter (\<lambda>n. node_id n \<notin> cs) ?due"
      by (intro filter_cong) auto
    from rep sub have "\<forall>n \<in> set ?due. \<not> ti_repeat (snd (snd n))" by blast
    from fire_all_print [OF this dd(1)] left st False rest take f show ?thesis
      by (auto simp: left_after_def DoTimeOutTask_def due_nodes_def Let_def end_round_def)
  qed
qed

lemma timer_loop_ends:
  assumes rep: "\<forall>n \<in> set ns. \<not> ti_repeat (snd (snd n))" and d: "distinct (map node_id ns)"
    and late: "\<exists>now \<in> set ts. \<forall>n \<in> set ns. fst n \<le> now"
  shows "left_after ns cs k st \<Longrightarrow> \<exists>st'. timer_loop ts st = Some st' \<and> left_after ns cs (length ns) st'"
  using late
proof (induction ts arbitrary: k st)
  case (Cons now ts)
  show ?case
  proof (cases "timer_set (fst st) = []")
    case True
    with Cons.prems(1) have "left_after ns cs (length ns) st" by (simp add: left_after_def)
    with True show ?thesis by (simp add: timer_loop.simps TimerSize_def)
  next
    case False
    let ?st = "DoTimeOutTask print_task now st"
    note round = left_after_round [OF rep d Cons.prems(1), of now]
    have step: "timer_loop (now # ts) st = timer_loop ts ?st"
      using False by (subst timer_loop.simps) (simp add: TimerSize_def)
    show ?thesis
    proof (cases "\<forall>n \<in> set ns. fst n \<le> now")
      case True
      then have "due_nodes now (drop k ns) = drop k ns"
        unfolding due_nodes_def takeWhile_eq_all_conv by (auto dest!: in_set_dropD)
      with round have l: "left_after ns cs (k + length (drop k ns)) ?st" by simp
      then have "left_after ns cs (length ns) ?st" by (cases "k \<le> length ns") (simp_all add: left_after_def)
      moreover from this have "timer_set (fst ?st) = []" by (simp add: left_after_def)
      then have "timer_loop ts ?st = Some ?st" by (subst timer_loop.simps) (simp add: TimerSize_def)
      ultimately show ?thesis by (simp add: step)
    next
      case False
      with Cons.prems(2) have "\<exists>now \<in> set ts. \<forall>n \<in> set ns. fst n \<le> now" by auto
      from Cons.IH [OF round this] show ?thesis by (simp add: step)
    qed
  qed
qed simp

subsection \<open>The program\<close>

definition test_node :: "(int \<times> nat) list \<Rightarrow> nat \<Rightarrow> nat tnode" where
  "test_node clocks i = (fst (clocks ! i) + int i * 1000, snd (clocks ! i),
     \<lparr>ti_task = i, ti_interval = i * 1000, ti_seq = nat (c_div (fst (clocks ! i)) 1000 mod 2 ^ 32), ti_repeat = False\<rparr>)"

lemma start_timers_set:
  assumes "length clocks = 5" "sorted (map fst clocks)"
  shows "timer_set (start_timers clocks) = map (test_node clocks) [0..<5] \<and>
    cancel_list (start_timers clocks) = {node_id (test_node clocks 2)}"
proof -
  from assms(1) obtain c0 c1 c2 c3 c4 where "clocks = [c0, c1, c2, c3, c4]"
    by (auto simp: eval_nat_numeral length_Suc_conv)
  with assms(2) show ?thesis
    by (auto simp: start_timers_def add_one_def AddTimer_def CancelTimer_def empty_timer_def test_node_def node_less_def
        upt_rec node_id_def Let_def)
qed

text \<open>
  C33: the test program ends and prints what it should.  Whatever the clock reads while the timers are made, as long as it does
  not go back, wherever their blocks are, and at whatever moments the loop looks at the clock, if it looks once when
  the last timer is due: the loop ends with no timer and no cancelled id left, and
  every task but the cancelled one has run once, in order.
\<close>

theorem test_timer_output:
  assumes "length clocks = 5" "sorted (map fst clocks)" "distinct (map snd clocks)"
    and "\<exists>now \<in> set ts. fst (clocks ! 4) + 4000 \<le> now"
  shows "\<exists>t. timer_loop ts (start_timers clocks, []) = Some (t, [0, 1, 3, 4]) \<and> timer_set t = [] \<and> cancel_list t = {}"
proof -
  let ?ns = "map (test_node clocks) [0..<5]" and ?cs = "{node_id (test_node clocks 2)}"
  have five: "[0..<5] = [0, 1, 2, 3, 4]" by (simp add: upt_rec)
  from assms(1) obtain c0 c1 c2 c3 c4 where c: "clocks = [c0, c1, c2, c3, c4]"
    by (auto simp: eval_nat_numeral length_Suc_conv)
  have rep: "\<forall>n \<in> set ?ns. \<not> ti_repeat (snd (snd n))" by (simp add: test_node_def)
  have ids: "fst (node_id (test_node clocks i)) = snd (clocks ! i)" for i by (simp add: node_id_def test_node_def)
  have "map fst (map node_id ?ns) = map snd clocks" by (simp add: five ids) (simp add: c)
  then have d: "distinct (map node_id ?ns)" using assms(3) by (metis distinct_map)
  have "fst n \<le> fst (clocks ! 4) + 4000" if "n \<in> set ?ns" for n
    using that assms(2) by (auto simp: five test_node_def c)
  with assms(4) have late: "\<exists>now \<in> set ts. \<forall>n \<in> set ?ns. fst n \<le> now" by (meson order_trans)
  have "left_after ?ns ?cs 0 (start_timers clocks, [])"
    using start_timers_set [OF assms(1,2)] by (simp add: left_after_def)
  from timer_loop_ends [OF rep d late this] obtain st' where
    st': "timer_loop ts (start_timers clocks, []) = Some st'" "left_after ?ns ?cs (length ?ns) st'" by blast
  have ne: "node_id (test_node clocks 0) \<noteq> node_id (test_node clocks 2)"
    "node_id (test_node clocks (Suc 0)) \<noteq> node_id (test_node clocks 2)"
    "node_id (test_node clocks 3) \<noteq> node_id (test_node clocks 2)" "node_id (test_node clocks 4) \<noteq> node_id (test_node clocks 2)"
    using d by (auto simp: five)
  have t: "node_task (test_node clocks i) = i" for i by (simp add: node_task_def test_node_def)
  from st'(2) have "timer_set (fst st') = []" "cancel_list (fst st') = {}" "snd st' = [0, 1, 3, 4]"
    by (auto simp: left_after_def five ne t)
  with st'(1) show ?thesis by (metis prod.collapse)
qed

lemma test_timer_output_witness:
  "\<exists>t. timer_loop [0, 999, 1500, 3010, 3990, 4010] (start_timers [(0, 7), (0, 3), (1, 8), (1, 2), (2, 5)], []) = Some (t, [0, 1, 3, 4])"
  using test_timer_output [of "[(0, 7), (0, 3), (1, 8), (1, 2), (2, 5)]" "[0, 999, 1500, 3010, 3990, 4010]"] by auto

end
