(* ===== verification/Spec2Isabelle.thy ===== *)
theory Spec2Isabelle
  imports Redis_Props Reply_Props Reply_Types Trans_Props Rpc_Props Discovery Consistent_Hash Sds_Props Sds_Heap Hello
    App_Base Test_Co Test_Timer
begin

text \<open>
  A verification library of qserver, a framework for game servers in C++: coroutines on one thread,
  messages between servers over RabbitMQ, discovery over ZooKeeper, and a redis client whose requests
  go to redis directly or through a redis server of the framework.

  \<^bold>\<open>The program.\<close>  A server (\<open>src/app/common/app_base.h\<close>) runs an event loop.  A message that arrives
  goes to the transaction manager (\<open>src/commlib/trans\<close>): it resumes the coroutine the message is for,
  or takes a transaction object from the pool of its command and runs it in a new coroutine.  A
  coroutine that needs an answer sends a request and yields (\<open>src/commlib/co\<close>); the answer, a
  time-out, or another coroutine resumes it.  Time-outs are timers (\<open>src/commlib/timer.h\<close>) that a tick
  of the event loop fires.  The addresses of the other servers come from the list of servers that
  ZooKeeper keeps.  The redis client (\<open>src/commlib/redis\<close>) formats a command, hands it to an actuator,
  and parses the reply; the actuator of \<open>src/app/common/redis_actuator.cpp\<close> sends it as a message to
  the redis server (\<open>src/app/redissvr\<close>), which runs it on its asynchronous connection and sends the
  reply back as a message.

  \<^bold>\<open>The theories.\<close>
  \<^item> \<open>Prelude\<close>: byte strings, C integers, decimal numbers, computations that fail (\<open>rbind\<close>), and the
    simplification collections.  \<open>Errors\<close>: the exceptions of \<open>errors.h\<close> and the faults of a call
    (exception, failed assertion, undefined behaviour).
  \<^item> \<open>Connection\<close>: the formatter of \<open>connection.cpp\<close> (\<open>redisvFormatCommand\<close>, its sizes and its
    allocations) and the connection that hands requests to an actuator.  \<open>Resp\<close>: the protocol as its
    reader sees it, the specification of what a request says; its locale \<open>prefix_codec\<close> is the
    contract of a writer and a reader.
  \<^item> \<open>Cmd_Args\<close>, \<open>Cmd_Options\<close>: \<open>command_args.h\<close> (locale \<open>arg_builder\<close>) and the options of
    \<open>command_options.h\<close>.  \<open>Cmd_Wire\<close>, \<open>Cmd_Key\<close>, \<open>Cmd_String\<close>, \<open>Cmd_List\<close>, \<open>Cmd_Hash\<close>, \<open>Cmd_Set\<close>,
    \<open>Cmd_Zset\<close>, \<open>Cmd_Misc\<close>, \<open>Cmd_Stream\<close>: every command function of \<open>command.h\<close> and \<open>command.cpp\<close>, one
    definition each, with the words it sends.
  \<^item> \<open>Reply\<close>, \<open>Reply_Facts\<close>, \<open>Reply_Types\<close>: reply objects and the parsers of \<open>reply.h\<close> and
    \<open>reply.cpp\<close>; round trips, failures, and type soundness.
  \<^item> \<open>Api_Core\<close>, \<open>Api_Basic\<close>, \<open>Api_Inline\<close>, \<open>Api_Range\<close>: the methods of class \<open>Redis\<close> (\<open>redis.cpp\<close>,
    \<open>redis.h\<close>, \<open>redis.hpp\<close>): a command function and the parser of its reply.
  \<^item> \<open>Redis_Props\<close>, \<open>Reply_Props\<close>: the properties of the above.
  \<^item> \<open>Sds\<close>, \<open>Sds_Edit\<close>, \<open>Sds_Format\<close>, \<open>Sds_Split\<close>, \<open>Sds_Args\<close>, \<open>Sds_Props\<close>: the dynamic strings of
    \<open>sds.h\<close> and \<open>sds.cpp\<close>, with their headers at their widths; accesses beyond an allocation or an
    argument's array are faults.
  \<^item> \<open>C_Heap\<close>, \<open>Sds_Heap\<close>: blocks of the heap and who owns them, and the functions of \<open>sds.cpp\<close> that
    return arrays of strings, with every allocation that can fail and every block they free.
  \<^item> \<open>Timer\<close>, \<open>Coroutine\<close> (locale \<open>id_pool\<close>), \<open>Co_Task\<close>, \<open>Co_Props\<close>: \<open>timer.h\<close>, \<open>coroutine.cpp\<close>,
    \<open>co_task.h\<close>, and what a tick does to the coroutines that wait.
  \<^item> \<open>Object_Pool\<close> (locale \<open>object_store\<close>), \<open>Co_Invariant\<close> (locale \<open>co_invariant\<close>: what a predicate on the
    coroutines needs to hold after every operation of the scheduler), \<open>Trans_Mgr\<close>, \<open>Trans_Props\<close>:
    \<open>object_pool.h\<close> and the transaction manager.  \<open>Test_Co\<close>, \<open>Test_Timer\<close>: the test programs of both.
  \<^item> \<open>Svr_List\<close> (locale \<open>server_directory\<close>), \<open>Convert\<close>, \<open>Rpc\<close>, \<open>Rpc_Facts\<close>, \<open>Rpc_Codec\<close>, \<open>Rpc_Props\<close>:
    the list of servers, replies as protobuf messages and back with the blocks they are made of,
    messages between servers, and a redis call through the redis server (\<open>redissvr_exch\<close> puts the two
    sides together; whether the messages arrive is an argument).
  \<^item> \<open>Server\<close> (locale \<open>server_code\<close>: the code of a server's transactions), \<open>Cluster\<close>, \<open>Hello\<close>: the calls of a
    transaction and the handler of messages, several servers with a network that delivers, repeats or
    loses messages, and the servers of \<open>src/app/test\<close> on it.
  \<^item> \<open>Client_State\<close>, \<open>Mq_Net\<close>, \<open>Zookeeper\<close>, \<open>Discovery\<close>: the connections to redis, RabbitMQ and ZooKeeper and how
    they are opened again, the ZooKeeper commands, the ids of servers and how servers are found.
  \<^item> \<open>Config\<close>: the \<open>FromToml\<close> functions of the configuration structs.  \<open>Logging\<close>: \<open>logging.cpp\<close>, the loggers and
    their files.  \<open>Event_Loop\<close>: the timers of \<open>event_help.h\<close> with their blocks, the idle counter of
    \<open>app.h\<close>.  \<open>App_Base\<close>: \<open>AppBase::Init\<close> over all of these, and the loop that \<open>Run\<close> enters.
  \<^item> \<open>Consistent_Hash\<close>: \<open>consistent_hash.hpp\<close>.

  \<^bold>\<open>How code becomes definitions.\<close>  A class is a record or a value, a method a function from the state to
  the new state; a throw, a failed \<open>assert\<close> and undefined behaviour are values of a sum type, so every
  early return of the code is a branch.  Integers are words, or numbers with the conversion written
  out (\<open>int32\<close>, \<open>size_t_of\<close>).  Templates that are overloaded on a type are functions of a datatype of
  types (\<open>rty\<close>) or of values (\<open>varg\<close>).  Code that is not part of the repository is an argument: the
  floating-point conversions, \<open>vsnprintf\<close>, \<open>std::hash\<close>, \<open>rand\<close>, the allocator, hiredis, the protobuf
  codec, the ZooKeeper library and service, the context switch of the coroutines, the clock.

  \<^bold>\<open>What the groups of lemmas show.\<close>
  \<^item> Requests: called with the arguments its format asks for (\<open>well_called\<close>), the formatter stays within
    its buffer and gives the request, or -1 when an allocation fails, as long as the request is shorter than
    2147483647 bytes (\<open>format_command_result\<close>); commands send exactly the words of the protocol (\<open>*_wire\<close>,
    \<open>format_words_sent\<close>); the prefix-free encoding is read back.
  \<^item> Replies: round trip, type soundness, and the only exceptions there are.
  \<^item> Strings: refinement of any sequence of operations, with arguments as documented (\<open>op_fits\<close>), by list
    operations, the buffer bound of
    numbers, termination of the formatting loop, splitting against joining, quoting against
    reading, and the ownership of every block when allocations fail.
  \<^item> Coroutines: invariants of timer, pool and tasks over all runs of a program, as long as \<open>ResumeAll\<close> is not
    called; exactly the coroutines are resumed by a tick whose timer is due and not cancelled, so none
    early (\<open>tick_resumes_due\<close>), and one whose timer got an id that was cancelled before is not resumed at all
    (\<open>stale_cancel_loses_wake_up\<close>).  Transactions: every object is in the pool or lent, every message is answered or handled.
    The test programs print what they should, when they should.
  \<^item> Calls between servers: routing of replies, memory safety of the conversion, and the refinement
    of a direct redis call by one through the redis server, with the replies for which it fails.
    In every execution of a cluster a reply answers a request of the coroutine it goes to
    (\<open>replies_answer_requests\<close>), and a remote call runs through two servers (\<open>hello_exchange\<close>).
  \<^item> Connections: invariants of the state machines, when a connection is found again and when it is
    not, and when a message is published.  Discovery: from the id a server gives itself to the choice
    of a server of a type.
  \<^item> The frame of a server: the configuration is read as what the file says, a message is logged to exactly
    the files of its levels, timers are never lost and no block of one is used after it is freed,
    and the timers of \<open>Init\<close> stay for the life of the server (\<open>app_runs\<close>).
  \<^item> The ring: changes move no keys but those of the points concerned, and where no two nodes share a
    point it depends only on its nodes.

  \<^bold>\<open>Bounds.\<close>  The hypotheses on lengths are the ranges in which the C arithmetic does not wrap: below \<open>2 ^ 31\<close>
  for what is kept in an \<open>int\<close> (lengths of strings that are edited, and what is read into one at once with
  \<open>sdsIncrLen\<close>), below \<open>2 ^ 31 - 1\<close> for a request, whose buffer has one byte more, and below \<open>2 ^ 60\<close> for
  what is appended to a string, whose size is a \<open>size_t\<close>.  The slots of \<open>sdssplitlen\<close>, an \<open>int\<close> too, are
  numbers: they are exact for fewer than 5 * 2 ^ 28 tokens.  Loops that follow their
  data are recursive functions with a termination proof; \<open>printf_loop\<close> is a partial function and
  shown to end; the run of a coroutine takes fuel, and the lemmas hold for every amount.  \<open>Init\<close> of
  the ZooKeeper client has the ten rounds of the code.

  \<^bold>\<open>Not modelled.\<close>  The main functions, which only call the components above; \<open>singleton.h\<close>, \<open>optional.h\<close>,
  \<open>assert.hpp\<close>, \<open>type_help.hpp\<close> and \<open>time_mgr.h\<close> (their content is part of the models that use them);
  the allocator wrappers and the self test of \<open>sds.cpp\<close>; the test programs that call a third party and print, and
  those the build leaves out; the encoding of protobuf messages, whose \<open>.proto\<close> files are input of a
  generator; deployment files; and everything under \<open>src/third\<close> but the accessors of \<open>cpptoml.h\<close> and the registry of
  spdlog that the code rests on.  Within \<open>AppBase\<close> the destructor and the end of \<open>Run\<close>
  are left out: the loop has an event to wait for in every state (\<open>app_runs\<close>).
\<close>

end
